(* ===== verification/Prelude.thy ===== *)
theory Prelude
  imports Main "HOL-Library.Sublist" "HOL-Library.Code_Target_Nat"
begin

text \<open>
  Shared vocabulary of the development.

  \<^item> A JavaScript function that may \<^verbatim>\<open>throw new Error(message)\<close> is a value of type \<open>'a res\<close>:
    \<open>Inl message\<close> for the thrown error and \<open>Inr x\<close> for the returned value.  A body that is a
    sequence of guards is the list of its guards in source order under \<open>checks\<close>: the first guard
    that fails decides the message, as the first \<^verbatim>\<open>throw\<close> does.
  \<^item> An \<^verbatim>\<open>async\<close> function that reads and writes state is a value of type \<open>('s, 'a) io\<close>, a
    state transformer with the same error channel.  Every \<open>io\<close> value is a total function, so a
    statement about all results \<open>m s = (r, s')\<close> speaks about every run; \<open>keeps P m\<close> says that the
    run keeps an invariant on both channels.
\<close>

named_theorems res_simps \<open>when a fallible computation returns\<close>
named_theorems io_simps \<open>unfolding of the state-and-error combinators\<close>

section \<open>Fallible computations\<close>

type_synonym err = string
type_synonym 'a res = "err + 'a"

definition require :: "bool \<Rightarrow> err \<Rightarrow> unit res" where
  "require b m = (if b then Inr () else Inl m)"

primrec bindR :: "'a res \<Rightarrow> ('a \<Rightarrow> 'b res) \<Rightarrow> 'b res" where
  "bindR (Inl e) f = Inl e"
| "bindR (Inr x) f = f x"

fun checks :: "unit res list \<Rightarrow> unit res" where
  "checks [] = Inr ()"
| "checks (c # cs) = (case c of Inl e \<Rightarrow> Inl e | Inr _ \<Rightarrow> checks cs)"

fun checkEach :: "(nat \<Rightarrow> 'a \<Rightarrow> unit res) \<Rightarrow> nat \<Rightarrow> 'a list \<Rightarrow> unit res" where
  "checkEach f i [] = Inr ()"
| "checkEach f i (x # xs) = (case f i x of Inl e \<Rightarrow> Inl e | Inr _ \<Rightarrow> checkEach f (Suc i) xs)"

fun mapR :: "(nat \<Rightarrow> 'a \<Rightarrow> 'b res) \<Rightarrow> nat \<Rightarrow> 'a list \<Rightarrow> 'b list res" where
  "mapR f i [] = Inr []"
| "mapR f i (x # xs) =
     (case f i x of Inl e \<Rightarrow> Inl e
      | Inr y \<Rightarrow> (case mapR f (Suc i) xs of Inl e \<Rightarrow> Inl e | Inr ys \<Rightarrow> Inr (y # ys)))"

definition succeeds :: "'a res \<Rightarrow> bool" where
  "succeeds r = (case r of Inl _ \<Rightarrow> False | Inr _ \<Rightarrow> True)"

lemma succeeds_simps [simp]: "succeeds (Inr x)" "\<not> succeeds (Inl e)"
  by (simp_all add: succeeds_def)

lemma succeeds_unit: "succeeds (r :: unit res) \<longleftrightarrow> r = Inr ()"
  by (cases r) auto

text \<open>Evaluation: messages and later steps are evaluated only when they are reached.\<close>

lemma require_lazy [code_unfold]: "require b m = (if b then Inr () else Inl m)"
  by (simp add: require_def)

lemma bindR_lazy [code_unfold]: "bindR m f = (case m of Inl e \<Rightarrow> Inl e | Inr x \<Rightarrow> f x)"
  by (cases m) simp_all

lemma require_Inr [res_simps]: "require b m = Inr () \<longleftrightarrow> b"
  by (simp add: require_def)

lemma bindR_Inr [res_simps]: "bindR m f = Inr y \<longleftrightarrow> (\<exists>x. m = Inr x \<and> f x = Inr y)"
  by (cases m) auto

lemma bindR_unit: "bindR (m :: unit res) f = Inr y \<longleftrightarrow> m = Inr () \<and> f () = Inr y"
  by (cases m) auto

text \<open>Evaluation of a chain of fallible steps, one step at a time.\<close>

lemma bindR_step: "m = Inr x \<Longrightarrow> f x = Inr y \<Longrightarrow> bindR m f = Inr y"
  by simp

lemma bindR_check: "m = Inr () \<Longrightarrow> f () = Inr y \<Longrightarrow> bindR m f = Inr y"
  by simp

lemma bindR_Inl: "bindR m f = Inl e \<longleftrightarrow> m = Inl e \<or> (\<exists>x. m = Inr x \<and> f x = Inl e)"
  by (cases m) auto

lemma checks_Nil [res_simps]: "checks [] = Inr () \<longleftrightarrow> True"
  by simp

lemma checks_Cons [res_simps]: "checks (c # cs) = Inr () \<longleftrightarrow> c = Inr () \<and> checks cs = Inr ()"
  by (cases c) auto

lemma checks_all: "checks cs = Inr () \<longleftrightarrow> (\<forall>c \<in> set cs. c = Inr ())"
  by (induction cs) (auto split: sum.splits)

declare checks.simps [simp del]

lemma checks_append [res_simps]:
  "checks (cs @ ds) = Inr () \<longleftrightarrow> checks cs = Inr () \<and> checks ds = Inr ()"
  by (auto simp: checks_all)

lemma checkEach_nth:
  "checkEach f i xs = Inr () \<longleftrightarrow> (\<forall>k < length xs. f (i + k) (xs ! k) = Inr ())"
proof (induction xs arbitrary: i)
  case Nil
  then show ?case by simp
next
  case (Cons x xs)
  have "checkEach f i (x # xs) = Inr () \<longleftrightarrow> f i x = Inr () \<and> checkEach f (Suc i) xs = Inr ()"
    by (auto split: sum.splits)
  also have "\<dots> \<longleftrightarrow> (\<forall>k < length (x # xs). f (i + k) ((x # xs) ! k) = Inr ())"
    by (auto simp: Cons.IH nth_Cons less_Suc_eq_0_disj split: nat.splits)
  finally show ?case .
qed

lemma checkEach_ball:
  assumes "\<And>i x. f i x = Inr () \<longleftrightarrow> P x"
  shows "checkEach f i xs = Inr () \<longleftrightarrow> (\<forall>x \<in> set xs. P x)"
  by (simp add: checkEach_nth assms all_set_conv_all_nth)

lemma mapR_length: "mapR f i xs = Inr ys \<Longrightarrow> length ys = length xs"
  by (induction xs arbitrary: i ys) (auto split: sum.splits)

lemma mapR_nth:
  assumes "mapR f i xs = Inr ys" and "k < length xs"
  shows "f (i + k) (xs ! k) = Inr (ys ! k)"
  using assms
proof (induction xs arbitrary: i k ys)
  case Nil
  then show ?case by simp
next
  case (Cons x xs)
  then show ?case
    by (cases k) (fastforce split: sum.splits)+
qed

text \<open>
  A gate: a validator that hands its argument on unchanged when it accepts it.  Most validators of
  the sources end with \<^verbatim>\<open>return value\<close> after their guards, and their callers rely on exactly this
  contract.
\<close>

locale gate =
  fixes validate :: "'a \<Rightarrow> 'a res" and accepts :: "'a \<Rightarrow> bool"
  assumes returns: "validate v = Inr v' \<longleftrightarrow> v' = v \<and> accepts v"
begin

lemma rejects: "(\<exists>e. validate v = Inl e) \<longleftrightarrow> \<not> accepts v"
  using returns [of v] by (cases "validate v") auto

lemma accepted: "validate v = Inr v' \<Longrightarrow> accepts v' \<and> v' = v"
  using returns by simp

lemma stable: "validate v = Inr v' \<Longrightarrow> validate v' = Inr v'"
  using returns by simp

lemma bind_gate: "bindR (validate v) f = Inr y \<longleftrightarrow> accepts v \<and> f v = Inr y"
  using returns [of v] by (auto simp: bindR_Inr)

end

section \<open>State with errors\<close>

type_synonym ('s, 'a) io = "'s \<Rightarrow> 'a res \<times> 's"

definition ret :: "'a \<Rightarrow> ('s, 'a) io" where
  "ret x s = (Inr x, s)"

definition throwE :: "err \<Rightarrow> ('s, 'a) io" where
  "throwE e s = (Inl e, s)"

definition bindE :: "('s, 'a) io \<Rightarrow> ('a \<Rightarrow> ('s, 'b) io) \<Rightarrow> ('s, 'b) io" where
  "bindE m f s = (case m s of (Inl e, s') \<Rightarrow> (Inl e, s') | (Inr x, s') \<Rightarrow> f x s')"

definition catchE :: "('s, 'a) io \<Rightarrow> (err \<Rightarrow> ('s, 'a) io) \<Rightarrow> ('s, 'a) io" where
  "catchE m h s = (case m s of (Inl e, s') \<Rightarrow> h e s' | (Inr x, s') \<Rightarrow> (Inr x, s'))"

definition liftR :: "'a res \<Rightarrow> ('s, 'a) io" where
  "liftR r s = (r, s)"

definition getS :: "('s \<Rightarrow> 'a) \<Rightarrow> ('s, 'a) io" where
  "getS f s = (Inr (f s), s)"

definition modS :: "('s \<Rightarrow> 's) \<Rightarrow> ('s, unit) io" where
  "modS f s = (Inr (), f s)"

definition thenE :: "('s, 'a) io \<Rightarrow> ('s, 'b) io \<Rightarrow> ('s, 'b) io" where
  "thenE m k = bindE m (\<lambda>_. k)"

lemmas io_defs [io_simps] =
  ret_def throwE_def bindE_def catchE_def liftR_def getS_def modS_def thenE_def

lemma io_lazy [code_unfold]:
  "bindE m f = (\<lambda>s. case m s of (r, s') \<Rightarrow> (case r of Inl e \<Rightarrow> (Inl e, s') | Inr x \<Rightarrow> f x s'))"
  "thenE m k = (\<lambda>s. case m s of (r, s') \<Rightarrow> (case r of Inl e \<Rightarrow> (Inl e, s') | Inr x \<Rightarrow> k s'))"
  "catchE m h = (\<lambda>s. case m s of (r, s') \<Rightarrow> (case r of Inl e \<Rightarrow> h e s' | Inr x \<Rightarrow> (Inr x, s')))"
  by (auto simp: fun_eq_iff bindE_def thenE_def catchE_def split: prod.split sum.split)

text \<open>Runs of the combinators: what is known when a computation ends in a given result and state.\<close>

lemma run_simps [simp]:
  "ret x s = (r, s') \<longleftrightarrow> r = Inr x \<and> s' = s"
  "throwE e s = (r', s') \<longleftrightarrow> r' = Inl e \<and> s' = s"
  "liftR q s = (q', s') \<longleftrightarrow> q = q' \<and> s' = s"
  "getS g s = (h, s') \<longleftrightarrow> h = Inr (g s) \<and> s' = s"
  "modS f s = (u, s') \<longleftrightarrow> u = Inr () \<and> s' = f s"
  by (auto simp: io_defs)

lemma bindE_elim:
  assumes "bindE m f s = (r, s'')"
  obtains (throw) e where "m s = (Inl e, s'')" and "r = Inl e"
  | (continue) x s' where "m s = (Inr x, s')" and "f x s' = (r, s'')"
  using assms by (auto simp: bindE_def split: prod.splits sum.splits)

lemma thenE_elim:
  assumes "thenE m k s = (r, s'')"
  obtains (throw) e where "m s = (Inl e, s'')" and "r = Inl e"
  | (continue) x s' where "m s = (Inr x, s')" and "k s' = (r, s'')"
  using assms unfolding thenE_def by (elim bindE_elim) blast+

lemma catchE_elim:
  assumes "catchE m h s = (r, s'')"
  obtains (return) x where "m s = (Inr x, s'')" and "r = Inr x"
  | (handle) e s' where "m s = (Inl e, s')" and "h e s' = (r, s'')"
  using assms by (auto simp: catchE_def split: prod.splits sum.splits)

lemmas run_elims = bindE_elim thenE_elim catchE_elim

lemma run_Inr:
  "bindE m f s = (Inr y, s'') \<longleftrightarrow> (\<exists>x s'. m s = (Inr x, s') \<and> f x s' = (Inr y, s''))"
  "thenE m k s = (Inr y, s'') \<longleftrightarrow> (\<exists>x s'. m s = (Inr x, s') \<and> k s' = (Inr y, s''))"
  "catchE n h s = (Inr z, s'') \<longleftrightarrow> n s = (Inr z, s'') \<or> (\<exists>e s'. n s = (Inl e, s') \<and> h e s' = (Inr z, s''))"
  by (auto simp: bindE_def thenE_def catchE_def split: prod.splits sum.splits)

text \<open>An invariant that a computation keeps, whether it returns or throws.\<close>

named_theorems keeps_rules \<open>computations that keep an invariant\<close>

definition keeps :: "('s \<Rightarrow> bool) \<Rightarrow> ('s, 'a) io \<Rightarrow> bool" where
  "keeps P m \<longleftrightarrow> (\<forall>s x s'. P s \<longrightarrow> m s = (x, s') \<longrightarrow> P s')"

lemma keepsI: "(\<And>s x s'. P s \<Longrightarrow> m s = (x, s') \<Longrightarrow> P s') \<Longrightarrow> keeps P m"
  unfolding keeps_def by blast

lemma keepsD: "keeps P m \<Longrightarrow> m s = (x, s') \<Longrightarrow> P s \<Longrightarrow> P s'"
  unfolding keeps_def by blast

lemma keeps_bindE [keeps_rules]: "keeps P m \<Longrightarrow> (\<And>x. keeps P (f x)) \<Longrightarrow> keeps P (bindE m f)"
  unfolding keeps_def by (blast elim: bindE_elim)

lemma keeps_thenE [keeps_rules]: "keeps P m \<Longrightarrow> keeps P k \<Longrightarrow> keeps P (thenE m k)"
  unfolding keeps_def by (blast elim: thenE_elim)

lemma keeps_catchE [keeps_rules]: "keeps P m \<Longrightarrow> (\<And>e. keeps P (h e)) \<Longrightarrow> keeps P (catchE m h)"
  unfolding keeps_def by (blast elim: catchE_elim)

lemma keeps_basic [keeps_rules]:
  "keeps P (ret x)" "keeps P (throwE e)" "keeps P (liftR r)" "keeps P (getS f)"
  by (simp_all add: keeps_def)

lemma keeps_modS [keeps_rules]: "(\<And>s. P s \<Longrightarrow> P (f s)) \<Longrightarrow> keeps P (modS f)"
  by (simp add: keeps_def)

lemma keeps_if [keeps_rules]:
  "(b \<Longrightarrow> keeps P m) \<Longrightarrow> (\<not> b \<Longrightarrow> keeps P n) \<Longrightarrow> keeps P (if b then m else n)"
  by simp

lemma keeps_sum [keeps_rules]:
  "(\<And>x. r = Inl x \<Longrightarrow> keeps P (f x)) \<Longrightarrow> (\<And>y. r = Inr y \<Longrightarrow> keeps P (g y)) \<Longrightarrow>
   keeps P (case r of Inl x \<Rightarrow> f x | Inr y \<Rightarrow> g y)"
  by (cases r) auto

lemma keeps_prod [keeps_rules]: "(\<And>x y. r = (x, y) \<Longrightarrow> keeps P (f x y)) \<Longrightarrow> keeps P (case r of (x, y) \<Rightarrow> f x y)"
  by (cases r) auto

section \<open>Lists\<close>

lemma map_of_Some_in: "map_of kvs k = Some v \<Longrightarrow> k \<in> fst ` set kvs"
  by (force dest: map_of_SomeD)

lemma map_of_in_keys: "k \<in> fst ` set kvs \<Longrightarrow> \<exists>v. map_of kvs k = Some v"
  by (cases "map_of kvs k") (auto simp: map_of_eq_None_iff)

fun splitOn :: "'a \<Rightarrow> 'a list \<Rightarrow> 'a list list" where
  "splitOn c [] = [[]]"
| "splitOn c (x # xs) =
     (if x = c then [] # splitOn c xs
      else (case splitOn c xs of [] \<Rightarrow> [[x]] | y # ys \<Rightarrow> (x # y) # ys))"

fun joinWith :: "'a list \<Rightarrow> 'a list list \<Rightarrow> 'a list" where
  "joinWith sep [] = []"
| "joinWith sep [x] = x"
| "joinWith sep (x # y # ys) = x @ sep @ joinWith sep (y # ys)"

lemma splitOn_nonempty [simp]: "splitOn c xs \<noteq> []"
  by (induction xs) (auto split: list.splits)

lemma joinWith_splitOn: "joinWith [c] (splitOn c xs) = xs"
proof (induction xs)
  case Nil
  then show ?case by simp
next
  case (Cons x xs)
  obtain y ys where "splitOn c xs = y # ys"
    by (cases "splitOn c xs") auto
  with Cons.IH show ?case
    by (cases ys) auto
qed

lemma splitOn_no_sep: "y \<in> set (splitOn c xs) \<Longrightarrow> c \<notin> set y"
proof (induction xs arbitrary: y)
  case Nil
  then show ?case by simp
next
  case (Cons x xs)
  then show ?case
    by (cases "splitOn c xs") (auto split: if_splits)
qed

lemma splitOn_set: "y \<in> set (splitOn c xs) \<Longrightarrow> set y \<subseteq> set xs"
proof (induction xs arbitrary: y)
  case Nil
  then show ?case by simp
next
  case (Cons x xs)
  obtain z zs where "splitOn c xs = z # zs"
    by (cases "splitOn c xs") auto
  with Cons show ?case by (fastforce split: if_splits)
qed

lemma splitOn_eq_single: "c \<notin> set xs \<Longrightarrow> splitOn c xs = [xs]"
  by (induction xs) auto

lemma splitOn_append: "c \<notin> set xs \<Longrightarrow> splitOn c (xs @ c # ys) = xs # splitOn c ys"
  by (induction xs) auto

lemma splitOn_snoc: "splitOn c (xs @ [c]) = splitOn c xs @ [[]]"
  by (induction xs) (auto split: list.splits)

lemma splitOn_middle: "splitOn c (xs @ c # ys) = splitOn c xs @ splitOn c ys"
  by (induction xs) (auto split: list.splits)

lemma joinWith_Cons: "xss \<noteq> [] \<Longrightarrow> joinWith sep (xs # xss) = xs @ sep @ joinWith sep xss"
  by (cases xss) auto

lemma joinWith_snoc: "xss \<noteq> [] \<Longrightarrow> joinWith sep (xss @ [xs]) = joinWith sep xss @ sep @ xs"
  by (induction sep xss rule: joinWith.induct) auto

lemma last_joinWith_snoc: "xs \<noteq> [] \<Longrightarrow> last (joinWith sep (xss @ [xs])) = last xs"
  by (cases "xss = []") (simp_all add: joinWith_snoc)

lemma splitOn_joinWith:
  assumes "xss \<noteq> []" and "\<forall>xs \<in> set xss. c \<notin> set xs"
  shows "splitOn c (joinWith [c] xss) = xss"
  using assms
  by (induction "[c]" xss rule: joinWith.induct) (auto simp: splitOn_eq_single splitOn_append)

text \<open>The decimal text of a number, as a template literal prints it.\<close>

fun decNat :: "nat \<Rightarrow> string" where
  "decNat n = (if n < 10 then [char_of (48 + n)] else decNat (n div 10) @ [char_of (48 + n mod 10)])"

declare decNat.simps [simp del]

definition decInt :: "int \<Rightarrow> string" where
  "decInt i = (if i < 0 then ''-'' @ decNat (nat (- i)) else decNat (nat i))"

section \<open>Sorting with a comparator\<close>

text \<open>\<^verbatim>\<open>Array.prototype.sort\<close> is stable; \<open>le x y\<close> tells that the comparator puts \<open>x\<close> no later than \<open>y\<close>.\<close>

fun insertBy :: "('a \<Rightarrow> 'a \<Rightarrow> bool) \<Rightarrow> 'a \<Rightarrow> 'a list \<Rightarrow> 'a list" where
  "insertBy le x [] = [x]"
| "insertBy le x (y # ys) = (if le x y then x # y # ys else y # insertBy le x ys)"

definition sortBy :: "('a \<Rightarrow> 'a \<Rightarrow> bool) \<Rightarrow> 'a list \<Rightarrow> 'a list" where
  "sortBy le xs = foldr (insertBy le) xs []"

lemma set_insertBy [simp]: "set (insertBy le x ys) = insert x (set ys)"
  by (induction ys) auto

lemma set_sortBy [simp]: "set (sortBy le xs) = set xs"
  unfolding sortBy_def by (induction xs) simp_all

lemma distinct_insertBy [simp]: "distinct (insertBy le x ys) \<longleftrightarrow> x \<notin> set ys \<and> distinct ys"
  by (induction ys) auto

lemma distinct_sortBy [simp]: "distinct (sortBy le xs) \<longleftrightarrow> distinct xs"
  using set_sortBy [of le] unfolding sortBy_def by (induction xs) simp_all

text \<open>With a comparator that is total and transitive the result is sorted.\<close>

lemma sorted_insertBy:
  assumes "\<And>x y. le x y \<or> le y x" and "transp le" and "sorted_wrt le ys"
  shows "sorted_wrt le (insertBy le x ys)"
  using assms(3)
proof (induction ys)
  case (Cons y ys)
  then show ?case using assms(1) transpD [OF assms(2)] by (auto 4 3)
qed simp

lemma sorted_sortBy:
  assumes "\<And>x y. le x y \<or> le y x" and "transp le"
  shows "sorted_wrt le (sortBy le xs)"
  unfolding sortBy_def by (induction xs) (simp_all add: sorted_insertBy assms)

section \<open>Histories of a log\<close>

text \<open>Operations performed one after the other, each with its result; and the contract of a component that
  keeps a log: every operation keeps the invariant and extends the log by what it promises to log.\<close>

inductive performed :: "('op \<Rightarrow> 's \<Rightarrow> 'r \<times> 's) \<Rightarrow> 's \<Rightarrow> ('op \<times> 'r) list \<Rightarrow> 's \<Rightarrow> bool"
  for perform where
  performed_Nil: "performed perform s [] s"
| performed_Cons: "perform op s = (r, s') \<Longrightarrow> performed perform s' hist s'' \<Longrightarrow> performed perform s ((op, r) # hist) s''"

inductive_simps performed_simps: "performed perform s [] s'" "performed perform s (h # hist) s'"

locale log_keeper =
  fixes inv :: "'e list \<Rightarrow> 's \<Rightarrow> bool"
    and perform :: "'op \<Rightarrow> 's \<Rightarrow> 'r \<times> 's"
    and allowed :: "'op \<Rightarrow> bool"
    and logs :: "'op \<Rightarrow> 'r \<Rightarrow> 'e list \<Rightarrow> bool"
  assumes logged: "allowed op \<Longrightarrow> inv es s \<Longrightarrow> perform op s = (r, s') \<Longrightarrow> \<exists>entries. logs op r entries \<and> inv (es @ entries) s'"
begin

lemma history:
  assumes "performed perform s hist s'" and "inv es s" and "\<And>op r. (op, r) \<in> set hist \<Longrightarrow> allowed op"
  shows "\<exists>entries. list_all2 (\<lambda>(op, r). logs op r) hist entries \<and> inv (es @ concat entries) s'"
  using assms
proof (induction arbitrary: es rule: performed.induct)
  case (performed_Nil s)
  then show ?case by (intro exI [of _ "[]"]) simp
next
  case (performed_Cons op s r s' hist s'')
  obtain new where new: "logs op r new" "inv (es @ new) s'"
    using logged [OF _ performed_Cons.prems(1) performed_Cons.hyps(1)] performed_Cons.prems(2) by auto
  obtain entries where "list_all2 (\<lambda>(op, r). logs op r) hist entries" "inv ((es @ new) @ concat entries) s''"
    using performed_Cons.IH [OF new(2)] performed_Cons.prems(2) by auto
  with new(1) show ?case by (intro exI [of _ "new # entries"]) simp
qed

end

end
