(* ===== verification/JsValue.thy ===== *)
theory JsValue
  imports Prelude
begin

text \<open>
  The JavaScript values, strings and standard-library functions that the sources use.

  \<^item> \<open>jsval\<close>: what \<^verbatim>\<open>JSON.parse\<close> can produce, \<^verbatim>\<open>undefined\<close>, and \<open>JOther\<close> for every value that is
    none of these (functions, class instances).  An object lists its own properties in the order of
    \<^verbatim>\<open>Object.keys\<close>.
  \<^item> \<open>jsnum\<close>: a finite number with an integral value, a finite number without (numerator,
    denominator and the text \<^verbatim>\<open>String(x)\<close> gives), and the three non-finite values.
  \<^item> A string is the list of bytes of its UTF-8 encoding (an unpaired surrogate as its three-byte
    form), so \<^verbatim>\<open>Buffer.byteLength\<close> is \<open>length\<close>, and \<open>chars\<close> recovers the code points that
    \<^verbatim>\<open>for (const c of s)\<close> visits and \<open>u16len\<close> the number of UTF-16 units that \<^verbatim>\<open>s.length\<close> counts.
    \<^verbatim>\<open>toLowerCase\<close> folds ASCII letters and leaves every other code point as it is; the sources use
    it on repository paths, which are ASCII once validated.
\<close>

section \<open>Values\<close>

datatype jsnum = NInt int | NFrac int int string | NNaN | NPosInf | NNegInf

datatype jsval =
    JUndef
  | JNull
  | JBool bool
  | JNum jsnum
  | JStr string
  | JArr "jsval list"
  | JObj "(string \<times> jsval) list"
  | JOther

type_synonym jsobj = "(string \<times> jsval) list"

fun isPlainObject :: "jsval \<Rightarrow> bool" where
  "isPlainObject (JObj _) = True"
| "isPlainObject _ = False"

fun isArray :: "jsval \<Rightarrow> bool" where
  "isArray (JArr _) = True"
| "isArray _ = False"

fun isString :: "jsval \<Rightarrow> bool" where
  "isString (JStr _) = True"
| "isString _ = False"

fun isBoolean :: "jsval \<Rightarrow> bool" where
  "isBoolean (JBool _) = True"
| "isBoolean _ = False"

fun props :: "jsval \<Rightarrow> jsobj" where
  "props (JObj kvs) = kvs"
| "props _ = []"

fun elems :: "jsval \<Rightarrow> jsval list" where
  "elems (JArr xs) = xs"
| "elems _ = []"

fun strOf :: "jsval \<Rightarrow> string" where
  "strOf (JStr s) = s"
| "strOf _ = []"

fun intOf :: "jsval \<Rightarrow> int" where
  "intOf (JNum (NInt i)) = i"
| "intOf _ = 0"

text \<open>The conversion to a boolean that \<^verbatim>\<open>if (v)\<close> and \<^verbatim>\<open>!v\<close> apply.\<close>

fun truthy :: "jsval \<Rightarrow> bool" where
  "truthy JUndef = False"
| "truthy JNull = False"
| "truthy (JBool b) = b"
| "truthy (JNum n) = (n \<noteq> NInt 0 \<and> n \<noteq> NNaN)"
| "truthy (JStr s) = (s \<noteq> [])"
| "truthy _ = True"

definition jsKeys :: "jsval \<Rightarrow> string list" where
  "jsKeys v = map fst (props v)"

definition hasOwn :: "jsval \<Rightarrow> string \<Rightarrow> bool" where
  "hasOwn v k = (k \<in> set (jsKeys v))"

definition fld :: "jsval \<Rightarrow> string \<Rightarrow> jsval" where
  "fld v k = (case map_of (props v) k of None \<Rightarrow> JUndef | Some x \<Rightarrow> x)"

text \<open>Assignment to a property: in place when it exists, else at the end; and the spread
  \<^verbatim>\<open>{ ...a, ...b }\<close> of one object over another.\<close>

fun setProp :: "string \<Rightarrow> jsval \<Rightarrow> jsobj \<Rightarrow> jsobj" where
  "setProp k v [] = [(k, v)]"
| "setProp k v ((k', v') # kvs) = (if k' = k then (k, v) # kvs else (k', v') # setProp k v kvs)"

fun spread :: "jsobj \<Rightarrow> jsobj \<Rightarrow> jsobj" where
  "spread a [] = a"
| "spread a ((k, v) # kvs) = spread (setProp k v a) kvs"

lemma fld_JObj [simp]: "fld (JObj kvs) k = (case map_of kvs k of None \<Rightarrow> JUndef | Some x \<Rightarrow> x)"
  by (simp add: fld_def)

lemma map_of_setProp [simp]: "map_of (setProp k v kvs) = (map_of kvs)(k \<mapsto> v)"
  by (induction kvs) auto

lemma set_keys_setProp [simp]: "fst ` set (setProp k v kvs) = insert k (fst ` set kvs)"
  by (induction k v kvs rule: setProp.induct) (simp_all add: insert_commute)

lemma map_of_spread [simp]:
  "distinct (map fst b) \<Longrightarrow> map_of (spread a b) = map_of a ++ map_of b"
proof (induction b arbitrary: a)
  case Nil
  then show ?case by simp
next
  case (Cons kv b)
  obtain k v where kv: "kv = (k, v)" by (cases kv)
  with Cons.prems have fresh: "map_of b k = None"
    by (simp add: map_of_eq_None_iff)
  with Cons kv show ?case
    by (auto simp: map_add_def fun_eq_iff split: option.splits)
qed

lemma set_keys_spread [simp]: "fst ` set (spread a b) = fst ` set a \<union> fst ` set b"
  by (induction a b rule: spread.induct) auto

lemma hasOwn_fld: "hasOwn v k \<longleftrightarrow> map_of (props v) k \<noteq> None"
  by (auto simp: hasOwn_def jsKeys_def map_of_eq_None_iff)

section \<open>Numbers\<close>

definition maxSafeInteger :: int where
  "maxSafeInteger = 9007199254740991"

fun isInteger :: "jsval \<Rightarrow> bool" where
  "isInteger (JNum (NInt _)) = True"
| "isInteger _ = False"

fun isSafeInteger :: "jsval \<Rightarrow> bool" where
  "isSafeInteger (JNum (NInt i)) = (\<bar>i\<bar> \<le> maxSafeInteger)"
| "isSafeInteger _ = False"

definition num :: "int \<Rightarrow> jsval" where
  "num i = JNum (NInt i)"

fun isFiniteNumber :: "jsval \<Rightarrow> bool" where
  "isFiniteNumber (JNum (NInt _)) = True"
| "isFiniteNumber (JNum (NFrac _ _ _)) = True"
| "isFiniteNumber _ = False"

fun numText :: "jsnum \<Rightarrow> string" where
  "numText (NInt i) = decInt i"
| "numText (NFrac _ _ t) = t"
| "numText NNaN = ''NaN''"
| "numText NPosInf = ''Infinity''"
| "numText NNegInf = ''-Infinity''"

section \<open>Strings\<close>

definition inRange :: "nat \<Rightarrow> nat \<Rightarrow> char \<Rightarrow> bool" where
  "inRange lo hi c = (lo \<le> of_char c \<and> of_char c \<le> hi)"

definition isLower :: "char \<Rightarrow> bool" where "isLower c = inRange 97 122 c"
definition isUpper :: "char \<Rightarrow> bool" where "isUpper c = inRange 65 90 c"
definition isDigit :: "char \<Rightarrow> bool" where "isDigit c = inRange 48 57 c"
definition isHexLower :: "char \<Rightarrow> bool" where "isHexLower c = (isDigit c \<or> inRange 97 102 c)"
definition isAlnum :: "char \<Rightarrow> bool" where "isAlnum c = (isLower c \<or> isUpper c \<or> isDigit c)"
definition isCont :: "char \<Rightarrow> bool" where "isCont c = inRange 128 191 c"

lemmas char_classes = inRange_def isLower_def isUpper_def isDigit_def isHexLower_def isAlnum_def
  isCont_def

text \<open>Evaluation by bits: the classes that every string operation consults.\<close>

lemma of_char_bits:
  "(of_char (Char b0 b1 b2 b3 b4 b5 b6 b7) :: nat) =
   of_bool b0 + 2 * of_bool b1 + 4 * of_bool b2 + 8 * of_bool b3 + 16 * of_bool b4 + 32 * of_bool b5 +
   64 * of_bool b6 + 128 * of_bool b7"
  by (simp add: of_char_Char)

lemma isCont_bits [code]: "isCont (Char b0 b1 b2 b3 b4 b5 b6 b7) = (b7 \<and> \<not> b6)"
  unfolding isCont_def inRange_def of_char_bits
  by (cases b0; cases b1; cases b2; cases b3; cases b4; cases b5; cases b6; cases b7) simp_all

definition byteLength :: "string \<Rightarrow> nat" where
  "byteLength s = length s"

function chars :: "string \<Rightarrow> string list" where
  "chars [] = []"
| "chars (c # cs) = (c # takeWhile isCont cs) # chars (dropWhile isCont cs)"
  by pat_completeness auto
termination
  by (relation "measure length") (auto simp: le_imp_less_Suc length_dropWhile_le)

lemma concat_chars: "concat (chars s) = s"
  by (induction s rule: chars.induct) auto

definition u16len :: "string \<Rightarrow> nat" where
  "u16len s = sum_list (map (\<lambda>ch. if 240 \<le> (of_char (hd ch) :: nat) then 2 else 1) (chars s))"

definition wsChars :: "string list" where
  "wsChars =
     [[CHR 0x09], [CHR 0x0A], [CHR 0x0B], [CHR 0x0C], [CHR 0x0D], [CHR 0x20],
      [CHR 0xC2, CHR 0xA0], [CHR 0xE1, CHR 0x9A, CHR 0x80],
      [CHR 0xE2, CHR 0x80, CHR 0x80], [CHR 0xE2, CHR 0x80, CHR 0x81], [CHR 0xE2, CHR 0x80, CHR 0x82],
      [CHR 0xE2, CHR 0x80, CHR 0x83], [CHR 0xE2, CHR 0x80, CHR 0x84], [CHR 0xE2, CHR 0x80, CHR 0x85],
      [CHR 0xE2, CHR 0x80, CHR 0x86], [CHR 0xE2, CHR 0x80, CHR 0x87], [CHR 0xE2, CHR 0x80, CHR 0x88],
      [CHR 0xE2, CHR 0x80, CHR 0x89], [CHR 0xE2, CHR 0x80, CHR 0x8A], [CHR 0xE2, CHR 0x80, CHR 0xA8],
      [CHR 0xE2, CHR 0x80, CHR 0xA9], [CHR 0xE2, CHR 0x80, CHR 0xAF], [CHR 0xE2, CHR 0x81, CHR 0x9F],
      [CHR 0xE3, CHR 0x80, CHR 0x80], [CHR 0xEF, CHR 0xBB, CHR 0xBF]]"

definition isWs :: "string \<Rightarrow> bool" where
  "isWs ch = (ch \<in> set wsChars)"

definition trimStart :: "string list \<Rightarrow> string list" where
  "trimStart chs = dropWhile isWs chs"

definition trimEndStr :: "string \<Rightarrow> string" where
  "trimEndStr s = concat (rev (trimStart (rev (chars s))))"

definition trim :: "string \<Rightarrow> string" where
  "trim s = concat (rev (trimStart (rev (trimStart (chars s)))))"

lemma set_trim: "set (trim s) \<subseteq> set s"
proof -
  have "set (concat (chars s)) = set s" by (simp add: concat_chars)
  then show ?thesis
    by (auto simp: trim_def trimStart_def dest!: set_dropWhileD) blast
qed

definition toLowerCase :: "string \<Rightarrow> string" where
  "toLowerCase s = map (\<lambda>c. if isUpper c then char_of ((of_char c :: nat) + 32) else c) s"

definition unsafeControl :: "char \<Rightarrow> bool" where
  "unsafeControl c =
     (inRange 0 8 c \<or> inRange 11 12 c \<or> inRange 14 31 c \<or> (of_char c :: nat) = 127)"

lemma unsafeControl_bits [code]:
  "unsafeControl (Char b0 b1 b2 b3 b4 b5 b6 b7) =
     (\<not> b7 \<and> (if b6 then b0 \<and> b1 \<and> b2 \<and> b3 \<and> b4 \<and> b5
               else \<not> b5 \<and> (b4 \<or> \<not> b3 \<or> (if b2 then \<not> b0 \<or> b1 else b0 = b1))))"
  unfolding unsafeControl_def inRange_def of_char_bits
  by (cases b0; cases b1; cases b2; cases b3; cases b4; cases b5; cases b6; cases b7) simp_all

definition hasUnsafeControl :: "string \<Rightarrow> bool" where
  "hasUnsafeControl s = list_ex unsafeControl s"

text \<open>\<^verbatim>\<open>s.slice(0, n)\<close> counts UTF-16 units, so it may keep the first half of a surrogate pair.\<close>

definition highSurrogate :: "string \<Rightarrow> string" where
  "highSurrogate ch =
     (case map of_char ch of
        [b0, b1, b2, b3] \<Rightarrow>
          (let cp = (b0 - 240) * 262144 + (b1 - 128) * 4096 + (b2 - 128) * 64 + (b3 - 128);
               hs = 55296 + (cp - 65536) div (1024 :: nat)
           in [CHR 0xED, char_of (128 + (hs div 64) mod 64), char_of (128 + hs mod 64)])
      | _ \<Rightarrow> ch)"

fun sliceChars :: "nat \<Rightarrow> string list \<Rightarrow> string list" where
  "sliceChars n [] = []"
| "sliceChars n (ch # chs) =
     (if n = 0 then []
      else if 240 \<le> (of_char (hd ch) :: nat)
        then (if n = 1 then [highSurrogate ch] else ch # sliceChars (n - 2) chs)
        else ch # sliceChars (n - 1) chs)"

definition sliceTo :: "nat \<Rightarrow> string \<Rightarrow> string" where
  "sliceTo n s = concat (sliceChars n (chars s))"

text \<open>\<^verbatim>\<open>path.posix\<close>: absolute paths and normalisation, segment by segment as Node does it.\<close>

definition isAbsolutePath :: "string \<Rightarrow> bool" where
  "isAbsolutePath s = prefix ''/'' s"

fun normSegments :: "bool \<Rightarrow> string list \<Rightarrow> string list \<Rightarrow> string list" where
  "normSegments up acc [] = rev acc"
| "normSegments up acc (seg # segs) =
     (if seg = [] \<or> seg = ''.'' then normSegments up acc segs
      else if seg = ''..'' then
        (case acc of
           [] \<Rightarrow> normSegments up (if up then [''..''] else []) segs
         | a # as \<Rightarrow> if a = ''..'' then normSegments up (''..'' # acc) segs
                    else normSegments up as segs)
      else normSegments up (seg # acc) segs)"

definition posixNormalize :: "string \<Rightarrow> string" where
  "posixNormalize s =
     (if s = [] then ''.''
      else let absolute = isAbsolutePath s;
               trailing = suffix ''/'' s;
               p = joinWith ''/'' (normSegments (\<not> absolute) [] (splitOn (CHR ''/'') s))
           in if p = [] then (if absolute then ''/'' else if trailing then ''./'' else ''.'')
              else (if absolute then ''/'' else []) @ p @ (if trailing then ''/'' else []))"

section \<open>JSON text\<close>

definition hexDigit :: "nat \<Rightarrow> char" where
  "hexDigit n = ''0123456789abcdef'' ! (n mod 16)"

definition jsonEscapeByte :: "string \<Rightarrow> string" where
  "jsonEscapeByte ch =
     (case map of_char ch of
        [b] \<Rightarrow>
          (if b = (34 :: nat) then [CHR 0x5C, CHR 0x22]
           else if b = 92 then [CHR 0x5C, CHR 0x5C]
           else if b = 8 then [CHR 0x5C, CHR ''b'']
           else if b = 9 then [CHR 0x5C, CHR ''t'']
           else if b = 10 then [CHR 0x5C, CHR ''n'']
           else if b = 12 then [CHR 0x5C, CHR ''f'']
           else if b = 13 then [CHR 0x5C, CHR ''r'']
           else if b < 32 then [CHR 0x5C, CHR ''u'', CHR ''0'', CHR ''0'', hexDigit (b div 16), hexDigit b]
           else ch)
      | [b0, b1, b2] \<Rightarrow>
          (if b0 = 237 \<and> 160 \<le> b1
           then [CHR 0x5C, CHR ''u'', CHR ''d'', hexDigit (8 + (b1 - 160) div 4),
                 hexDigit ((b1 mod 4) * 4 + (b2 - 128) div 16), hexDigit (b2 - 128)]
           else ch)
      | _ \<Rightarrow> ch)"

definition jsonEscape :: "string \<Rightarrow> string" where
  "jsonEscape ch = jsonEscapeByte ch"

lemma jsonEscape_plain [code]:
  "jsonEscape ch =
     (case ch of
        [Char b0 b1 b2 b3 b4 b5 b6 b7] \<Rightarrow>
          if \<not> b7 \<and> (b6 \<and> \<not> b5 \<and> \<not> (b4 \<and> b3 \<and> b2) \<or> b6 \<and> b5 \<or> \<not> b6 \<and> b5 \<and> b3) then ch else jsonEscapeByte ch
      | _ \<Rightarrow> jsonEscapeByte ch)"
proof -
  have "jsonEscapeByte [Char b0 b1 b2 b3 b4 b5 b6 b7] = [Char b0 b1 b2 b3 b4 b5 b6 b7]"
    if "\<not> b7 \<and> (b6 \<and> \<not> b5 \<and> \<not> (b4 \<and> b3 \<and> b2) \<or> b6 \<and> b5 \<or> \<not> b6 \<and> b5 \<and> b3)" for b0 b1 b2 b3 b4 b5 b6 b7
    using that unfolding jsonEscapeByte_def list.map of_char_bits
    by (cases b0; cases b1; cases b2; cases b3; cases b4; cases b5; cases b6; cases b7) simp_all
  then show ?thesis
    by (auto simp: jsonEscape_def split: list.split char.split)
qed

definition jsonQuote :: "string \<Rightarrow> string" where
  "jsonQuote s = [CHR 0x22] @ concat (map jsonEscape (chars s)) @ [CHR 0x22]"

definition newline :: string where
  "newline = [CHR 0x0A]"

text \<open>The layout: \<open>None\<close> is the compact form, \<open>Some n\<close> the form with an indent of two at column
  \<open>n\<close>.\<close>

definition jsonWrap :: "nat option \<Rightarrow> string \<Rightarrow> string \<Rightarrow> string list \<Rightarrow> string" where
  "jsonWrap g l r parts =
     (if parts = [] then l @ r
      else case g of
          None \<Rightarrow> l @ joinWith '','' parts @ r
        | Some n \<Rightarrow>
            (let pad = newline @ replicate (n + 2) (CHR '' '')
             in l @ pad @ joinWith ('','' @ pad) parts @ newline @ replicate n (CHR '' '') @ r))"

definition deeper :: "nat option \<Rightarrow> nat option" where
  "deeper g = map_option (\<lambda>n. n + 2) g"

fun jsonVal :: "nat option \<Rightarrow> jsval \<Rightarrow> string option"
  and jsonElems :: "nat option \<Rightarrow> jsval list \<Rightarrow> string list"
  and jsonProps :: "nat option \<Rightarrow> jsobj \<Rightarrow> string list" where
  "jsonVal g JUndef = None"
| "jsonVal g JOther = None"
| "jsonVal g JNull = Some ''null''"
| "jsonVal g (JBool b) = Some (if b then ''true'' else ''false'')"
| "jsonVal g (JNum n) =
     Some (case n of NInt i \<Rightarrow> decInt i | NFrac _ _ t \<Rightarrow> t | _ \<Rightarrow> ''null'')"
| "jsonVal g (JStr s) = Some (jsonQuote s)"
| "jsonVal g (JArr xs) = Some (jsonWrap g ''['' '']'' (jsonElems (deeper g) xs))"
| "jsonVal g (JObj kvs) = Some (jsonWrap g ''{'' ''}'' (jsonProps (deeper g) kvs))"
| "jsonElems g [] = []"
| "jsonElems g (x # xs) =
     (case jsonVal g x of None \<Rightarrow> ''null'' | Some t \<Rightarrow> t) # jsonElems g xs"
| "jsonProps g [] = []"
| "jsonProps g ((k, v) # kvs) =
     (case jsonVal g v of
        None \<Rightarrow> jsonProps g kvs
      | Some t \<Rightarrow> (jsonQuote k @ (case g of None \<Rightarrow> '':'' | Some _ \<Rightarrow> '': '') @ t) # jsonProps g kvs)"

definition stringify :: "jsval \<Rightarrow> string" where
  "stringify v = (case jsonVal None v of None \<Rightarrow> ''undefined'' | Some t \<Rightarrow> t)"

definition stringifyIndent :: "jsval \<Rightarrow> string" where
  "stringifyIndent v = (case jsonVal (Some 0) v of None \<Rightarrow> ''undefined'' | Some t \<Rightarrow> t)"

text \<open>The coercion \<^verbatim>\<open>String(v)\<close> that a regular expression's \<^verbatim>\<open>test\<close> and a property key apply.\<close>

fun toStr :: "jsval \<Rightarrow> string" and toStrElems :: "jsval list \<Rightarrow> string list" where
  "toStr JUndef = ''undefined''"
| "toStr JNull = ''null''"
| "toStr (JBool b) = (if b then ''true'' else ''false'')"
| "toStr (JNum n) = numText n"
| "toStr (JStr s) = s"
| "toStr (JArr xs) = joinWith '','' (toStrElems xs)"
| "toStr (JObj _) = ''[object Object]''"
| "toStr JOther = ''[object Object]''"
| "toStrElems [] = []"
| "toStrElems (x # xs) =
     (case x of JUndef \<Rightarrow> [] | JNull \<Rightarrow> [] | _ \<Rightarrow> toStr x) # toStrElems xs"

end
