(* ===== verification/Assertions.thy ===== *)
theory Assertions
  imports JsValue
begin

text \<open>
  The assertion helpers.  \<^verbatim>\<open>src/src/workflow.mjs\<close> and \<^verbatim>\<open>src/src/pod-contract.mjs\<close> define
  \<^verbatim>\<open>assertPlainObject\<close>, \<^verbatim>\<open>assertExactFields\<close>, \<^verbatim>\<open>assertInteger\<close> and \<^verbatim>\<open>assertText\<close> with the same text, so
  one definition serves both.  Each helper comes with the predicate on values that holds exactly
  when it returns; the collection \<open>res_simps\<close> rewrites a validator's success into these
  predicates.
\<close>

section \<open>Regular expressions\<close>

text \<open>\<^verbatim>\<open>/^[a-z][a-z0-9-]{0,31}$/\<close>\<close>

definition nameChar :: "char \<Rightarrow> bool" where
  "nameChar c = (isLower c \<or> isDigit c \<or> c = CHR ''-'')"

fun reName :: "string \<Rightarrow> bool" where
  "reName [] = False"
| "reName (c # cs) = (isLower c \<and> list_all nameChar cs \<and> length cs \<le> 31)"

text \<open>\<^verbatim>\<open>/^[A-Za-z0-9][A-Za-z0-9._-]{0,79}$/\<close>\<close>

definition portableChar :: "char \<Rightarrow> bool" where
  "portableChar c = (isAlnum c \<or> c = CHR ''.'' \<or> c = CHR ''_'' \<or> c = CHR ''-'')"

fun reRunId :: "string \<Rightarrow> bool" where
  "reRunId [] = False"
| "reRunId (c # cs) = (isAlnum c \<and> list_all portableChar cs \<and> length cs \<le> 79)"

text \<open>\<^verbatim>\<open>/^[A-Za-z0-9._-]+$/\<close>\<close>

definition rePortable :: "string \<Rightarrow> bool" where
  "rePortable s = (s \<noteq> [] \<and> list_all portableChar s)"

text \<open>\<^verbatim>\<open>/^[a-f0-9]{64}$/\<close> and \<^verbatim>\<open>/^(?:[a-f0-9]{40}|[a-f0-9]{64})$/\<close>\<close>

definition reSha256 :: "string \<Rightarrow> bool" where
  "reSha256 s = (length s = 64 \<and> list_all isHexLower s)"

definition reGitSha :: "string \<Rightarrow> bool" where
  "reGitSha s = ((length s = 40 \<or> length s = 64) \<and> list_all isHexLower s)"

section \<open>Helpers\<close>

definition assertPlainObject :: "jsval \<Rightarrow> string \<Rightarrow> unit res" where
  "assertPlainObject v label = require (isPlainObject v) (label @ '' must be a plain object'')"

definition assertExactFields :: "jsval \<Rightarrow> string list \<Rightarrow> string \<Rightarrow> unit res" where
  "assertExactFields v allowed label =
     checks (map (\<lambda>f. require (f \<in> set allowed) (''unknown '' @ label @ '' field: '' @ f)) (jsKeys v)
             @ map (\<lambda>f. require (hasOwn v f) (label @ '' requires '' @ f)) allowed)"

definition assertInteger :: "jsval \<Rightarrow> int \<Rightarrow> int \<Rightarrow> string \<Rightarrow> unit res" where
  "assertInteger v minimum maximum label =
     require (isInteger v \<and> minimum \<le> intOf v \<and> intOf v \<le> maximum)
       (label @ '' must be an integer from '' @ decInt minimum @ '' to '' @ decInt maximum)"

definition assertText :: "jsval \<Rightarrow> string \<Rightarrow> nat \<Rightarrow> unit res" where
  "assertText v label maximum =
     checks
       [require (isString v \<and> trim (strOf v) \<noteq> [] \<and> byteLength (strOf v) \<le> maximum)
          (label @ '' must be a non-empty string no larger than '' @ decNat maximum @ '' bytes''),
        require (\<not> hasUnsafeControl (strOf v)) (label @ '' contains unsafe control characters'')]"

definition indexed :: "string \<Rightarrow> nat \<Rightarrow> string" where
  "indexed label i = label @ ''['' @ decNat i @ '']''"

definition badSegment :: "string \<Rightarrow> bool" where
  "badSegment seg = (seg = [] \<or> seg = ''.'' \<or> seg = ''..'')"

definition backslash :: string where
  "backslash = [CHR 0x5C]"

definition assertRelativeFile :: "jsval \<Rightarrow> string \<Rightarrow> unit res" where
  "assertRelativeFile v label =
     checks
       [assertText v label 512,
        require (\<not> (sublist backslash (strOf v) \<or> isAbsolutePath (strOf v)))
          (label @ '' must be a relative workspace path''),
        require (\<not> list_ex badSegment (splitOn (CHR ''/'') (strOf v)))
          (label @ '' must be a relative workspace path'')]"

definition descendant :: "string \<Rightarrow> string \<Rightarrow> bool" where
  "descendant root target = (target = root \<or> prefix (root @ ''/'') target)"

section \<open>When the helpers return\<close>

definition okInt :: "int \<Rightarrow> int \<Rightarrow> jsval \<Rightarrow> bool" where
  "okInt lo hi v = (\<exists>i. v = JNum (NInt i) \<and> lo \<le> i \<and> i \<le> hi)"

definition okText :: "nat \<Rightarrow> jsval \<Rightarrow> bool" where
  "okText maximum v =
     (\<exists>s. v = JStr s \<and> trim s \<noteq> [] \<and> length s \<le> maximum \<and> \<not> hasUnsafeControl s)"

definition relativePath :: "string \<Rightarrow> bool" where
  "relativePath s =
     (CHR 0x5C \<notin> set s \<and> (\<forall>seg \<in> set (splitOn (CHR ''/'') s). seg \<noteq> [] \<and> seg \<noteq> ''.'' \<and> seg \<noteq> ''..''))"

lemma isPlainObject_iff: "isPlainObject v \<longleftrightarrow> (\<exists>kvs. v = JObj kvs)"
  by (cases v) auto

lemma isString_iff: "isString v \<longleftrightarrow> (\<exists>s. v = JStr s)"
  by (cases v) auto

lemma isArray_iff: "isArray v \<longleftrightarrow> (\<exists>xs. v = JArr xs)"
  by (cases v) auto

lemma isBoolean_iff: "isBoolean v \<longleftrightarrow> (\<exists>b. v = JBool b)"
  by (cases v) auto

lemma isInteger_iff: "isInteger v \<longleftrightarrow> (\<exists>i. v = JNum (NInt i))"
  by (cases v rule: isInteger.cases) auto

lemma assertPlainObject_Inr [res_simps]: "assertPlainObject v l = Inr () \<longleftrightarrow> isPlainObject v"
  by (simp add: assertPlainObject_def res_simps)

lemma checks_map_require: "checks (map (\<lambda>x. require (P x) (m x)) xs) = Inr () \<longleftrightarrow> (\<forall>x \<in> set xs. P x)"
  by (auto simp: checks_all res_simps)

lemma assertExactFields_Inr [res_simps]:
  "assertExactFields v allowed l = Inr () \<longleftrightarrow> set (jsKeys v) = set allowed"
  by (auto simp: assertExactFields_def checks_append checks_map_require hasOwn_def)

lemma assertInteger_Inr [res_simps]: "assertInteger v lo hi l = Inr () \<longleftrightarrow> okInt lo hi v"
  by (auto simp: assertInteger_def okInt_def res_simps isInteger_iff)

lemma assertText_Inr [res_simps]: "assertText v l n = Inr () \<longleftrightarrow> okText n v"
  by (auto simp: assertText_def okText_def res_simps isString_iff byteLength_def)

lemma sublist_single: "sublist [c] s \<longleftrightarrow> c \<in> set s"
  by (auto simp: sublist_def in_set_conv_decomp)

lemma isAbsolutePath_segment: "isAbsolutePath s \<Longrightarrow> [] \<in> set (splitOn (CHR ''/'') s)"
  by (cases s) (auto simp: isAbsolutePath_def)

lemma relativePath_checks:
  "\<not> (sublist backslash s \<or> isAbsolutePath s) \<and> \<not> list_ex badSegment (splitOn (CHR ''/'') s)
   \<longleftrightarrow> relativePath s"
  using isAbsolutePath_segment [of s]
  by (auto simp: relativePath_def badSegment_def list_ex_iff backslash_def sublist_single)

lemma assertRelativeFile_Inr [res_simps]:
  "assertRelativeFile v l = Inr () \<longleftrightarrow> okText 512 v \<and> relativePath (strOf v)"
  by (simp add: assertRelativeFile_def res_simps relativePath_checks [symmetric])

lemma okText_str: "okText n v \<Longrightarrow> v = JStr (strOf v)"
  by (auto simp: okText_def)

text \<open>A path whose segments are all proper is its own normal form, so the second half of the test
  \<^verbatim>\<open>segments.some(...) || path.posix.normalize(value) !== value\<close> never fails on its own.\<close>

lemma normSegments_proper:
  "\<forall>seg \<in> set segs. \<not> badSegment seg \<Longrightarrow> normSegments up acc segs = rev acc @ segs"
  by (induction segs arbitrary: acc) (auto simp: badSegment_def)

lemma suffix_slash_segment: "suffix ''/'' s \<Longrightarrow> [] \<in> set (splitOn (CHR ''/'') s)"
  by (auto simp: suffix_def splitOn_snoc)

lemma posixNormalize_proper:
  assumes "\<forall>seg \<in> set (splitOn (CHR ''/'') s). \<not> badSegment seg"
  shows "posixNormalize s = s"
proof -
  have proper: "[] \<notin> set (splitOn (CHR ''/'') s)"
    using assms by (auto simp: badSegment_def)
  have "s \<noteq> []" using proper by (cases s) auto
  moreover have "\<not> isAbsolutePath s" using proper isAbsolutePath_segment by blast
  moreover have "\<not> suffix ''/'' s" using proper suffix_slash_segment by blast
  moreover have "normSegments True [] (splitOn (CHR ''/'') s) = splitOn (CHR ''/'') s"
    using normSegments_proper [OF assms, of True "[]"] by simp
  ultimately show ?thesis
    by (simp add: posixNormalize_def Let_def joinWith_splitOn)
qed

end
