(* ===== verification/FileSystem.thy ===== *)
theory FileSystem
  imports JsValue "HOL-Library.AList_Mapping"
begin

text \<open>
  The part of \<^verbatim>\<open>node:fs/promises\<close> that the controllers use, over an explicit store that maps paths
  to nodes.  A node is a regular file with its permission bits and content, a directory with its
  permission bits and inode number, or a symbolic link.  Every call that reaches the disk first
  consults \<open>fault\<close>, a port of the program: it may fail there with any error and then leaves the
  store as it was.  \<open>atomicWrite\<close> (a temporary file and a \<^verbatim>\<open>rename\<close>) is one such step, because
  the rename replaces the target in one step and every failure before it leaves the target alone.

  A program's own state extends the record \<open>sys\<close>; \<open>sys_world\<close> is the state of everything outside
  the program (clocks, agents, containers) and is only read and changed through ports.
\<close>

datatype node = NFile nat string | NDir nat nat | NLink

record 'w sys =
  sys_fs :: "(string, node) mapping"
  sys_world :: 'w

definition pathJoin :: "string \<Rightarrow> string \<Rightarrow> string" where
  "pathJoin a b = posixNormalize (a @ ''/'' @ b)"

text \<open>An absolute path that \<^verbatim>\<open>path.resolve\<close> leaves as it is.\<close>

definition resolvedPath :: "string \<Rightarrow> bool" where
  "resolvedPath s \<longleftrightarrow> isAbsolutePath s \<and> posixNormalize s = s \<and> (s = ''/'' \<or> \<not> suffix ''/'' s)"

abbreviation nodeAt :: "('w, 'z) sys_scheme \<Rightarrow> string \<Rightarrow> node option" where
  "nodeAt s path \<equiv> Mapping.lookup (sys_fs s) path"

definition useWorld :: "('w \<Rightarrow> 'a \<times> 'w) \<Rightarrow> (('w, 'z) sys_scheme, 'a) io" where
  "useWorld f s = (case f (sys_world s) of (x, w) \<Rightarrow> (Inr x, s\<lparr>sys_world := w\<rparr>))"

definition useWorldR :: "('w \<Rightarrow> 'a res \<times> 'w) \<Rightarrow> (('w, 'z) sys_scheme, 'a) io" where
  "useWorldR f s = (case f (sys_world s) of (x, w) \<Rightarrow> (x, s\<lparr>sys_world := w\<rparr>))"

type_synonym 'w fault = "'w \<Rightarrow> err option \<times> 'w"

definition faultPoint :: "'w fault \<Rightarrow> (('w, 'z) sys_scheme, unit) io" where
  "faultPoint fault s =
     (case fault (sys_world s) of
        (None, w) \<Rightarrow> (Inr (), s\<lparr>sys_world := w\<rparr>)
      | (Some e, w) \<Rightarrow> (Inl e, s\<lparr>sys_world := w\<rparr>))"

definition putNode :: "string \<Rightarrow> node \<Rightarrow> ('w, 'z) sys_scheme \<Rightarrow> ('w, 'z) sys_scheme" where
  "putNode path n s = s\<lparr>sys_fs := Mapping.update path n (sys_fs s)\<rparr>"

lemma nodeAt_putNode [simp]: "nodeAt (putNode path n s) q = (if path = q then Some n else nodeAt s q)"
  by (simp add: putNode_def lookup_update')

definition atomicWrite :: "'w fault \<Rightarrow> string \<Rightarrow> string \<Rightarrow> (('w, 'z) sys_scheme, unit) io" where
  "atomicWrite fault target content =
     thenE (faultPoint fault) (modS (putNode target (NFile 384 content)))"

definition fileText :: "node option \<Rightarrow> string" where
  "fileText n = (case n of Some (NFile _ t) \<Rightarrow> t | _ \<Rightarrow> [])"

definition fileMode :: "nat \<Rightarrow> node option \<Rightarrow> nat" where
  "fileMode d n = (case n of Some (NFile m _) \<Rightarrow> m | _ \<Rightarrow> d)"

text \<open>\<^verbatim>\<open>appendFile\<close> creates a missing file with the mode it is given and keeps the mode of an
  existing one.\<close>

definition appendFile :: "'w fault \<Rightarrow> string \<Rightarrow> string \<Rightarrow> (('w, 'z) sys_scheme, unit) io" where
  "appendFile fault target content =
     thenE (faultPoint fault)
       (modS (\<lambda>s. putNode target
          (NFile (fileMode 384 (nodeAt s target)) (fileText (nodeAt s target) @ content)) s))"

definition createNew :: "'w fault \<Rightarrow> string \<Rightarrow> node \<Rightarrow> (('w, 'z) sys_scheme, unit) io" where
  "createNew fault target n =
     thenE (faultPoint fault)
       (\<lambda>s. if nodeAt s target = None then (Inr (), putNode target n s)
            else (Inl ''EEXIST: file already exists'', s))"

definition mkdirp :: "'w fault \<Rightarrow> string \<Rightarrow> nat \<Rightarrow> (('w, 'z) sys_scheme, unit) io" where
  "mkdirp fault target mode =
     thenE (faultPoint fault)
       (\<lambda>s. case nodeAt s target of
              None \<Rightarrow> (Inr (), putNode target (NDir mode 0) s)
            | Some (NDir _ _) \<Rightarrow> (Inr (), s)
            | Some _ \<Rightarrow> (Inl ''EEXIST: file already exists'', s))"

text \<open>\<^verbatim>\<open>rm(path, { recursive: true, force: true })\<close>\<close>

definition underPath :: "string \<Rightarrow> string \<Rightarrow> bool" where
  "underPath root path \<longleftrightarrow> path = root \<or> prefix (root @ ''/'') path"

definition removeTree :: "'w fault \<Rightarrow> string \<Rightarrow> (('w, 'z) sys_scheme, unit) io" where
  "removeTree fault path =
     thenE (faultPoint fault) (modS (\<lambda>s. s\<lparr>sys_fs := Mapping.filter (\<lambda>k _. \<not> underPath path k) (sys_fs s)\<rparr>))"

definition readText :: "'w fault \<Rightarrow> string \<Rightarrow> (('w, 'z) sys_scheme, string) io" where
  "readText fault path =
     thenE (faultPoint fault)
       (\<lambda>s. case nodeAt s path of
              Some (NFile _ t) \<Rightarrow> (Inr t, s)
            | _ \<Rightarrow> (Inl ''ENOENT: no such file or directory'', s))"

lemma normSegments_snoc:
  assumes "b \<noteq> []" "b \<noteq> ''.''" "b \<noteq> ''..''"
  shows "\<exists>zs. normSegments up acc (segs @ [b]) = zs @ [b]"
  using assms by (induction segs arbitrary: acc) (auto split: list.splits)

text \<open>A joined path ends in the name it was joined with, so files of different names are different
  files whatever directory they are in.\<close>

lemma pathJoin_last:
  assumes "b \<noteq> []" "b \<noteq> ''.''" "b \<noteq> ''..''" "CHR ''/'' \<notin> set b"
  shows "last (pathJoin a b) = last b"
proof -
  obtain zs where zs: "normSegments (\<not> isAbsolutePath (a @ ''/'' @ b)) [] (splitOn (CHR ''/'') (a @ ''/'' @ b)) = zs @ [b]"
    using normSegments_snoc [OF assms(1-3), of _ _ "splitOn (CHR ''/'') a"] assms(4)
    by (auto simp: splitOn_middle splitOn_eq_single)
  have "\<not> suffix ''/'' (a @ ''/'' @ b)"
    using assms(1,4) by (cases b rule: rev_cases) (auto simp: suffix_def)
  moreover have "joinWith ''/'' (zs @ [b]) \<noteq> []"
    using assms(1) by (cases "zs = []") (simp_all add: joinWith_snoc)
  ultimately show ?thesis
    using last_joinWith_snoc [OF assms(1), of "''/''" zs] zs
    by (simp add: pathJoin_def posixNormalize_def Let_def)
qed

section \<open>What the file operations keep\<close>

definition faultless :: "'w fault \<Rightarrow> bool" where
  "faultless fault \<longleftrightarrow> (\<forall>w. fst (fault w) = None)"

lemma faultPoint_faultless:
  "faultless fault \<Longrightarrow> faultPoint fault s = (r, s') \<Longrightarrow> r = Inr () \<and> (\<exists>w. s' = s\<lparr>sys_world := w\<rparr>)"
  unfolding faultless_def faultPoint_def
  by (cases "fault (sys_world s)") (auto split: option.splits dest: spec [of _ "sys_world s"])

lemma atomicWrite_faultless:
  "faultless fault \<Longrightarrow> atomicWrite fault target content s = (r, s') \<Longrightarrow>
   r = Inr () \<and> (\<exists>w. s' = putNode target (NFile 384 content) (s\<lparr>sys_world := w\<rparr>))"
  unfolding atomicWrite_def
  by (elim run_elims) (auto dest!: faultPoint_faultless simp: putNode_def)

lemma appendFile_faultless:
  "faultless fault \<Longrightarrow> appendFile fault target content s = (r, s') \<Longrightarrow>
   r = Inr () \<and> (\<exists>w. s' = putNode target
     (NFile (fileMode 384 (nodeAt s target)) (fileText (nodeAt s target) @ content)) (s\<lparr>sys_world := w\<rparr>))"
  unfolding appendFile_def
  by (elim run_elims) (auto dest!: faultPoint_faultless simp: putNode_def)

lemma createNew_faultless:
  "faultless fault \<Longrightarrow> createNew fault target n s = (r, s') \<Longrightarrow>
   (r = Inr () \<longleftrightarrow> nodeAt s target = None) \<and>
   (\<exists>w. s' = (if nodeAt s target = None then putNode target n (s\<lparr>sys_world := w\<rparr>) else s\<lparr>sys_world := w\<rparr>))"
  unfolding createNew_def
  by (elim run_elims) (auto dest!: faultPoint_faultless simp: putNode_def split: if_splits)

lemma removeTree_faultless:
  assumes "faultless fault"
  shows "\<exists>w. removeTree fault path s = (Inr (), s\<lparr>sys_world := w, sys_fs := Mapping.filter (\<lambda>k _. \<not> underPath path k) (sys_fs s)\<rparr>)"
proof -
  obtain r s' where m: "faultPoint fault s = (r, s')" by (cases "faultPoint fault s")
  from faultPoint_faultless [OF assms m] m show ?thesis by (auto simp: removeTree_def io_defs)
qed

lemma faultPoint_fs: "faultPoint f s = (r, s') \<Longrightarrow> sys_fs s' = sys_fs s"
  by (auto simp: faultPoint_def split: prod.splits option.splits)

lemma removeTree_fs:
  assumes "removeTree f path s = (r, s')"
  shows "sys_fs s' = (case r of Inl _ \<Rightarrow> sys_fs s | Inr _ \<Rightarrow> Mapping.filter (\<lambda>k _. \<not> underPath path k) (sys_fs s))"
  using assms unfolding removeTree_def by (elim thenE_elim) (simp_all add: faultPoint_fs)

lemma lookup_filter_key: "Mapping.lookup (Mapping.filter (\<lambda>k _. P k) m) q = (if P q then Mapping.lookup m q else None)"
  by (simp add: lookup_filter split: option.splits)

text \<open>The file operations change nothing but the store and the world: a predicate that reads
  neither is kept on every outcome.\<close>

definition frame :: "(('w, 'z) sys_scheme \<Rightarrow> bool) \<Rightarrow> bool" where
  "frame P \<longleftrightarrow> (\<forall>s fs w. P s \<longrightarrow> P (s\<lparr>sys_fs := fs, sys_world := w\<rparr>))"

lemma frame_world: "frame P \<Longrightarrow> P s \<Longrightarrow> P (s\<lparr>sys_world := w\<rparr>)"
  unfolding frame_def by (drule spec [of _ s], drule spec [of _ "sys_fs s"], drule spec [of _ w]) simp

lemma frame_fs: "frame P \<Longrightarrow> P s \<Longrightarrow> P (s\<lparr>sys_fs := fs\<rparr>)"
  unfolding frame_def by (drule spec [of _ s], drule spec [of _ fs], drule spec [of _ "sys_world s"]) simp

lemma frame_faultPoint [keeps_rules]: "frame P \<Longrightarrow> keeps P (faultPoint fault)"
  by (rule keepsI) (auto simp: faultPoint_def frame_world split: prod.splits option.splits)

lemma frame_step:
  assumes "frame P" and "\<And>s x s'. k s = (x, s') \<Longrightarrow> \<exists>fs. s' = s\<lparr>sys_fs := fs\<rparr>"
  shows "keeps P (thenE (faultPoint fault) k)"
proof (rule keeps_thenE [OF frame_faultPoint [OF assms(1)]])
  have "P s'" if "P s" "k s = (x, s')" for s x s'
    using assms(2) [OF that(2)] frame_fs [OF assms(1) that(1)] by auto
  then show "keeps P k"
    by (rule keepsI)
qed

lemma put_same_fs: "\<exists>fs. s = s\<lparr>sys_fs := fs\<rparr>"
  by (rule exI [of _ "sys_fs s"]) simp

lemma frame_atomicWrite [keeps_rules]: "frame P \<Longrightarrow> keeps P (atomicWrite fault p c)"
  unfolding atomicWrite_def by (rule frame_step) (auto simp: modS_def putNode_def)

lemma frame_appendFile [keeps_rules]: "frame P \<Longrightarrow> keeps P (appendFile fault p c)"
  unfolding appendFile_def by (rule frame_step) (auto simp: modS_def putNode_def)

lemma frame_createNew [keeps_rules]: "frame P \<Longrightarrow> keeps P (createNew fault p c)"
  unfolding createNew_def
  by (rule frame_step) (auto simp: putNode_def split: if_splits intro: put_same_fs)

lemma frame_mkdirp [keeps_rules]: "frame P \<Longrightarrow> keeps P (mkdirp fault p m)"
  unfolding mkdirp_def
  by (rule frame_step) (auto simp: putNode_def split: option.splits node.splits intro: put_same_fs)

lemma frame_readText [keeps_rules]: "frame P \<Longrightarrow> keeps P (readText fault p)"
  unfolding readText_def
  by (rule frame_step) (auto split: option.splits node.splits intro: put_same_fs)

lemma frame_useWorld [keeps_rules]: "frame P \<Longrightarrow> keeps P (useWorld f)"
  by (rule keepsI) (auto simp: useWorld_def frame_world split: prod.splits)

lemma frame_useWorldR [keeps_rules]: "frame P \<Longrightarrow> keeps P (useWorldR f)"
  by (rule keepsI) (auto simp: useWorldR_def frame_world split: prod.splits)

end
