(* ===== verification/Sha256.thy ===== *)
theory Sha256
  imports JsValue "HOL-Library.Word"
begin

text \<open>
  \<^verbatim>\<open>createHash("sha256").update(value).digest("hex")\<close> of \<^verbatim>\<open>node:crypto\<close>, which the sources use to bind
  plans, diffs, tasks and templates to what was checked: the SHA-256 function of FIPS 180-4 on the bytes
  of a string, in 32-bit words, and its lowercase hexadecimal form.
\<close>

unbundle bit_operations_syntax

type_synonym w32 = "32 word"

text \<open>The constants of the standard are the first 32 fractional bits of cube and square roots of the first
  primes; they are computed here from that description, with integer roots found bit by bit.\<close>

definition primesBelow :: "nat \<Rightarrow> nat list" where
  "primesBelow n = filter (\<lambda>p. list_all (\<lambda>d. p mod d \<noteq> 0) [2..<p]) [2..<n]"

fun rootBits :: "nat \<Rightarrow> nat \<Rightarrow> nat \<Rightarrow> nat \<Rightarrow> nat" where
  "rootBits k n 0 r = r"
| "rootBits k n (Suc b) r = rootBits k n b (if (r + 2 ^ b) ^ k \<le> n then r + 2 ^ b else r)"

definition fractionWord :: "nat \<Rightarrow> nat \<Rightarrow> w32" where
  "fractionWord k p = of_nat (rootBits k (p * 2 ^ (32 * k)) 36 0)"

definition roundConstants :: "w32 list" where
  "roundConstants = map (fractionWord 3) (primesBelow 312)"

definition initialHash :: "w32 list" where
  "initialHash = map (fractionWord 2) [2, 3, 5, 7, 11, 13, 17, 19]"

definition padMessage :: "nat list \<Rightarrow> nat list" where
  "padMessage bytes =
     (let n = length bytes in
      bytes @ [128] @ replicate ((119 - n mod 64) mod 64) 0 @
      map (\<lambda>i. (8 * n) div 256 ^ i mod 256) [7, 6, 5, 4, 3, 2, 1, 0])"

fun beWords :: "nat list \<Rightarrow> w32 list" where
  "beWords (a # b # c # d # bs) = of_nat (a * 16777216 + b * 65536 + c * 256 + d) # beWords bs"
| "beWords _ = []"

definition smallSigma0 :: "w32 \<Rightarrow> w32" where
  "smallSigma0 x = word_rotr 7 x XOR word_rotr 18 x XOR drop_bit 3 x"

definition smallSigma1 :: "w32 \<Rightarrow> w32" where
  "smallSigma1 x = word_rotr 17 x XOR word_rotr 19 x XOR drop_bit 10 x"

definition bigSigma0 :: "w32 \<Rightarrow> w32" where
  "bigSigma0 x = word_rotr 2 x XOR word_rotr 13 x XOR word_rotr 22 x"

definition bigSigma1 :: "w32 \<Rightarrow> w32" where
  "bigSigma1 x = word_rotr 6 x XOR word_rotr 11 x XOR word_rotr 25 x"

text \<open>The message schedule, latest word first.\<close>

fun extendSchedule :: "nat \<Rightarrow> w32 list \<Rightarrow> w32 list" where
  "extendSchedule 0 ws = ws"
| "extendSchedule (Suc n) ws =
     extendSchedule n ((smallSigma1 (ws ! 1) + ws ! 6 + smallSigma0 (ws ! 14) + ws ! 15) # ws)"

fun compressRound :: "w32 \<times> w32 \<Rightarrow> w32 list \<Rightarrow> w32 list" where
  "compressRound (k, w) [a, b, c, d, e, f, g, h] =
     (let t1 = h + bigSigma1 e + ((e AND f) XOR (NOT e AND g)) + k + w;
          t2 = bigSigma0 a + ((a AND b) XOR (a AND c) XOR (b AND c))
      in [t1 + t2, a, b, c, d + t1, e, f, g])"
| "compressRound _ st = st"

definition compressBlock :: "w32 list \<Rightarrow> w32 list \<Rightarrow> w32 list" where
  "compressBlock block st =
     map2 (+) st (fold compressRound (zip roundConstants (rev (extendSchedule 48 (rev block)))) st)"

fun compressBlocks :: "nat \<Rightarrow> w32 list \<Rightarrow> w32 list \<Rightarrow> w32 list" where
  "compressBlocks 0 ws st = st"
| "compressBlocks (Suc n) ws st = compressBlocks n (drop 16 ws) (compressBlock (take 16 ws) st)"

definition hexWord :: "w32 \<Rightarrow> string" where
  "hexWord w = map (\<lambda>i. hexDigit (unat w div 16 ^ i)) [7, 6, 5, 4, 3, 2, 1, 0]"

definition sha256 :: "string \<Rightarrow> string" where
  "sha256 s =
     (let ws = beWords (padMessage (map of_char s))
      in concat (map hexWord (compressBlocks (length ws div 16) ws initialHash)))"

lemma length_compressRound [simp]: "length (compressRound kw st) = length st"
  by (cases "(kw, st)" rule: compressRound.cases) (auto simp: Let_def)

lemma length_fold_compress [simp]: "length (fold compressRound kws st) = length st"
  by (induction kws arbitrary: st) auto

lemma length_compressBlocks [simp]: "length (compressBlocks n ws st) = length st"
  by (induction n ws st rule: compressBlocks.induct) (auto simp: compressBlock_def)

lemma hexDigit_lower: "isHexLower (hexDigit n)"
proof -
  have "list_all isHexLower ''0123456789abcdef''" by code_simp
  then show ?thesis by (simp add: list_all_length hexDigit_def)
qed

lemma sha256_hex: "length (sha256 s) = 64 \<and> list_all isHexLower (sha256 s)"
proof -
  have "length (concat (map hexWord ws)) = 8 * length ws" for ws
    by (induction ws) (auto simp: hexWord_def)
  moreover have "list_all isHexLower (concat (map hexWord ws))" for ws
    by (induction ws) (auto simp: hexWord_def hexDigit_lower)
  ultimately show ?thesis
    by (simp add: sha256_def Let_def initialHash_def)
qed

end
