(* ===== verification/Workflow_Run.thy ===== *)
theory Workflow_Run
  imports Workflow_Contract FileSystem Sha256
begin

text \<open>
  The controller loop of \<^verbatim>\<open>src/src/workflow.mjs\<close>: \<open>runWorkflow\<close>, its event log and its deadline.

  The ports of the run (clock, calendar, role runner, verifier, publisher, disk faults) are
  functions on an arbitrary world; nothing is assumed about them unless a theorem says so.  The
  state keeps, next to the program's own variables, the list of calls made to the runner, the
  verifier and the publisher with their arguments and answers, so that statements about ordering are
  statements about that list.

  The \<^verbatim>\<open>for\<close> loop over steps is recursion on the number of steps left, \<open>maxSteps\<close> at the start.
\<close>

section \<open>State and ports\<close>

record roleCall =
  rc_role :: jsval
  rc_step :: nat
  rc_attempt :: nat
  rc_write :: bool
  rc_prompt :: string
  rc_timeout :: int

datatype call =
    RunRole roleCall "(err \<times> jsval) + jsval"
  | Verify int "jsval res"
  | Publish int "jsval res"

record 'w wfPorts =
  wp_clock :: "'w \<Rightarrow> jsval \<times> 'w"
  wp_now :: "'w \<Rightarrow> string res \<times> 'w"
  wp_fault :: "'w fault"
  wp_runRole :: "roleCall \<Rightarrow> 'w \<Rightarrow> ((err \<times> jsval) + jsval) \<times> 'w"
  wp_verify :: "int \<Rightarrow> 'w \<Rightarrow> jsval res \<times> 'w"
  wp_publish :: "int \<Rightarrow> 'w \<Rightarrow> jsval res \<times> 'w"

record wfArgs =
  wa_workflow :: jsval
  wa_prompts :: jsval
  wa_templateDigest :: jsval
  wa_task :: jsval
  wa_stateRoot :: string
  wa_workspace :: string
  wa_runId :: string
  wa_model :: string
  wa_agentRuntime :: string
  wa_imageDigest :: string
  wa_deadlineAt :: jsval

record 'w wfState = "'w sys" +
  ws_events :: "jsval list"
  ws_sequence :: nat
  ws_calls :: "call list"

type_synonym ('w, 'a) wf = "('w wfState, 'a) io"

section \<open>The event log\<close>

definition nat2js :: "nat \<Rightarrow> jsval" where
  "nat2js n = JNum (NInt (int n))"

definition runDirOf :: "wfArgs \<Rightarrow> string" where
  "runDirOf a = pathJoin (wa_stateRoot a) (wa_runId a)"

definition eventBase :: "wfArgs \<Rightarrow> nat \<Rightarrow> string \<Rightarrow> string \<Rightarrow> jsobj" where
  "eventBase a seq timestamp type =
     [(''version'', nat2js 1), (''sequence'', nat2js seq), (''timestamp'', JStr timestamp),
      (''runId'', JStr (wa_runId a)), (''type'', JStr type)]"

definition record_event :: "'w wfPorts \<Rightarrow> wfArgs \<Rightarrow> string \<Rightarrow> jsobj \<Rightarrow> ('w, unit) wf" where
  "record_event p a type details =
     thenE (modS (\<lambda>s. s\<lparr>ws_sequence := Suc (ws_sequence s)\<rparr>))
     (bindE (getS ws_sequence) (\<lambda>seq.
      bindE (useWorldR (wp_now p)) (\<lambda>timestamp.
      let event = JObj (spread (eventBase a seq timestamp type) details) in
      thenE (modS (\<lambda>s. s\<lparr>ws_events := ws_events s @ [event]\<rparr>))
      (thenE (appendFile (wp_fault p) (pathJoin (runDirOf a) ''events.jsonl'') (stringify event @ newline))
      (bindE (getS ws_events) (\<lambda>events.
       atomicWrite (wp_fault p) (pathJoin (runDirOf a) ''CHANGELOG.md'') (renderChangelog events)))))))"

section \<open>The deadline\<close>

text \<open>A finite clock value as a fraction with a positive denominator; the arithmetic on it is exact.\<close>

fun fracOf :: "jsval \<Rightarrow> int \<times> int" where
  "fracOf (JNum (NInt i)) = (i, 1)"
| "fracOf (JNum (NFrac n d _)) = (n, d)"
| "fracOf _ = (0, 1)"

definition remainingSeconds :: "int \<times> int \<Rightarrow> jsval \<Rightarrow> int \<Rightarrow> int res" where
  "remainingSeconds deadlineAt current minimum =
     (let (dn, dd) = deadlineAt; (cn, cd) = fracOf current;
          remaining = dn * cd - cn * dd;
          seconds = - ((- remaining) div (1000 * (dd * cd))) in
      bindR (checks
        [require (isFiniteNumber current) ''clock must return a finite millisecond timestamp'',
         require (remaining > 0) ''workflow timeout reached'',
         require (seconds \<ge> minimum) ''workflow timeout reached''])
      (\<lambda>_. Inr seconds))"

definition remainingTimeoutSeconds :: "'w wfPorts \<Rightarrow> int \<times> int \<Rightarrow> int \<Rightarrow> ('w, int) wf" where
  "remainingTimeoutSeconds p deadlineAt minimum =
     bindE (useWorld (wp_clock p)) (\<lambda>current. liftR (remainingSeconds deadlineAt current minimum))"

section \<open>One step\<close>

definition rolesOf :: "wfArgs \<Rightarrow> jsval" where
  "rolesOf a = fld (wa_workflow a) ''roles''"

definition roleOf :: "wfArgs \<Rightarrow> jsval \<Rightarrow> jsval" where
  "roleOf a active = fld (rolesOf a) (toStr active)"

definition accessText :: "bool \<Rightarrow> string" where
  "accessText w = (if w then ''write'' else ''read'')"

definition callRunRole :: "'w wfPorts \<Rightarrow> roleCall \<Rightarrow> ('w, (err \<times> jsval) + jsval) wf" where
  "callRunRole p c =
     bindE (useWorld (wp_runRole p c)) (\<lambda>r.
     thenE (modS (\<lambda>s. s\<lparr>ws_calls := ws_calls s @ [RunRole c r]\<rparr>)) (ret r))"

text \<open>The inner \<^verbatim>\<open>try\<close>: a failure is the message with the \<^verbatim>\<open>runtime\<close> value that
  \<^verbatim>\<open>result?.runtime ?? error?.runtime\<close> selects; a success is the result and its validated receipt.\<close>

definition notNullish :: "jsval \<Rightarrow> bool" where
  "notNullish v = (v \<noteq> JUndef \<and> v \<noteq> JNull)"

definition checkResult ::
  "'w wfPorts \<Rightarrow> wfArgs \<Rightarrow> int \<times> int \<Rightarrow> jsval \<Rightarrow> jsval \<Rightarrow> ('w, (err \<times> jsval) + (jsval \<times> jsval)) wf" where
  "checkResult p a deadlineAt active result =
     catchE
       (thenE (remainingTimeoutSeconds p deadlineAt 1)
        (thenE (liftR (assertPlainObject result ''role result''))
         (bindE (liftR (validateReceipt (fld result ''receipt'') (roleOf a active)))
           (\<lambda>receipt. ret (Inr (result, receipt))))))
       (\<lambda>e. ret (Inl (e, if notNullish (fld result ''runtime'') then fld result ''runtime'' else JUndef)))"

definition attemptRole ::
  "'w wfPorts \<Rightarrow> wfArgs \<Rightarrow> int \<times> int \<Rightarrow> jsval \<Rightarrow> nat \<Rightarrow> nat \<Rightarrow> string \<Rightarrow> ('w, (err \<times> jsval) + (jsval \<times> jsval)) wf" where
  "attemptRole p a deadlineAt active step attempt prompt =
     catchE
       (bindE (remainingTimeoutSeconds p deadlineAt 10) (\<lambda>left.
        bindE (callRunRole p
          \<lparr>rc_role = active, rc_step = step, rc_attempt = attempt,
           rc_write = truthy (fld (roleOf a active) ''write''), rc_prompt = prompt,
           rc_timeout = min (intOf (fld (fld (wa_workflow a) ''timeouts'') ''stepSeconds'')) left\<rparr>) (\<lambda>answer.
        case answer of
          Inl er \<Rightarrow> ret (Inl er)
        | Inr result \<Rightarrow> checkResult p a deadlineAt active result)))
       (\<lambda>e. ret (Inl (e, JUndef)))"

definition callVerify :: "'w wfPorts \<Rightarrow> int \<Rightarrow> ('w, jsval) wf" where
  "callVerify p t =
     bindE (useWorld (wp_verify p t)) (\<lambda>r.
     thenE (modS (\<lambda>s. s\<lparr>ws_calls := ws_calls s @ [Verify t r]\<rparr>)) (liftR r))"

definition callPublish :: "'w wfPorts \<Rightarrow> int \<Rightarrow> ('w, jsval) wf" where
  "callPublish p t =
     bindE (useWorld (wp_publish p t)) (\<lambda>r.
     thenE (modS (\<lambda>s. s\<lparr>ws_calls := ws_calls s @ [Publish t r]\<rparr>)) (liftR r))"

definition verifyRun :: "'w wfPorts \<Rightarrow> wfArgs \<Rightarrow> int \<times> int \<Rightarrow> ('w, unit) wf" where
  "verifyRun p a deadlineAt =
     bindE (remainingTimeoutSeconds p deadlineAt 1) (\<lambda>t.
     bindE (callVerify p t) (\<lambda>v.
     bindE (liftR (validateVerification v)) (\<lambda>verification.
     thenE (remainingTimeoutSeconds p deadlineAt 1)
     (thenE (record_event p a ''verification.finished'' (props verification))
       (liftR (require (fld verification ''status'' = JStr ''passed'') ''deterministic verification failed''))))))"

definition publishVerified :: "'w wfPorts \<Rightarrow> wfArgs \<Rightarrow> int \<times> int \<Rightarrow> nat \<Rightarrow> ('w, jsval) wf" where
  "publishVerified p a deadlineAt step =
     bindE (remainingTimeoutSeconds p deadlineAt 1) (\<lambda>t.
     bindE (callPublish p t) (\<lambda>u.
     bindE (liftR (validatePublication u)) (\<lambda>publication.
     thenE (record_event p a ''publication.finished'' (props publication))
     (thenE (record_event p a ''run.finished'' [(''status'', JStr ''completed''), (''steps'', nat2js step)])
       (ret (JObj [(''runId'', JStr (wa_runId a)), (''runDir'', JStr (runDirOf a)),
                   (''status'', JStr ''completed''), (''steps'', nat2js step),
                   (''url'', fld publication ''url'')]))))))"

definition finishRun :: "'w wfPorts \<Rightarrow> wfArgs \<Rightarrow> int \<times> int \<Rightarrow> nat \<Rightarrow> ('w, jsval) wf" where
  "finishRun p a deadlineAt step =
     thenE (verifyRun p a deadlineAt) (publishVerified p a deadlineAt step)"

text \<open>One iteration up to the choice of the next role, in three parts: from the deadline check to the
  \<^verbatim>\<open>role.started\<close> event, the inner \<^verbatim>\<open>try\<close>, and the event that records its outcome.\<close>

definition startStep ::
  "'w wfPorts \<Rightarrow> wfArgs \<Rightarrow> int \<times> int \<Rightarrow> string \<Rightarrow> nat \<Rightarrow> jsval \<Rightarrow> nat \<Rightarrow> ('w, string) wf" where
  "startStep p a deadlineAt previous step active attempt =
     (let role = roleOf a active in
      thenE (remainingTimeoutSeconds p deadlineAt 1)
      (bindE (getS ws_events) (\<lambda>events.
       bindE (liftR (buildPrompt (toStr active) (strOf (fld (wa_prompts a) (toStr active)))
                (strOf (wa_task a)) previous events (jsKeys (fld role ''on'')))) (\<lambda>prompt.
       thenE (record_event p a ''role.started''
                [(''role'', active), (''step'', nat2js step), (''attempt'', nat2js attempt),
                 (''access'', JStr (accessText (truthy (fld role ''write''))))])
         (ret prompt)))))"

definition settleStep ::
  "'w wfPorts \<Rightarrow> wfArgs \<Rightarrow> nat \<Rightarrow> jsval \<Rightarrow> nat \<Rightarrow> (err \<times> jsval) + (jsval \<times> jsval) \<Rightarrow> ('w, jsval) wf" where
  "settleStep p a step active attempt outcome =
     (case outcome of
        Inl (e, runtime) \<Rightarrow>
          thenE (record_event p a ''role.failed''
                   [(''role'', active), (''step'', nat2js step), (''attempt'', nat2js attempt),
                    (''reason'', JStr (safeReason e)), (''runtime'', runtimeFields runtime)])
            (throwE e)
      | Inr (result, receipt) \<Rightarrow>
          thenE (record_event p a ''role.finished''
                   (spread (spread [(''role'', active), (''step'', nat2js step), (''attempt'', nat2js attempt)]
                              (props receipt))
                      [(''runtime'', runtimeFields (fld result ''runtime''))]))
            (ret receipt))"

definition runStep ::
  "'w wfPorts \<Rightarrow> wfArgs \<Rightarrow> int \<times> int \<Rightarrow> string \<Rightarrow> nat \<Rightarrow> jsval \<Rightarrow> nat \<Rightarrow> ('w, jsval) wf" where
  "runStep p a deadlineAt previous step active attempt =
     bindE (startStep p a deadlineAt previous step active attempt) (\<lambda>prompt.
     bindE (attemptRole p a deadlineAt active step attempt prompt) (\<lambda>outcome.
     settleStep p a step active attempt outcome))"

fun stepLoop ::
  "'w wfPorts \<Rightarrow> wfArgs \<Rightarrow> int \<times> int \<Rightarrow> string \<Rightarrow> nat \<Rightarrow> nat \<Rightarrow> jsval \<Rightarrow> (jsval \<Rightarrow> nat) \<Rightarrow> ('w, jsval) wf" where
  "stepLoop p a deadlineAt previous 0 step active attempts =
     throwE (''maxSteps '' @ decInt (intOf (fld (wa_workflow a) ''maxSteps'')) @ '' reached'')"
| "stepLoop p a deadlineAt previous (Suc left) step active attempts =
     (let attempt = attempts active + 1 in
      bindE (runStep p a deadlineAt previous step active attempt) (\<lambda>receipt.
      let next = fld (fld (roleOf a active) ''on'') (strOf (fld receipt ''outcome'')) in
      if next = JStr ''done'' then finishRun p a deadlineAt step
      else stepLoop p a deadlineAt previous left (step + 1) next (attempts(active := attempt))))"

section \<open>The whole run\<close>

definition previousHistory :: "'w wfPorts \<Rightarrow> string \<Rightarrow> ('w, jsval \<times> string) wf" where
  "previousHistory p stateRoot =
     catchE
       (bindE (readText (wp_fault p) (pathJoin stateRoot ''latest'')) (\<lambda>raw.
        let previousRunId = trim raw in
        if \<not> reRunId previousRunId then ret (JNull, ''None.'')
        else bindE (readText (wp_fault p) (pathJoin (pathJoin stateRoot previousRunId) ''CHANGELOG.md'')) (\<lambda>changelog.
             ret (JStr previousRunId, truncateHistory changelog (int maxPreviousHistoryBytes)))))
       (\<lambda>_. ret (JNull, ''None.''))"

definition checkArgs :: "wfArgs \<Rightarrow> unit res" where
  "checkArgs a =
     checks
       [bindR (validateWorkflow (wa_workflow a)) (\<lambda>_. Inr ()),
        assertText (wa_task a) ''task'' (64 * 1024),
        require (reRunId (wa_runId a)) ''invalid run ID'',
        require (isPlainObject (wa_prompts a) \<and>
                 list_all (\<lambda>role. isString (fld (wa_prompts a) role)) (jsKeys (rolesOf a)))
          ''prompts must contain every workflow role'']"

definition deadlineFor :: "wfArgs \<Rightarrow> jsval \<Rightarrow> (int \<times> int) res" where
  "deadlineFor a invokedAt =
     (let (n, d) = fracOf invokedAt;
          maximum = n + intOf (fld (fld (wa_workflow a) ''timeouts'') ''workflowSeconds'') * 1000 * d;
          supplied = wa_deadlineAt a in
      bindR (checks
        [require (isFiniteNumber invokedAt) ''clock must return a finite millisecond timestamp'',
         require (supplied = JUndef \<or> (isSafeInteger supplied \<and> 0 \<le> intOf supplied))
           ''deadlineAt must be a non-negative safe integer millisecond timestamp'',
         require (supplied = JUndef \<or> intOf supplied * d \<le> maximum)
           ''deadlineAt cannot extend the workflow timeout''])
      (\<lambda>_. Inr (if supplied = JUndef then (maximum, d) else (intOf supplied, 1))))"

definition orUnspecified :: "jsval \<Rightarrow> jsval" where
  "orUnspecified v = (if notNullish v then v else JStr ''unspecified'')"

definition prepareRun :: "'w wfPorts \<Rightarrow> wfArgs \<Rightarrow> ('w, string) wf" where
  "prepareRun p a =
     thenE (mkdirp (wp_fault p) (wa_stateRoot a) 448)
     (thenE (mkdirp (wp_fault p) (wa_workspace a) 448)
     (bindE (previousHistory p (wa_stateRoot a)) (\<lambda>(previousRunId, changelog).
      thenE (createNew (wp_fault p) (runDirOf a) (NDir 448 0))
      (thenE (createNew (wp_fault p) (pathJoin (runDirOf a) ''events.jsonl'') (NFile 384 []))
      (thenE (record_event p a ''run.started''
         [(''template'', fld (wa_workflow a) ''name''), (''templateDigest'', orUnspecified (wa_templateDigest a)),
          (''taskSha256'', JStr (sha256 (strOf (wa_task a)))), (''previousRunId'', previousRunId),
          (''model'', JStr (wa_model a)), (''agentRuntime'', JStr (wa_agentRuntime a)),
          (''imageDigest'', JStr (wa_imageDigest a))])
      (ret changelog))))))"

definition runSteps :: "'w wfPorts \<Rightarrow> wfArgs \<Rightarrow> int \<times> int \<Rightarrow> string \<Rightarrow> ('w, jsval) wf" where
  "runSteps p a deadlineAt previous =
     catchE
       (thenE (atomicWrite (wp_fault p) (pathJoin (wa_stateRoot a) ''latest'') (wa_runId a @ newline))
         (stepLoop p a deadlineAt previous (nat (intOf (fld (wa_workflow a) ''maxSteps''))) 1
            (fld (wa_workflow a) ''start'') (\<lambda>_. 0)))
       (\<lambda>e. thenE (record_event p a ''run.failed''
                     [(''status'', JStr ''failed''), (''reason'', JStr (safeReason e))])
              (throwE e))"

definition runWorkflow :: "'w wfPorts \<Rightarrow> wfArgs \<Rightarrow> ('w, jsval) wf" where
  "runWorkflow p a =
     thenE (liftR (checkArgs a))
     (bindE (useWorld (wp_clock p)) (\<lambda>invokedAt.
      bindE (liftR (deadlineFor a invokedAt)) (\<lambda>deadlineAt.
      bindE (prepareRun p a) (\<lambda>previous.
      runSteps p a deadlineAt previous))))"

section \<open>The protocol of calls\<close>

text \<open>
  The abstract contract of a run, as the sequences of calls it may make.  From step \<open>step\<close> with
  role \<open>active\<close>, a run makes no call, or runs the role and stops, or runs it, accepts its receipt
  and goes on to the role that the receipt's outcome selects; when that is \<^verbatim>\<open>done\<close>, it verifies, and it
  publishes only after the verification passed.
\<close>

definition okCall :: "wfArgs \<Rightarrow> nat \<Rightarrow> jsval \<Rightarrow> nat \<Rightarrow> roleCall \<Rightarrow> bool" where
  "okCall a step active attempt c \<longleftrightarrow>
     rc_role c = active \<and> rc_step c = step \<and> rc_attempt c = attempt \<and>
     rc_write c = truthy (fld (roleOf a active) ''write'') \<and>
     rc_timeout c \<le> intOf (fld (fld (wa_workflow a) ''timeouts'') ''stepSeconds'') \<and>
     min 10 (intOf (fld (fld (wa_workflow a) ''timeouts'') ''stepSeconds'')) \<le> rc_timeout c \<and>
     byteLength (rc_prompt c) \<le> maxAgentPromptBytes"

definition nextRole :: "wfArgs \<Rightarrow> jsval \<Rightarrow> jsval \<Rightarrow> jsval" where
  "nextRole a active receipt = fld (fld (roleOf a active) ''on'') (strOf (fld receipt ''outcome''))"

definition accepted :: "wfArgs \<Rightarrow> jsval \<Rightarrow> jsval \<Rightarrow> jsval \<Rightarrow> bool" where
  "accepted a active result receipt \<longleftrightarrow>
     isPlainObject result \<and> validateReceipt (fld result ''receipt'') (roleOf a active) = Inr receipt"

definition passed :: "jsval \<Rightarrow> bool" where
  "passed v \<longleftrightarrow> verificationSpec v \<and> fld v ''status'' = JStr ''passed''"

inductive finishCalls :: "call list \<Rightarrow> bool" where
  no_verify: "finishCalls []"
| verify_only: "1 \<le> t \<Longrightarrow> finishCalls [Verify t r]"
| verify_publish: "1 \<le> t \<Longrightarrow> 1 \<le> t' \<Longrightarrow> passed v \<Longrightarrow> finishCalls [Verify t (Inr v), Publish t' u]"

inductive runCalls :: "wfArgs \<Rightarrow> nat \<Rightarrow> jsval \<Rightarrow> (jsval \<Rightarrow> nat) \<Rightarrow> call list \<Rightarrow> bool" for a where
  stop: "runCalls a step active attempts []"
| ran: "okCall a step active (attempts active + 1) c \<Longrightarrow>
    runCalls a step active attempts [RunRole c answer]"
| more: "okCall a step active (attempts active + 1) c \<Longrightarrow> accepted a active result receipt \<Longrightarrow>
    nextRole a active receipt \<noteq> JStr ''done'' \<Longrightarrow>
    runCalls a (step + 1) (nextRole a active receipt) (attempts(active := attempts active + 1)) cs \<Longrightarrow>
    runCalls a step active attempts (RunRole c (Inr result) # cs)"
| finish: "okCall a step active (attempts active + 1) c \<Longrightarrow> accepted a active result receipt \<Longrightarrow>
    nextRole a active receipt = JStr ''done'' \<Longrightarrow> finishCalls cs \<Longrightarrow>
    runCalls a step active attempts (RunRole c (Inr result) # cs)"

inductive_cases runCallsE: "runCalls a step active attempts cs"
inductive_simps finishCalls_simps: "finishCalls cs"

fun isRoleCall :: "call \<Rightarrow> bool" where
  "isRoleCall (RunRole _ _) = True"
| "isRoleCall _ = False"

definition completedCalls :: "call list \<Rightarrow> bool" where
  "completedCalls cs \<longleftrightarrow>
     (\<exists>rs t v t' u. cs = rs @ [Verify t (Inr v), Publish t' (Inr u)] \<and> passed v)"

lemma frame_calls: "frame (\<lambda>s. ws_calls s = cs)"
  by (simp add: frame_def)

lemma calls_record_event [keeps_rules]: "keeps (\<lambda>s. ws_calls s = cs) (record_event p a type details)"
  unfolding record_event_def Let_def by (intro keeps_rules frame_calls) simp_all

lemma remainingSeconds_Inr: "remainingSeconds d c m = Inr t \<Longrightarrow> m \<le> t"
  by (cases d; cases "fracOf c") (auto simp: remainingSeconds_def Let_def res_simps)

lemma record_calls: "record_event p a t ds s = (r, s') \<Longrightarrow> ws_calls s' = ws_calls s"
  using calls_record_event by (rule keepsD) auto

lemma remaining_calls:
  "remainingTimeoutSeconds p d m s = (r, s') \<Longrightarrow> ws_calls s' = ws_calls s \<and> (\<forall>t. r = Inr t \<longrightarrow> m \<le> t)"
  by (auto simp: remainingTimeoutSeconds_def useWorld_def elim!: bindE_elim split: prod.splits
      dest: remainingSeconds_Inr)

lemma callRunRole_calls:
  "callRunRole p c s = (r, s') \<Longrightarrow> \<exists>answer. r = Inr answer \<and> ws_calls s' = ws_calls s @ [RunRole c answer]"
  by (auto simp: callRunRole_def useWorld_def elim!: run_elims split: prod.splits)

lemma callVerify_calls: "callVerify p t s = (r, s') \<Longrightarrow> ws_calls s' = ws_calls s @ [Verify t r]"
  by (auto simp: callVerify_def useWorld_def elim!: run_elims split: prod.splits)

lemma callPublish_calls: "callPublish p t s = (r, s') \<Longrightarrow> ws_calls s' = ws_calls s @ [Publish t r]"
  by (auto simp: callPublish_def useWorld_def elim!: run_elims split: prod.splits)

lemma startStep_calls:
  "startStep p a d previous step active attempt s = (r, s') \<Longrightarrow>
   ws_calls s' = ws_calls s \<and> (\<forall>prompt. r = Inr prompt \<longrightarrow> byteLength prompt \<le> maxAgentPromptBytes)"
  unfolding startStep_def Let_def
  by (elim run_elims) (auto dest!: record_calls remaining_calls simp: buildPrompt_def Let_def res_simps)

lemma settleStep_calls:
  "settleStep p a step active attempt out s = (r, s') \<Longrightarrow>
   ws_calls s' = ws_calls s \<and> (\<forall>receipt. r = Inr receipt \<longrightarrow> (\<exists>result. out = Inr (result, receipt)))"
  unfolding settleStep_def
  by (auto elim!: run_elims dest!: record_calls split: sum.splits prod.splits)

lemma checkResult_calls:
  "checkResult p a d active result s = (r, s') \<Longrightarrow>
   ws_calls s' = ws_calls s \<and> (\<exists>out. r = Inr out \<and>
     (\<forall>res receipt. out = Inr (res, receipt) \<longrightarrow> res = result \<and> accepted a active result receipt))"
  unfolding checkResult_def
  by (auto elim!: run_elims dest!: remaining_calls simp: accepted_def res_simps)

lemma okCall_make:
  assumes "10 \<le> left" and "byteLength prompt \<le> maxAgentPromptBytes"
  shows "okCall a step active attempt \<lparr>rc_role = active, rc_step = step, rc_attempt = attempt,
           rc_write = truthy (fld (roleOf a active) ''write''), rc_prompt = prompt,
           rc_timeout = min (intOf (fld (fld (wa_workflow a) ''timeouts'') ''stepSeconds'')) left\<rparr>"
  using assms by (auto simp: okCall_def)

lemma attemptRole_calls:
  assumes run: "attemptRole p a d active step attempt prompt s = (r, s')"
    and prompt: "byteLength prompt \<le> maxAgentPromptBytes"
  shows "\<exists>out. r = Inr out \<and>
     (ws_calls s' = ws_calls s \<and> (\<exists>e. out = Inl e) \<or>
      (\<exists>c answer. ws_calls s' = ws_calls s @ [RunRole c answer] \<and> okCall a step active attempt c \<and>
         (\<forall>result receipt. out = Inr (result, receipt) \<longrightarrow> answer = Inr result \<and> accepted a active result receipt)))"
  using run unfolding attemptRole_def
proof (cases rule: catchE_elim)
  case (return x)
  let ?c = "\<lambda>left. \<lparr>rc_role = active, rc_step = step, rc_attempt = attempt,
           rc_write = truthy (fld (roleOf a active) ''write''), rc_prompt = prompt,
           rc_timeout = min (intOf (fld (fld (wa_workflow a) ''timeouts'') ''stepSeconds'')) left\<rparr>"
  from return(1) obtain left s1 answer s2 where left: "remainingTimeoutSeconds p d 10 s = (Inr left, s1)"
    and call: "callRunRole p (?c left) s1 = (Inr answer, s2)"
    and rest: "(case answer of Inl er \<Rightarrow> ret (Inl er) | Inr result \<Rightarrow> checkResult p a d active result) s2 = (Inr x, s')"
    by (auto elim!: bindE_elim)
  have calls: "ws_calls s2 = ws_calls s @ [RunRole (?c left) answer]"
    using remaining_calls [OF left] callRunRole_calls [OF call] by auto
  have ok: "okCall a step active attempt (?c left)"
    using remaining_calls [OF left] prompt by (intro okCall_make) auto
  have "ws_calls s' = ws_calls s2 \<and> (\<forall>result receipt. x = Inr (result, receipt) \<longrightarrow>
      answer = Inr result \<and> accepted a active result receipt)"
    using rest by (cases answer) (auto dest!: checkResult_calls)
  then show ?thesis using return(2) calls ok by auto
next
  case (handle e s1)
  then have "ws_calls s1 = ws_calls s"
    by (auto elim!: bindE_elim dest!: remaining_calls callRunRole_calls checkResult_calls split: sum.splits)
  with handle show ?thesis by simp
qed

lemma runStep_calls:
  assumes "runStep p a d previous step active attempt s = (r, s')"
  shows "(\<exists>e. r = Inl e) \<and> ws_calls s' = ws_calls s \<or>
    (\<exists>c answer. ws_calls s' = ws_calls s @ [RunRole c answer] \<and> okCall a step active attempt c \<and>
       (\<forall>receipt. r = Inr receipt \<longrightarrow> (\<exists>result. answer = Inr result \<and> accepted a active result receipt)))"
  using assms unfolding runStep_def
proof (cases rule: bindE_elim)
  case (throw e)
  then show ?thesis by (auto dest!: startStep_calls)
next
  case (continue prompt s1)
  then have start: "ws_calls s1 = ws_calls s" "byteLength prompt \<le> maxAgentPromptBytes"
    by (auto dest!: startStep_calls)
  from continue(2) obtain out s2 where
    attempt: "attemptRole p a d active step attempt prompt s1 = (Inr out, s2)"
    and settle: "settleStep p a step active attempt out s2 = (r, s')"
    by (cases rule: bindE_elim) (auto dest: attemptRole_calls [OF _ start(2)])
  have "ws_calls s' = ws_calls s2"
    and "\<forall>receipt. r = Inr receipt \<longrightarrow> (\<exists>result. out = Inr (result, receipt))"
    using settleStep_calls [OF settle] by auto
  moreover from attemptRole_calls [OF attempt start(2)]
  consider e where "ws_calls s2 = ws_calls s1" "out = Inl e"
    | c answer where "ws_calls s2 = ws_calls s1 @ [RunRole c answer]" "okCall a step active attempt c"
        "\<forall>result receipt. out = Inr (result, receipt) \<longrightarrow> answer = Inr result \<and> accepted a active result receipt"
    by blast
  ultimately show ?thesis
    using start(1) by cases (cases r; fastforce)+
qed

lemma verifyRun_calls:
  assumes "verifyRun p a d s = (r, s')"
  shows "(\<exists>e. r = Inl e) \<and> ws_calls s' = ws_calls s \<or>
    (\<exists>t q. ws_calls s' = ws_calls s @ [Verify t q] \<and> 1 \<le> t \<and> (r = Inr () \<longrightarrow> (\<exists>v. q = Inr v \<and> passed v)))"
  using assms unfolding verifyRun_def
  by (elim run_elims)
    (auto dest!: remaining_calls record_calls callVerify_calls verification_gate.accepted
      simp: passed_def res_simps)

lemma publishVerified_calls:
  assumes "publishVerified p a d step s = (r, s')"
  shows "(\<exists>e. r = Inl e) \<and> ws_calls s' = ws_calls s \<or>
    (\<exists>t q. ws_calls s' = ws_calls s @ [Publish t q] \<and> 1 \<le> t \<and> (\<forall>x. r = Inr x \<longrightarrow> (\<exists>u. q = Inr u)))"
  using assms unfolding publishVerified_def
  by (elim run_elims) (auto dest!: remaining_calls record_calls callPublish_calls)

lemma finishRun_calls:
  assumes "finishRun p a d step s = (r, s')"
  shows "\<exists>cs. ws_calls s' = ws_calls s @ cs \<and> finishCalls cs \<and> (\<forall>x. r = Inr x \<longrightarrow> completedCalls cs)"
  using assms unfolding finishRun_def
proof (elim thenE_elim)
  fix e assume "verifyRun p a d s = (Inl e, s')" and "r = Inl e"
  then show ?thesis
    by (auto dest!: verifyRun_calls intro: finishCalls.intros)
next
  fix u s1 assume "verifyRun p a d s = (Inr u, s1)" and pub: "publishVerified p a d step s1 = (r, s')"
  then obtain t v where v: "ws_calls s1 = ws_calls s @ [Verify t (Inr v)]" "1 \<le> t" "passed v"
    by (auto dest!: verifyRun_calls)
  from publishVerified_calls [OF pub] show ?thesis
  proof (elim disjE exE conjE)
    fix t' q assume "ws_calls s' = ws_calls s1 @ [Publish t' q]" "1 \<le> t'" "\<forall>x. r = Inr x \<longrightarrow> (\<exists>u. q = Inr u)"
    then show ?thesis
      using v by (intro exI [of _ "[Verify t (Inr v), Publish t' q]"])
        (auto intro: finishCalls.intros simp: completedCalls_def)
  qed (use v in \<open>auto intro: finishCalls.intros\<close>)
qed

lemma stepLoop_calls:
  assumes "stepLoop p a d previous left step active attempts s = (r, s')"
  shows "\<exists>cs. ws_calls s' = ws_calls s @ cs \<and> runCalls a step active attempts cs \<and>
           length (filter isRoleCall cs) \<le> left \<and> (\<forall>x. r = Inr x \<longrightarrow> completedCalls cs)"
  using assms
proof (induction left arbitrary: step active attempts s)
  case 0
  then show ?case by (auto intro: runCalls.intros)
next
  case (Suc left)
  let ?att = "attempts active + 1"
  from Suc.prems consider
      (throw) e where "runStep p a d previous step active ?att s = (Inl e, s')" "r = Inl e"
    | (go) receipt s1 where "runStep p a d previous step active ?att s = (Inr receipt, s1)"
        "(if nextRole a active receipt = JStr ''done'' then finishRun p a d step
          else stepLoop p a d previous left (step + 1) (nextRole a active receipt) (attempts(active := ?att))) s1 = (r, s')"
    unfolding stepLoop.simps Let_def nextRole_def [symmetric] by (elim bindE_elim) auto
  then show ?case
  proof cases
    case throw
    then show ?thesis by (fastforce dest!: runStep_calls intro: runCalls.intros)
  next
    case go
    then obtain c result where c: "ws_calls s1 = ws_calls s @ [RunRole c (Inr result)]"
      "okCall a step active ?att c" "accepted a active result receipt"
      by (fastforce dest!: runStep_calls)
    show ?thesis
    proof (cases "nextRole a active receipt = JStr ''done''")
      case True
      with go obtain cs where "ws_calls s' = ws_calls s1 @ cs" "finishCalls cs"
          "\<forall>x. r = Inr x \<longrightarrow> completedCalls cs"
        by (auto dest!: finishRun_calls)
      then show ?thesis
        using c True by (intro exI [of _ "RunRole c (Inr result) # cs"])
          (auto intro: runCalls.finish simp: completedCalls_def finishCalls_simps intro!: exI [of _ "RunRole c (Inr result) # _"])
    next
      case False
      with go obtain cs where cs: "ws_calls s' = ws_calls s1 @ cs"
          "runCalls a (step + 1) (nextRole a active receipt) (attempts(active := ?att)) cs"
          "length (filter isRoleCall cs) \<le> left" "\<forall>x. r = Inr x \<longrightarrow> completedCalls cs"
        using Suc.IH by fastforce
      then show ?thesis
        using c False by (intro exI [of _ "RunRole c (Inr result) # cs"])
          (auto intro: runCalls.more simp: completedCalls_def intro!: exI [of _ "RunRole c (Inr result) # _"])
    qed
  qed
qed

section \<open>The log on disk\<close>

text \<open>
  The journal of a run: what \<open>record_event\<close> keeps true of the in-memory events, the JSON-lines file
  and the rendered changelog.
\<close>

definition eventsPath :: "wfArgs \<Rightarrow> string" where
  "eventsPath a = pathJoin (runDirOf a) ''events.jsonl''"

definition changelogPath :: "wfArgs \<Rightarrow> string" where
  "changelogPath a = pathJoin (runDirOf a) ''CHANGELOG.md''"

definition eventLine :: "jsval \<Rightarrow> string" where
  "eventLine e = stringify e @ newline"

definition logged :: "wfArgs \<Rightarrow> 'w wfState \<Rightarrow> bool" where
  "logged a s \<longleftrightarrow>
     nodeAt s (eventsPath a) = Some (NFile 384 (concat (map eventLine (ws_events s)))) \<and>
     (ws_events s \<noteq> [] \<longrightarrow> nodeAt s (changelogPath a) = Some (NFile 384 (renderChangelog (ws_events s)))) \<and>
     ws_sequence s = length (ws_events s)"

definition reliable :: "'w wfPorts \<Rightarrow> bool" where
  "reliable p \<longleftrightarrow> faultless (wp_fault p) \<and> (\<forall>w. \<exists>t w'. wp_now p w = (Inr t, w'))"

lemma paths_distinct: "eventsPath a \<noteq> changelogPath a" "pathJoin d ''latest'' \<noteq> eventsPath a"
  "pathJoin d ''latest'' \<noteq> changelogPath a"
  using pathJoin_last [of "''events.jsonl''" "runDirOf a"] pathJoin_last [of "''CHANGELOG.md''" "runDirOf a"]
    pathJoin_last [of "''latest''" d]
  by (auto simp: eventsPath_def changelogPath_def)

lemma now_reliable:
  "reliable p \<Longrightarrow> useWorldR (wp_now p) s = (r, s') \<Longrightarrow> \<exists>t w. r = Inr t \<and> s' = s\<lparr>sys_world := w\<rparr>"
  unfolding reliable_def useWorldR_def
  by (cases "wp_now p (sys_world s)") (auto dest!: spec [of _ "sys_world s"])

lemma record_logged:
  assumes "reliable p" and "logged a s" and "record_event p a type details s = (r, s')"
  shows "r = Inr () \<and> logged a s' \<and> (\<exists>t. ws_events s' = ws_events s @
     [JObj (spread (eventBase a (Suc (ws_sequence s)) t type) details)])"
  using assms(3) unfolding record_event_def Let_def
  by (elim run_elims)
    (use assms(1,2) paths_distinct(1) [of a] in
      \<open>auto dest!: now_reliable [OF assms(1)] atomicWrite_faultless [rotated] appendFile_faultless [rotated]
         simp: logged_def putNode_def lookup_update' fileText_def fileMode_def eventLine_def reliable_def
           eventsPath_def changelogPath_def\<close>)

lemma logged_record [keeps_rules]: "reliable p \<Longrightarrow> keeps (logged a) (record_event p a type details)"
  by (rule keepsI) (auto dest: record_logged)

lemma logged_world [keeps_rules]: "keeps (logged a) (useWorld f)"
  by (rule keepsI) (auto simp: logged_def useWorld_def split: prod.splits)

lemma logged_latest [keeps_rules]:
  "reliable p \<Longrightarrow> keeps (logged a) (atomicWrite (wp_fault p) (pathJoin d ''latest'') c)"
  by (rule keepsI)
    (auto simp: reliable_def logged_def putNode_def lookup_update' paths_distinct paths_distinct [symmetric]
      dest!: atomicWrite_faultless [rotated])

lemma logged_calls [keeps_rules]: "keeps (logged a) (modS (\<lambda>s. s\<lparr>ws_calls := f s\<rparr>))"
  by (rule keepsI) (auto simp: logged_def)

lemmas step_defs = runStep_def startStep_def attemptRole_def settleStep_def checkResult_def callRunRole_def
  remainingTimeoutSeconds_def finishRun_def verifyRun_def publishVerified_def callVerify_def callPublish_def

lemma runStep_logged [keeps_rules]:
  "reliable p \<Longrightarrow> keeps (logged a) (runStep p a d previous step active attempt)"
  unfolding step_defs Let_def by (intro keeps_rules)

lemma logged_remaining: "keeps (logged a) (remainingTimeoutSeconds p d m)"
  unfolding step_defs by (intro keeps_rules)

lemma logged_callPublish: "keeps (logged a) (callPublish p t)"
  unfolding step_defs by (intro keeps_rules)

lemma logged_verifyRun: "reliable p \<Longrightarrow> keeps (logged a) (verifyRun p a d)"
  unfolding step_defs by (intro keeps_rules)

lemma finishRun_logged [keeps_rules]: "reliable p \<Longrightarrow> keeps (logged a) (finishRun p a d step)"
  unfolding step_defs Let_def by (intro keeps_rules)

lemma stepLoop_logged [keeps_rules]:
  "reliable p \<Longrightarrow> keeps (logged a) (stepLoop p a d previous left step active attempts)"
proof (induction left arbitrary: step active attempts)
  case 0
  show ?case unfolding stepLoop.simps by (intro keeps_rules)
next
  case (Suc left)
  then show ?case unfolding stepLoop.simps Let_def by (intro keeps_rules) auto
qed

lemma eventBase_type [simp]: "map_of (eventBase a n t type) ''type'' = Some (JStr type)"
  by (simp add: eventBase_def)

section \<open>The run as a whole\<close>

lemma prepareRun_calls: "keeps (\<lambda>s. ws_calls s = cs) (prepareRun p a)"
  unfolding prepareRun_def previousHistory_def Let_def
  by (intro keeps_rules frame_calls)

lemma runSteps_calls:
  assumes "runSteps p a d previous s = (r, s')"
  shows "\<exists>cs. ws_calls s' = ws_calls s @ cs \<and> runCalls a 1 (fld (wa_workflow a) ''start'') (\<lambda>_. 0) cs \<and>
           length (filter isRoleCall cs) \<le> nat (intOf (fld (wa_workflow a) ''maxSteps'')) \<and>
           (\<forall>x. r = Inr x \<longrightarrow> completedCalls cs)"
proof -
  have latest: "ws_calls t' = ws_calls t" if "atomicWrite f path c t = (q, t')" for f path c and t t' :: "'a wfState" and q
    using frame_atomicWrite [OF frame_calls] that by (rule keepsD) simp
  show ?thesis
    using assms unfolding runSteps_def
    by (elim run_elims) (fastforce dest!: latest record_calls stepLoop_calls intro: runCalls.stop)+
qed

lemma publishVerified_terminal:
  assumes "reliable p" and "publishVerified p a d step s = (Inr x, s')" and "logged a s"
  shows "ws_events s' \<noteq> [] \<and> fld (last (ws_events s')) ''type'' = JStr ''run.finished''"
proof -
  from assms(2) obtain t s1 u s2 v s3 where "remainingTimeoutSeconds p d 1 s = (Inr t, s1)"
    and "callPublish p t s1 = (Inr u, s2)"
    and "record_event p a ''publication.finished'' v s2 = (Inr (), s3)"
    and last: "record_event p a ''run.finished'' [(''status'', JStr ''completed''), (''steps'', nat2js step)] s3 = (Inr (), s')"
    unfolding publishVerified_def by (auto elim!: run_elims)
  then have "logged a s3"
    using assms(3) logged_record [OF assms(1), THEN keepsD]
    by (blast intro: logged_remaining [THEN keepsD] logged_callPublish [THEN keepsD])
  from record_logged [OF assms(1) this last] show ?thesis by auto
qed

lemma stepLoop_terminal:
  assumes "reliable p" and "stepLoop p a d previous left step active attempts s = (Inr x, s')" and "logged a s"
  shows "ws_events s' \<noteq> [] \<and> fld (last (ws_events s')) ''type'' = JStr ''run.finished''"
  using assms(2,3)
proof (induction left arbitrary: step active attempts s)
  case 0
  then show ?case by simp
next
  case (Suc left)
  from Suc.prems(1) obtain receipt s1 where step: "runStep p a d previous step active (attempts active + 1) s = (Inr receipt, s1)"
    and rest: "(if nextRole a active receipt = JStr ''done'' then finishRun p a d step
          else stepLoop p a d previous left (step + 1) (nextRole a active receipt)
            (attempts(active := attempts active + 1))) s1 = (Inr x, s')"
    unfolding stepLoop.simps Let_def nextRole_def [symmetric] by (elim bindE_elim) auto
  have "logged a s1" using runStep_logged [OF assms(1)] step Suc.prems(2) by (rule keepsD)
  show ?case
  proof (cases "nextRole a active receipt = JStr ''done''")
    case True
    with rest obtain u s2 where "verifyRun p a d s1 = (Inr u, s2)" "publishVerified p a d step s2 = (Inr x, s')"
      unfolding finishRun_def by (auto elim!: thenE_elim)
    with publishVerified_terminal [OF assms(1)] show ?thesis
      using logged_verifyRun [OF assms(1), THEN keepsD] \<open>logged a s1\<close> by blast
  next
    case False
    with rest Suc.IH \<open>logged a s1\<close> show ?thesis by simp
  qed
qed

lemma runSteps_logged:
  assumes "reliable p" and "runSteps p a d previous s = (r, s')" and "logged a s"
  shows "logged a s' \<and> ws_events s' \<noteq> [] \<and>
         fld (last (ws_events s')) ''type'' = JStr (if \<exists>x. r = Inr x then ''run.finished'' else ''run.failed'')"
proof -
  let ?body = "thenE (atomicWrite (wp_fault p) (pathJoin (wa_stateRoot a) ''latest'') (wa_runId a @ newline))
         (stepLoop p a d previous (nat (intOf (fld (wa_workflow a) ''maxSteps''))) 1
            (fld (wa_workflow a) ''start'') (\<lambda>_. 0))"
  have keep: "keeps (logged a) ?body"
    using assms(1) by (intro keeps_rules)
  from assms(2) show ?thesis unfolding runSteps_def
  proof (cases rule: catchE_elim)
    case (return x)
    from return(1) obtain u s1 where
      latest: "atomicWrite (wp_fault p) (pathJoin (wa_stateRoot a) ''latest'') (wa_runId a @ newline) s = (Inr u, s1)"
      and loop: "stepLoop p a d previous (nat (intOf (fld (wa_workflow a) ''maxSteps''))) 1
            (fld (wa_workflow a) ''start'') (\<lambda>_. 0) s1 = (Inr x, s')"
      by (cases rule: thenE_elim) auto
    have "logged a s1" using logged_latest [OF assms(1)] latest assms(3) by (rule keepsD)
    with stepLoop_terminal [OF assms(1) loop] show ?thesis
      using keepsD [OF keep return(1) assms(3)] return(2) by simp
  next
    case (handle e s1)
    then have "logged a s1" using keepsD [OF keep] assms(3) by blast
    from handle(2) obtain q where rec: "record_event p a ''run.failed''
        [(''status'', JStr ''failed''), (''reason'', JStr (safeReason e))] s1 = (q, s')" and "r = Inl e \<or> q \<noteq> Inr ()"
      by (cases rule: thenE_elim) auto
    with record_logged [OF assms(1) \<open>logged a s1\<close> rec] show ?thesis by auto
  qed
qed

lemma checkArgs_Inr:
  "checkArgs a = Inr () \<longleftrightarrow>
     workflowSpec (wa_workflow a) \<and> okText (64 * 1024) (wa_task a) \<and> reRunId (wa_runId a) \<and>
     isPlainObject (wa_prompts a) \<and> (\<forall>role \<in> set (jsKeys (rolesOf a)). isString (fld (wa_prompts a) role))"
  by (auto simp: checkArgs_def res_simps validateWorkflow_Inr list_all_iff)

text \<open>C16: Whatever the runner, verifier, publisher, clock and disk answer, the calls of a run follow
  the workflow graph: every role runs with its declared access, a prompt within the limit and a timeout
  between 10 seconds (or the step budget, if that is smaller) and the step budget; the next role is the
  one that the validated receipt's outcome selects; verification happens only after an outcome that
  leads to \<^verbatim>\<open>done\<close>; publication happens only after a verification that passed; at most
  \<^verbatim>\<open>maxSteps\<close> roles run; and a run that reports completion did verify and publish.\<close>

theorem runWorkflow_protocol:
  assumes "runWorkflow p a s = (r, s')" and "ws_calls s = []"
  shows "runCalls a 1 (fld (wa_workflow a) ''start'') (\<lambda>_. 0) (ws_calls s') \<and>
         length (filter isRoleCall (ws_calls s')) \<le> nat (intOf (fld (wa_workflow a) ''maxSteps'')) \<and>
         (\<forall>x. r = Inr x \<longrightarrow> completedCalls (ws_calls s'))"
proof -
  have clock: "ws_calls t' = ws_calls t" if "useWorld f t = (q, t')" for f t t' q
    using that by (auto simp: useWorld_def split: prod.splits)
  have prep: "ws_calls t' = ws_calls t" if "prepareRun p a t = (q, t')" for t t' q
    using prepareRun_calls that by (rule keepsD) simp
  show ?thesis
    using assms unfolding runWorkflow_def
    by (elim run_elims) (auto dest!: clock prep runSteps_calls intro: runCalls.stop)
qed

definition noEvents :: "'w wfState \<Rightarrow> bool" where
  "noEvents s \<longleftrightarrow> ws_events s = [] \<and> ws_sequence s = 0"

lemma frame_noEvents [intro]: "frame noEvents"
  by (simp add: frame_def noEvents_def)

lemma previousHistory_noEvents [keeps_rules]: "keeps noEvents (previousHistory p root)"
  unfolding previousHistory_def Let_def by (intro keeps_rules frame_noEvents)

lemmas prepare_keeps = frame_noEvents [THEN frame_mkdirp, THEN keepsD]
  frame_noEvents [THEN frame_createNew, THEN keepsD] previousHistory_noEvents [THEN keepsD]

lemma createNew_logged:
  "reliable p \<Longrightarrow> createNew (wp_fault p) (eventsPath a) (NFile 384 []) s = (Inr u, s') \<Longrightarrow> noEvents s \<Longrightarrow> logged a s'"
  by (auto simp: logged_def reliable_def putNode_def lookup_update' noEvents_def dest!: createNew_faultless [rotated])

lemma prepareRun_logged:
  assumes "reliable p" and "prepareRun p a s = (r, s')" and "noEvents s"
  shows "(\<exists>e. r = Inl e) \<and> noEvents s' \<or> (\<exists>c. r = Inr c) \<and> logged a s'"
  using assms(2) unfolding prepareRun_def eventsPath_def [symmetric]
proof (elim run_elims, goal_cases)
  case (4 u s1 v s2 q s3)
  then have "noEvents s3" using assms(3) by (blast intro: prepare_keeps)
  obtain h c where q: "q = (h, c)" by force
  show ?case using 4(4) unfolding q prod.case
    by (elim run_elims)
      (use \<open>noEvents s3\<close> in \<open>auto dest: prepare_keeps record_logged [OF assms(1)] createNew_logged [OF assms(1)]\<close>)
qed (use assms(3) in \<open>blast dest: prepare_keeps\<close>)+

text \<open>C18: With a disk that does not fail and a calendar that does not throw, every run that gets as far
  as its first event ends with a complete journal: \<^verbatim>\<open>events.jsonl\<close> holds exactly the events in
  order, one JSON line each, \<^verbatim>\<open>CHANGELOG.md\<close> is their rendering, the sequence counter is their
  number, and the last event is \<^verbatim>\<open>run.finished\<close> when the run returned and \<^verbatim>\<open>run.failed\<close> when
  it threw, whatever the agents, the verifier, the publisher and the clock did.\<close>

theorem runWorkflow_journal:
  assumes "runWorkflow p a s = (r, s')" and "reliable p" and "noEvents s"
  shows "(\<exists>e. r = Inl e) \<and> noEvents s' \<or>
         logged a s' \<and> ws_events s' \<noteq> [] \<and>
         fld (last (ws_events s')) ''type'' = JStr (if \<exists>x. r = Inr x then ''run.finished'' else ''run.failed'')"
proof -
  have clock: "noEvents t'" if "useWorld f t = (q, t')" "noEvents t" for f q and t t' :: "'a wfState"
    using frame_useWorld [OF frame_noEvents] that by (rule keepsD)
  from assms(1) show ?thesis unfolding runWorkflow_def
  proof (elim run_elims, goal_cases)
    case (5 u s1 at s2 d s3 previous s4)
    then have "noEvents s3" using clock assms(3) by simp
    then have "logged a s4" using prepareRun_logged [OF assms(2)] 5(4) by blast
    from runSteps_logged [OF assms(2) 5(5) this] show ?case by blast
  qed (use assms(3) in \<open>auto dest: clock prepareRun_logged [OF assms(2)]\<close>)
qed

section \<open>A complete run\<close>

text \<open>A workflow with one writing role, whose agent answers with an acceptable receipt, a verifier that
  passes, and a publisher that returns a URL; the world is the clock's reading.\<close>

definition sampleWorkflow :: jsval where
  "sampleWorkflow = JObj
     [(''version'', JNum (NInt 1)), (''name'', JStr ''solo''), (''start'', JStr ''dev''), (''maxSteps'', JNum (NInt 3)),
      (''timeouts'', JObj [(''stepSeconds'', JNum (NInt 60)), (''workflowSeconds'', JNum (NInt 600))]),
      (''roles'', JObj [(''dev'', sampleRole)]),
      (''output'', JObj
        [(''directory'', JStr ''dist''), (''maxFiles'', JNum (NInt 10)), (''maxBytes'', JNum (NInt 4096)),
         (''smoke'', JObj [(''path'', JStr ''/''), (''status'', JNum (NInt 200)), (''contains'', JStr ''ok'')])])]"

definition sampleArgs :: wfArgs where
  "sampleArgs = \<lparr>wa_workflow = sampleWorkflow, wa_prompts = JObj [(''dev'', JStr ''Build it.'')],
     wa_templateDigest = JUndef, wa_task = JStr ''a page'', wa_stateRoot = ''/state'',
     wa_workspace = ''/work'', wa_runId = ''run-00000001'', wa_model = ''m'', wa_agentRuntime = ''r'',
     wa_imageDigest = ''i'', wa_deadlineAt = JUndef\<rparr>"

definition samplePorts :: "int wfPorts" where
  "samplePorts = \<lparr>wp_clock = (\<lambda>w. (JNum (NInt w), w + 100)), wp_now = (\<lambda>w. (Inr ''T'', w)),
     wp_fault = (\<lambda>w. (None, w)),
     wp_runRole = (\<lambda>c w. (Inr (JObj [(''receipt'', sampleReceipt ''app/src'')]), w)),
     wp_verify = (\<lambda>t w. (Inr (JObj [(''status'', JStr ''passed''), (''evidence'', JArr [JStr ''200''])]), w)),
     wp_publish = (\<lambda>t w. (Inr (JObj [(''url'', JStr ''http://a'')]), w))\<rparr>"

definition sampleState :: "int wfState" where
  "sampleState = \<lparr>sys_fs = Mapping.empty, sys_world = 0, ws_events = [], ws_sequence = 0, ws_calls = []\<rparr>"

definition sampleEnd :: "jsval res \<times> int wfState" where
  "sampleEnd = runWorkflow samplePorts sampleArgs sampleState"

lemma sample_run: "runWorkflow samplePorts sampleArgs sampleState = (fst sampleEnd, snd sampleEnd)"
  by (simp add: sampleEnd_def)

lemma sample_args: "checkArgs sampleArgs = Inr ()"
  by code_simp

lemma runWorkflow_protocol_witness:
  "checkArgs sampleArgs = Inr () \<and>
   runCalls sampleArgs 1 (JStr ''dev'') (\<lambda>_. 0) (ws_calls (snd sampleEnd)) \<and>
   length (filter isRoleCall (ws_calls (snd sampleEnd))) \<le> 3"
proof -
  have "ws_calls sampleState = []" by (simp add: sampleState_def)
  from runWorkflow_protocol [OF sample_run this] sample_args show ?thesis
    by (simp add: sampleArgs_def sampleWorkflow_def)
qed

lemma runWorkflow_journal_witness:
  "noEvents (snd sampleEnd) \<or> logged sampleArgs (snd sampleEnd)"
proof -
  have "reliable samplePorts" "noEvents sampleState"
    by (simp_all add: reliable_def faultless_def samplePorts_def noEvents_def sampleState_def)
  from runWorkflow_journal [OF sample_run this] show ?thesis by blast
qed

end
