(* ===== verification/Json.thy ===== *)
theory Json
  imports JsValue
begin

text \<open>
  \<^verbatim>\<open>JSON.parse\<close>, as a recursive-descent parser on the bytes of the text, and its round trip with
  \<^verbatim>\<open>JSON.stringify\<close>.

  The parser carries fuel; \<open>jsonParse\<close> starts it with more than the length of the text, and
  \<open>jsonParse_stringify\<close> shows that this is enough for every text that \<^verbatim>\<open>JSON.stringify\<close> writes.
  A number token without fraction and exponent is its integer, any other number token the exact
  value it denotes.  A repeated key overwrites the earlier value in place.
\<close>

section \<open>Tokens\<close>

definition jsonWs :: "char \<Rightarrow> bool" where
  "jsonWs c = (c = CHR 0x20 \<or> c = CHR 0x09 \<or> c = CHR 0x0A \<or> c = CHR 0x0D)"

definition skipWs :: "string \<Rightarrow> string" where
  "skipWs s = dropWhile jsonWs s"

definition hexValue :: "char \<Rightarrow> nat option" where
  "hexValue c =
     (let n = of_char c in
      if 48 \<le> n \<and> n \<le> 57 then Some (n - 48)
      else if 97 \<le> n \<and> n \<le> 102 then Some (n - 87)
      else if 65 \<le> n \<and> n \<le> 70 then Some (n - 55)
      else None)"

fun hexNumber :: "nat \<Rightarrow> string \<Rightarrow> nat option" where
  "hexNumber n [] = Some n"
| "hexNumber n (c # cs) = (case hexValue c of None \<Rightarrow> None | Some d \<Rightarrow> hexNumber (16 * n + d) cs)"

definition encodePoint :: "nat \<Rightarrow> string" where
  "encodePoint n =
     (if n < 128 then [char_of n]
      else if n < 2048 then [char_of (192 + n div 64), char_of (128 + n mod 64)]
      else if n < 65536
        then [char_of (224 + n div 4096), char_of (128 + n div 64 mod 64), char_of (128 + n mod 64)]
      else [char_of (240 + n div 262144), char_of (128 + n div 4096 mod 64),
            char_of (128 + n div 64 mod 64), char_of (128 + n mod 64)])"

fun unescapeUnit :: "string \<Rightarrow> (nat \<times> string) option" where
  "unescapeUnit (a # b # c # d # r) = map_option (\<lambda>n. (n, r)) (hexNumber 0 [a, b, c, d])"
| "unescapeUnit _ = None"

fun lowUnit :: "string \<Rightarrow> (nat \<times> string) option" where
  "lowUnit (x # y # r) =
     (if x = CHR 0x5C \<and> y = CHR ''u''
      then (case unescapeUnit r of
              None \<Rightarrow> None
            | Some (n, r') \<Rightarrow> if 56320 \<le> n \<and> n < 57344 then Some (n, r') else None)
      else None)"
| "lowUnit _ = None"

fun unescape :: "string \<Rightarrow> (string \<times> string) option" where
  "unescape [] = None"
| "unescape (e # r) =
     (if e = CHR 0x22 \<or> e = CHR 0x5C \<or> e = CHR ''/'' then Some ([e], r)
      else if e = CHR ''b'' then Some ([CHR 0x08], r)
      else if e = CHR ''f'' then Some ([CHR 0x0C], r)
      else if e = CHR ''n'' then Some ([CHR 0x0A], r)
      else if e = CHR ''r'' then Some ([CHR 0x0D], r)
      else if e = CHR ''t'' then Some ([CHR 0x09], r)
      else if e = CHR ''u''
        then (case unescapeUnit r of
                None \<Rightarrow> None
              | Some (n, r') \<Rightarrow>
                  if 55296 \<le> n \<and> n < 56320
                  then (case lowUnit r' of
                          None \<Rightarrow> Some (encodePoint n, r')
                        | Some (m, r'') \<Rightarrow> Some (encodePoint (65536 + (n - 55296) * 1024 + (m - 56320)), r''))
                  else Some (encodePoint n, r'))
      else None)"

lemma unescapeUnit_length: "unescapeUnit s = Some (n, r) \<Longrightarrow> length r < length s"
  by (induction s rule: unescapeUnit.induct) auto

lemma lowUnit_length: "lowUnit s = Some (n, r) \<Longrightarrow> length r < length s"
  by (induction s rule: lowUnit.induct)
    (auto split: if_splits option.splits prod.splits dest!: unescapeUnit_length)

lemma unescape_length: "unescape s = Some (t, r) \<Longrightarrow> length r < length s"
  by (induction s rule: unescape.induct)
    (force split: if_splits option.splits prod.splits dest!: unescapeUnit_length lowUnit_length)+

function parseStr :: "string \<Rightarrow> (string \<times> string) option" where
  "parseStr [] = None"
| "parseStr (c # cs) =
     (if c = CHR 0x22 then Some ([], cs)
      else if c = CHR 0x5C
        then (case unescape cs of
                None \<Rightarrow> None
              | Some (t, r) \<Rightarrow> map_option (\<lambda>(u, q). (t @ u, q)) (parseStr r))
      else if (of_char c :: nat) < 32 then None
      else map_option (\<lambda>(u, q). (c # u, q)) (parseStr cs))"
  by pat_completeness auto
termination
  by (relation "measure length") (auto dest!: unescape_length)

text \<open>Number tokens: sign, integer part, fraction, exponent.\<close>

definition digits :: "string \<Rightarrow> string \<times> string" where
  "digits s = (takeWhile isDigit s, dropWhile isDigit s)"

definition numberValue :: "string \<Rightarrow> nat" where
  "numberValue ds = foldl (\<lambda>n c. 10 * n + (of_char c - 48)) 0 ds"

definition scaledNumber :: "int \<Rightarrow> int \<Rightarrow> string \<Rightarrow> jsnum" where
  "scaledNumber m e text =
     (if 0 \<le> e then NInt (m * 10 ^ nat e)
      else if m mod 10 ^ nat (- e) = 0 then NInt (m div 10 ^ nat (- e))
      else NFrac m (10 ^ nat (- e)) text)"

definition parseExponent :: "string \<Rightarrow> (int \<times> string) option" where
  "parseExponent s =
     (case s of
        c # cs \<Rightarrow>
          if c = CHR ''e'' \<or> c = CHR ''E''
          then (let (neg, t) = (case cs of
                      d # ds \<Rightarrow> if d = CHR ''-'' then (True, ds) else if d = CHR ''+'' then (False, ds) else (False, cs)
                    | [] \<Rightarrow> (False, cs));
                    (ds, r) = digits t
                in if ds = [] then None
                   else Some (if neg then - int (numberValue ds) else int (numberValue ds), r))
          else Some (0, s)
      | [] \<Rightarrow> Some (0, s))"

definition parseFraction :: "string \<Rightarrow> (string \<times> string) option" where
  "parseFraction s =
     (case s of
        c # cs \<Rightarrow>
          if c = CHR ''.'' then (let (ds, r) = digits cs in if ds = [] then None else Some (ds, r))
          else Some ([], s)
      | [] \<Rightarrow> Some ([], s))"

definition parseNum :: "string \<Rightarrow> (jsval \<times> string) option" where
  "parseNum s =
     (let (neg, t) = (if prefix ''-'' s then (True, tl s) else (False, s));
          (ds, r) = digits t
      in if ds = [] \<or> (hd ds = CHR ''0'' \<and> length ds > 1) then None
         else case parseFraction r of
           None \<Rightarrow> None
         | Some (fs, r') \<Rightarrow>
             (case parseExponent r' of
                None \<Rightarrow> None
              | Some (e, r'') \<Rightarrow>
                  let m = int (numberValue (ds @ fs)) in
                  Some (JNum (scaledNumber (if neg then - m else m) (e - int (length fs))
                          (take (length s - length r'') s)), r'')))"

section \<open>Values\<close>

fun parseVal :: "nat \<Rightarrow> string \<Rightarrow> (jsval \<times> string) option"
  and parseElems :: "nat \<Rightarrow> string \<Rightarrow> (jsval list \<times> string) option"
  and parseProps :: "nat \<Rightarrow> string \<Rightarrow> (jsobj \<times> string) option" where
  "parseVal 0 s = None"
| "parseVal (Suc f) s =
     (case skipWs s of
        [] \<Rightarrow> None
      | c # cs \<Rightarrow>
          if c = CHR 0x22 then map_option (\<lambda>(t, r). (JStr t, r)) (parseStr cs)
          else if c = CHR ''['' then
            (if prefix '']'' (skipWs cs) then Some (JArr [], tl (skipWs cs))
             else map_option (\<lambda>(xs, r). (JArr xs, r)) (parseElems f cs))
          else if c = CHR ''{'' then
            (if prefix ''}'' (skipWs cs) then Some (JObj [], tl (skipWs cs))
             else map_option (\<lambda>(kvs, r). (JObj (spread [] kvs), r)) (parseProps f cs))
          else if prefix ''true'' (c # cs) then Some (JBool True, drop 3 cs)
          else if prefix ''false'' (c # cs) then Some (JBool False, drop 4 cs)
          else if prefix ''null'' (c # cs) then Some (JNull, drop 3 cs)
          else parseNum (c # cs))"
| "parseElems 0 s = None"
| "parseElems (Suc f) s =
     (case parseVal f s of
        None \<Rightarrow> None
      | Some (v, r) \<Rightarrow>
          (case skipWs r of
             [] \<Rightarrow> None
           | c # cs \<Rightarrow>
               if c = CHR '']'' then Some ([v], cs)
               else if c = CHR '','' then map_option (\<lambda>(vs, q). (v # vs, q)) (parseElems f cs)
               else None))"
| "parseProps 0 s = None"
| "parseProps (Suc f) s =
     (case skipWs s of
        [] \<Rightarrow> None
      | c # cs \<Rightarrow>
          if c \<noteq> CHR 0x22 then None
          else (case parseStr cs of
             None \<Rightarrow> None
           | Some (k, r) \<Rightarrow>
               (case skipWs r of
                  [] \<Rightarrow> None
                | d # ds \<Rightarrow>
                    if d \<noteq> CHR '':'' then None
                    else (case parseVal f ds of
                       None \<Rightarrow> None
                     | Some (v, q) \<Rightarrow>
                         (case skipWs q of
                            [] \<Rightarrow> None
                          | e # es \<Rightarrow>
                              if e = CHR ''}'' then Some ([(k, v)], es)
                              else if e = CHR '','' then map_option (\<lambda>(kvs, z). ((k, v) # kvs, z)) (parseProps f es)
                              else None)))))"

definition jsonParse :: "string \<Rightarrow> jsval option" where
  "jsonParse s =
     (case parseVal (Suc (length s)) s of
        Some (v, r) \<Rightarrow> if skipWs r = [] then Some v else None
      | None \<Rightarrow> None)"

section \<open>Round trip\<close>

text \<open>Text that \<^verbatim>\<open>JSON.stringify\<close> writes and \<^verbatim>\<open>JSON.parse\<close> reads back: well-formed UTF-8 without
  surrogates, group by group.\<close>

definition okGroup :: "string \<Rightarrow> bool" where
  "okGroup ch =
     (case map of_char ch :: nat list of
        [b] \<Rightarrow> b < 128
      | [b0, b1] \<Rightarrow> 128 \<le> b0 \<and> 128 \<le> b1
      | [b0, b1, b2] \<Rightarrow> 128 \<le> b0 \<and> 128 \<le> b1 \<and> 128 \<le> b2 \<and> \<not> (b0 = 237 \<and> 160 \<le> b1)
      | [b0, b1, b2, b3] \<Rightarrow> 128 \<le> b0 \<and> 128 \<le> b1 \<and> 128 \<le> b2 \<and> 128 \<le> b3
      | _ \<Rightarrow> False)"

definition utf8Text :: "string \<Rightarrow> bool" where
  "utf8Text s = list_all okGroup (chars s)"

lemma ascii_chars: "list_all (\<lambda>c. (of_char c :: nat) < 128) s \<Longrightarrow> chars s = map (\<lambda>c. [c]) s"
proof (induction s)
  case (Cons c s)
  have "\<not> isCont (hd s)" if "s \<noteq> []"
    using Cons.prems that by (cases s) (auto simp: isCont_def inRange_def)
  then have "takeWhile isCont s = []" "dropWhile isCont s = s"
    by (cases s; simp)+
  with Cons show ?case by simp
qed simp

lemma ascii_utf8: "list_all (\<lambda>c. (of_char c :: nat) < 128) s \<Longrightarrow> utf8Text s"
  by (simp add: utf8Text_def ascii_chars list_all_iff okGroup_def)

fun jsonable :: "jsval \<Rightarrow> bool" where
  "jsonable JNull = True"
| "jsonable (JBool _) = True"
| "jsonable (JNum (NInt _)) = True"
| "jsonable (JStr s) = utf8Text s"
| "jsonable (JArr xs) = list_all jsonable xs"
| "jsonable (JObj kvs) = (distinct (map fst kvs) \<and> list_all (\<lambda>(k, v). utf8Text k \<and> jsonable v) kvs)"
| "jsonable _ = False"

lemma high_byte: "128 \<le> (of_char c :: nat) \<Longrightarrow> c \<noteq> CHR 0x22 \<and> c \<noteq> CHR 0x5C \<and> \<not> (of_char c :: nat) < 32"
  by auto

lemma parseStr_high: "128 \<le> (of_char c :: nat) \<Longrightarrow> parseStr (c # cs) = map_option (\<lambda>(u, q). (c # u, q)) (parseStr cs)"
  using high_byte [of c] by simp

lemma parseStr_escaped:
  assumes "unescape (e @ r) = Some (u, r)"
  shows "parseStr (CHR 0x5C # e @ r) = map_option (\<lambda>(v, q). (u @ v, q)) (parseStr r)"
  using assms by simp

lemma parseStr_byte:
  assumes "(of_char c :: nat) < 128"
  shows "parseStr (jsonEscape [c] @ r) = map_option (\<lambda>(v, q). (c # v, q)) (parseStr r)"
proof (cases c)
  case (Char b0 b1 b2 b3 b4 b5 b6 b7)
  have "\<not> b7" using assms unfolding Char of_char_bits by (cases b7) auto
  show ?thesis
    unfolding Char jsonEscape_def jsonEscapeByte_def list.map of_char_bits
    using \<open>\<not> b7\<close>
    by (cases b0; cases b1; cases b2; cases b3; cases b4; cases b5; cases b6)
      (simp_all add: of_char_bits hexDigit_def hexValue_def encodePoint_def char_of_def bit_0 flip: numeral_2_eq_2)
qed

lemma parseStr_group:
  assumes "okGroup ch"
  shows "parseStr (jsonEscape ch @ r) = map_option (\<lambda>(v, q). (ch @ v, q)) (parseStr r)"
proof -
  consider (one) c where "ch = [c]" "(of_char c :: nat) < 128"
    | (more) "list_all (\<lambda>c. 128 \<le> (of_char c :: nat)) ch" "jsonEscape ch = ch"
    using assms by (auto simp: okGroup_def jsonEscape_def jsonEscapeByte_def split: list.splits)
  then show ?thesis
  proof cases
    case one
    then show ?thesis using parseStr_byte by simp
  next
    case more
    from more(1) have "parseStr (ch @ r) = map_option (\<lambda>(v, q). (ch @ v, q)) (parseStr r)"
    proof (induction ch)
      case (Cons c ch)
      then show ?case by (simp only: append_Cons parseStr_high list.pred_inject) (cases "parseStr r"; auto)
    qed (cases "parseStr r"; simp)
    with more(2) show ?thesis by simp
  qed
qed

lemma parseStr_groups:
  "list_all okGroup gs \<Longrightarrow> parseStr (concat (map jsonEscape gs) @ CHR 0x22 # r) = Some (concat gs, r)"
  by (induction gs) (simp_all add: parseStr_group del: parseStr.simps(2), simp)

lemma parseStr_quote:
  assumes "utf8Text s"
  obtains q where "jsonQuote s = CHR 0x22 # q" "\<And>r. parseStr (q @ r) = Some (s, r)"
proof
  show "jsonQuote s = CHR 0x22 # concat (map jsonEscape (chars s)) @ [CHR 0x22]"
    by (simp add: jsonQuote_def)
  show "parseStr ((concat (map jsonEscape (chars s)) @ [CHR 0x22]) @ r) = Some (s, r)" for r
    using parseStr_groups [of "chars s" r] assms by (simp add: utf8Text_def concat_chars)
qed

text \<open>Numbers: a decimal integer before a delimiter.\<close>

definition delimited :: "string \<Rightarrow> bool" where
  "delimited r \<longleftrightarrow> r = [] \<or> hd r \<in> {CHR '','', CHR '']'', CHR ''}'', CHR 0x0A}"

lemma digit_char:
  assumes "d < 10"
  shows "(of_char (char_of (48 + d)) :: nat) = 48 + d" and "isDigit (char_of (48 + d))"
  using assms by (simp_all add: isDigit_def inRange_def)

lemma decNat_all_digits: "list_all isDigit (decNat n)"
  by (induction n rule: decNat.induct) (subst decNat.simps, simp add: digit_char)

lemma decNat_nonempty [simp]: "decNat n \<noteq> []"
  by (subst decNat.simps) simp

lemma numberValue_snoc: "numberValue (ds @ [c]) = 10 * numberValue ds + (of_char c - 48)"
  by (simp add: numberValue_def)

lemma numberValue_decNat: "numberValue (decNat n) = n"
proof (induction n rule: decNat.induct)
  case (1 n)
  show ?case
  proof (cases "n < 10")
    case True
    then show ?thesis by (subst decNat.simps) (simp add: numberValue_def digit_char)
  next
    case False
    have "numberValue (decNat (n div 10) @ [char_of (48 + n mod 10)]) = n"
      using 1 [OF False] by (simp add: numberValue_snoc digit_char)
    then show ?thesis using False by (subst decNat.simps) simp
  qed
qed

lemma decNat_leading: "0 < n \<Longrightarrow> hd (decNat n) \<noteq> CHR ''0''"
proof (induction n rule: decNat.induct)
  case (1 n)
  have "char_of (48 + n) \<noteq> CHR ''0''" if "n < 10"
  proof
    assume "char_of (48 + n) = CHR ''0''"
    then have "(of_char (char_of (48 + n)) :: nat) = of_char (CHR ''0'')" by simp
    with digit_char(1) [OF that] 1(2) show False by simp
  qed
  then show ?case
    using 1 by (subst decNat.simps) simp
qed

lemma decNat_no_padding: "\<not> (hd (decNat n) = CHR ''0'' \<and> length (decNat n) > 1)"
proof (cases "n = 0")
  case True
  then show ?thesis by (subst (2) decNat.simps) simp
qed (simp add: decNat_leading)

lemma digits_before:
  assumes "list_all isDigit ds" and "delimited r"
  shows "digits (ds @ r) = (ds, r)"
proof -
  have "\<not> isDigit c" if "c \<in> {CHR '','', CHR '']'', CHR ''}'', CHR 0x0A}" for c
    using that by (auto simp: isDigit_def inRange_def)
  with assms(2) have "takeWhile isDigit r = []" "dropWhile isDigit r = r"
    by (cases r; auto simp: delimited_def)+
  with assms(1) show ?thesis
    by (simp add: digits_def list_all_iff takeWhile_append2 dropWhile_append2)
qed

lemma delimited_rest:
  assumes "delimited r"
  shows "parseFraction r = Some ([], r)" and "parseExponent r = Some (0, r)"
  using assms by (auto simp: delimited_def parseFraction_def parseExponent_def split: list.splits)

lemma decNat_no_sign: "hd (decNat n) \<noteq> CHR ''-''"
proof
  assume "hd (decNat n) = CHR ''-''"
  moreover have "isDigit (hd (decNat n))"
    using decNat_all_digits [of n] by (cases "decNat n") auto
  ultimately show False by (simp add: isDigit_def inRange_def)
qed

lemma parseNum_decInt:
  assumes "delimited r"
  shows "parseNum (decInt i @ r) = Some (JNum (NInt i), r)"
proof -
  have ds: "digits (decNat n @ r) = (decNat n, r)" for n
    using digits_before [OF decNat_all_digits assms] .
  have sign: "\<not> prefix ''-'' (decNat n @ r)" for n
    using decNat_no_sign [of n] by (cases "decNat n") auto
  have pad: "hd (decNat n) = CHR ''0'' \<longrightarrow> \<not> Suc 0 < length (decNat n)" for n
    using decNat_no_padding [of n] by simp
  show ?thesis
    by (cases "i < 0")
      (simp_all add: parseNum_def decInt_def ds sign pad delimited_rest [OF assms] numberValue_decNat scaledNumber_def)
qed

text \<open>Values, in every layout: the pads are white space before an item and before the closing bracket.\<close>

definition jsonText :: "nat option \<Rightarrow> jsval \<Rightarrow> string" where
  "jsonText g v = (case jsonVal g v of None \<Rightarrow> ''null'' | Some s \<Rightarrow> s)"

definition padBefore :: "nat option \<Rightarrow> string" where
  "padBefore g = (case g of None \<Rightarrow> [] | Some n \<Rightarrow> newline @ replicate (n + 2) (CHR '' ''))"

definition padAfter :: "nat option \<Rightarrow> string" where
  "padAfter g = (case g of None \<Rightarrow> [] | Some n \<Rightarrow> newline @ replicate n (CHR '' ''))"

definition colon :: "nat option \<Rightarrow> string" where
  "colon g = (case g of None \<Rightarrow> '':'' | Some _ \<Rightarrow> '': '')"

definition propText :: "nat option \<Rightarrow> string \<times> jsval \<Rightarrow> string" where
  "propText g kv = jsonQuote (fst kv) @ colon g @ jsonText g (snd kv)"

lemma jsonWrap_shape:
  "parts \<noteq> [] \<Longrightarrow> jsonWrap g l r parts = l @ padBefore g @ joinWith ('','' @ padBefore g) parts @ padAfter g @ r"
  by (cases g) (simp_all add: jsonWrap_def padBefore_def padAfter_def Let_def)

lemma pads_ws: "list_all jsonWs (padBefore g)" "list_all jsonWs (padAfter g)"
  by (auto simp: padBefore_def padAfter_def jsonWs_def newline_def list_all_iff split: option.splits)

lemma skipWs_pad: "list_all jsonWs pre \<Longrightarrow> skipWs (pre @ s) = skipWs s"
  by (induction pre) (simp_all add: skipWs_def)

lemma skipWs_cons: "\<not> jsonWs c \<Longrightarrow> skipWs (c # cs) = c # cs"
  by (simp add: skipWs_def)

lemma parseVal_pad: "list_all jsonWs pre \<Longrightarrow> parseVal f (pre @ s) = parseVal f s"
  by (cases f) (simp_all add: skipWs_pad)

lemma delimited_pad: "c \<in> {CHR '','', CHR '']'', CHR ''}''} \<Longrightarrow> delimited (padAfter g @ c # r)" "delimited (CHR '','' # r)"
  by (auto simp: delimited_def padAfter_def newline_def split: option.splits)

lemma jsonVal_text: "jsonable v \<Longrightarrow> jsonVal g v = Some (jsonText g v)"
  by (cases v rule: jsonable.cases) (simp_all add: jsonText_def)

lemma jsonElems_text: "list_all jsonable xs \<Longrightarrow> jsonElems g xs = map (jsonText g) xs"
  by (induction xs) (simp_all add: jsonVal_text)

lemma jsonProps_text: "list_all (\<lambda>(k, v). utf8Text k \<and> jsonable v) kvs \<Longrightarrow> jsonProps g kvs = map (propText g) kvs"
  by (induction kvs) (auto simp: jsonVal_text propText_def colon_def)

lemma jsonText_arr:
  "list_all jsonable xs \<Longrightarrow> xs \<noteq> [] \<Longrightarrow> jsonText g (JArr xs) =
   CHR ''['' # padBefore g @ joinWith ('','' @ padBefore g) (map (jsonText (deeper g)) xs) @ padAfter g @ '']''"
  by (simp add: jsonText_def jsonElems_text jsonWrap_shape)

lemma jsonText_obj:
  "list_all (\<lambda>(k, v). utf8Text k \<and> jsonable v) kvs \<Longrightarrow> kvs \<noteq> [] \<Longrightarrow> jsonText g (JObj kvs) =
   CHR ''{'' # padBefore g @ joinWith ('','' @ padBefore g) (map (propText (deeper g)) kvs) @ padAfter g @ ''}''"
  by (simp add: jsonText_def jsonProps_text jsonWrap_shape)

lemma decInt_head: "\<exists>c cs. decInt i = c # cs \<and> (c = CHR ''-'' \<or> isDigit c)"
proof -
  have "\<exists>c cs. decNat n = c # cs \<and> isDigit c" for n
    using decNat_all_digits [of n] by (cases "decNat n") auto
  then show ?thesis by (cases "i < 0") (simp_all add: decInt_def, blast)
qed

lemma digit_not_special:
  "isDigit c \<Longrightarrow> c \<notin> {CHR 0x20, CHR 0x09, CHR 0x0A, CHR 0x0D, CHR 0x22, CHR ''['', CHR ''{'', CHR '']'', CHR ''}'',
     CHR ''t'', CHR ''f'', CHR ''n''}"
  by (auto simp: isDigit_def inRange_def)

lemma jsonText_head:
  assumes "jsonable v"
  obtains c cs where "jsonText g v = c # cs" "\<not> jsonWs c" "c \<noteq> CHR '']''"
proof (cases v rule: jsonable.cases)
  case (2 b)
  then show ?thesis using that by (cases b) (auto simp: jsonText_def jsonWs_def)
next
  case (3 i)
  then show ?thesis
    using decInt_head [of i] that digit_not_special by (fastforce simp: jsonText_def jsonWs_def)
next
  case (5 xs)
  then show ?thesis
    using that assms jsonText_arr [of xs g] by (cases "xs = []") (auto simp: jsonText_def jsonWrap_def jsonWs_def)
next
  case (6 kvs)
  then show ?thesis
    using that assms jsonText_obj [of kvs g] by (cases "kvs = []") (auto simp: jsonText_def jsonWrap_def jsonWs_def)
qed (use assms that in \<open>auto simp: jsonText_def jsonQuote_def jsonWs_def\<close>)

definition reads :: "nat option \<Rightarrow> jsval \<Rightarrow> bool" where
  "reads g v \<longleftrightarrow> (\<forall>f r. length (jsonText g v) \<le> f \<longrightarrow> delimited r \<longrightarrow> parseVal f (jsonText g v @ r) = Some (v, r))"

lemma readsD: "reads g v \<Longrightarrow> length (jsonText g v) \<le> f \<Longrightarrow> delimited r \<Longrightarrow> parseVal f (jsonText g v @ r) = Some (v, r)"
  by (simp add: reads_def)

lemma not_ws: "\<not> jsonWs (CHR '','')" "\<not> jsonWs (CHR '']'')" "\<not> jsonWs (CHR ''}'')" "\<not> jsonWs (CHR '':'')" "\<not> jsonWs (CHR 0x22)"
  "\<not> jsonWs (CHR ''['')" "\<not> jsonWs (CHR ''{'')"
  by (simp_all add: jsonWs_def)

lemma parseElems_text:
  assumes "xs \<noteq> []" and "\<forall>x \<in> set xs. reads g x" and "list_all jsonWs pre"
    and "length (joinWith ('','' @ pre) (map (jsonText g) xs)) < f"
  shows "parseElems f (pre @ joinWith ('','' @ pre) (map (jsonText g) xs) @ padAfter h @ CHR '']'' # r) = Some (xs, r)"
  using assms
proof (induction xs arbitrary: f)
  case (Cons x xs)
  obtain f' where f: "f = Suc f'" using Cons.prems(4) by (cases f) auto
  show ?case
  proof (cases "xs = []")
    case True
    then have "parseVal f' (pre @ jsonText g x @ padAfter h @ CHR '']'' # r) = Some (x, padAfter h @ CHR '']'' # r)"
      using Cons.prems f delimited_pad(1) [of "CHR '']''" h r] by (simp add: parseVal_pad readsD)
    then show ?thesis
      using True by (simp add: f skipWs_pad pads_ws skipWs_cons not_ws)
  next
    case False
    let ?rest = "pre @ joinWith ('','' @ pre) (map (jsonText g) xs) @ padAfter h @ CHR '']'' # r"
    have join: "joinWith ('','' @ pre) (map (jsonText g) (x # xs)) =
        jsonText g x @ CHR '','' # pre @ joinWith ('','' @ pre) (map (jsonText g) xs)"
      using False by (cases xs) simp_all
    have len: "length (jsonText g x) \<le> f'" "length (joinWith ('','' @ pre) (map (jsonText g) xs)) < f'"
      using Cons.prems(4) unfolding join f by simp_all
    have "parseVal f' (pre @ jsonText g x @ CHR '','' # ?rest) = Some (x, CHR '','' # ?rest)"
      using Cons.prems(2,3) len(1) delimited_pad(2) by (simp add: parseVal_pad readsD)
    moreover have "parseElems f' ?rest = Some (xs, r)"
      using Cons.IH [OF False, of f'] Cons.prems(2,3) len(2) by simp
    ultimately show ?thesis
      unfolding join f by (simp add: skipWs_cons not_ws)
  qed
qed simp

lemma parseProps_first:
  assumes "utf8Text k" and "reads g v" and "list_all jsonWs pre" and "length (propText g (k, v)) \<le> f" and "delimited q"
  shows "parseProps (Suc f) (pre @ propText g (k, v) @ q) =
    (case skipWs q of [] \<Rightarrow> None | e # es \<Rightarrow> if e = CHR ''}'' then Some ([(k, v)], es)
       else if e = CHR '','' then map_option (\<lambda>(kvs, z). ((k, v) # kvs, z)) (parseProps f es) else None)"
proof -
  obtain s where s: "jsonQuote k = CHR 0x22 # s" "\<And>r. parseStr (s @ r) = Some (k, r)"
    by (rule parseStr_quote [OF assms(1)]) blast
  obtain w where colon: "colon g = CHR '':'' # w" "list_all jsonWs w"
    by (cases g) (auto simp: colon_def jsonWs_def)
  have "parseVal f (w @ jsonText g v @ q) = Some (v, q)"
    using assms by (simp add: parseVal_pad colon(2) readsD propText_def)
  then show ?thesis
    by (simp add: propText_def s colon(1) skipWs_pad assms(3) skipWs_cons not_ws)
qed

lemma parseProps_text:
  assumes "kvs \<noteq> []" and "\<forall>(k, v) \<in> set kvs. utf8Text k \<and> reads g v" and "list_all jsonWs pre"
    and "length (joinWith ('','' @ pre) (map (propText g) kvs)) < f"
  shows "parseProps f (pre @ joinWith ('','' @ pre) (map (propText g) kvs) @ padAfter h @ CHR ''}'' # r) = Some (kvs, r)"
  using assms
proof (induction kvs arbitrary: f)
  case (Cons kv kvs)
  obtain k v where kv: "kv = (k, v)" by (cases kv)
  obtain f' where f: "f = Suc f'" using Cons.prems(4) by (cases f) auto
  have here: "utf8Text k" "reads g v" using Cons.prems(2) kv by auto
  show ?case
  proof (cases "kvs = []")
    case True
    then show ?thesis
      using Cons.prems(3,4) f kv parseProps_first [OF here Cons.prems(3), of f' "padAfter h @ CHR ''}'' # r"]
        delimited_pad(1) [of "CHR ''}''" h r]
      by (simp add: skipWs_pad pads_ws skipWs_cons not_ws)
  next
    case False
    let ?rest = "pre @ joinWith ('','' @ pre) (map (propText g) kvs) @ padAfter h @ CHR ''}'' # r"
    have join: "joinWith ('','' @ pre) (map (propText g) (kv # kvs)) =
        propText g (k, v) @ CHR '','' # pre @ joinWith ('','' @ pre) (map (propText g) kvs)"
      using False kv by (cases kvs) simp_all
    have len: "length (propText g (k, v)) \<le> f'" "length (joinWith ('','' @ pre) (map (propText g) kvs)) < f'"
      using Cons.prems(4) unfolding join f by simp_all
    have rest: "parseProps f' ?rest = Some (kvs, r)"
      using Cons.IH [OF False, of f'] Cons.prems(2,3) len(2) by simp
    from parseProps_first [OF here Cons.prems(3) len(1) delimited_pad(2)] rest show ?thesis
      unfolding join f by (simp add: skipWs_cons not_ws kv)
  qed
qed simp

lemma setProp_fresh: "k \<notin> fst ` set kvs \<Longrightarrow> setProp k v kvs = kvs @ [(k, v)]"
  by (induction kvs) auto

lemma spread_distinct: "distinct (map fst (a @ b)) \<Longrightarrow> spread a b = a @ b"
  by (induction b arbitrary: a) (auto simp: setProp_fresh)

lemma jsonable_reads: "jsonable v \<Longrightarrow> reads g v"
proof (induction v arbitrary: g)
  case (JNum n)
  then obtain i where i: "n = NInt i" by (cases n) auto
  show ?case unfolding reads_def
  proof (intro allI impI)
    fix f r assume "length (jsonText g (JNum n)) \<le> f" "delimited r"
    moreover obtain c cs where c: "decInt i = c # cs" "c = CHR ''-'' \<or> isDigit c"
      using decInt_head by blast
    moreover obtain f' where "f = Suc f'"
      using calculation(1) c i by (cases f) (auto simp: jsonText_def)
    moreover have "parseNum (c # cs @ r) = Some (JNum (NInt i), r)"
      using parseNum_decInt [OF \<open>delimited r\<close>, of i] c(1) by simp
    moreover have "\<not> jsonWs c" "c \<notin> {CHR 0x22, CHR ''['', CHR ''{'', CHR ''t'', CHR ''f'', CHR ''n''}"
      using c(2) digit_not_special [of c] by (cases "c = CHR ''-''"; simp add: jsonWs_def)+
    moreover from this(2) have "CHR ''t'' \<noteq> c" "CHR ''f'' \<noteq> c" "CHR ''n'' \<noteq> c"
      by (metis insert_iff)+
    ultimately show "parseVal f (jsonText g (JNum n) @ r) = Some (JNum n, r)"
      by (simp add: jsonText_def i skipWs_cons)
  qed
next
  case (JStr s)
  then obtain q where q: "jsonQuote s = CHR 0x22 # q" "\<And>r. parseStr (q @ r) = Some (s, r)"
    by (auto intro: parseStr_quote)
  show ?case unfolding reads_def
  proof (intro allI impI)
    fix f r assume "length (jsonText g (JStr s)) \<le> f"
    then obtain f' where "f = Suc f'" by (cases f) (auto simp: jsonText_def q)
    then show "parseVal f (jsonText g (JStr s) @ r) = Some (JStr s, r)"
      by (simp add: jsonText_def q skipWs_cons not_ws)
  qed
next
  case (JArr xs)
  then have xs: "list_all jsonable xs" "\<forall>x \<in> set xs. reads (deeper g) x"
    by (auto simp: list_all_iff)
  show ?case unfolding reads_def
  proof (intro allI impI)
    fix f r assume f: "length (jsonText g (JArr xs)) \<le> f" and r: "delimited r"
    show "parseVal f (jsonText g (JArr xs) @ r) = Some (JArr xs, r)"
    proof (cases "xs = []")
      case True
      then obtain f' where "f = Suc f'" using f by (cases f) (auto simp: jsonText_def jsonWrap_def)
      with True show ?thesis by (simp add: jsonText_def jsonWrap_def skipWs_cons not_ws)
    next
      case False
      let ?body = "joinWith ('','' @ padBefore g) (map (jsonText (deeper g)) xs)"
      obtain f' where f': "f = Suc f'" "length ?body < f'"
        using f jsonText_arr [OF xs(1) False, of g] by (cases f) auto
      obtain c cs where c: "?body = c # cs" "\<not> jsonWs c" "c \<noteq> CHR '']''"
        using xs(1) False by (cases xs; cases "tl xs = []") (force elim!: jsonText_head [of _ "deeper g"] simp: joinWith_Cons)+
      have "parseElems f' (padBefore g @ ?body @ padAfter g @ CHR '']'' # r) = Some (xs, r)"
        by (rule parseElems_text [OF False xs(2) pads_ws(1) f'(2)])
      moreover have "\<not> prefix '']'' (skipWs (padBefore g @ ?body @ padAfter g @ CHR '']'' # r))"
        using c by (simp add: skipWs_pad pads_ws skipWs_cons)
      ultimately show ?thesis
        unfolding jsonText_arr [OF xs(1) False] f'(1) by (simp add: skipWs_cons not_ws)
    qed
  qed
next
  case (JObj kvs)
  then have kvs: "list_all (\<lambda>(k, v). utf8Text k \<and> jsonable v) kvs" "distinct (map fst kvs)"
    "\<forall>(k, v) \<in> set kvs. utf8Text k \<and> reads (deeper g) v"
    by (fastforce simp: list_all_iff)+
  show ?case unfolding reads_def
  proof (intro allI impI)
    fix f r assume f: "length (jsonText g (JObj kvs)) \<le> f" and r: "delimited r"
    show "parseVal f (jsonText g (JObj kvs) @ r) = Some (JObj kvs, r)"
    proof (cases "kvs = []")
      case True
      then obtain f' where "f = Suc f'" using f by (cases f) (auto simp: jsonText_def jsonWrap_def)
      with True show ?thesis by (simp add: jsonText_def jsonWrap_def skipWs_cons not_ws)
    next
      case False
      let ?body = "joinWith ('','' @ padBefore g) (map (propText (deeper g)) kvs)"
      obtain f' where f': "f = Suc f'" "length ?body < f'"
        using f jsonText_obj [OF kvs(1) False, of g] by (cases f) auto
      obtain cs where c: "?body = CHR 0x22 # cs"
        using False by (cases kvs; cases "tl kvs = []") (auto simp: joinWith_Cons propText_def jsonQuote_def)
      have "parseProps f' (padBefore g @ ?body @ padAfter g @ CHR ''}'' # r) = Some (kvs, r)"
        by (rule parseProps_text [OF False kvs(3) pads_ws(1) f'(2)])
      moreover have "\<not> prefix ''}'' (skipWs (padBefore g @ ?body @ padAfter g @ CHR ''}'' # r))"
        using c by (simp add: skipWs_pad pads_ws skipWs_cons not_ws)
      ultimately show ?thesis
        unfolding jsonText_obj [OF kvs(1) False] f'(1) using kvs(2)
        by (simp add: skipWs_cons not_ws spread_distinct [of "[]", simplified])
    qed
  qed
qed (auto simp: reads_def jsonText_def neq_Nil_conv Suc_le_eq gr0_conv_Suc Suc_less_eq2 skipWs_cons jsonWs_def)

text \<open>\<^verbatim>\<open>JSON.parse\<close> inverts \<^verbatim>\<open>JSON.stringify\<close>, in the compact layout and in the indented one, on every
  value built from \<^verbatim>\<open>null\<close>, booleans, integers, well-formed strings, arrays and objects without
  repeated keys, also when white space follows the text.\<close>

lemma jsonParse_stringify:
  assumes "jsonable v" and "list_all jsonWs w" and "w = [] \<or> hd w = CHR 0x0A"
  shows "jsonParse (stringify v @ w) = Some v" and "jsonParse (stringifyIndent v @ w) = Some v"
proof -
  have "jsonParse (jsonText g v @ w) = Some v" for g
  proof -
    have "delimited w" using assms(3) by (auto simp: delimited_def)
    then have "parseVal (Suc (length (jsonText g v @ w))) (jsonText g v @ w) = Some (v, w)"
      by (intro readsD [OF jsonable_reads [OF assms(1)]]) simp_all
    moreover have "skipWs w = []" using assms(2) by (simp add: skipWs_def list_all_iff)
    ultimately show ?thesis by (simp only: jsonParse_def) simp
  qed
  then show "jsonParse (stringify v @ w) = Some v" "jsonParse (stringifyIndent v @ w) = Some v"
    using jsonVal_text [OF assms(1)] by (simp_all add: stringify_def stringifyIndent_def)
qed

section \<open>Decoding bytes\<close>

text \<open>\<^verbatim>\<open>TextDecoder("utf-8", { fatal: true })\<close>: well-formed UTF-8, a leading byte-order mark dropped.\<close>

definition contByte :: "nat \<Rightarrow> bool" where
  "contByte b = (128 \<le> b \<and> b \<le> 191)"

fun utf8Valid :: "nat list \<Rightarrow> bool" where
  "utf8Valid [] = True"
| "utf8Valid (b # bs) =
     (if b < 128 then utf8Valid bs
      else case bs of [] \<Rightarrow> False
        | c # cs \<Rightarrow>
          if 194 \<le> b \<and> b \<le> 223 then contByte c \<and> utf8Valid cs
          else case cs of [] \<Rightarrow> False
            | d # ds \<Rightarrow>
              if 224 \<le> b \<and> b \<le> 239 then
                contByte c \<and> (b = 224 \<longrightarrow> 160 \<le> c) \<and> (b = 237 \<longrightarrow> c \<le> 159) \<and> contByte d \<and> utf8Valid ds
              else case ds of [] \<Rightarrow> False
                | e # es \<Rightarrow> 240 \<le> b \<and> b \<le> 244 \<and> contByte c \<and> (b = 240 \<longrightarrow> 144 \<le> c) \<and> (b = 244 \<longrightarrow> c \<le> 143) \<and>
                    contByte d \<and> contByte e \<and> utf8Valid es)"

definition utf8Decode :: "string \<Rightarrow> string option" where
  "utf8Decode bytes =
     (if utf8Valid (map of_char bytes)
      then Some (if prefix [CHR 0xEF, CHR 0xBB, CHR 0xBF] bytes then drop 3 bytes else bytes) else None)"

end
