(* ===== verification/Pod_Store.thy ===== *)
theory Pod_Store
  imports Assertions FileSystem Json
begin

text \<open>
  The durable state of a pod run, \<^verbatim>\<open>src/src/pod-store.mjs\<close>: the run record, the event log, attempt plans,
  work results, gate receipts and the inboxes of the engineering slots, with the operations of
  \<open>createPodRunStore\<close> and \<open>openPodRunStore\<close>.

  Every operation of a store goes through its \<^verbatim>\<open>serialize\<close> queue, which runs the operations one at a
  time in the order of their calls and goes on after a failed one; so a store's history is a list of
  operations, run in order (\<open>runOps\<close>).  The state is the closure's variables (\<^verbatim>\<open>run\<close>,
  \<^verbatim>\<open>eventSequence\<close>, the three count maps, \<^verbatim>\<open>finished\<close>) over the file store.
\<close>

section \<open>Constants and small checks\<close>

definition maxRecordBytes :: nat where "maxRecordBytes = 64 * 1024"
definition maxJsonDepth :: nat where "maxJsonDepth = 32"
definition maxAttemptsAllowed :: int where "maxAttemptsAllowed = 10"
definition maxCollectionRecords :: nat where "maxCollectionRecords = 100"
definition maxEvents :: nat where "maxEvents = 1000"

definition inboxOwners :: "string list" where
  "inboxOwners = [''engineering-a'', ''engineering-b'']"

definition terminalStatuses :: "string list" where
  "terminalStatuses = [''completed'', ''failed'', ''cancelled'']"

text \<open>\<^verbatim>\<open>/^[a-z][a-z0-9]*(?:\.[a-z][a-z0-9]*)*$/\<close>: dot-separated segments.\<close>

definition reSegment :: "string \<Rightarrow> bool" where
  "reSegment s = (s \<noteq> [] \<and> isLower (hd s) \<and> list_all (\<lambda>c. isLower c \<or> isDigit c) s)"

definition reEventType :: "string \<Rightarrow> bool" where
  "reEventType s = list_all reSegment (splitOn (CHR ''.'') s)"

definition plainObject :: "jsval \<Rightarrow> string \<Rightarrow> unit res" where
  "plainObject v label = require (isPlainObject v) (label @ '' must be a plain object'')"

text \<open>\<^verbatim>\<open>validateJson\<close> on values without cycles and accessors, which values of type \<open>jsval\<close> never have.
  The descriptors of an array include its own \<^verbatim>\<open>length\<close>, a finite number at the next depth.\<close>

fun validateJson :: "string \<Rightarrow> nat \<Rightarrow> jsval \<Rightarrow> unit res"
  and validateJsonElems :: "string \<Rightarrow> nat \<Rightarrow> jsval list \<Rightarrow> unit res"
  and validateJsonProps :: "string \<Rightarrow> nat \<Rightarrow> jsobj \<Rightarrow> unit res" where
  "validateJson label depth v =
     (if maxJsonDepth < depth then Inl (label @ '' exceeds maximum JSON depth'')
      else case v of
        JNull \<Rightarrow> Inr ()
      | JStr _ \<Rightarrow> Inr ()
      | JBool _ \<Rightarrow> Inr ()
      | JNum n \<Rightarrow> require (isFiniteNumber (JNum n)) (label @ '' must contain only finite JSON numbers'')
      | JUndef \<Rightarrow> Inl (label @ '' must contain only JSON values'')
      | JOther \<Rightarrow> Inl (label @ '' must contain only plain JSON objects'')
      | JArr xs \<Rightarrow>
          bindR (validateJsonElems label (Suc depth) xs) (\<lambda>_.
          require (\<not> maxJsonDepth < Suc depth) (label @ '' exceeds maximum JSON depth''))
      | JObj kvs \<Rightarrow> validateJsonProps label (Suc depth) kvs)"
| "validateJsonElems label depth [] = Inr ()"
| "validateJsonElems label depth (x # xs) =
     bindR (validateJson label depth x) (\<lambda>_. validateJsonElems label depth xs)"
| "validateJsonProps label depth [] = Inr ()"
| "validateJsonProps label depth ((k, v) # kvs) =
     bindR (validateJson label depth v) (\<lambda>_. validateJsonProps label depth kvs)"

declare validateJson.simps [simp del]

definition parseText :: "string \<Rightarrow> err \<Rightarrow> jsval res" where
  "parseText content message = (case jsonParse content of None \<Rightarrow> Inl message | Some v \<Rightarrow> Inr v)"

definition cloneJson :: "jsval \<Rightarrow> string \<Rightarrow> jsval res" where
  "cloneJson v label =
     bindR (validateJson label 0 v) (\<lambda>_. parseText (stringify v) ''SyntaxError'')"

definition serializeRecord :: "jsval \<Rightarrow> string \<Rightarrow> bool \<Rightarrow> (jsval \<times> string) res" where
  "serializeRecord v label pretty =
     bindR (cloneJson v label) (\<lambda>cloned.
     let content = (if pretty then stringifyIndent cloned else stringify cloned) @ newline in
     bindR (require (byteLength content \<le> maxRecordBytes)
       (label @ '' must serialize to at most '' @ decNat maxRecordBytes @ '' bytes'')) (\<lambda>_.
     Inr (cloned, content)))"

definition attemptNumber :: "jsval \<Rightarrow> unit res" where
  "attemptNumber v =
     require (isSafeInteger v \<and> 1 \<le> intOf v \<and> intOf v \<le> maxAttemptsAllowed)
       (''attempt must be between 1 and '' @ decInt maxAttemptsAllowed)"

definition inboxOwner :: "string \<Rightarrow> unit res" where
  "inboxOwner s = require (s \<in> set inboxOwners) ''inbox owner must be engineering-a or engineering-b''"

definition cursor :: "jsval \<Rightarrow> unit res" where
  "cursor v = require (isSafeInteger v \<and> 0 \<le> intOf v) ''afterSequence must be a non-negative safe integer''"

section \<open>Timestamps\<close>

text \<open>The strings that \<^verbatim>\<open>toISOString\<close> writes: \<^verbatim>\<open>YYYY-MM-DDTHH:mm:ss.sssZ\<close> with a day of the calendar, or the
  same with a signed six-digit year outside 0 to 9999, within the range of a \<^verbatim>\<open>Date\<close>.\<close>

definition leapYear :: "int \<Rightarrow> bool" where
  "leapYear y = (y mod 4 = 0 \<and> (y mod 100 \<noteq> 0 \<or> y mod 400 = 0))"

definition daysInMonth :: "int \<Rightarrow> nat \<Rightarrow> nat" where
  "daysInMonth y m = (if m = 2 then (if leapYear y then 29 else 28) else if m \<in> {4, 6, 9, 11} then 30 else 31)"

definition isoTail :: "int \<Rightarrow> string \<Rightarrow> bool" where
  "isoTail y s =
     (length s = 20 \<and>
      list_all (\<lambda>(i, c). s ! i = c)
        [(0, CHR ''-''), (3, CHR ''-''), (6, CHR ''T''), (9, CHR '':''), (12, CHR '':''), (15, CHR ''.''), (19, CHR ''Z'')] \<and>
      list_all (\<lambda>i. isDigit (s ! i)) [1, 2, 4, 5, 7, 8, 10, 11, 13, 14, 16, 17, 18] \<and>
      (let month = numberValue (take 2 (drop 1 s)); day = numberValue (take 2 (drop 4 s))
       in 1 \<le> month \<and> month \<le> 12 \<and> 1 \<le> day \<and> day \<le> daysInMonth y month) \<and>
      numberValue (take 2 (drop 7 s)) \<le> 23 \<and> numberValue (take 2 (drop 10 s)) \<le> 59 \<and>
      numberValue (take 2 (drop 13 s)) \<le> 59)"

definition isoDayNumber :: "string \<Rightarrow> nat" where
  "isoDayNumber s = 100 * numberValue (take 2 (drop 1 s)) + numberValue (take 2 (drop 4 s))"

definition isoTimestamp :: "string \<Rightarrow> bool" where
  "isoTimestamp s =
     (if s \<noteq> [] \<and> isDigit (hd s)
      then list_all isDigit (take 4 s) \<and> 4 \<le> length s \<and> isoTail (int (numberValue (take 4 s))) (drop 4 s)
      else 7 \<le> length s \<and> list_all isDigit (take 6 (drop 1 s)) \<and>
        (let n = int (numberValue (take 6 (drop 1 s))); t = drop 7 s in
         (hd s = CHR ''+'' \<and> 9999 < n \<and> isoTail n t \<and>
            (n < 275760 \<or> n = 275760 \<and> (isoDayNumber t < 913 \<or> t = ''-09-13T00:00:00.000Z''))) \<or>
         (hd s = CHR ''-'' \<and> 0 < n \<and> isoTail (- n) t \<and> (n < 271821 \<or> n = 271821 \<and> 420 \<le> isoDayNumber t))))"

definition validStoredTimestamp :: "jsval \<Rightarrow> bool" where
  "validStoredTimestamp v = (isString v \<and> isoTimestamp (strOf v))"

section \<open>State and ports\<close>

record 'w podStore = "'w sys" +
  ps_run :: jsobj
  ps_sequence :: nat
  ps_inbox :: "(int \<times> string, nat) mapping"
  ps_work :: "(int, nat) mapping"
  ps_gate :: "(int, nat) mapping"
  ps_finished :: bool

record 'w storePorts =
  sp_now :: "'w \<Rightarrow> string res \<times> 'w"
  sp_fault :: "'w fault"

record storeArgs =
  sa_root :: string
  sa_runId :: string

type_synonym ('w, 'a) store = "('w podStore, 'a) io"

definition storeDir :: "storeArgs \<Rightarrow> string" where
  "storeDir a = pathJoin (sa_root a) (sa_runId a)"

definition attemptsDir :: "storeArgs \<Rightarrow> string" where
  "attemptsDir a = pathJoin (storeDir a) ''attempts''"

definition attemptDir :: "storeArgs \<Rightarrow> int \<Rightarrow> string" where
  "attemptDir a n = pathJoin (attemptsDir a) (decInt n)"

definition storeEventsPath :: "storeArgs \<Rightarrow> string" where
  "storeEventsPath a = pathJoin (storeDir a) ''events.jsonl''"

definition runRecordPath :: "storeArgs \<Rightarrow> string" where
  "runRecordPath a = pathJoin (storeDir a) ''run.json''"

definition countOf :: "('k, nat) mapping \<Rightarrow> 'k \<Rightarrow> nat" where
  "countOf m k = (case Mapping.lookup m k of None \<Rightarrow> 0 | Some n \<Rightarrow> n)"

definition timestamp :: "'w storePorts \<Rightarrow> ('w, string) store" where
  "timestamp p = useWorldR (sp_now p)"

definition lstatOrNull :: "'w fault \<Rightarrow> string \<Rightarrow> (('w, 'z) sys_scheme, node option) io" where
  "lstatOrNull fault path =
     catchE (thenE (faultPoint fault) (getS (\<lambda>s. nodeAt s path))) (\<lambda>_. ret None)"

fun isFileNode :: "node option \<Rightarrow> bool" where
  "isFileNode (Some (NFile _ _)) = True"
| "isFileNode _ = False"

fun isDirNode :: "node option \<Rightarrow> bool" where
  "isDirNode (Some (NDir _ _)) = True"
| "isDirNode _ = False"

definition eexist :: err where
  "eexist = ''EEXIST: file already exists''"

definition renameEexist :: "err \<Rightarrow> ('s, 'a) io \<Rightarrow> ('s, 'a) io" where
  "renameEexist message m = catchE m (\<lambda>e. throwE (if e = eexist then message else e))"

section \<open>Creating a store\<close>

definition initialRun :: "string \<Rightarrow> jsval \<Rightarrow> string \<Rightarrow> jsobj" where
  "initialRun runId assignment startedAt =
     [(''version'', num 1), (''runId'', JStr runId), (''assignment'', assignment), (''status'', JStr ''running''),
      (''phase'', JStr ''created''), (''currentAttempt'', num 0), (''startedAt'', JStr startedAt), (''finishedAt'', JNull)]"

definition createFiles :: "'w storePorts \<Rightarrow> storeArgs \<Rightarrow> string \<Rightarrow> ('w, unit) store" where
  "createFiles p a content =
     catchE
       (thenE (atomicWrite (sp_fault p) (runRecordPath a) content)
         (createNew (sp_fault p) (storeEventsPath a) (NFile 384 [])))
       (\<lambda>e. thenE (catchE (removeTree (sp_fault p) (storeDir a)) (\<lambda>_. ret ())) (throwE e))"

definition createPodRunStore :: "'w storePorts \<Rightarrow> storeArgs \<Rightarrow> jsval \<Rightarrow> ('w, unit) store" where
  "createPodRunStore p a assignment =
     thenE (liftR (checks
       [require (sa_root a \<noteq> [] \<and> CHR 0x00 \<notin> set (sa_root a)) ''stateRoot must be a non-empty path'',
        require (reRunId (sa_runId a)) ''invalid run ID'',
        plainObject assignment ''assignment'']))
     (bindE (timestamp p) (\<lambda>startedAt.
      bindE (liftR (cloneJson assignment ''assignment'')) (\<lambda>cloned.
      let run = initialRun (sa_runId a) cloned startedAt in
      bindE (liftR (serializeRecord (JObj run) ''run record'' True)) (\<lambda>(_, content).
      thenE (mkdirp (sp_fault p) (sa_root a) 448)
      (bindE (thenE (faultPoint (sp_fault p)) (getS (\<lambda>s. nodeAt s (sa_root a)))) (\<lambda>root.
      thenE (liftR (require (isDirNode root) ''stateRoot must be a regular directory''))
      (thenE (renameEexist (''run already exists: '' @ sa_runId a)
               (createNew (sp_fault p) (storeDir a) (NDir 448 0)))
      (thenE (createFiles p a content)
        (modS (\<lambda>s. s\<lparr>ps_run := run, ps_sequence := 0, ps_inbox := Mapping.empty, ps_work := Mapping.empty,
                        ps_gate := Mapping.empty, ps_finished := False\<rparr>))))))))))"

section \<open>Operations\<close>

definition ensureOpen :: "('w, unit) store" where
  "ensureOpen = bindE (getS ps_finished) (\<lambda>f. liftR (require (\<not> f) ''run is already finished''))"

definition eventFields :: "storeArgs \<Rightarrow> nat \<Rightarrow> string \<Rightarrow> string \<Rightarrow> jsobj" where
  "eventFields a seq time type =
     [(''version'', num 1), (''sequence'', num (int seq + 1)), (''timestamp'', JStr time),
      (''runId'', JStr (sa_runId a)), (''type'', JStr type)]"

definition appendEvent :: "'w storePorts \<Rightarrow> storeArgs \<Rightarrow> string \<Rightarrow> jsval \<Rightarrow> ('w, jsval) store" where
  "appendEvent p a type details =
     thenE ensureOpen
     (bindE (getS ps_sequence) (\<lambda>seq.
      thenE (liftR (checks
        [require (seq < maxEvents - 1)
           (''events exceed '' @ decNat (maxEvents - 1) @ '' entries before the terminal event''),
         require (reEventType type) ''invalid event type'',
         plainObject details ''event details'']))
      (bindE (liftR (cloneJson details ''event details'')) (\<lambda>cloned.
       bindE (timestamp p) (\<lambda>time.
       let event = JObj (spread (props cloned) (eventFields a seq time type)) in
       bindE (liftR (serializeRecord event ''event'' False)) (\<lambda>(_, content).
       thenE (appendFile (sp_fault p) (storeEventsPath a) content)
       (thenE (modS (\<lambda>s. s\<lparr>ps_sequence := seq + 1\<rparr>)) (ret event))))))))"

definition planPath :: "storeArgs \<Rightarrow> int \<Rightarrow> string" where
  "planPath a n = pathJoin (attemptDir a n) ''plan.json''"

definition writeAttemptPlan :: "'w storePorts \<Rightarrow> storeArgs \<Rightarrow> jsval \<Rightarrow> jsval \<Rightarrow> ('w, jsval) store" where
  "writeAttemptPlan p a attempt plan =
     (let n = intOf attempt in
      thenE ensureOpen
      (thenE (liftR (checks [attemptNumber attempt, plainObject plan ''attempt plan'']))
      (bindE (liftR (serializeRecord plan ''attempt plan'' True)) (\<lambda>(stored, content).
       bindE (getS ps_run) (\<lambda>run.
       let nextRun = spread run [(''currentAttempt'', num (max (intOf (fld (JObj run) ''currentAttempt'')) n)),
                                 (''phase'', JStr ''planned'')] in
       bindE (liftR (serializeRecord (JObj nextRun) ''run record'' True)) (\<lambda>(_, runContent).
       thenE (mkdirp (sp_fault p) (attemptsDir a) 448)
       (thenE (mkdirp (sp_fault p) (attemptDir a n) 448)
       (thenE (renameEexist (''attempt '' @ decInt n @ '' plan already exists'')
                (createNew (sp_fault p) (planPath a n) (NFile 384 content)))
       (thenE (atomicWrite (sp_fault p) (runRecordPath a) runContent)
       (thenE (modS (\<lambda>s. s\<lparr>ps_run := nextRun\<rparr>)) (ret stored)))))))))))"

definition requirePlan :: "'w storePorts \<Rightarrow> storeArgs \<Rightarrow> int \<Rightarrow> ('w, unit) store" where
  "requirePlan p a n =
     bindE (lstatOrNull (sp_fault p) (planPath a n)) (\<lambda>stat.
     liftR (require (isFileNode stat) (''attempt '' @ decInt n @ '' plan does not exist'')))"

definition writeWorkResult :: "'w storePorts \<Rightarrow> storeArgs \<Rightarrow> jsval \<Rightarrow> jsval \<Rightarrow> ('w, jsval) store" where
  "writeWorkResult p a attempt result =
     (let n = intOf attempt in
      thenE ensureOpen
      (thenE (liftR (checks [attemptNumber attempt, plainObject result ''work result'']))
      (thenE (requirePlan p a n)
      (bindE (getS (\<lambda>s. countOf (ps_work s) n)) (\<lambda>count.
       thenE (liftR (require (count < maxCollectionRecords)
         (''work results for attempt '' @ decInt n @ '' exceed '' @ decNat maxCollectionRecords @ '' entries'')))
       (bindE (liftR (serializeRecord result ''work result'' False)) (\<lambda>(stored, content).
       thenE (appendFile (sp_fault p) (pathJoin (attemptDir a n) ''work-results.jsonl'') content)
       (thenE (modS (\<lambda>s. s\<lparr>ps_work := Mapping.update n (count + 1) (ps_work s)\<rparr>)) (ret stored)))))))))"

definition writeGateReceipt :: "'w storePorts \<Rightarrow> storeArgs \<Rightarrow> jsval \<Rightarrow> jsval \<Rightarrow> ('w, jsval) store" where
  "writeGateReceipt p a attempt receipt =
     (let n = intOf attempt in
      thenE ensureOpen
      (thenE (liftR (checks [attemptNumber attempt, plainObject receipt ''gate receipt'']))
      (thenE (requirePlan p a n)
      (bindE (getS (\<lambda>s. countOf (ps_gate s) n)) (\<lambda>count.
       thenE (liftR (require (count < maxCollectionRecords)
         (''gate receipts for attempt '' @ decInt n @ '' exceed '' @ decNat maxCollectionRecords @ '' entries'')))
       (bindE (liftR (serializeRecord receipt ''gate receipt'' False)) (\<lambda>(stored, content).
       thenE (appendFile (sp_fault p) (pathJoin (attemptDir a n) ''gate-receipts.jsonl'') content)
       (thenE (modS (\<lambda>s. s\<lparr>ps_gate := Mapping.update n (count + 1) (ps_gate s)\<rparr>)) (ret stored)))))))))"

definition inboxDir :: "storeArgs \<Rightarrow> int \<Rightarrow> string" where
  "inboxDir a n = pathJoin (attemptDir a n) ''inbox''"

definition inboxPath :: "storeArgs \<Rightarrow> int \<Rightarrow> string \<Rightarrow> string" where
  "inboxPath a n owner = pathJoin (inboxDir a n) (owner @ ''.jsonl'')"

definition inboxFields :: "storeArgs \<Rightarrow> int \<Rightarrow> string \<Rightarrow> nat \<Rightarrow> string \<Rightarrow> jsobj" where
  "inboxFields a n owner count time =
     [(''version'', num 1), (''sequence'', num (int count + 1)), (''timestamp'', JStr time),
      (''runId'', JStr (sa_runId a)), (''attempt'', num n), (''ownerSlot'', JStr owner)]"

definition enqueueInbox :: "'w storePorts \<Rightarrow> storeArgs \<Rightarrow> jsval \<Rightarrow> string \<Rightarrow> jsval \<Rightarrow> ('w, jsval) store" where
  "enqueueInbox p a attempt owner entry =
     (let n = intOf attempt in
      thenE ensureOpen
      (thenE (liftR (checks [attemptNumber attempt, inboxOwner owner, plainObject entry ''inbox entry'']))
      (thenE (requirePlan p a n)
      (bindE (getS (\<lambda>s. countOf (ps_inbox s) (n, owner))) (\<lambda>count.
       thenE (liftR (require (count < maxCollectionRecords)
         (''inbox '' @ owner @ '' for attempt '' @ decInt n @ '' exceeds '' @ decNat maxCollectionRecords @ '' entries'')))
       (bindE (liftR (cloneJson entry ''inbox details'')) (\<lambda>cloned.
        bindE (timestamp p) (\<lambda>time.
        let inboxEntry = JObj (spread (props cloned) (inboxFields a n owner count time)) in
        bindE (liftR (serializeRecord inboxEntry ''inbox entry'' False)) (\<lambda>(_, content).
        thenE (mkdirp (sp_fault p) (inboxDir a n) 448)
        (thenE (appendFile (sp_fault p) (inboxPath a n owner) content)
        (thenE (modS (\<lambda>s. s\<lparr>ps_inbox := Mapping.update (n, owner) (count + 1) (ps_inbox s)\<rparr>))
          (ret inboxEntry))))))))))))"

text \<open>A missing inbox file reads as empty; every other error is passed on.\<close>

definition readOrEmpty :: "'w fault \<Rightarrow> string \<Rightarrow> (('w, 'z) sys_scheme, string) io" where
  "readOrEmpty fault path =
     thenE (faultPoint fault)
       (\<lambda>s. case nodeAt s path of
              Some (NFile _ c) \<Rightarrow> (Inr c, s)
            | None \<Rightarrow> (Inr [], s)
            | Some _ \<Rightarrow> (Inl ''EISDIR: illegal operation on a directory'', s))"

fun greaterThan :: "jsval \<Rightarrow> int \<Rightarrow> bool" where
  "greaterThan (JNum (NInt i)) c = (i > c)"
| "greaterThan (JNum (NFrac n d _)) c = (n > c * d)"
| "greaterThan (JNum NPosInf) c = True"
| "greaterThan _ c = False"

definition readInbox :: "'w storePorts \<Rightarrow> storeArgs \<Rightarrow> jsval \<Rightarrow> string \<Rightarrow> jsval \<Rightarrow> ('w, jsval list) store" where
  "readInbox p a attempt owner afterSequence =
     (let n = intOf attempt in
      thenE (liftR (checks [attemptNumber attempt, inboxOwner owner, cursor afterSequence]))
      (thenE (requirePlan p a n)
      (bindE (readOrEmpty (sp_fault p) (inboxPath a n owner)) (\<lambda>content.
       if content = [] then ret []
       else bindE (liftR (mapR (\<lambda>_ line. parseText line ''SyntaxError'') 0
                            (splitOn (CHR 0x0A) (trimEndStr content)))) (\<lambda>entries.
            ret (filter (\<lambda>e. greaterThan (fld e ''sequence'') (intOf afterSequence)) entries))))))"

definition terminalRun :: "storeArgs \<Rightarrow> jsobj \<Rightarrow> jsobj \<Rightarrow> string \<Rightarrow> string \<Rightarrow> jsobj" where
  "terminalRun a run details status finishedAt =
     (let old = fld (JObj run); phase = fld (JObj details) ''phase'' in
      spread (spread run details)
        [(''version'', old ''version''), (''runId'', JStr (sa_runId a)), (''assignment'', old ''assignment''),
         (''status'', JStr status), (''phase'', if isString phase then phase else JStr ''finished''),
         (''currentAttempt'', old ''currentAttempt''), (''startedAt'', old ''startedAt''),
         (''finishedAt'', JStr finishedAt)])"

definition finish :: "'w storePorts \<Rightarrow> storeArgs \<Rightarrow> string \<Rightarrow> jsval \<Rightarrow> ('w, jsval) store" where
  "finish p a status details =
     thenE ensureOpen
     (bindE (getS ps_sequence) (\<lambda>seq.
      thenE (liftR (checks
        [require (status \<in> set terminalStatuses) ''run status must be completed, failed, or cancelled'',
         require (seq < maxEvents) (''events exceed '' @ decNat maxEvents @ '' entries''),
         plainObject details ''finish details'']))
      (bindE (liftR (cloneJson details ''finish details'')) (\<lambda>stored.
       bindE (timestamp p) (\<lambda>finishedAt.
       bindE (getS ps_run) (\<lambda>run.
       let event = JObj (spread (spread (props stored) [(''status'', JStr status)])
                           (eventFields a seq finishedAt ''run.finished''));
           terminal = terminalRun a run (props stored) status finishedAt in
       bindE (liftR (serializeRecord (JObj terminal) ''run record'' True)) (\<lambda>(_, runContent).
       bindE (liftR (serializeRecord event ''event'' False)) (\<lambda>(_, content).
       thenE (appendFile (sp_fault p) (storeEventsPath a) content)
       (thenE (modS (\<lambda>s. s\<lparr>ps_sequence := seq + 1\<rparr>))
       (thenE (atomicWrite (sp_fault p) (runRecordPath a) runContent)
       (thenE (modS (\<lambda>s. s\<lparr>ps_run := terminal, ps_finished := True\<rparr>))
         (ret (JObj terminal)))))))))))))"

section \<open>Reopening a store\<close>

fun nodeMode :: "node option \<Rightarrow> nat" where
  "nodeMode (Some (NFile m _)) = m mod 512"
| "nodeMode (Some (NDir m _)) = m mod 512"
| "nodeMode _ = 0"

definition nodeSize :: "node option \<Rightarrow> nat" where
  "nodeSize n = length (fileText n)"

definition privateEntry :: "'w fault \<Rightarrow> string \<Rightarrow> string \<Rightarrow> bool \<Rightarrow> nat \<Rightarrow> (('w, 'z) sys_scheme, node option) io" where
  "privateEntry fault target label wantFile mode =
     bindE (lstatOrNull fault target) (\<lambda>stat.
     thenE (liftR (require ((if wantFile then isFileNode stat else isDirNode stat) \<and> nodeMode stat = mode)
       (label @ '' must be a private regular '' @ (if wantFile then ''file'' else ''directory''))))
     (ret stat))"

definition parseStoredObject :: "string \<Rightarrow> string \<Rightarrow> jsval res" where
  "parseStoredObject content label =
     bindR (parseText content (label @ '' contains invalid JSON'')) (\<lambda>v.
     bindR (plainObject v label) (\<lambda>_.
     bindR (validateJson label 0 v) (\<lambda>_. Inr v)))"

definition runRecordOk :: "storeArgs \<Rightarrow> jsval \<Rightarrow> bool" where
  "runRecordOk a run =
     (fld run ''version'' = num 1 \<and> fld run ''runId'' = JStr (sa_runId a) \<and>
      isString (fld run ''status'') \<and> strOf (fld run ''status'') \<in> set (''running'' # terminalStatuses) \<and>
      isString (fld run ''phase'') \<and> isSafeInteger (fld run ''currentAttempt'') \<and>
      0 \<le> intOf (fld run ''currentAttempt'') \<and> intOf (fld run ''currentAttempt'') \<le> maxAttemptsAllowed \<and>
      validStoredTimestamp (fld run ''startedAt'') \<and>
      (fld run ''finishedAt'' = JNull \<or> validStoredTimestamp (fld run ''finishedAt'')))"

definition eventOk :: "storeArgs \<Rightarrow> nat \<Rightarrow> jsval \<Rightarrow> bool" where
  "eventOk a index event =
     (fld event ''version'' = num 1 \<and> fld event ''runId'' = JStr (sa_runId a) \<and>
      fld event ''sequence'' = num (int index + 1) \<and> validStoredTimestamp (fld event ''timestamp'') \<and>
      reEventType (toStr (fld event ''type'')))"

definition parseEventLine :: "storeArgs \<Rightarrow> nat \<Rightarrow> string \<Rightarrow> jsval res" where
  "parseEventLine a index line =
     bindR (require (byteLength line + 1 \<le> maxRecordBytes) ''event exceeds the record limit'') (\<lambda>_.
     bindR (parseStoredObject line ''event'') (\<lambda>event.
     bindR (require (eventOk a index event) ''event record is invalid'') (\<lambda>_.
     Inr event)))"

definition parseEvents :: "storeArgs \<Rightarrow> string \<Rightarrow> jsval list res" where
  "parseEvents a content =
     bindR (require (content = [] \<or> suffix newline content) ''event record is incomplete'') (\<lambda>_.
     if content = [] then Inr []
     else mapR (parseEventLine a) 0 (splitOn (CHR 0x0A) (butlast content)))"

definition isFinishedEvent :: "jsval \<Rightarrow> bool" where
  "isFinishedEvent e = (fld e ''type'' = JStr ''run.finished'')"

definition consistentRun :: "jsval \<Rightarrow> jsval list \<Rightarrow> unit res" where
  "consistentRun run events =
     (if fld run ''status'' \<noteq> JStr ''running''
      then require (fld run ''finishedAt'' \<noteq> JNull \<and> events \<noteq> [] \<and> isFinishedEvent (last events) \<and>
                    fld (last events) ''status'' = fld run ''status'') ''terminal run record is inconsistent''
      else require (fld run ''finishedAt'' = JNull \<and> \<not> list_ex isFinishedEvent events) ''active run record is inconsistent'')"

definition openPodRunStore :: "'w storePorts \<Rightarrow> storeArgs \<Rightarrow> ('w, jsval \<times> jsval list) store" where
  "openPodRunStore p a =
     thenE (liftR (checks
       [require (sa_root a \<noteq> [] \<and> CHR 0x00 \<notin> set (sa_root a)) ''stateRoot must be a non-empty path'',
        require (reRunId (sa_runId a)) ''invalid run ID'']))
     (thenE (privateEntry (sp_fault p) (sa_root a) ''stateRoot'' False 448)
     (thenE (privateEntry (sp_fault p) (storeDir a) ''run directory'' False 448)
     (bindE (privateEntry (sp_fault p) (runRecordPath a) ''run record'' True 384) (\<lambda>runStat.
      bindE (privateEntry (sp_fault p) (storeEventsPath a) ''event record'' True 384) (\<lambda>eventsStat.
      thenE (liftR (checks
        [require (2 \<le> nodeSize runStat \<and> nodeSize runStat \<le> maxRecordBytes) ''run record has an invalid size'',
         require (nodeSize eventsStat \<le> maxEvents * maxRecordBytes) ''event record has an invalid size'']))
      (bindE (readText (sp_fault p) (runRecordPath a)) (\<lambda>runContent.
      thenE (liftR (require (byteLength runContent = nodeSize runStat) ''run record changed while opening''))
      (bindE (liftR (parseStoredObject runContent ''run record'')) (\<lambda>run.
      thenE (liftR (checks
        [require (runRecordOk a run) ''run record is invalid'',
         plainObject (fld run ''assignment'') ''run assignment'']))
      (bindE (readText (sp_fault p) (storeEventsPath a)) (\<lambda>eventsContent.
      thenE (liftR (require (byteLength eventsContent = nodeSize eventsStat) ''event record changed while opening''))
      (bindE (liftR (parseEvents a eventsContent)) (\<lambda>events.
      thenE (liftR (checks
        [require (length events \<le> maxEvents) ''event record exceeds the entry limit'',
         consistentRun run events]))
      (thenE (modS (\<lambda>s. s\<lparr>ps_run := props run, ps_sequence := length events,
                           ps_finished := (fld run ''status'' \<noteq> JStr ''running'')\<rparr>))
        (ret (run, events))))))))))))))))"

text \<open>\<^verbatim>\<open>appendEvent\<close> and \<^verbatim>\<open>finish\<close> of a reopened store repeat the bodies of the created one.\<close>

definition reopenedAppendEvent :: "'w storePorts \<Rightarrow> storeArgs \<Rightarrow> string \<Rightarrow> jsval \<Rightarrow> ('w, jsval) store" where
  "reopenedAppendEvent = appendEvent"

definition reopenedFinish :: "'w storePorts \<Rightarrow> storeArgs \<Rightarrow> string \<Rightarrow> jsval \<Rightarrow> ('w, jsval) store" where
  "reopenedFinish = finish"

section \<open>Histories\<close>

datatype storeOp =
    AppendEvent string jsval
  | WriteAttemptPlan jsval jsval
  | WriteWorkResult jsval jsval
  | WriteGateReceipt jsval jsval
  | EnqueueInbox jsval string jsval
  | ReadInbox jsval string jsval
  | Finish string jsval

fun performOp :: "'w storePorts \<Rightarrow> storeArgs \<Rightarrow> storeOp \<Rightarrow> ('w, jsval) store" where
  "performOp p a (AppendEvent type details) = appendEvent p a type details"
| "performOp p a (WriteAttemptPlan attempt plan) = writeAttemptPlan p a attempt plan"
| "performOp p a (WriteWorkResult attempt result) = writeWorkResult p a attempt result"
| "performOp p a (WriteGateReceipt attempt receipt) = writeGateReceipt p a attempt receipt"
| "performOp p a (EnqueueInbox attempt owner entry) = enqueueInbox p a attempt owner entry"
| "performOp p a (ReadInbox attempt owner after) = bindE (readInbox p a attempt owner after) (\<lambda>es. ret (JArr es))"
| "performOp p a (Finish status details) = finish p a status details"

text \<open>\<^verbatim>\<open>serialize\<close>: the next operation runs when the one before has settled, whether it failed or not.\<close>

fun runOps :: "'w storePorts \<Rightarrow> storeArgs \<Rightarrow> storeOp list \<Rightarrow> ('w, jsval res list) store" where
  "runOps p a [] = ret []"
| "runOps p a (op # ops) =
     bindE (catchE (bindE (performOp p a op) (\<lambda>v. ret (Inr v))) (\<lambda>e. ret (Inl e))) (\<lambda>r.
     bindE (runOps p a ops) (\<lambda>rs. ret (r # rs)))"

end
