(* ===== verification/Paths.thy ===== *)
theory Paths
  imports Assertions FileSystem
begin

text \<open>
  Absolute POSIX paths: what \<^verbatim>\<open>path.posix.normalize\<close> and \<^verbatim>\<open>path.join\<close> make of them.
\<close>

section \<open>Absolute directories\<close>

text \<open>What \<^verbatim>\<open>path.resolve\<close> returns for every directory other than the root: joining a proper name to it
  appends a slash and the name.\<close>

definition properName :: "string \<Rightarrow> bool" where
  "properName b \<longleftrightarrow> \<not> badSegment b \<and> CHR ''/'' \<notin> set b"

definition absDir :: "string \<Rightarrow> bool" where
  "absDir d \<longleftrightarrow> (\<exists>segs. segs \<noteq> [] \<and> (\<forall>s \<in> set segs. properName s) \<and> d = concat (map ((#) (CHR ''/'')) segs))"

lemma concat_slashes: "segs \<noteq> [] \<Longrightarrow> concat (map ((#) c) segs) = c # joinWith [c] segs"
proof (induction segs)
  case (Cons s segs)
  then show ?case by (cases "segs = []") (simp_all add: joinWith_Cons)
qed simp

lemma absDir_join:
  assumes "absDir d" and "properName b"
  shows "absDir (d @ CHR ''/'' # b)"
proof -
  from assms(1) obtain segs where "\<forall>s \<in> set segs. properName s" "d = concat (map ((#) (CHR ''/'')) segs)"
    by (auto simp: absDir_def)
  then show ?thesis
    using assms(2) by (auto simp: absDir_def intro!: exI [of _ "segs @ [b]"])
qed

lemma absDir_normal:
  assumes "absDir d"
  shows "posixNormalize d = d" and "isAbsolutePath d"
proof -
  obtain segs where segs: "segs \<noteq> []" "\<forall>s \<in> set segs. properName s" and d: "d = concat (map ((#) (CHR ''/'')) segs)"
    using assms by (auto simp: absDir_def)
  have path: "d = CHR ''/'' # joinWith ''/'' segs"
    unfolding d using segs(1) by (rule concat_slashes)
  have split: "splitOn (CHR ''/'') d = [] # segs"
    unfolding path using segs by (simp add: splitOn_joinWith properName_def)
  have norm: "normSegments False [] ([] # segs) = segs"
    using normSegments_proper [of segs False "[]"] segs(2) by (simp add: properName_def)
  obtain xs b where xs: "segs = xs @ [b]" using segs(1) by (cases segs rule: rev_cases) auto
  then have b: "b \<noteq> []" "CHR ''/'' \<notin> set b" using segs(2) by (auto simp: properName_def badSegment_def)
  then have "last (joinWith ''/'' segs) = last b" "joinWith ''/'' segs \<noteq> []"
    unfolding xs by (simp_all add: last_joinWith_snoc, cases "xs = []") (simp_all add: joinWith_snoc)
  moreover have "last b \<noteq> CHR ''/''" using b last_in_set by metis
  ultimately have "last d \<noteq> CHR ''/''" "joinWith ''/'' segs \<noteq> []" by (simp_all add: path)
  then have "\<not> suffix ''/'' d" by (auto simp: suffix_def)
  moreover show abs: "isAbsolutePath d" by (simp add: path isAbsolutePath_def)
  ultimately show "posixNormalize d = d"
    using split norm path \<open>joinWith ''/'' segs \<noteq> []\<close> by (simp add: posixNormalize_def Let_def)
qed

lemma pathJoin_abs:
  assumes "absDir d" and "properName b"
  shows "pathJoin d b = d @ CHR ''/'' # b"
  using absDir_normal(1) [OF absDir_join [OF assms]] by (simp add: pathJoin_def)

lemma properName_runId: "reRunId r \<Longrightarrow> properName r"
proof -
  assume r: "reRunId r"
  have "\<not> portableChar (CHR ''/'')" "\<not> isAlnum (CHR ''/'')" "\<not> isAlnum (CHR ''.'')" by code_simp+
  with r show "properName r"
    by (cases r) (auto simp: properName_def badSegment_def list_all_iff)
qed

text \<open>Normalising an absolute path leaves proper names only, and names appended to it stay as they are.\<close>

lemma normSegments_abs:
  "\<forall>s \<in> set acc. properName s \<Longrightarrow> \<forall>seg \<in> set segs. CHR ''/'' \<notin> set seg \<Longrightarrow> \<forall>s \<in> set (normSegments False acc segs). properName s"
proof (induction segs arbitrary: acc)
  case (Cons seg segs)
  have IH: "\<forall>s \<in> set acc'. properName s \<Longrightarrow> \<forall>s \<in> set (normSegments False acc' segs). properName s" for acc'
    by (rule Cons.IH) (use Cons.prems(2) in simp_all)
  consider "seg = [] \<or> seg = ''.''" | "seg = ''..''" | "properName seg"
    using Cons.prems(2) unfolding properName_def badSegment_def by auto
  then show ?case
  proof cases
    case 1
    then show ?thesis using IH [OF Cons.prems(1)] by auto
  next
    case 2
    have "acc = [] \<or> (\<exists>a as. acc = a # as \<and> a \<noteq> ''..'' \<and> (\<forall>s \<in> set as. properName s))"
      using Cons.prems(1) by (cases acc) (auto simp: properName_def badSegment_def)
    then show ?thesis using 2 IH [of "[]"] IH [of "tl acc"] by (elim disjE exE conjE) simp_all
  next
    case 3
    then have "seg \<noteq> []" "seg \<noteq> ''.''" "seg \<noteq> ''..''" by (auto simp: properName_def badSegment_def)
    then show ?thesis using IH [of "seg # acc"] 3 Cons.prems(1) by simp
  qed
qed simp

lemma normSegments_append:
  "\<forall>s \<in> set ys. properName s \<Longrightarrow> normSegments up acc (xs @ ys) = normSegments up acc xs @ ys"
proof (induction xs arbitrary: acc)
  case Nil
  then show ?case by (simp add: normSegments_proper properName_def)
next
  case (Cons x xs)
  then show ?case by (auto split: list.splits)
qed

lemma normSegments_set: "set (normSegments False acc segs) \<subseteq> set acc \<union> set segs"
proof (induction segs arbitrary: acc)
  case (Cons seg segs)
  have "normSegments False acc (seg # segs) \<in> (\<lambda>a. normSegments False a segs) ` {acc, [], tl acc, seg # acc}"
    by (cases acc) auto
  then obtain acc' where acc': "normSegments False acc (seg # segs) = normSegments False acc' segs" "acc' \<in> {acc, [], tl acc, seg # acc}"
    by auto
  then have "set acc' \<subseteq> set acc \<union> {seg}" by (cases acc) auto
  then show ?case using Cons [of acc'] acc'(1) by auto
qed simp

end
