(* ===== verification/Pod_Store_Journal.thy ===== *)
theory Pod_Store_Journal
  imports Pod_Store Paths
begin

text \<open>
  What the store of a pod run guarantees: the journal invariant that every operation keeps on a disk
  without faults, and the round trip through \<open>openPodRunStore\<close>, which gives back the run record and the
  events exactly as they were when the store was left.
\<close>

section \<open>The names in a run directory\<close>

lemma properName_decInt: "1 \<le> n \<Longrightarrow> properName (decInt n)"
proof -
  assume n: "1 \<le> n"
  have "\<not> isDigit (CHR ''/'')" "\<not> isDigit (CHR ''.'')" by code_simp+
  with n decNat_all_digits [of "nat n"] show "properName (decInt n)"
    by (auto simp: properName_def badSegment_def decInt_def list_all_iff)
qed

lemma properName_literals:
  "properName ''attempts''" "properName ''events.jsonl''" "properName ''run.json''" "properName ''plan.json''"
  "properName ''work-results.jsonl''" "properName ''gate-receipts.jsonl''" "properName ''inbox''"
  "ow \<in> set inboxOwners \<Longrightarrow> properName (ow @ ''.jsonl'')"
  by (auto simp: properName_def badSegment_def inboxOwners_def)

section \<open>The layout of a run directory\<close>

definition rooted :: "storeArgs \<Rightarrow> bool" where
  "rooted a \<longleftrightarrow> absDir (sa_root a) \<and> CHR 0x00 \<notin> set (sa_root a) \<and> reRunId (sa_runId a)"

lemma layout:
  assumes "rooted a"
  shows "storeDir a = sa_root a @ CHR ''/'' # sa_runId a" and "absDir (storeDir a)"
    and "storeEventsPath a = storeDir a @ ''/events.jsonl''" and "runRecordPath a = storeDir a @ ''/run.json''"
    and "attemptsDir a = storeDir a @ ''/attempts''" and "absDir (attemptsDir a)"
proof -
  have root: "absDir (sa_root a)" "properName (sa_runId a)"
    using assms properName_runId by (auto simp: rooted_def)
  show dir: "storeDir a = sa_root a @ CHR ''/'' # sa_runId a"
    unfolding storeDir_def by (rule pathJoin_abs [OF root])
  show abs: "absDir (storeDir a)"
    unfolding dir by (rule absDir_join [OF root])
  show "storeEventsPath a = storeDir a @ ''/events.jsonl''" "runRecordPath a = storeDir a @ ''/run.json''"
    and att: "attemptsDir a = storeDir a @ ''/attempts''"
    by (simp_all add: storeEventsPath_def runRecordPath_def attemptsDir_def pathJoin_abs [OF abs] properName_literals)
  show "absDir (attemptsDir a)"
    using absDir_join [OF abs properName_literals(1)] by (simp add: att)
qed

definition underAttempts :: "storeArgs \<Rightarrow> string \<Rightarrow> bool" where
  "underAttempts a q \<longleftrightarrow> prefix (storeDir a @ ''/attempts'') q"

lemma attempt_layout:
  assumes "rooted a" and "1 \<le> n"
  shows "underAttempts a (attemptsDir a)" and "underAttempts a (attemptDir a n)" and "underAttempts a (planPath a n)"
    and "underAttempts a (pathJoin (attemptDir a n) ''work-results.jsonl'')"
    and "underAttempts a (pathJoin (attemptDir a n) ''gate-receipts.jsonl'')" and "underAttempts a (inboxDir a n)"
    and "ow \<in> set inboxOwners \<Longrightarrow> underAttempts a (inboxPath a n ow)"
proof -
  note base = layout(5,6) [OF assms(1)]
  have dir: "attemptDir a n = attemptsDir a @ CHR ''/'' # decInt n" and abs: "absDir (attemptDir a n)"
    using pathJoin_abs [OF base(2)] absDir_join [OF base(2)] properName_decInt [OF assms(2)]
    by (simp_all add: attemptDir_def)
  have inbox: "inboxDir a n = attemptDir a n @ ''/inbox''" and inboxAbs: "absDir (inboxDir a n)"
    using pathJoin_abs [OF abs, of "''inbox''"] absDir_join [OF abs, of "''inbox''"]
    by (simp_all add: inboxDir_def properName_literals)
  have pre: "prefix (storeDir a @ ''/attempts'') (attemptDir a n)" "prefix (storeDir a @ ''/attempts'') (inboxDir a n)"
    by (simp_all add: inbox dir base(1))
  show "underAttempts a (attemptsDir a)" "underAttempts a (attemptDir a n)" "underAttempts a (inboxDir a n)"
    using pre by (simp_all add: underAttempts_def base(1))
  show "underAttempts a (planPath a n)" "underAttempts a (pathJoin (attemptDir a n) ''work-results.jsonl'')"
    "underAttempts a (pathJoin (attemptDir a n) ''gate-receipts.jsonl'')"
    unfolding underAttempts_def planPath_def pathJoin_abs [OF abs properName_literals(4)]
      pathJoin_abs [OF abs properName_literals(5)] pathJoin_abs [OF abs properName_literals(6)]
    by (rule prefix_prefix [OF pre(1)])+
  show "underAttempts a (inboxPath a n ow)" if "ow \<in> set inboxOwners"
    unfolding underAttempts_def inboxPath_def pathJoin_abs [OF inboxAbs properName_literals(8) [OF that]]
    by (rule prefix_prefix [OF pre(2)])
qed

lemma protected_paths:
  assumes "rooted a" and "underAttempts a q"
  shows "q \<noteq> sa_root a" "q \<noteq> storeDir a" "q \<noteq> runRecordPath a" "q \<noteq> storeEventsPath a"
  using assms(2) layout(1,3,4) [OF assms(1)] by (auto simp: underAttempts_def prefix_def)

lemma run_paths:
  assumes "rooted a"
  shows "runRecordPath a \<noteq> storeEventsPath a" "storeEventsPath a \<noteq> runRecordPath a"
    "sa_root a \<noteq> storeDir a" "storeDir a \<noteq> sa_root a" "sa_root a \<noteq> runRecordPath a" "runRecordPath a \<noteq> sa_root a"
    "sa_root a \<noteq> storeEventsPath a" "storeEventsPath a \<noteq> sa_root a"
    "storeDir a \<noteq> runRecordPath a" "runRecordPath a \<noteq> storeDir a" "storeDir a \<noteq> storeEventsPath a" "storeEventsPath a \<noteq> storeDir a"
  using layout(1,3,4) [OF assms] by auto

section \<open>The journal invariant\<close>

definition stored :: "jsval \<Rightarrow> bool" where
  "stored v \<longleftrightarrow> jsonable v \<and> isPlainObject v \<and> (\<forall>label. validateJson label 0 v = Inr ())"

definition eventText :: "jsval \<Rightarrow> string" where
  "eventText e = stringify e @ newline"

definition eventsStored :: "storeArgs \<Rightarrow> jsval list \<Rightarrow> 'w podStore \<Rightarrow> bool" where
  "eventsStored a es s \<longleftrightarrow>
     nodeAt s (storeEventsPath a) = Some (NFile 384 (concat (map eventText es))) \<and>
     ps_sequence s = length es \<and> length es \<le> maxEvents \<and>
     (\<forall>i < length es. eventOk a i (es ! i) \<and> stored (es ! i) \<and> length (eventText (es ! i)) \<le> maxRecordBytes)"

definition runStored :: "storeArgs \<Rightarrow> 'w podStore \<Rightarrow> bool" where
  "runStored a s \<longleftrightarrow>
     nodeAt s (runRecordPath a) = Some (NFile 384 (stringifyIndent (JObj (ps_run s)) @ newline)) \<and>
     length (stringifyIndent (JObj (ps_run s)) @ newline) \<le> maxRecordBytes \<and> stored (JObj (ps_run s)) \<and>
     runRecordOk a (JObj (ps_run s)) \<and> isPlainObject (fld (JObj (ps_run s)) ''assignment'')"

definition settled :: "jsval list \<Rightarrow> 'w podStore \<Rightarrow> bool" where
  "settled es s \<longleftrightarrow>
     consistentRun (JObj (ps_run s)) es = Inr () \<and>
     (ps_finished s \<longleftrightarrow> fld (JObj (ps_run s)) ''status'' \<noteq> JStr ''running'')"

definition storeInv :: "storeArgs \<Rightarrow> jsval list \<Rightarrow> 'w podStore \<Rightarrow> bool" where
  "storeInv a es s \<longleftrightarrow>
     isDirNode (nodeAt s (sa_root a)) \<and> nodeMode (nodeAt s (sa_root a)) = 448 \<and>
     isDirNode (nodeAt s (storeDir a)) \<and> nodeMode (nodeAt s (storeDir a)) = 448 \<and>
     eventsStored a es s \<and> runStored a s \<and> settled es s"

lemmas storeInv_defs = storeInv_def eventsStored_def runStored_def settled_def

lemma storeInv_put: "rooted a \<Longrightarrow> underAttempts a q \<Longrightarrow> storeInv a es (putNode q n s) = storeInv a es s"
  using protected_paths [of a q]
  by (simp add: storeInv_defs) (simp add: putNode_def)

lemma storeInv_other [simp]:
  "storeInv a es (s\<lparr>sys_world := w\<rparr>) = storeInv a es s"
  "storeInv a es (s\<lparr>ps_inbox := i\<rparr>) = storeInv a es s"
  "storeInv a es (s\<lparr>ps_work := c\<rparr>) = storeInv a es s"
  "storeInv a es (s\<lparr>ps_gate := c\<rparr>) = storeInv a es s"
  by (simp_all add: storeInv_defs)

lemma inv_fault [keeps_rules]: "keeps (storeInv a es) (faultPoint f)"
  by (rule keepsI) (auto simp: faultPoint_def split: prod.splits option.splits)

lemma inv_timestamp [keeps_rules]: "keeps (storeInv a es) (timestamp p)"
  by (rule keepsI) (auto simp: timestamp_def useWorldR_def split: prod.splits)

lemma inv_lstat [keeps_rules]: "keeps (storeInv a es) (lstatOrNull f q)"
  unfolding lstatOrNull_def by (intro keeps_rules)

lemma inv_append [keeps_rules]:
  "rooted a \<Longrightarrow> underAttempts a q \<Longrightarrow> keeps (storeInv a es) (appendFile f q c)"
  unfolding appendFile_def by (intro keeps_rules) (simp add: storeInv_put)

lemma inv_createNew [keeps_rules]:
  "rooted a \<Longrightarrow> underAttempts a q \<Longrightarrow> keeps (storeInv a es) (createNew f q n)"
  unfolding createNew_def
  by (intro keeps_thenE inv_fault, rule keepsI) (auto simp: storeInv_put split: if_splits)

lemma inv_mkdirp [keeps_rules]:
  "rooted a \<Longrightarrow> underAttempts a q \<Longrightarrow> keeps (storeInv a es) (mkdirp f q m)"
  unfolding mkdirp_def
  by (intro keeps_thenE inv_fault, rule keepsI) (auto simp: storeInv_put split: option.splits node.splits)

lemma inv_readOrEmpty [keeps_rules]: "keeps (storeInv a es) (readOrEmpty f q)"
  unfolding readOrEmpty_def
  by (intro keeps_thenE inv_fault, rule keepsI) (auto split: option.splits node.splits)

lemma inv_rename [keeps_rules]: "keeps (storeInv a es) m \<Longrightarrow> keeps (storeInv a es) (renameEexist e m)"
  unfolding renameEexist_def by (intro keeps_rules)

lemma inv_open [keeps_rules]: "keeps (storeInv a es) ensureOpen"
  unfolding ensureOpen_def by (intro keeps_rules)

lemma inv_requirePlan [keeps_rules]: "keeps (storeInv a es) (requirePlan p a' n)"
  unfolding requirePlan_def by (intro keeps_rules)

lemma keeps_checked:
  assumes "checks cs = Inr () \<Longrightarrow> keeps P k"
  shows "keeps P (thenE (liftR (checks cs)) k)"
  using assms by (cases "checks cs") (auto simp: keeps_def elim!: thenE_elim)

lemma attemptNumber_Inr [res_simps]: "attemptNumber v = Inr () \<longleftrightarrow> okInt 1 10 v"
  by (cases v rule: isSafeInteger.cases)
    (auto simp: attemptNumber_def maxAttemptsAllowed_def res_simps okInt_def maxSafeInteger_def)

lemma inv_work:
  assumes "rooted a"
  shows "keeps (storeInv a es) (writeWorkResult p a attempt v)"
  unfolding writeWorkResult_def Let_def
  by (intro keeps_thenE [OF inv_open] keeps_checked keeps_rules assms attempt_layout)
    (auto simp: res_simps okInt_def)

lemma inv_gate:
  assumes "rooted a"
  shows "keeps (storeInv a es) (writeGateReceipt p a attempt v)"
  unfolding writeGateReceipt_def Let_def
  by (intro keeps_thenE [OF inv_open] keeps_checked keeps_rules assms attempt_layout)
    (auto simp: res_simps okInt_def)

lemma inv_inbox:
  assumes "rooted a"
  shows "keeps (storeInv a es) (enqueueInbox p a attempt owner v)"
  unfolding enqueueInbox_def Let_def
  by (intro keeps_thenE [OF inv_open] keeps_checked keeps_rules assms attempt_layout)
    (auto simp: res_simps okInt_def inboxOwner_def)

lemma inv_readInbox: "keeps (storeInv a es) (readInbox p a' attempt owner v)"
  unfolding readInbox_def Let_def by (intro keeps_rules)

section \<open>Records\<close>

lemma validateJson_label: "validateJson l d v = Inr () \<longleftrightarrow> validateJson l' d v = Inr ()"
  and "validateJsonElems l d xs = Inr () \<longleftrightarrow> validateJsonElems l' d xs = Inr ()"
  and "validateJsonProps l d kvs = Inr () \<longleftrightarrow> validateJsonProps l' d kvs = Inr ()"
  by (induction l d v and l d xs and l d kvs rule: validateJson_validateJsonElems_validateJsonProps.induct)
    (auto simp: validateJson.simps res_simps split: jsval.split)



lemma cloneJson_Inr:
  assumes "cloneJson v l = Inr w" and "jsonable v"
  shows "w = v" and "validateJson l' 0 v = Inr ()"
  using assms jsonParse_stringify(1) [OF assms(2), of "[]"] validateJson_label [of l 0 v l']
  by (auto simp: cloneJson_def parseText_def bindR_unit)

lemma serializeRecord_Inr:
  assumes "serializeRecord v l pretty = Inr (w, c)" and "jsonable v"
  shows "c = (if pretty then stringifyIndent v else stringify v) @ newline" and "length c \<le> maxRecordBytes"
    and "isPlainObject v \<Longrightarrow> stored v" and "w = v"
proof -
  from assms(1) obtain u where u: "cloneJson v l = Inr u"
    and rest: "c = (if pretty then stringifyIndent u else stringify u) @ newline" "length c \<le> maxRecordBytes" "w = u"
    by (auto simp: serializeRecord_def Let_def bindR_Inr res_simps byteLength_def)
  note clone = cloneJson_Inr [OF u assms(2)]
  show "c = (if pretty then stringifyIndent v else stringify v) @ newline" "length c \<le> maxRecordBytes" "w = v"
    using rest clone(1) by simp_all
  show "stored v" if "isPlainObject v"
    using that assms(2) clone(2) by (simp add: stored_def)
qed

lemma distinct_setProp: "distinct (map fst kvs) \<Longrightarrow> distinct (map fst (setProp k v kvs))"
  by (induction k v kvs rule: setProp.induct) (auto simp: image_iff dest: set_mp [OF eq_refl [OF set_keys_setProp]])

lemma distinct_spread: "distinct (map fst a) \<Longrightarrow> distinct (map fst (spread a b))"
  by (induction a b rule: spread.induct) (auto simp: distinct_setProp)

lemma list_all_setProp: "list_all P kvs \<Longrightarrow> P (k, v) \<Longrightarrow> list_all P (setProp k v kvs)"
  by (induction k v kvs rule: setProp.induct) auto

lemma list_all_spread: "list_all P a \<Longrightarrow> list_all P b \<Longrightarrow> list_all P (spread a b)"
  by (induction a b rule: spread.induct) (auto simp: list_all_setProp)

lemma jsonable_spread:
  "jsonable (JObj a) \<Longrightarrow> list_all (\<lambda>(k, v). utf8Text k \<and> jsonable v) b \<Longrightarrow> jsonable (JObj (spread a b))"
  by (simp add: distinct_spread list_all_spread)

lemma jsonable_fld: "jsonable (JObj kvs) \<Longrightarrow> map_of kvs k = Some v \<Longrightarrow> jsonable v"
  by (auto simp: list_all_iff dest: map_of_SomeD)

lemma class_ascii: "isLower c \<or> isDigit c \<or> isAlnum c \<or> portableChar c \<Longrightarrow> (of_char c :: nat) < 128"
  by (auto simp: char_classes portableChar_def)

lemma runId_utf8: "reRunId r \<Longrightarrow> utf8Text r"
  by (intro ascii_utf8, cases r) (auto simp: list_all_iff class_ascii)

lemma eventType_utf8:
  assumes "reEventType s"
  shows "utf8Text s"
proof (rule ascii_utf8)
  have "list_all (\<lambda>c. (of_char c :: nat) < 128) seg" if "seg \<in> set (splitOn (CHR ''.'') s)" for seg
    using assms that class_ascii unfolding reEventType_def reSegment_def list_all_iff by blast
  then have "list_all (\<lambda>c. (of_char c :: nat) < 128) (joinWith ''.'' (splitOn (CHR ''.'') s))"
  proof (induction "splitOn (CHR ''.'') s" arbitrary: s rule: list.induct)
    case Nil
    then show ?case by simp
  next
    case (Cons seg segs)
    have "list_all (\<lambda>c. (of_char c :: nat) < 128) (joinWith ''.'' xs)"
      if "\<forall>x \<in> set xs. list_all (\<lambda>c. (of_char c :: nat) < 128) x" for xs
      using that by (induction "''.''" xs rule: joinWith.induct) auto
    then show ?case using Cons by simp
  qed
  then show "list_all (\<lambda>c. (of_char c :: nat) < 128) s"
    by (simp add: joinWith_splitOn)
qed

section \<open>Operations that move the journal\<close>

definition clockOk :: "'w storePorts \<Rightarrow> bool" where
  "clockOk p \<longleftrightarrow> (\<forall>w t w'. sp_now p w = (Inr t, w') \<longrightarrow> isoTimestamp t \<and> utf8Text t)"

lemma timestamp_ok:
  "timestamp p s = (r, s') \<Longrightarrow> clockOk p \<Longrightarrow>
   (\<exists>w. s' = s\<lparr>sys_world := w\<rparr>) \<and> (\<forall>t. r = Inr t \<longrightarrow> isoTimestamp t \<and> utf8Text t)"
  unfolding timestamp_def useWorldR_def clockOk_def
  by (cases "sp_now p (sys_world s)") auto

lemma ensureOpen_run: "ensureOpen s = (r, s') \<Longrightarrow> s' = s \<and> (r = Inr () \<longrightarrow> \<not> ps_finished s)"
  unfolding ensureOpen_def by (elim run_elims) (auto simp: res_simps)

lemma appendFile_run:
  "appendFile f q c s = (r, s') \<Longrightarrow>
   (\<exists>w. (\<exists>e. r = Inl e) \<and> s' = s\<lparr>sys_world := w\<rparr> \<or>
        r = Inr () \<and> s' = putNode q (NFile (fileMode 384 (nodeAt s q)) (fileText (nodeAt s q) @ c)) (s\<lparr>sys_world := w\<rparr>))"
  unfolding appendFile_def
  by (elim run_elims) (auto simp: faultPoint_def split: prod.splits option.splits)

lemma utf8_literals:
  "utf8Text ''version''" "utf8Text ''sequence''" "utf8Text ''timestamp''" "utf8Text ''runId''" "utf8Text ''type''"
  "utf8Text ''status''" "utf8Text ''assignment''" "utf8Text ''phase''" "utf8Text ''currentAttempt''" "utf8Text ''startedAt''"
  "utf8Text ''finishedAt''" "utf8Text ''finished''" "utf8Text ''planned''" "utf8Text ''running''" "utf8Text ''created''"
  "utf8Text ''run.finished''" "status \<in> set terminalStatuses \<Longrightarrow> utf8Text status"
  by (auto intro!: ascii_utf8 simp: terminalStatuses_def)

lemma eventFields_jsonable:
  "rooted a \<Longrightarrow> utf8Text time \<Longrightarrow> utf8Text type \<Longrightarrow>
   list_all (\<lambda>(k, v). utf8Text k \<and> jsonable v) (eventFields a n time type)"
  by (simp add: eventFields_def num_def utf8_literals runId_utf8 rooted_def)

lemma eventFields_ok:
  assumes "isoTimestamp time" and "reEventType type"
  shows "eventOk a n (JObj (spread kvs (eventFields a n time type)))"
    and "isFinishedEvent (JObj (spread kvs (eventFields a n time type))) \<longleftrightarrow> type = ''run.finished''"
    and "fld (JObj (spread kvs (eventFields a n time type))) ''status'' = fld (JObj kvs) ''status''"
proof -
  have "distinct (map fst (eventFields a n time type))" by (simp add: eventFields_def)
  note look = map_of_spread [OF this]
  have fields: "map_of (eventFields a n time type) ''version'' = Some (num 1)"
    "map_of (eventFields a n time type) ''sequence'' = Some (num (int n + 1))"
    "map_of (eventFields a n time type) ''timestamp'' = Some (JStr time)"
    "map_of (eventFields a n time type) ''runId'' = Some (JStr (sa_runId a))"
    "map_of (eventFields a n time type) ''type'' = Some (JStr type)"
    "map_of (eventFields a n time type) ''status'' = None"
    by (simp_all add: eventFields_def)
  show "eventOk a n (JObj (spread kvs (eventFields a n time type)))"
    "isFinishedEvent (JObj (spread kvs (eventFields a n time type))) \<longleftrightarrow> type = ''run.finished''"
    "fld (JObj (spread kvs (eventFields a n time type))) ''status'' = fld (JObj kvs) ''status''"
    using assms by (simp_all add: eventOk_def isFinishedEvent_def look fields map_add_def validStoredTimestamp_def)
qed

lemma eventsStored_append:
  assumes "rooted a" and "eventsStored a es s" and "length es < maxEvents"
    and "eventOk a (length es) e" and "stored e" and "length (eventText e) \<le> maxRecordBytes"
  shows "eventsStored a (es @ [e])
    ((putNode (storeEventsPath a) (NFile (fileMode 384 (nodeAt s (storeEventsPath a)))
        (fileText (nodeAt s (storeEventsPath a)) @ eventText e)) (s\<lparr>sys_world := w\<rparr>))\<lparr>ps_sequence := Suc (length es)\<rparr>)"
  using assms by (auto simp: eventsStored_def fileMode_def fileText_def nth_append less_Suc_eq putNode_def lookup_update')

lemma storeInv_event:
  assumes "rooted a" and inv: "storeInv a es s" and "length es < maxEvents"
    and "eventOk a (length es) e" and "stored e" and "length (eventText e) \<le> maxRecordBytes"
    and "\<not> ps_finished s" and "\<not> isFinishedEvent e"
  shows "storeInv a (es @ [e])
    ((putNode (storeEventsPath a) (NFile (fileMode 384 (nodeAt s (storeEventsPath a)))
        (fileText (nodeAt s (storeEventsPath a)) @ eventText e)) (s\<lparr>sys_world := w\<rparr>))\<lparr>ps_sequence := Suc (length es)\<rparr>)"
    (is "storeInv a _ ?s")
proof -
  have "eventsStored a (es @ [e]) ?s"
    using assms by (intro eventsStored_append) (auto simp: storeInv_def)
  moreover have "settled (es @ [e]) ?s"
    using inv assms(7,8) by (auto simp: storeInv_def settled_def consistentRun_def putNode_def res_simps)
  moreover have "runStored a ?s"
    using inv run_paths [OF assms(1)] by (simp add: storeInv_def runStored_def) (simp add: putNode_def)
  moreover have "nodeAt ?s (sa_root a) = nodeAt s (sa_root a)" "nodeAt ?s (storeDir a) = nodeAt s (storeDir a)"
    using run_paths [OF assms(1)] by (simp_all add: putNode_def lookup_update')
  ultimately show ?thesis
    using inv by (simp add: storeInv_def)
qed

lemma appendEvent_inv:
  assumes "rooted a" and "clockOk p" and "jsonable details" and "type \<noteq> ''run.finished''"
    and "storeInv a es s" and "appendEvent p a type details s = (r, s')"
  shows "(\<exists>e. r = Inl e) \<and> storeInv a es s' \<or>
         (\<exists>e. r = Inr e \<and> storeInv a (es @ [e]) s' \<and> \<not> isFinishedEvent e)"
proof -
  have seq: "ps_sequence s = length es" using assms(5) by (simp add: storeInv_defs)
  from assms(6) show ?thesis unfolding appendEvent_def Let_def
  proof (elim run_elims, goal_cases)
    case (7 u s1 v s2 w s3 cloned s4 time s5 x s6)
    obtain y content where x: "x = (y, content)" by force
    let ?e = "JObj (spread (props cloned) (eventFields a v time type))"
    have open_: "s1 = s" "\<not> ps_finished s" using ensureOpen_run [OF 7(1)] by auto
    have v: "v = length es" "s2 = s" "s3 = s" "s4 = s" "v < maxEvents - 1" "reEventType type" "isPlainObject details"
      using 7(2,3,4) open_ seq by (auto simp: res_simps plainObject_def)
    have c: "cloned = details" using 7(4) cloneJson_Inr(1) [OF _ assms(3)] by auto
    obtain w0 where t: "s5 = s\<lparr>sys_world := w0\<rparr>" "isoTimestamp time" "utf8Text time"
      using timestamp_ok [OF 7(5) assms(2)] v(4) by auto
    have "jsonable ?e"
      using assms(1,3) v(7) t(3) eventType_utf8 [OF v(6)] by (intro jsonable_spread eventFields_jsonable)
        (auto simp: c isPlainObject_iff)
    moreover have ser: "serializeRecord ?e ''event'' False = Inr (y, content)" "s6 = s5" using 7(6) x by auto
    ultimately have rec: "content = eventText ?e" "length (eventText ?e) \<le> maxRecordBytes" "stored ?e"
      using serializeRecord_Inr [OF ser(1)] by (auto simp: eventText_def)
    note ok = eventFields_ok [OF t(2) v(6), where a = a and n = v and kvs = "props cloned"]
    from 7(7) show ?case unfolding x prod.case
    proof (elim run_elims, goal_cases)
      case (1 e)
      then show ?case using appendFile_run [OF 1(1)] ser(2) t(1) assms(5) by auto
    next
      case (3 u7 s7 u8 s8)
      then obtain w1 where "s7 = putNode (storeEventsPath a) (NFile (fileMode 384 (nodeAt s (storeEventsPath a)))
          (fileText (nodeAt s (storeEventsPath a)) @ eventText ?e)) (s\<lparr>sys_world := w1\<rparr>)"
        using appendFile_run [OF 3(1)] ser(2) t(1) rec(1) by auto
      moreover have "s' = s8" "s8 = s7\<lparr>ps_sequence := Suc (length es)\<rparr>" "r = Inr ?e" using 3 v(1) by auto
      moreover have "length es < maxEvents" using v(1,5) by simp
      ultimately show ?case
        using storeInv_event [OF assms(1,5) _ _ rec(3,2) open_(2)] ok(1,2) assms(4) v(1) by auto
    qed auto
  qed (use assms(5) in \<open>auto dest!: ensureOpen_run timestamp_ok [OF _ assms(2)]\<close>)
qed

lemma runStored_put:
  assumes "stored (JObj run)" and "length (stringifyIndent (JObj run) @ newline) \<le> maxRecordBytes"
    and "runRecordOk a (JObj run)" and "isPlainObject (fld (JObj run) ''assignment'')"
  shows "runStored a ((putNode (runRecordPath a) (NFile 384 (stringifyIndent (JObj run) @ newline)) s)\<lparr>ps_run := run, ps_finished := fin\<rparr>)"
  using assms by (simp add: runStored_def putNode_def lookup_update')

lemma run_fields:
  assumes "runRecordOk a (JObj run)" and "isPlainObject (fld (JObj run) ''assignment'')" and "jsonable (JObj run)"
  shows "jsonable (fld (JObj run) ''version'')" "jsonable (fld (JObj run) ''assignment'')"
    "jsonable (fld (JObj run) ''currentAttempt'')" "jsonable (fld (JObj run) ''startedAt'')"
proof -
  have *: "jsonable (fld (JObj run) k)" if "fld (JObj run) k \<noteq> JUndef" for k
    using that jsonable_fld [OF assms(3), of k] by (auto split: option.splits)
  have "fld (JObj run) ''version'' \<noteq> JUndef" "fld (JObj run) ''assignment'' \<noteq> JUndef"
    "fld (JObj run) ''currentAttempt'' \<noteq> JUndef" "fld (JObj run) ''startedAt'' \<noteq> JUndef"
    using assms(1,2) unfolding runRecordOk_def by (auto simp del: fld_JObj simp: num_def validStoredTimestamp_def)
  then show "jsonable (fld (JObj run) ''version'')" "jsonable (fld (JObj run) ''assignment'')"
    "jsonable (fld (JObj run) ''currentAttempt'')" "jsonable (fld (JObj run) ''startedAt'')"
    by (simp_all only: * not_False_eq_True)
qed

definition nextRun :: "jsobj \<Rightarrow> int \<Rightarrow> jsobj" where
  "nextRun run n = spread run [(''currentAttempt'', num (max (intOf (fld (JObj run) ''currentAttempt'')) n)),
                               (''phase'', JStr ''planned'')]"

lemma nextRun_fld:
  "fld (JObj (nextRun run n)) k =
     (if k = ''currentAttempt'' then num (max (intOf (fld (JObj run) ''currentAttempt'')) n)
      else if k = ''phase'' then JStr ''planned'' else fld (JObj run) k)"
  by (simp add: nextRun_def map_add_def)

lemma nextRun_ok:
  assumes "runRecordOk a (JObj run)" and "1 \<le> n" and "n \<le> 10"
  shows "runRecordOk a (JObj (nextRun run n))"
  using assms unfolding runRecordOk_def nextRun_fld
  by (auto simp: num_def maxAttemptsAllowed_def maxSafeInteger_def)

lemma storeInv_nextRun:
  assumes "rooted a" and inv: "storeInv a es s" and "1 \<le> n" and "n \<le> 10"
    and "stored (JObj (nextRun (ps_run s) n))"
    and "length (stringifyIndent (JObj (nextRun (ps_run s) n)) @ newline) \<le> maxRecordBytes"
  shows "storeInv a es ((putNode (runRecordPath a) (NFile 384 (stringifyIndent (JObj (nextRun (ps_run s) n)) @ newline))
           (s\<lparr>sys_world := w\<rparr>))\<lparr>ps_run := nextRun (ps_run s) n\<rparr>)" (is "storeInv a es ?s")
proof -
  have run: "runRecordOk a (JObj (ps_run s))" "isPlainObject (fld (JObj (ps_run s)) ''assignment'')"
    using inv by (auto simp: storeInv_defs)
  have "runStored a ?s"
    using assms(5,6) nextRun_ok [OF run(1) assms(3,4)] run(2)
    by (simp del: fld_JObj add: runStored_def nextRun_fld putNode_def lookup_update')
  moreover have "settled es ?s"
    using inv unfolding storeInv_def settled_def consistentRun_def
    by (simp del: fld_JObj add: nextRun_fld putNode_def split: if_splits)
  moreover have "eventsStored a es ?s"
    using inv run_paths [OF assms(1)] by (simp add: storeInv_def eventsStored_def) (simp add: putNode_def)
  moreover have "nodeAt ?s (sa_root a) = nodeAt s (sa_root a)" "nodeAt ?s (storeDir a) = nodeAt s (storeDir a)"
    using run_paths [OF assms(1)] by (simp_all add: putNode_def lookup_update')
  ultimately show ?thesis
    using inv by (simp add: storeInv_def)
qed

lemma atomicWrite_run:
  "atomicWrite f q c s = (r, s') \<Longrightarrow>
   (\<exists>w. (\<exists>e. r = Inl e) \<and> s' = s\<lparr>sys_world := w\<rparr> \<or> r = Inr () \<and> s' = putNode q (NFile 384 c) (s\<lparr>sys_world := w\<rparr>))"
  unfolding atomicWrite_def
  by (elim run_elims) (auto simp: faultPoint_def split: prod.splits option.splits)

definition planWrites :: "'w storePorts \<Rightarrow> storeArgs \<Rightarrow> int \<Rightarrow> string \<Rightarrow> ('w, unit) store" where
  "planWrites p a n content =
     thenE (mkdirp (sp_fault p) (attemptsDir a) 448)
     (thenE (mkdirp (sp_fault p) (attemptDir a n) 448)
       (renameEexist (''attempt '' @ decInt n @ '' plan already exists'')
         (createNew (sp_fault p) (planPath a n) (NFile 384 content))))"

lemma frame_rename: "keeps P m \<Longrightarrow> keeps P (renameEexist e m)"
  unfolding renameEexist_def by (intro keeps_rules)

lemma keeps_conj: "keeps P m \<Longrightarrow> keeps Q m \<Longrightarrow> keeps (\<lambda>s. Q s \<and> P s) m"
  unfolding keeps_def by blast

lemma planWrites_keeps:
  assumes "rooted a" and "1 \<le> n"
  shows "keeps (\<lambda>s. storeInv a es s \<and> ps_run s = run) (planWrites p a n content)"
proof -
  have "keeps (\<lambda>s. ps_run s = run) (planWrites p a n content)"
    unfolding planWrites_def by (intro keeps_rules frame_rename) (auto simp: frame_def)
  moreover have "keeps (storeInv a es) (planWrites p a n content)"
    unfolding planWrites_def
    by (rule keeps_thenE inv_mkdirp [OF assms(1)] inv_rename inv_createNew [OF assms(1)] attempt_layout [OF assms])+
  ultimately show ?thesis by (rule keeps_conj)
qed

lemma thenE_assoc: "thenE (thenE m k) l = thenE m (thenE k l)"
  by (auto simp: fun_eq_iff io_defs split: prod.splits sum.splits)

lemma writeAttemptPlan_inv:
  assumes "rooted a" and "storeInv a es s" and "writeAttemptPlan p a attempt plan s = (r, s')"
  shows "storeInv a es s'"
proof -
  have shape: "writeAttemptPlan p a attempt plan =
     thenE ensureOpen
      (thenE (liftR (checks [attemptNumber attempt, plainObject plan ''attempt plan'']))
      (bindE (liftR (serializeRecord plan ''attempt plan'' True)) (\<lambda>(stored, content).
       bindE (getS ps_run) (\<lambda>run.
       bindE (liftR (serializeRecord (JObj (nextRun run (intOf attempt))) ''run record'' True)) (\<lambda>(_, runContent).
       thenE (planWrites p a (intOf attempt) content)
       (thenE (atomicWrite (sp_fault p) (runRecordPath a) runContent)
       (thenE (modS (\<lambda>s. s\<lparr>ps_run := nextRun run (intOf attempt)\<rparr>)) (ret stored))))))))"
    unfolding writeAttemptPlan_def planWrites_def nextRun_def Let_def thenE_assoc ..
  from assms(3) show ?thesis unfolding shape
  proof (elim run_elims, goal_cases)
    case (4 u s1 v s2 x s3)
    obtain sv content where x: "x = (sv, content)" by force
    have s: "s1 = s" "s2 = s" "s3 = s" and n: "1 \<le> intOf attempt" "intOf attempt \<le> 10"
      using ensureOpen_run [OF 4(1)] 4(2,3) by (auto simp: res_simps okInt_def)
    from 4(4) show ?case unfolding x prod.case
    proof (elim run_elims, goal_cases)
      case (3 run s4 y s5)
      obtain z runContent where y: "y = (z, runContent)" by force
      have run: "run = ps_run s" "s5 = s"
        and ser: "serializeRecord (JObj (nextRun (ps_run s) (intOf attempt))) ''run record'' True = Inr (z, runContent)"
        using 3(1,2) s y by auto
      have "jsonable (JObj (ps_run s))" using assms(2) by (simp add: storeInv_defs stored_def)
      then have "jsonable (JObj (nextRun (ps_run s) (intOf attempt)))"
        unfolding nextRun_def by (intro jsonable_spread) (simp_all add: num_def utf8_literals)
      note rec = serializeRecord_Inr [OF ser this]
      from 3(3) show ?case unfolding y prod.case
      proof (elim run_elims, goal_cases)
        case (1 e)
        then show ?case using keepsD [OF planWrites_keeps [OF assms(1) n(1)] 1(1)] assms(2) run(2) by blast
      next
        case (2 u6 s6 e)
        have "storeInv a es s6"
          using keepsD [OF planWrites_keeps [OF assms(1) n(1), of es "ps_run s"] 2(1)] assms(2) run(2) by blast
        then show ?case using atomicWrite_run [OF 2(2)] by auto
      next
        case (4 u6 s6 u7 s7 u8 s8)
        have six: "storeInv a es s6" "ps_run s6 = ps_run s"
          using keepsD [OF planWrites_keeps [OF assms(1) n(1), of es "ps_run s"] 4(1)] assms(2) run(2) by blast+
        obtain w where "s7 = putNode (runRecordPath a) (NFile 384 runContent) (s6\<lparr>sys_world := w\<rparr>)"
          using atomicWrite_run [OF 4(2)] by auto
        moreover have "s' = s7\<lparr>ps_run := nextRun (ps_run s6) (intOf attempt)\<rparr>" using 4(3,4) run(1) six(2) by auto
        ultimately show ?case
          using storeInv_nextRun [OF assms(1) six(1) n, of w] rec six(2) by auto
      qed auto
    qed (use assms(2) s in auto)
  qed (use assms(2) in \<open>auto dest!: ensureOpen_run\<close>)
qed

end
