(* ===== verification/Pod_Store_Reopen.thy ===== *)
theory Pod_Store_Reopen
  imports Pod_Store_Journal
begin

text \<open>
  The life of a pod run's store, from \<open>createPodRunStore\<close> through any list of operations and
  \<open>finish\<close> to \<open>openPodRunStore\<close>: creation establishes the journal invariant, finishing keeps it on a
  disk without faults, and reopening reads back the record and the events the invariant describes.
\<close>

section \<open>Finishing\<close>

lemma terminalRun_fld:
  "fld (JObj (terminalRun a run details status t)) k =
     (if k = ''version'' then fld (JObj run) ''version''
      else if k = ''runId'' then JStr (sa_runId a)
      else if k = ''assignment'' then fld (JObj run) ''assignment''
      else if k = ''status'' then JStr status
      else if k = ''phase'' then (if isString (fld (JObj details) ''phase'') then fld (JObj details) ''phase'' else JStr ''finished'')
      else if k = ''currentAttempt'' then fld (JObj run) ''currentAttempt''
      else if k = ''startedAt'' then fld (JObj run) ''startedAt''
      else if k = ''finishedAt'' then JStr t
      else fld (JObj (spread run details)) k)"
  unfolding terminalRun_def Let_def by (simp add: map_add_def)

lemma terminal_utf8: "status \<in> set terminalStatuses \<Longrightarrow> utf8Text status \<and> status \<noteq> ''running''"
  by (auto simp: utf8_literals terminalStatuses_def)

lemma terminalRun_ok:
  assumes "runRecordOk a (JObj run)" and "status \<in> set terminalStatuses" and "isoTimestamp t"
  shows "runRecordOk a (JObj (terminalRun a run details status t))"
  using assms unfolding runRecordOk_def terminalRun_fld
  by (auto simp del: fld_JObj simp: validStoredTimestamp_def)

lemma terminalRun_jsonable:
  assumes "rooted a" and "runRecordOk a (JObj run)" and "isPlainObject (fld (JObj run) ''assignment'')"
    and "jsonable (JObj run)" and "jsonable (JObj details)" and "status \<in> set terminalStatuses" and "utf8Text t"
  shows "jsonable (JObj (terminalRun a run details status t))"
proof -
  have phase: "jsonable (fld (JObj details) ''phase'')" if "isString (fld (JObj details) ''phase'')"
    using that jsonable_fld [OF assms(5), of "''phase''"] by (auto split: option.splits)
  have "jsonable (JObj (spread run details))"
    using assms(4,5) by (intro jsonable_spread) simp_all
  moreover note run_fields [OF assms(2-4)]
  ultimately show ?thesis
    unfolding terminalRun_def Let_def using phase assms(1,4-7) terminal_utf8 [OF assms(6)]
    by (intro jsonable_spread) (simp_all del: fld_JObj add: utf8_literals(1-15) rooted_def runId_utf8)
qed

lemma storeInv_finished:
  assumes "rooted a" and inv: "storeInv a es s" and "length es < maxEvents"
    and "eventOk a (length es) e" and "stored e" and "length (eventText e) \<le> maxRecordBytes"
    and "isFinishedEvent e" and "fld e ''status'' = JStr status" and "status \<noteq> ''running''"
    and "stored (JObj run)" and "length (stringifyIndent (JObj run) @ newline) \<le> maxRecordBytes"
    and "runRecordOk a (JObj run)" and "isPlainObject (fld (JObj run) ''assignment'')"
    and "fld (JObj run) ''status'' = JStr status" and "fld (JObj run) ''finishedAt'' \<noteq> JNull"
  shows "storeInv a (es @ [e])
    ((putNode (runRecordPath a) (NFile 384 (stringifyIndent (JObj run) @ newline))
      (((putNode (storeEventsPath a) (NFile (fileMode 384 (nodeAt s (storeEventsPath a)))
        (fileText (nodeAt s (storeEventsPath a)) @ eventText e)) (s\<lparr>sys_world := w\<rparr>))\<lparr>ps_sequence := Suc (length es)\<rparr>)\<lparr>sys_world := w'\<rparr>))
     \<lparr>ps_run := run, ps_finished := True\<rparr>)" (is "storeInv a _ ?s")
proof -
  have "eventsStored a (es @ [e])
    ((putNode (storeEventsPath a) (NFile (fileMode 384 (nodeAt s (storeEventsPath a)))
        (fileText (nodeAt s (storeEventsPath a)) @ eventText e)) (s\<lparr>sys_world := w\<rparr>))\<lparr>ps_sequence := Suc (length es)\<rparr>)"
    using assms by (intro eventsStored_append) (auto simp: storeInv_def)
  then have "eventsStored a (es @ [e]) ?s"
    using run_paths [OF assms(1)] by (simp add: eventsStored_def) (simp add: putNode_def)
  moreover have "settled (es @ [e]) ?s"
    using assms(7-9,14,15) by (simp del: fld_JObj add: settled_def consistentRun_def res_simps)
  moreover have "runStored a ?s"
    by (rule runStored_put [OF assms(10-13)])
  moreover have "nodeAt ?s (sa_root a) = nodeAt s (sa_root a)" "nodeAt ?s (storeDir a) = nodeAt s (storeDir a)"
    using run_paths [OF assms(1)] by (simp_all add: putNode_def lookup_update')
  ultimately show ?thesis
    using inv by (simp add: storeInv_def)
qed

lemma reEventType_finished: "reEventType ''run.finished''"
  by code_simp

lemma finish_inv:
  assumes "rooted a" and "clockOk p" and "faultless (sp_fault p)" and "jsonable details"
    and "storeInv a es s" and "finish p a status details s = (r, s')"
  shows "(\<exists>e. r = Inl e) \<and> storeInv a es s' \<or>
         (\<exists>e. r = Inr (JObj (ps_run s')) \<and> storeInv a (es @ [e]) s' \<and> isFinishedEvent e \<and> ps_finished s')"
proof -
  have inv: "ps_sequence s = length es" "runRecordOk a (JObj (ps_run s))" "jsonable (JObj (ps_run s))"
    "isPlainObject (fld (JObj (ps_run s)) ''assignment'')"
    using assms(5) by (simp_all del: fld_JObj add: storeInv_defs stored_def)
  from assms(6) show ?thesis unfolding finish_def Let_def
  proof (elim run_elims, goal_cases)
    case (8 u s1 v s2 u2 s3 cloned s4 time s5 run s6 x s7)
    obtain x1 runContent where x: "x = (x1, runContent)" by force
    have open_: "s1 = s" "\<not> ps_finished s" using ensureOpen_run [OF 8(1)] by auto
    have v: "v = length es" "s4 = s" "v < maxEvents" "status \<in> set terminalStatuses" "isPlainObject details"
      using 8(2,3,4) open_ inv(1) by (auto simp: res_simps plainObject_def)
    have c: "cloned = details" using 8(4) cloneJson_Inr(1) [OF _ assms(4)] by auto
    obtain w0 where t: "s5 = s\<lparr>sys_world := w0\<rparr>" "isoTimestamp time" "utf8Text time"
      using timestamp_ok [OF 8(5) assms(2)] v(2) by auto
    have run: "run = ps_run s" "s6 = s5" "s7 = s5" using 8(6,7) t(1) by auto
    let ?run = "terminalRun a (ps_run s) (props details) status time"
    let ?e = "JObj (spread (spread (props details) [(''status'', JStr status)]) (eventFields a v time ''run.finished''))"
    have det: "jsonable (JObj (props details))" using assms(4) v(5) by (auto simp: isPlainObject_iff)
    have jrun: "jsonable (JObj ?run)"
      by (rule terminalRun_jsonable [OF assms(1) inv(2,4,3) det v(4) t(3)])
    have jev: "jsonable ?e"
      using det t(3) terminal_utf8 [OF v(4)] assms(1)
      by (intro jsonable_spread eventFields_jsonable) (simp_all add: utf8_literals(1-16))
    have serRun: "serializeRecord (JObj ?run) ''run record'' True = Inr (x1, runContent)"
      using 8(7) x run(1) c by auto
    note recRun = serializeRecord_Inr [OF serRun jrun]
    note ok = eventFields_ok [OF t(2) reEventType_finished, where a = a and n = v and kvs = "spread (props details) [(''status'', JStr status)]"]
    from 8(8) show ?case unfolding x prod.case
    proof (elim run_elims, goal_cases)
      case (1 e)
      then show ?case using assms(5) t(1) run by auto
    next
      case (2 y s8)
      obtain y1 content where y: "y = (y1, content)" by force
      have ser: "serializeRecord ?e ''event'' False = Inr (y1, content)" "s8 = s5"
        using 2(1) y run c by auto
      note rec = serializeRecord_Inr [OF ser(1) jev]
      from 2(2) show ?case unfolding y prod.case
      proof (elim run_elims, goal_cases)
        case (5 u9 s9 u10 s10 u11 s11 u12 s12)
        obtain w1 where "s9 = putNode (storeEventsPath a) (NFile (fileMode 384 (nodeAt s (storeEventsPath a)))
            (fileText (nodeAt s (storeEventsPath a)) @ eventText ?e)) (s\<lparr>sys_world := w1\<rparr>)"
          using appendFile_faultless [OF assms(3) 5(1)] ser(2) t(1) rec(1) by (auto simp: eventText_def)
        moreover have "s10 = s9\<lparr>ps_sequence := Suc (length es)\<rparr>" using 5(2) v(1) by auto
        moreover obtain w2 where "s11 = putNode (runRecordPath a) (NFile 384 runContent) (s10\<lparr>sys_world := w2\<rparr>)"
          using atomicWrite_faultless [OF assms(3) 5(3)] by auto
        moreover have "s' = s11\<lparr>ps_run := ?run, ps_finished := True\<rparr>" "r = Inr (JObj ?run)"
          using 5(4,5) run(1) c by auto
        moreover have "storeInv a (es @ [?e])
            ((putNode (runRecordPath a) (NFile 384 (stringifyIndent (JObj ?run) @ newline))
              (((putNode (storeEventsPath a) (NFile (fileMode 384 (nodeAt s (storeEventsPath a)))
                (fileText (nodeAt s (storeEventsPath a)) @ eventText ?e)) (s\<lparr>sys_world := w1\<rparr>))
                \<lparr>ps_sequence := Suc (length es)\<rparr>)\<lparr>sys_world := w2\<rparr>))\<lparr>ps_run := ?run, ps_finished := True\<rparr>)"
        proof (rule storeInv_finished [OF assms(1,5), where status = status])
          show "length es < maxEvents" "eventOk a (length es) ?e" using v(1,3) ok(1) by simp_all
          show "stored ?e" "length (eventText ?e) \<le> maxRecordBytes"
            using rec by (simp_all add: eventText_def)
          show "isFinishedEvent ?e" using ok(2) by simp
          show "fld ?e ''status'' = JStr status" using ok(3) by simp
          show "status \<noteq> ''running''" using terminal_utf8 [OF v(4)] by simp
          show "stored (JObj ?run)" "length (stringifyIndent (JObj ?run) @ newline) \<le> maxRecordBytes"
            using recRun by simp_all
          show "runRecordOk a (JObj ?run)" by (rule terminalRun_ok [OF inv(2) v(4) t(2)])
          show "isPlainObject (fld (JObj ?run) ''assignment'')" using inv(4) by (simp only: terminalRun_fld) simp
          show "fld (JObj ?run) ''status'' = JStr status" "fld (JObj ?run) ''finishedAt'' \<noteq> JNull"
            by (simp_all only: terminalRun_fld) simp_all
        qed
        ultimately show ?case using recRun(1) ok(2) by (intro disjI2 exI [of _ ?e]) simp
      qed (auto dest: appendFile_faultless [OF assms(3)] atomicWrite_faultless [OF assms(3)])
    qed
  qed (use assms(5) in \<open>auto dest!: ensureOpen_run timestamp_ok [OF _ assms(2)]\<close>)
qed

section \<open>Creating\<close>

lemma initialRun_ok:
  assumes "isoTimestamp t" and "isPlainObject assignment"
  shows "runRecordOk a (JObj (initialRun (sa_runId a) assignment t))"
    and "isPlainObject (fld (JObj (initialRun (sa_runId a) assignment t)) ''assignment'')"
    and "fld (JObj (initialRun (sa_runId a) assignment t)) ''status'' = JStr ''running''"
    and "fld (JObj (initialRun (sa_runId a) assignment t)) ''finishedAt'' = JNull"
  using assms by (simp_all add: initialRun_def runRecordOk_def validStoredTimestamp_def num_def maxSafeInteger_def
      maxAttemptsAllowed_def)

lemma initialRun_jsonable:
  assumes "rooted a" and "jsonable assignment" and "utf8Text t"
  shows "jsonable (JObj (initialRun (sa_runId a) assignment t))"
  using assms by (simp add: initialRun_def num_def utf8_literals(1-15) runId_utf8 rooted_def)

lemma mkdirp_run:
  "mkdirp f q m s = (Inr (), s') \<Longrightarrow>
   (\<exists>w. s' = s\<lparr>sys_world := w\<rparr> \<and> isDirNode (nodeAt s q) \<or>
        s' = putNode q (NDir m 0) (s\<lparr>sys_world := w\<rparr>) \<and> nodeAt s q = None)"
  unfolding mkdirp_def
  by (elim run_elims) (auto simp: faultPoint_def putNode_def split: prod.splits option.splits node.splits)

lemma createNew_run:
  "createNew f q n s = (Inr (), s') \<Longrightarrow> \<exists>w. s' = putNode q n (s\<lparr>sys_world := w\<rparr>)"
  unfolding createNew_def
  by (elim run_elims) (auto simp: faultPoint_def split: prod.splits option.splits if_splits)

lemma putNode_world: "(putNode q n s)\<lparr>sys_world := w\<rparr> = putNode q n (s\<lparr>sys_world := w\<rparr>)"
  by (simp add: putNode_def)

lemma createFiles_run:
  "createFiles p a c s = (Inr (), s') \<Longrightarrow>
   \<exists>w. s' = putNode (storeEventsPath a) (NFile 384 []) (putNode (runRecordPath a) (NFile 384 c) (s\<lparr>sys_world := w\<rparr>))"
  unfolding createFiles_def
  by (auto simp: run_Inr putNode_world dest!: atomicWrite_run createNew_run)

lemma storeInv_created:
  assumes "rooted a" and "isDirNode (nodeAt s (sa_root a)) \<and> nodeMode (nodeAt s (sa_root a)) = 448"
    and "stored (JObj run)" and "length (stringifyIndent (JObj run) @ newline) \<le> maxRecordBytes"
    and "runRecordOk a (JObj run)" and "isPlainObject (fld (JObj run) ''assignment'')"
    and "fld (JObj run) ''status'' = JStr ''running''" and "fld (JObj run) ''finishedAt'' = JNull"
  shows "storeInv a [] ((putNode (storeEventsPath a) (NFile 384 []) (putNode (runRecordPath a)
      (NFile 384 (stringifyIndent (JObj run) @ newline)) ((putNode (storeDir a) (NDir 448 0) s)\<lparr>sys_world := w\<rparr>)))
      \<lparr>ps_run := run, ps_sequence := 0, ps_inbox := i, ps_work := j, ps_gate := k, ps_finished := False\<rparr>)"
  using assms(2-) run_paths [OF assms(1)]
  by (simp del: fld_JObj add: storeInv_defs consistentRun_def res_simps)

lemma createPodRunStore_inv:
  assumes "rooted a" and "clockOk p" and "jsonable assignment"
    and root: "nodeAt s (sa_root a) = None \<or> nodeMode (nodeAt s (sa_root a)) = 448"
    and "createPodRunStore p a assignment s = (Inr (), s')"
  shows "storeInv a [] s'"
proof -
  from assms(5) obtain time s2 cloned x s5 s6 s7 s8 where
    plain: "isPlainObject assignment"
    and time: "timestamp p s = (Inr time, s2)"
    and cloned: "cloneJson assignment ''assignment'' = Inr cloned"
    and x: "serializeRecord (JObj (initialRun (sa_runId a) cloned time)) ''run record'' True = Inr x"
    and mk: "mkdirp (sp_fault p) (sa_root a) 448 s2 = (Inr (), s5)"
    and fp: "faultPoint (sp_fault p) s5 = (Inr (), s6)"
    and cr: "renameEexist (''run already exists: '' @ sa_runId a)
               (createNew (sp_fault p) (storeDir a) (NDir 448 0)) s6 = (Inr (), s7)"
    and fs: "createFiles p a (snd x) s7 = (Inr (), s8)"
    and final: "s' = s8\<lparr>ps_run := initialRun (sa_runId a) cloned time, ps_sequence := 0, ps_inbox := Mapping.empty,
        ps_work := Mapping.empty, ps_gate := Mapping.empty, ps_finished := False\<rparr>"
    unfolding createPodRunStore_def Let_def by (auto simp only: run_Inr res_simps plainObject_def case_prod_beta run_simps sum.inject)
  obtain w0 where t: "s2 = s\<lparr>sys_world := w0\<rparr>" "isoTimestamp time" "utf8Text time"
    using timestamp_ok [OF time assms(2)] by auto
  have c: "cloned = assignment" by (rule cloneJson_Inr(1) [OF cloned assms(3)])
  note ok = initialRun_ok [OF t(2) plain]
  obtain x1 content where xc: "x = (x1, content)" by force
  note rec = serializeRecord_Inr [OF x [unfolded xc c] initialRun_jsonable [OF assms(1,3) t(3)]]
  have "isDirNode (nodeAt s5 (sa_root a)) \<and> nodeMode (nodeAt s5 (sa_root a)) = 448"
    using mkdirp_run [OF mk] root t(1) by auto
  then have six: "isDirNode (nodeAt s6 (sa_root a)) \<and> nodeMode (nodeAt s6 (sa_root a)) = 448"
    using fp by (auto simp: faultPoint_def split: prod.splits option.splits)
  obtain w1 where s7: "s7 = putNode (storeDir a) (NDir 448 0) (s6\<lparr>sys_world := w1\<rparr>)"
    using cr createNew_run [of "sp_fault p" "storeDir a" "NDir 448 0" s6 s7] by (auto simp: renameEexist_def run_Inr)
  obtain w2 where s8: "s8 = putNode (storeEventsPath a) (NFile 384 [])
      (putNode (runRecordPath a) (NFile 384 content) (s7\<lparr>sys_world := w2\<rparr>))"
    using createFiles_run [OF fs] xc by auto
  show ?thesis
    unfolding final s8 s7 c rec(1) if_True
    by (rule storeInv_created [OF assms(1)]) (use six rec ok in simp_all)
qed

section \<open>One event per line\<close>

lemma escape_no_newline:
  assumes "okGroup ch"
  shows "CHR 0x0A \<notin> set (jsonEscape ch)"
proof -
  consider (one) c where "ch = [c]" "(of_char c :: nat) < 128"
    | (more) "list_all (\<lambda>c. 128 \<le> (of_char c :: nat)) ch" "jsonEscape ch = ch"
    using assms by (auto simp: okGroup_def jsonEscape_def jsonEscapeByte_def split: list.splits)
  then show ?thesis
  proof cases
    case one
    obtain b0 b1 b2 b3 b4 b5 b6 b7 where c: "c = Char b0 b1 b2 b3 b4 b5 b6 b7" by (cases c)
    have "\<not> b7" using one(2) unfolding c of_char_bits by (cases b7) auto
    then show ?thesis
      unfolding one(1) c jsonEscape_def jsonEscapeByte_def list.map of_char_bits
      by (cases b0; cases b1; cases b2; cases b3; cases b4; cases b5; cases b6) (simp_all add: hexDigit_def)
  next
    case more
    then show ?thesis by (auto simp: list_all_iff)
  qed
qed

lemma quote_no_newline: "utf8Text s \<Longrightarrow> CHR 0x0A \<notin> set (jsonQuote s)"
  using escape_no_newline by (auto simp: jsonQuote_def utf8Text_def list_all_iff)

lemma set_joinWith: "set (joinWith sep parts) \<subseteq> set sep \<union> \<Union> (set ` set parts)"
  by (induction sep parts rule: joinWith.induct) auto

lemma decInt_no_newline: "CHR 0x0A \<notin> set (decInt i)"
proof -
  have "\<not> isDigit (CHR 0x0A)" by code_simp
  then show ?thesis
    using decNat_all_digits by (auto simp: decInt_def list_all_iff)
qed

lemma text_no_newline: "jsonable v \<Longrightarrow> CHR 0x0A \<notin> set (jsonText None v)"
proof (induction v)
  case (JNum n)
  then show ?case by (cases n) (simp_all add: jsonText_def decInt_no_newline)
next
  case (JArr xs)
  then show ?case
    using set_joinWith [of "'',''" "map (jsonText None) xs"]
    by (cases "xs = []") (simp add: jsonText_def jsonWrap_def,
      auto simp: jsonText_arr padBefore_def padAfter_def deeper_def list_all_iff)
next
  case (JObj kvs)
  have "CHR 0x0A \<notin> set (propText None kv)" if "kv \<in> set kvs" for kv
    using JObj that by (cases kv) (auto simp: propText_def colon_def list_all_iff dest: quote_no_newline)
  then show ?case
    using set_joinWith [of "'',''" "map (propText None) kvs"] JObj.prems
    by (cases "kvs = []") (simp add: jsonText_def jsonWrap_def,
      auto simp: jsonText_obj padBefore_def padAfter_def deeper_def)
qed (auto simp: jsonText_def quote_no_newline)

lemma stringify_no_newline: "jsonable v \<Longrightarrow> CHR 0x0A \<notin> set (stringify v)"
  using text_no_newline [of v] by (simp add: stringify_def jsonVal_text)

lemma concat_lines: "es \<noteq> [] \<Longrightarrow> concat (map eventText es) = joinWith newline (map stringify es) @ newline"
proof (induction es)
  case (Cons e es)
  then show ?case by (cases "es = []") (simp_all add: eventText_def joinWith_Cons)
qed simp

lemma mapR_map:
  "(\<And>j. j < length es \<Longrightarrow> f (i + j) (g (es ! j)) = Inr (es ! j)) \<Longrightarrow> mapR f i (map g es) = Inr es"
proof (induction es arbitrary: i)
  case (Cons e es)
  have "mapR f (Suc i) (map g es) = Inr es"
  proof (rule Cons.IH)
    show "f (Suc i + j) (g (es ! j)) = Inr (es ! j)" if "j < length es" for j
      using Cons.prems [of "Suc j"] that by simp
  qed
  moreover have "f i (g e) = Inr e" using Cons.prems [of 0] by simp
  ultimately show ?case by simp
qed simp

lemma parseEvents_stored:
  assumes "eventsStored a es s"
  shows "parseEvents a (concat (map eventText es)) = Inr es"
proof (cases "es = []")
  case False
  have ev: "eventOk a i (es ! i)" "stored (es ! i)" "length (eventText (es ! i)) \<le> maxRecordBytes" if "i < length es" for i
    using assms that by (auto simp: eventsStored_def)
  have "\<forall>e \<in> set es. jsonable e" using ev(2) by (metis in_set_conv_nth stored_def)
  then have "splitOn (CHR 0x0A) (joinWith newline (map stringify es)) = map stringify es"
    unfolding newline_def using False stringify_no_newline by (intro splitOn_joinWith) auto
  moreover have "mapR (parseEventLine a) 0 (map stringify es) = Inr es"
  proof (rule mapR_map)
    fix j assume j: "j < length es"
    show "parseEventLine a (0 + j) (stringify (es ! j)) = Inr (es ! j)"
      using ev [OF j] jsonParse_stringify(1) [of "es ! j" "[]"]
      by (simp add: parseEventLine_def parseStoredObject_def parseText_def stored_def plainObject_def require_def
          byteLength_def eventText_def newline_def)
  qed
  ultimately show ?thesis
    using False by (simp add: parseEvents_def concat_lines suffix_def butlast_append newline_def require_def)
qed (simp add: parseEvents_def require_def)

lemma eventsStored_size: "eventsStored a es s \<Longrightarrow> length (concat (map eventText es)) \<le> maxEvents * maxRecordBytes"
proof -
  assume st: "eventsStored a es s"
  have "\<forall>e \<in> set es. length (eventText e) \<le> maxRecordBytes"
    using st unfolding eventsStored_def by (metis in_set_conv_nth)
  then have "length (concat (map eventText es)) \<le> length es * maxRecordBytes"
    by (induction es) auto
  also have "\<dots> \<le> maxEvents * maxRecordBytes" using st by (intro mult_le_mono1) (simp add: eventsStored_def)
  finally show ?thesis .
qed

section \<open>Reopening\<close>

lemma faultless_run: "faultless f \<Longrightarrow> \<exists>w. faultPoint f s = (Inr (), s\<lparr>sys_world := w\<rparr>)"
  using faultPoint_faultless [of f s "fst (faultPoint f s)" "snd (faultPoint f s)"] by auto (metis prod.collapse)

lemma privateEntry_run:
  assumes "faultless f" and "if wantFile then isFileNode (nodeAt s q) else isDirNode (nodeAt s q)" and "nodeMode (nodeAt s q) = mode"
  shows "\<exists>w. privateEntry f q label wantFile mode s = (Inr (nodeAt s q), s\<lparr>sys_world := w\<rparr>)"
proof -
  obtain w where w: "faultPoint f s = (Inr (), s\<lparr>sys_world := w\<rparr>)" using faultless_run [OF assms(1)] by blast
  have "lstatOrNull f q s = (Inr (nodeAt s q), s\<lparr>sys_world := w\<rparr>)"
    by (simp add: lstatOrNull_def catchE_def thenE_def bindE_def w getS_def)
  then have "privateEntry f q label wantFile mode s = (Inr (nodeAt s q), s\<lparr>sys_world := w\<rparr>)"
    using assms(2,3) by (cases wantFile) (simp_all add: privateEntry_def bindE_def thenE_def liftR_def require_def ret_def)
  then show ?thesis by blast
qed

lemma readText_run:
  assumes "faultless f" and "nodeAt s q = Some (NFile m c)"
  shows "\<exists>w. readText f q s = (Inr c, s\<lparr>sys_world := w\<rparr>)"
proof -
  obtain w where w: "faultPoint f s = (Inr (), s\<lparr>sys_world := w\<rparr>)" using faultless_run [OF assms(1)] by blast
  then have "readText f q s = (Inr c, s\<lparr>sys_world := w\<rparr>)"
    using assms(2) by (simp add: readText_def thenE_def bindE_def)
  then show ?thesis by blast
qed

lemma steps:
  "thenE m k = bindE m (\<lambda>_. k)"
  "bindE (privateEntry f q l b mode) g s = (case privateEntry f q l b mode s of (Inl e, t) \<Rightarrow> (Inl e, t) | (Inr x, t) \<Rightarrow> g x t)"
  "bindE (readText f q) h s1 = (case readText f q s1 of (Inl e, t) \<Rightarrow> (Inl e, t) | (Inr x, t) \<Rightarrow> h x t)"
  "bindE (liftR r) i s2 = (case liftR r s2 of (Inl e, t) \<Rightarrow> (Inl e, t) | (Inr x, t) \<Rightarrow> i x t)"
  "bindE (modS u) j s3 = (case modS u s3 of (Inl e, t) \<Rightarrow> (Inl e, t) | (Inr x, t) \<Rightarrow> j x t)"
  by (simp_all only: thenE_def bindE_def)

lemma open_stored:
  assumes "rooted a" and "faultless (sp_fault p)" and inv: "storeInv a es s" and fs: "sys_fs t = sys_fs s"
  obtains w where "openPodRunStore p a t = (Inr (JObj (ps_run s), es),
    t\<lparr>sys_world := w, ps_run := ps_run s, ps_sequence := length es, ps_finished := ps_finished s\<rparr>)"
proof -
  let ?run = "JObj (ps_run s)"
  let ?rt = "stringifyIndent ?run @ newline"
  let ?et = "concat (map eventText es)"
  have nodes: "isDirNode (nodeAt t (sa_root a))" "nodeMode (nodeAt t (sa_root a)) = 448"
    "isDirNode (nodeAt t (storeDir a))" "nodeMode (nodeAt t (storeDir a)) = 448"
    and rt: "nodeAt t (runRecordPath a) = Some (NFile 384 ?rt)" and et: "nodeAt t (storeEventsPath a) = Some (NFile 384 ?et)"
    using inv by (simp_all add: fs storeInv_defs)
  have ev: "eventsStored a es s" and st: "stored ?run" and rok: "runRecordOk a ?run" "isPlainObject (fld ?run ''assignment'')"
    and size: "length ?rt \<le> maxRecordBytes" "length es \<le> maxEvents"
    and cons: "consistentRun ?run es = Inr ()" "ps_finished s \<longleftrightarrow> fld ?run ''status'' \<noteq> JStr ''running''"
    using inv by (auto simp: storeInv_defs)
  have js: "jsonable ?run" "isPlainObject ?run" "\<And>l. validateJson l 0 ?run = Inr ()" using st by (simp_all only: stored_def)
  obtain ch cs where "jsonText (Some 0) ?run = ch # cs" by (rule jsonText_head [OF js(1)])
  then have "stringifyIndent ?run \<noteq> []" using js(1) by (simp only: stringifyIndent_def jsonVal_text) simp
  then have rsize: "2 \<le> length ?rt" by (cases "stringifyIndent ?run") (auto simp: newline_def)
  have parse: "parseStoredObject ?rt ''run record'' = Inr ?run"
    using js(2,3) jsonParse_stringify(2) [OF js(1), of newline]
    by (simp del: jsonable.simps isPlainObject.simps add: parseStoredObject_def parseText_def plainObject_def require_def newline_def jsonWs_def)
  obtain w1 where 1: "privateEntry (sp_fault p) (sa_root a) ''stateRoot'' False 448 t = (Inr (nodeAt t (sa_root a)), t\<lparr>sys_world := w1\<rparr>)"
    using privateEntry_run [OF assms(2), of False t "sa_root a" 448 "''stateRoot''"] nodes by auto
  obtain w2 where 2: "privateEntry (sp_fault p) (storeDir a) ''run directory'' False 448 (t\<lparr>sys_world := w1\<rparr>)
      = (Inr (nodeAt t (storeDir a)), t\<lparr>sys_world := w2\<rparr>)"
    using privateEntry_run [OF assms(2), of False "t\<lparr>sys_world := w1\<rparr>" "storeDir a" 448 "''run directory''"] nodes by auto
  obtain w3 where 3: "privateEntry (sp_fault p) (runRecordPath a) ''run record'' True 384 (t\<lparr>sys_world := w2\<rparr>)
      = (Inr (Some (NFile 384 ?rt)), t\<lparr>sys_world := w3\<rparr>)"
    using privateEntry_run [OF assms(2), of True "t\<lparr>sys_world := w2\<rparr>" "runRecordPath a" 384 "''run record''"] rt by auto
  obtain w4 where 4: "privateEntry (sp_fault p) (storeEventsPath a) ''event record'' True 384 (t\<lparr>sys_world := w3\<rparr>)
      = (Inr (Some (NFile 384 ?et)), t\<lparr>sys_world := w4\<rparr>)"
    using privateEntry_run [OF assms(2), of True "t\<lparr>sys_world := w3\<rparr>" "storeEventsPath a" 384 "''event record''"] et by auto
  obtain w5 where 5: "readText (sp_fault p) (runRecordPath a) (t\<lparr>sys_world := w4\<rparr>) = (Inr ?rt, t\<lparr>sys_world := w5\<rparr>)"
    using readText_run [OF assms(2), of "t\<lparr>sys_world := w4\<rparr>" "runRecordPath a" 384 ?rt] rt by auto
  obtain w6 where 6: "readText (sp_fault p) (storeEventsPath a) (t\<lparr>sys_world := w5\<rparr>) = (Inr ?et, t\<lparr>sys_world := w6\<rparr>)"
    using readText_run [OF assms(2), of "t\<lparr>sys_world := w5\<rparr>" "storeEventsPath a" 384 ?et] et by auto
  have args: "sa_root a \<noteq> []" "CHR 0x00 \<notin> set (sa_root a)" "reRunId (sa_runId a)"
    using assms(1) by (auto simp: rooted_def absDir_def)
  have "openPodRunStore p a t = (Inr (?run, es),
      t\<lparr>sys_world := w6, ps_run := ps_run s, ps_sequence := length es, ps_finished := ps_finished s\<rparr>)"
    unfolding openPodRunStore_def
    by (simp only: steps liftR_def checks.simps require_def simp_thms if_True sum.case prod.case not_False_eq_True
        nodeSize_def fileText_def byteLength_def plainObject_def option.case node.case modS_def ret_def props.simps
        1 2 3 4 5 6 args rsize size eventsStored_size [OF ev] parse rok parseEvents_stored [OF ev] cons)
  with that show thesis by blast
qed

section \<open>Histories of a store\<close>

fun opInput :: "storeOp \<Rightarrow> bool" where
  "opInput (AppendEvent type details) = (jsonable details \<and> type \<noteq> ''run.finished'')"
| "opInput (Finish status details) = jsonable details"
| "opInput _ = True"

fun storeLogs :: "storeOp \<Rightarrow> jsval res \<Rightarrow> jsval list \<Rightarrow> bool" where
  "storeLogs (AppendEvent _ _) (Inr e) es = (es = [e] \<and> \<not> isFinishedEvent e)"
| "storeLogs (Finish _ _) (Inr _) es = (\<exists>e. es = [e] \<and> isFinishedEvent e)"
| "storeLogs _ _ es = (es = [])"

lemma performOp_inv:
  assumes "rooted a" and "clockOk p" and "faultless (sp_fault p)" and "opInput op"
    and "storeInv a es s" and "performOp p a op s = (r, s')"
  shows "\<exists>new. storeLogs op r new \<and> storeInv a (es @ new) s'"
proof (cases op)
  case (AppendEvent type details)
  then show ?thesis
    using appendEvent_inv [OF assms(1,2) _ _ assms(5), of details type r s'] assms(4,6)
    by (auto intro: exI [of _ "[]"])
next
  case (WriteAttemptPlan attempt plan)
  then show ?thesis
    using writeAttemptPlan_inv [OF assms(1,5), of p attempt plan r s'] assms(6) by simp
next
  case (WriteWorkResult attempt v)
  then show ?thesis
    using keepsD [OF inv_work [OF assms(1)] _ assms(5)] assms(6) by simp
next
  case (WriteGateReceipt attempt v)
  then show ?thesis
    using keepsD [OF inv_gate [OF assms(1)] _ assms(5)] assms(6) by simp
next
  case (EnqueueInbox attempt owner v)
  then show ?thesis
    using keepsD [OF inv_inbox [OF assms(1)] _ assms(5)] assms(6) by simp
next
  case (ReadInbox attempt owner v)
  then have k: "keeps (storeInv a es) (performOp p a op)"
    by (auto intro!: keeps_bindE inv_readInbox keeps_basic)
  then show ?thesis
    using keepsD [OF k assms(6,5)] ReadInbox by simp
next
  case (Finish status details)
  then show ?thesis
    using finish_inv [OF assms(1-3) _ assms(5), of details status r s'] assms(4,6)
    by simp (metis storeLogs.simps(2) storeLogs.simps(8) append_Nil2)
qed

interpretation pod_log: log_keeper "storeInv a" "performOp p a"
    "\<lambda>op. rooted a \<and> clockOk p \<and> faultless (sp_fault p) \<and> opInput op" storeLogs for p a
  by unfold_locales (elim conjE, rule performOp_inv)

lemma runOps_performed:
  "runOps p a ops s = (r, s') \<Longrightarrow> \<exists>rs. r = Inr rs \<and> length rs = length ops \<and> performed (performOp p a) s (zip ops rs) s'"
proof (induction ops arbitrary: r s)
  case Nil
  then show ?case by (simp add: performed_Nil)
next
  case (Cons op ops)
  obtain r1 s1 where one: "performOp p a op s = (r1, s1)" by force
  obtain r2 where two: "runOps p a ops s1 = (r2, s')"
    and r: "r = (case r2 of Inl e \<Rightarrow> Inl e | Inr rs \<Rightarrow> Inr (r1 # rs))"
    using Cons.prems one by (auto simp: io_defs split: prod.splits sum.splits)
  from Cons.IH [OF two] obtain rs where "r2 = Inr rs" "length rs = length ops" "performed (performOp p a) s1 (zip ops rs) s'"
    by blast
  with one r show ?case
    by (intro exI [of _ "r1 # rs"]) (simp add: performed_Cons)
qed

definition appendedEvents :: "storeOp list \<Rightarrow> jsval res list \<Rightarrow> jsval list" where
  "appendedEvents ops rs =
     concat (map (\<lambda>(op, r). case (op, r) of (AppendEvent _ _, Inr e) \<Rightarrow> [e] | _ \<Rightarrow> []) (zip ops rs))"

lemma logs_filter:
  "list_all2 (\<lambda>(op, r). storeLogs op r) hist entries \<Longrightarrow>
   filter (\<lambda>e. \<not> isFinishedEvent e) (concat entries) =
   concat (map (\<lambda>(op, r). case (op, r) of (AppendEvent _ _, Inr e) \<Rightarrow> [e] | _ \<Rightarrow> []) hist)"
proof (induction rule: list_all2_induct)
  case (Cons h hist es entries)
  obtain op r where h: "h = (op, r)" by force
  have "filter (\<lambda>e. \<not> isFinishedEvent e) es = (case (op, r) of (AppendEvent _ _, Inr e) \<Rightarrow> [e] | _ \<Rightarrow> [])"
    using Cons(1) unfolding h by (cases op; cases r) auto
  then show ?case using Cons by (simp add: h)
qed simp

lemma finished_events: "storeInv a es s \<Longrightarrow> ps_finished s \<longleftrightarrow> list_ex isFinishedEvent es"
  using last_in_set [of es] unfolding storeInv_def settled_def consistentRun_def list_ex_iff
  by (simp only: res_simps split: if_splits) blast+


definition demoPorts :: "unit storePorts" where
  "demoPorts = \<lparr>sp_now = (\<lambda>w. (Inr ''2026-01-02T03:04:05.006Z'', w)), sp_fault = (\<lambda>w. (None, w))\<rparr>"

definition demoArgs :: storeArgs where
  "demoArgs = \<lparr>sa_root = ''/pods'', sa_runId = ''run-1''\<rparr>"

definition demoStore :: "unit podStore" where
  "demoStore = \<lparr>sys_fs = Mapping.empty, sys_world = (), ps_run = [], ps_sequence = 0, ps_inbox = Mapping.empty,
     ps_work = Mapping.empty, ps_gate = Mapping.empty, ps_finished = False\<rparr>"

definition demoOps :: "storeOp list" where
  "demoOps = [AppendEvent ''plan.accepted'' (JObj [(''attempt'', num 1)]), WriteAttemptPlan (num 1) (JObj []),
     EnqueueInbox (num 1) ''engineering-a'' (JObj []), Finish ''completed'' (JObj [])]"

lemma demo_hyps:
  "rooted demoArgs" "clockOk demoPorts" "faultless (sp_fault demoPorts)" "list_all opInput demoOps"
proof -
  have "absDir ''/pods''"
    unfolding absDir_def by (rule exI [of _ "[''pods'']"]) (auto simp: properName_def badSegment_def)
  moreover have "reRunId ''run-1''" by code_simp
  ultimately show "rooted demoArgs" by (simp add: rooted_def demoArgs_def)
  have "isoTimestamp ''2026-01-02T03:04:05.006Z''" "utf8Text ''2026-01-02T03:04:05.006Z''" by code_simp+
  then show "clockOk demoPorts" by (simp add: clockOk_def demoPorts_def)
  show "faultless (sp_fault demoPorts)" by (simp add: faultless_def demoPorts_def)
  show "list_all opInput demoOps" by code_simp
qed


end
