(* ===== verification/Pod_Store_Refinement.thy ===== *)
theory Pod_Store_Refinement
  imports Pod_Store_Reopen
begin

text \<open>
  What the pod store promises its clients, as a small abstract machine: a log that is open or closed.  The store,
  with its files, counters and flags, refines it.
\<close>

section \<open>Simulations\<close>

inductive stepped :: "('a \<Rightarrow> 'l \<Rightarrow> 'a \<Rightarrow> bool) \<Rightarrow> 'a \<Rightarrow> 'l list \<Rightarrow> 'a \<Rightarrow> bool" for step where
  stepped_Nil: "stepped step A [] A"
| stepped_Cons: "step A l B \<Longrightarrow> stepped step B ls C \<Longrightarrow> stepped step A (l # ls) C"

inductive_cases stepped_ConsE: "stepped step A (l # ls) C"

text \<open>A component whose operations simulate the steps of an abstract machine; \<open>repr A s\<close> says that the concrete
  state \<open>s\<close> represents the abstract state \<open>A\<close>.\<close>

locale simulation =
  fixes step :: "'a \<Rightarrow> 'op \<times> 'r \<Rightarrow> 'a \<Rightarrow> bool"
    and perform :: "'op \<Rightarrow> 's \<Rightarrow> 'r \<times> 's"
    and allowed :: "'op \<Rightarrow> bool"
    and repr :: "'a \<Rightarrow> 's \<Rightarrow> bool"
  assumes simulates: "allowed op \<Longrightarrow> repr A s \<Longrightarrow> perform op s = (r, s') \<Longrightarrow> \<exists>B. step A (op, r) B \<and> repr B s'"
begin

lemma runs:
  assumes "performed perform s hist s'" and "repr A s" and "\<And>op r. (op, r) \<in> set hist \<Longrightarrow> allowed op"
  shows "\<exists>B. stepped step A hist B \<and> repr B s'"
  using assms
proof (induction arbitrary: A rule: performed.induct)
  case (performed_Nil s)
  then show ?case by (blast intro: stepped_Nil)
next
  case (performed_Cons op s r s' hist s'')
  obtain B where B: "step A (op, r) B" "repr B s'"
    using simulates [OF _ performed_Cons.prems(1) performed_Cons.hyps(1)] performed_Cons.prems(2) by auto
  obtain C where "stepped step B hist C" "repr C s''"
    using performed_Cons.IH [OF B(2)] performed_Cons.prems(2) by auto
  with B(1) show ?case by (blast intro: stepped_Cons)
qed

end

section \<open>The abstract log\<close>

datatype runLog = OpenLog "jsval list" | ClosedLog "jsval list"

fun isRead :: "storeOp \<Rightarrow> bool" where
  "isRead (ReadInbox _ _ _) = True"
| "isRead _ = False"

fun isLogging :: "storeOp \<Rightarrow> bool" where
  "isLogging (AppendEvent _ _) = True"
| "isLogging (Finish _ _) = True"
| "isLogging _ = False"

text \<open>The machine of the log.  An event takes the next number and leaves room for the terminal event; finishing
  writes the terminal event with the status of the returned record and closes the log; an operation that is refused changes nothing; on a
  closed log nothing succeeds but reading.\<close>

inductive logStep :: "runLog \<Rightarrow> storeOp \<times> jsval res \<Rightarrow> runLog \<Rightarrow> bool" where
  log_append: "fld e ''type'' = JStr type \<Longrightarrow> fld e ''sequence'' = num (int (length es) + 1) \<Longrightarrow> length es < maxEvents - 1 \<Longrightarrow>
     logStep (OpenLog es) (AppendEvent type details, Inr e) (OpenLog (es @ [e]))"
| log_finish: "isFinishedEvent e \<Longrightarrow> fld e ''sequence'' = num (int (length es) + 1) \<Longrightarrow> length es < maxEvents \<Longrightarrow>
     fld e ''status'' = JStr status \<Longrightarrow> fld v ''status'' = JStr status \<Longrightarrow>
     logStep (OpenLog es) (Finish status details, Inr v) (ClosedLog (es @ [e]))"
| log_write: "\<not> isLogging op \<Longrightarrow> logStep (OpenLog es) (op, Inr v) (OpenLog es)"
| log_read: "isRead op \<Longrightarrow> logStep (ClosedLog es) (op, Inr v) (ClosedLog es)"
| log_refused: "logStep L (op, Inl e) L"

inductive_cases logStep_closedE: "logStep (ClosedLog es) l L"

lemma closed_stays: "stepped logStep A hist L \<Longrightarrow> A = ClosedLog es \<Longrightarrow> L = ClosedLog es"
  by (induction rule: stepped.induct) (auto elim: logStep_closedE)

section \<open>The store refines the log\<close>

definition logOf :: "storeArgs \<Rightarrow> 'w podStore \<Rightarrow> runLog" where
  "logOf a s =
     (case parseEvents a (fileText (nodeAt s (storeEventsPath a))) of
        Inl _ \<Rightarrow> OpenLog []
      | Inr es \<Rightarrow> if ps_finished s then ClosedLog es else OpenLog es)"

definition representsLog :: "storeArgs \<Rightarrow> runLog \<Rightarrow> 'w podStore \<Rightarrow> bool" where
  "representsLog a L s \<longleftrightarrow> (\<exists>es. storeInv a es s \<and> L = (if ps_finished s then ClosedLog es else OpenLog es))"

lemma logOf_represents:
  assumes "representsLog a L s"
  shows "logOf a s = L"
proof -
  obtain es where es: "eventsStored a es s" and L: "L = (if ps_finished s then ClosedLog es else OpenLog es)"
    using assms by (auto simp: representsLog_def storeInv_def)
  then have "fileText (nodeAt s (storeEventsPath a)) = concat (map eventText es)"
    by (simp add: eventsStored_def fileText_def)
  then show ?thesis using parseEvents_stored [OF es] L by (simp add: logOf_def)
qed

lemma storeInv_last:
  "storeInv a (es @ [e]) s \<Longrightarrow> fld e ''sequence'' = num (int (length es) + 1) \<and> length es < maxEvents"
  unfolding storeInv_def eventsStored_def eventOk_def by (auto dest!: spec [of _ "length es"])

lemma open_first: "thenE ensureOpen k s = (Inr v, s') \<Longrightarrow> \<not> ps_finished s"
  by (auto simp: ensureOpen_def run_Inr res_simps)

lemma success_is_open: "performOp p a op s = (Inr v, s') \<Longrightarrow> \<not> isRead op \<Longrightarrow> \<not> ps_finished s"
  by (cases op) (auto simp: appendEvent_def writeAttemptPlan_def writeWorkResult_def writeGateReceipt_def enqueueInbox_def
      finish_def Let_def dest: open_first)

lemma append_returns:
  assumes "appendEvent p a type details s = (Inr e, s')"
  shows "fld e ''type'' = JStr type \<and> ps_sequence s < maxEvents - 1"
  using assms unfolding appendEvent_def ensureOpen_def
  by (auto simp: run_Inr res_simps Let_def eventFields_def map_add_def)

lemma finish_returns:
  assumes "finish p a status details s = (Inr v, s')"
  shows "v = JObj (ps_run s')" and "fld v ''status'' = JStr status" and "ps_finished s'"
proof -
  obtain run details' t where v: "v = JObj (terminalRun a run details' status t) \<and> v = JObj (ps_run s') \<and> ps_finished s'"
    using assms unfolding finish_def Let_def by (auto simp: run_Inr)
  show "v = JObj (ps_run s')" "ps_finished s'" using v by blast+
  show "fld v ''status'' = JStr status" using v terminalRun_fld by simp
qed

lemma log_simulation:
  assumes ports: "rooted a" "clockOk p" "faultless (sp_fault p)" "opInput op"
    and repr: "representsLog a L s" and run: "performOp p a op s = (r, s')"
  shows "\<exists>M. logStep L (op, r) M \<and> representsLog a M s'"
proof -
  obtain es where inv: "storeInv a es s" and L: "L = (if ps_finished s then ClosedLog es else OpenLog es)"
    using repr by (auto simp: representsLog_def)
  obtain new where new: "storeLogs op r new" "storeInv a (es @ new) s'"
    using performOp_inv [OF ports inv run] by blast
  note fin = finished_events [OF inv] finished_events [OF new(2)]
  have next_: "representsLog a (if ps_finished s' then ClosedLog (es @ new) else OpenLog (es @ new)) s'"
    using new(2) by (auto simp: representsLog_def)
  consider (refused) e where "r = Inl e" | (read) v where "r = Inr v" "isRead op"
    | (appended) e type details where "r = Inr e" "op = AppendEvent type details"
    | (finished) v status details where "r = Inr v" "op = Finish status details"
    | (written) v where "r = Inr v" "\<not> isRead op" "\<not> isLogging op"
    by (cases r; cases op) auto
  then show ?thesis
  proof cases
    case refused
    then have "new = []" using new(1) by (cases op) simp_all
    then have "ps_finished s' = ps_finished s" using fin by simp
    with \<open>new = []\<close> next_ L refused show ?thesis by (auto intro: log_refused)
  next
    case read
    then have "new = []" using new(1) by (cases op) simp_all
    then have "ps_finished s' = ps_finished s" using fin by simp
    moreover have "\<not> isLogging op" using read by (cases op) simp_all
    ultimately show ?thesis using \<open>new = []\<close> next_ L read by (auto intro: log_read log_write)
  next
    case appended
    then have n: "new = [e]" "\<not> isFinishedEvent e" "\<not> ps_finished s"
      using new(1) success_is_open [of p a op s] run by auto
    moreover have "fld e ''type'' = JStr type" "length es < maxEvents - 1"
      using append_returns [of p a type details s e s'] appended run inv by (simp_all add: storeInv_defs)
    ultimately have "logStep L (op, r) (OpenLog (es @ new))"
      using storeInv_last [of a es e s'] new(2) L appended by (simp add: log_append)
    moreover have "\<not> ps_finished s'" using fin n by simp
    ultimately show ?thesis using next_ by auto
  next
    case finished
    then obtain e where n: "new = [e]" "isFinishedEvent e" "\<not> ps_finished s"
      using new(1) success_is_open [of p a op s] run by auto
    have v: "v = JObj (ps_run s')" "fld v ''status'' = JStr status" "ps_finished s'"
      using finish_returns [of p a status details s v s'] finished run by simp_all
    have "consistentRun (JObj (ps_run s')) (es @ [e]) = Inr ()" "fld (JObj (ps_run s')) ''status'' \<noteq> JStr ''running''"
      using new(2) v(3) n(1) unfolding storeInv_def settled_def by blast+
    then have "fld e ''status'' = JStr status"
      using v(1,2) by (simp add: consistentRun_def res_simps)
    then have "logStep L (op, r) (ClosedLog (es @ new))"
      using storeInv_last [of a es e s'] new(2) L finished n v(2) by (simp add: log_finish)
    then show ?thesis using next_ v(3) by auto
  next
    case written
    then have "new = []" using new(1) by (cases op) simp_all
    moreover have "\<not> ps_finished s" using success_is_open [of p a op s v s'] run written by simp
    ultimately have "\<not> ps_finished s'" "\<not> ps_finished s" using fin by simp_all
    then show ?thesis using \<open>new = []\<close> next_ L written by (auto intro: log_write)
  qed
qed

interpretation run_log: simulation logStep "performOp p a"
    "\<lambda>op. rooted a \<and> clockOk p \<and> faultless (sp_fault p) \<and> opInput op" "representsLog a" for p a
  by unfold_locales (elim conjE, rule log_simulation)

text \<open>C4: The pod store refines the machine of the run log.  Create a store and run any list of operations on a
  disk without faults: what the operations returned, and the events file with the finished flag read as a log, are a run of the
  machine from the empty open log.  So events are numbered without a gap, at most 999 of them before the terminal
  one, finishing closes the log with the status it was called with, refused operations leave no trace, and after finishing only reading succeeds.\<close>

theorem store_refines_log:
  assumes "rooted a" and "clockOk p" and "faultless (sp_fault p)" and "jsonable assignment"
    and "nodeAt s0 (sa_root a) = None \<or> nodeMode (nodeAt s0 (sa_root a)) = 448"
    and "createPodRunStore p a assignment s0 = (Inr (), s1)"
    and "list_all opInput ops" and "runOps p a ops s1 = (r, s2)"
  shows "\<exists>rs. r = Inr rs \<and> length rs = length ops \<and> stepped logStep (OpenLog []) (zip ops rs) (logOf a s2)"
proof -
  have inv: "storeInv a [] s1"
    by (rule createPodRunStore_inv [OF assms(1,2,4,5,6)])
  then have start: "representsLog a (OpenLog []) s1"
    using finished_events [OF inv] by (auto simp: representsLog_def intro: exI [of _ "[]"])
  obtain rs where rs: "r = Inr rs" "length rs = length ops" "performed (performOp p a) s1 (zip ops rs) s2"
    using runOps_performed [OF assms(8)] by blast
  obtain L where "stepped logStep (OpenLog []) (zip ops rs) L" "representsLog a L s2"
    using run_log.runs [OF rs(3) start] assms(1-3,7) by (auto simp: list_all_iff dest: set_zip_leftD)
  then show ?thesis using rs(1,2) logOf_represents by blast
qed

theorem store_refines_log_witness:
  "\<exists>rs. fst (runOps demoPorts demoArgs demoOps (snd (createPodRunStore demoPorts demoArgs (JObj []) demoStore))) = Inr rs \<and>
     length rs = 4 \<and> stepped logStep (OpenLog []) (zip demoOps rs)
       (logOf demoArgs (snd (runOps demoPorts demoArgs demoOps (snd (createPodRunStore demoPorts demoArgs (JObj []) demoStore)))))"
proof -
  have "fst (createPodRunStore demoPorts demoArgs (JObj []) demoStore) = Inr ()" by code_simp
  then have create: "createPodRunStore demoPorts demoArgs (JObj []) demoStore
      = (Inr (), snd (createPodRunStore demoPorts demoArgs (JObj []) demoStore))"
    by (metis prod.collapse)
  have "jsonable (JObj [])" "nodeAt demoStore (sa_root demoArgs) = None" "length demoOps = 4"
    by (simp_all add: demoStore_def demoOps_def)
  then show ?thesis
    using store_refines_log [OF demo_hyps(1-3) _ _ create demo_hyps(4) prod.collapse [symmetric]] by auto
qed

end
