(* ===== verification/Triples.thy ===== *)
theory Triples
  imports Prelude
begin

text \<open>
  Partial-correctness triples for computations that may throw: from a state of \<open>P\<close> the computation ends in a
  state of \<open>E e\<close> when it throws \<open>e\<close> and in a state of \<open>Q x\<close> when it returns \<open>x\<close>.  Every computation of the model
  ends, so a triple with \<open>E\<close> false says that the computation returns.
\<close>

definition triple :: "('s \<Rightarrow> bool) \<Rightarrow> ('s, 'a) io \<Rightarrow> (err \<Rightarrow> 's \<Rightarrow> bool) \<Rightarrow> ('a \<Rightarrow> 's \<Rightarrow> bool) \<Rightarrow> bool" where
  "triple P m E Q \<longleftrightarrow> (\<forall>s. P s \<longrightarrow> (case m s of (Inl e, s') \<Rightarrow> E e s' | (Inr x, s') \<Rightarrow> Q x s'))"

lemma tripleI: "(\<And>s. P s \<Longrightarrow> (case m s of (Inl e, s') \<Rightarrow> E e s' | (Inr x, s') \<Rightarrow> Q x s')) \<Longrightarrow> triple P m E Q"
  by (simp add: triple_def)

lemma tripleD: "triple P m E Q \<Longrightarrow> P s \<Longrightarrow> m s = (r, s') \<Longrightarrow> (case r of Inl e \<Rightarrow> E e s' | Inr x \<Rightarrow> Q x s')"
  unfolding triple_def by (cases r) (auto dest!: spec [of _ s])

lemma triple_bind:
  assumes "triple P m E R" and "\<And>x. triple (R x) (f x) E Q"
  shows "triple P (bindE m f) E Q"
proof (rule tripleI)
  fix s assume "P s"
  then show "case bindE m f s of (Inl e, s') \<Rightarrow> E e s' | (Inr x, s') \<Rightarrow> Q x s'"
    using tripleD [OF assms(1)] tripleD [OF assms(2)]
    by (cases "m s") (fastforce simp: bindE_def split: sum.splits prod.splits)
qed

lemma triple_then: "triple P m E (\<lambda>_. R) \<Longrightarrow> triple R k E Q \<Longrightarrow> triple P (thenE m k) E Q"
  unfolding thenE_def by (rule triple_bind)

lemma triple_catch:
  assumes "triple P m F Q" and "\<And>e. triple (F e) (h e) E Q"
  shows "triple P (catchE m h) E Q"
proof (rule tripleI)
  fix s assume "P s"
  then show "case catchE m h s of (Inl e, s') \<Rightarrow> E e s' | (Inr x, s') \<Rightarrow> Q x s'"
    using tripleD [OF assms(1)] tripleD [OF assms(2)]
    by (cases "m s") (fastforce simp: catchE_def split: sum.splits prod.splits)
qed

lemma triple_weaken:
  assumes "triple P m E Q" and "\<And>s. P' s \<Longrightarrow> P s" and "\<And>e s. E e s \<Longrightarrow> E' e s" and "\<And>x s. Q x s \<Longrightarrow> Q' x s"
  shows "triple P' m E' Q'"
proof (rule tripleI)
  fix s assume "P' s"
  then show "case m s of (Inl e, s') \<Rightarrow> E' e s' | (Inr x, s') \<Rightarrow> Q' x s'"
    using tripleD [OF assms(1)] assms(2-4) by (cases "m s") (fastforce split: sum.splits)
qed

lemma triple_basic:
  "(\<And>s. P s \<Longrightarrow> Q x s) \<Longrightarrow> triple P (ret x) E Q"
  "(\<And>s. P s \<Longrightarrow> E e s) \<Longrightarrow> triple P (throwE e) E Q"
  "(\<And>s. P s \<Longrightarrow> Q (f s) s) \<Longrightarrow> triple P (getS f) E Q"
  "(\<And>e s. r = Inl e \<Longrightarrow> P s \<Longrightarrow> E e s) \<Longrightarrow> (\<And>x s. r = Inr x \<Longrightarrow> P s \<Longrightarrow> Q x s) \<Longrightarrow> triple P (liftR r) E Q"
  by (auto simp: triple_def io_defs split: sum.splits)

lemma triple_modS: "(\<And>s. P s \<Longrightarrow> Q (f s)) \<Longrightarrow> triple P (modS f) E (\<lambda>_. Q)"
  by (simp add: triple_def io_defs)

lemma triple_pure: "(B \<Longrightarrow> triple P m E Q) \<Longrightarrow> triple (\<lambda>s. B \<and> P s) m E Q"
  by (auto simp: triple_def)

lemma triple_all: "(\<And>x. triple (P x) m E Q) \<Longrightarrow> triple (\<lambda>s. \<exists>x. P x s) m E Q"
  unfolding triple_def by metis

lemma triple_keeps: "keeps P m \<Longrightarrow> (\<And>e s. P s \<Longrightarrow> E e s) \<Longrightarrow> triple P m E (\<lambda>_. P)"
  by (rule tripleI) (auto split: prod.splits sum.splits dest: keepsD)

text \<open>A computation that always returns.\<close>

lemma triple_returns:
  assumes "\<And>s. P s \<Longrightarrow> \<exists>s'. m s = (Inr (), s') \<and> Q s'"
  shows "triple P m E (\<lambda>_. Q)"
  by (rule tripleI) (use assms in fastforce)

end
