(* ===== verification/Pod_Store_Prune.thy ===== *)
theory Pod_Store_Prune
  imports Pod_Store_Refinement Triples
begin

text \<open>
  Pruning old pod runs, \<^verbatim>\<open>prunePodRuns\<close> of \<^verbatim>\<open>src/src/pod-store.mjs\<close>.  The listing of a directory and \<^verbatim>\<open>localeCompare\<close>
  are parameters.  The state is that of the store opened last; pruning itself only reads and deletes files.
\<close>

section \<open>The operation\<close>

definition maxRunDirectories :: nat where "maxRunDirectories = 1000"

record 'w prunePorts =
  pr_store :: "'w storePorts"
  pr_readdir :: "(string, node) mapping \<Rightarrow> string \<Rightarrow> string list"
  pr_localeCompare :: "string \<Rightarrow> string \<Rightarrow> int"

record pruneEntry =
  pe_runId :: string
  pe_ino :: nat
  pe_finishedAt :: string

definition runNames :: "'w prunePorts \<Rightarrow> string \<Rightarrow> (string, node) mapping \<Rightarrow> string list" where
  "runNames p root fs =
     filter (\<lambda>name. reRunId name \<and> isDirNode (Mapping.lookup fs (pathJoin root name))) (pr_readdir p fs root)"

fun privateRun :: "node option \<Rightarrow> nat option" where
  "privateRun (Some (NDir mode ino)) = (if mode mod 512 = 448 then Some ino else None)"
| "privateRun _ = None"

definition examineRun :: "'w prunePorts \<Rightarrow> string \<Rightarrow> string \<Rightarrow> ('w, pruneEntry option) store" where
  "examineRun p root runId =
     bindE (lstatOrNull (sp_fault (pr_store p)) (pathJoin root runId)) (\<lambda>identity.
     case privateRun identity of
       None \<Rightarrow> ret None
     | Some ino \<Rightarrow>
         catchE (bindE (openPodRunStore (pr_store p) \<lparr>sa_root = root, sa_runId = runId\<rparr>) (\<lambda>(run, _).
           ret (if isString (fld run ''status'') \<and> strOf (fld run ''status'') \<in> set terminalStatuses
                then Some \<lparr>pe_runId = runId, pe_ino = ino, pe_finishedAt = strOf (fld run ''finishedAt'')\<rparr> else None)))
           (\<lambda>_. ret None))"

fun examineRuns :: "'w prunePorts \<Rightarrow> string \<Rightarrow> string list \<Rightarrow> ('w, pruneEntry list) store" where
  "examineRuns p root [] = ret []"
| "examineRuns p root (runId # runIds) =
     bindE (examineRun p root runId) (\<lambda>entry.
     bindE (examineRuns p root runIds) (\<lambda>entries.
     ret (case entry of None \<Rightarrow> entries | Some e \<Rightarrow> e # entries)))"

text \<open>The latest finished run first; runs that finished at the same time by their IDs.\<close>

definition prunesLater :: "'w prunePorts \<Rightarrow> pruneEntry \<Rightarrow> pruneEntry \<Rightarrow> bool" where
  "prunesLater p left right =
     (let c = pr_localeCompare p (pe_finishedAt right) (pe_finishedAt left) in
      if c \<noteq> 0 then c < 0 else pr_localeCompare p (pe_runId left) (pe_runId right) \<le> 0)"

fun deleteRuns :: "'w prunePorts \<Rightarrow> string \<Rightarrow> pruneEntry list \<Rightarrow> ('w, nat) store" where
  "deleteRuns p root [] = ret 0"
| "deleteRuns p root (candidate # candidates) =
     (let runDir = pathJoin root (pe_runId candidate) in
      bindE (lstatOrNull (sp_fault (pr_store p)) runDir) (\<lambda>current.
      if privateRun current \<noteq> Some (pe_ino candidate) then deleteRuns p root candidates
      else
        thenE (removeTree (sp_fault (pr_store p)) runDir)
        (bindE (deleteRuns p root candidates) (\<lambda>deleted. ret (Suc deleted)))))"

definition prunePodRuns :: "'w prunePorts \<Rightarrow> jsval \<Rightarrow> jsval \<Rightarrow> ('w, jsval) store" where
  "prunePodRuns p stateRoot keepTerminalRuns =
     (let root = strOf stateRoot; fault = sp_fault (pr_store p) in
      thenE (liftR (checks
        [require (isString stateRoot \<and> root \<noteq> [] \<and> CHR 0x00 \<notin> set root \<and> resolvedPath root)
           ''stateRoot must be an absolute canonical path'',
         require (isSafeInteger keepTerminalRuns \<and> 0 \<le> intOf keepTerminalRuns)
           ''keepTerminalRuns must be a non-negative safe integer'']))
      (thenE (privateEntry fault root ''stateRoot'' False 448)
      (thenE (faultPoint fault)
      (bindE (getS (\<lambda>s. runNames p root (sys_fs s))) (\<lambda>runIds.
       thenE (liftR (require (length runIds \<le> maxRunDirectories)
         (''stateRoot exceeds '' @ decNat maxRunDirectories @ '' run directories'')))
       (bindE (examineRuns p root runIds) (\<lambda>terminal.
        bindE (deleteRuns p root (drop (nat (intOf keepTerminalRuns)) (sortBy (prunesLater p) terminal))) (\<lambda>deleted.
        ret (JObj [(''examined'', num (int (length runIds))), (''retained'', num (int (length runIds) - int deleted)),
                   (''deleted'', num (int deleted))])))))))))"

section \<open>What pruning reads\<close>

lemma sameFs_keeps [keeps_rules]:
  "keeps (\<lambda>s. sys_fs s = fs) (faultPoint f)" "keeps (\<lambda>s. sys_fs s = fs) (lstatOrNull f q)"
  "keeps (\<lambda>s. sys_fs s = fs) (readText f q)"
  by (auto simp: keeps_def faultPoint_def lstatOrNull_def readText_def io_defs split: prod.splits option.splits sum.splits node.splits)

lemma sameFs_private [keeps_rules]: "keeps (\<lambda>s. sys_fs s = fs) (privateEntry f q l b m)"
  unfolding privateEntry_def by (intro keeps_rules)

lemma open_sameFs [keeps_rules]: "keeps (\<lambda>s. sys_fs s = fs) (openPodRunStore p a)"
  unfolding openPodRunStore_def by (intro keeps_rules) simp_all

text \<open>A run that can be opened and is over, with the time it ended.\<close>

definition terminalRunAt :: "'w prunePorts \<Rightarrow> string \<Rightarrow> (string, node) mapping \<Rightarrow> pruneEntry \<Rightarrow> bool" where
  "terminalRunAt p root fs e \<longleftrightarrow>
     privateRun (Mapping.lookup fs (pathJoin root (pe_runId e))) = Some (pe_ino e) \<and>
     (\<exists>s s' run events. sys_fs s = fs \<and>
        openPodRunStore (pr_store p) \<lparr>sa_root = root, sa_runId = pe_runId e\<rparr> s = (Inr (run, events), s') \<and>
        strOf (fld run ''status'') \<in> set terminalStatuses \<and> pe_finishedAt e = strOf (fld run ''finishedAt''))"

lemma lstat_run:
  assumes "lstatOrNull f q s = (r, s')"
  shows "sys_fs s' = sys_fs s \<and> (r = Inr None \<or> r = Inr (nodeAt s q))"
  using assms unfolding lstatOrNull_def
  by (auto simp: faultPoint_def io_defs split: prod.splits option.splits sum.splits)

lemma examineRun_run:
  assumes "examineRun p root runId s = (r, s')"
  shows "sys_fs s' = sys_fs s \<and> (\<exists>x. r = Inr x \<and> (\<forall>e. x = Some e \<longrightarrow> pe_runId e = runId \<and> terminalRunAt p root (sys_fs s) e))"
  using assms unfolding examineRun_def
proof (cases rule: bindE_elim)
  case (throw e)
  then show ?thesis using lstat_run by fastforce
next
  case (continue identity t)
  note stat = lstat_run [OF continue(1)]
  show ?thesis
  proof (cases "privateRun identity")
    case None
    then show ?thesis using continue(2) stat by simp
  next
    case (Some ino)
    have ino: "privateRun (nodeAt s (pathJoin root runId)) = Some ino" using Some stat by auto
    obtain q u where open_: "openPodRunStore (pr_store p) \<lparr>sa_root = root, sa_runId = runId\<rparr> t = (q, u)" by fastforce
    have u: "sys_fs u = sys_fs t" by (rule keepsD [OF open_sameFs open_]) simp
    show ?thesis
    proof (cases q)
      case (Inl e)
      then show ?thesis using continue(2) Some open_ u stat by (auto simp: io_defs)
    next
      case (Inr x)
      obtain run events where x: "x = (run, events)" by (cases x)
      have end_: "s' = u" "r = Inr (if isString (fld run ''status'') \<and> strOf (fld run ''status'') \<in> set terminalStatuses
          then Some \<lparr>pe_runId = runId, pe_ino = ino, pe_finishedAt = strOf (fld run ''finishedAt'')\<rparr> else None)"
        using continue(2) Some open_ Inr x by (auto simp: io_defs)
      have "terminalRunAt p root (sys_fs s) \<lparr>pe_runId = runId, pe_ino = ino, pe_finishedAt = strOf (fld run ''finishedAt'')\<rparr>"
        if "strOf (fld run ''status'') \<in> set terminalStatuses"
        unfolding terminalRunAt_def
        by (intro conjI exI [of _ t] exI [of _ u] exI [of _ run] exI [of _ events]) (use ino that open_ Inr x stat in simp_all)
      then show ?thesis using end_ u stat by auto
    qed
  qed
qed

lemma examineRuns_run:
  assumes "examineRuns p root ids s = (r, s')"
  shows "sys_fs s' = sys_fs s \<and> (\<exists>es. r = Inr es \<and> subseq (map pe_runId es) ids \<and> (\<forall>e \<in> set es. terminalRunAt p root (sys_fs s) e))"
  using assms
proof (induction ids arbitrary: r s s')
  case (Cons runId ids)
  obtain q t where one: "examineRun p root runId s = (q, t)" by fastforce
  from examineRun_run [OF one] obtain x where x: "sys_fs t = sys_fs s" "q = Inr x"
    "\<forall>e. x = Some e \<longrightarrow> pe_runId e = runId \<and> terminalRunAt p root (sys_fs s) e" by blast
  obtain q' t' where more: "examineRuns p root ids t = (q', t')" by fastforce
  from Cons.IH [OF more] obtain es where es: "sys_fs t' = sys_fs s" "q' = Inr es" "subseq (map pe_runId es) ids"
    "\<forall>e \<in> set es. terminalRunAt p root (sys_fs s) e" using x(1) by auto
  have "s' = t'" "r = Inr (case x of None \<Rightarrow> es | Some e \<Rightarrow> e # es)"
    using Cons.prems one more x(2) es(2) by (auto simp: io_defs)
  then show ?case using es x(3) by (cases x) auto
qed simp

section \<open>What pruning deletes\<close>

text \<open>The state \<open>t\<close> has lost exactly the directories of the runs \<open>ids\<close>.\<close>

definition lostRuns :: "string \<Rightarrow> string list \<Rightarrow> 'w podStore \<Rightarrow> 'w podStore \<Rightarrow> bool" where
  "lostRuns root ids s t \<longleftrightarrow>
     (\<forall>q. nodeAt t q = (if \<exists>id \<in> set ids. underPath (pathJoin root id) q then None else nodeAt s q))"

lemma deleteRuns_run:
  assumes "deleteRuns p root es s = (r, s')"
  shows "\<exists>ds. subseq ds es \<and> lostRuns root (map pe_runId ds) s s' \<and> (\<forall>n. r = Inr n \<longrightarrow> n = length ds)"
  using assms
proof (induction es arbitrary: r s)
  case Nil
  then show ?case by (intro exI [of _ "[]"]) (simp add: lostRuns_def)
next
  case (Cons e es)
  let ?dir = "pathJoin root (pe_runId e)"
  obtain q t where one: "lstatOrNull (sp_fault (pr_store p)) ?dir s = (q, t)" by fastforce
  obtain current where c: "q = Inr current" "sys_fs t = sys_fs s" using lstat_run [OF one] by auto
  show ?case
  proof (cases "privateRun current = Some (pe_ino e)")
    case False
    then have "deleteRuns p root es t = (r, s')" using Cons.prems one c(1) by (simp add: io_defs Let_def)
    from Cons.IH [OF this] obtain ds where "subseq ds es" "lostRuns root (map pe_runId ds) t s'" "\<forall>n. r = Inr n \<longrightarrow> n = length ds" by blast
    then show ?thesis using c(2) by (intro exI [of _ ds]) (auto simp: lostRuns_def)
  next
    case True
    obtain q1 t1 where rm: "removeTree (sp_fault (pr_store p)) ?dir t = (q1, t1)" by fastforce
    show ?thesis
    proof (cases q1)
      case (Inl x)
      then have "sys_fs t1 = sys_fs t" using removeTree_fs [OF rm] by simp
      moreover have "s' = t1" "r = Inl x" using Cons.prems one c(1) rm Inl True by (auto simp: io_defs Let_def)
      ultimately show ?thesis using c(2) by (intro exI [of _ "[]"]) (auto simp: lostRuns_def)
    next
      case (Inr x)
      then have t1: "sys_fs t1 = Mapping.filter (\<lambda>k _. \<not> underPath ?dir k) (sys_fs t)"
        using removeTree_fs [OF rm] by simp
      obtain q2 t2 where run: "deleteRuns p root es t1 = (q2, t2)" by fastforce
      then have "deleteRuns p root (e # es) s = (case q2 of Inl e \<Rightarrow> Inl e | Inr n \<Rightarrow> Inr (Suc n), t2)"
        using one c(1) rm Inr True by (cases q2) (simp_all add: io_defs Let_def)
      then have more: "deleteRuns p root es t1 = (q2, s')" and r: "r = (case q2 of Inl e \<Rightarrow> Inl e | Inr n \<Rightarrow> Inr (Suc n))"
        using Cons.prems run by simp_all
      from Cons.IH [OF more] obtain ds where ds: "subseq ds es" "lostRuns root (map pe_runId ds) t1 s'" "\<forall>n. q2 = Inr n \<longrightarrow> n = length ds" by blast
      have "lostRuns root (map pe_runId (e # ds)) s s'"
        using ds(2) unfolding lostRuns_def by (simp add: t1 c(2) lookup_filter_key)
      moreover have "\<forall>n. r = Inr n \<longrightarrow> n = length (e # ds)" using ds(3) r by (cases q2) simp_all
      ultimately show ?thesis using ds(1) by (intro exI [of _ "e # ds"]) simp
    qed
  qed
qed

section \<open>The order of pruning\<close>

text \<open>What pruning relies on of \<^verbatim>\<open>localeCompare\<close>: it orders strings consistently.\<close>

definition consistentOrder :: "(string \<Rightarrow> string \<Rightarrow> int) \<Rightarrow> bool" where
  "consistentOrder cmp \<longleftrightarrow> (\<forall>x y. cmp x y < 0 \<longleftrightarrow> cmp y x > 0) \<and> transp (\<lambda>x y. cmp x y \<le> 0)"

lemma consistentOrder_lt:
  assumes "consistentOrder cmp"
  shows "cmp x y = 0 \<longleftrightarrow> cmp y x = 0" and "cmp x y \<le> 0 \<Longrightarrow> cmp y z \<le> 0 \<Longrightarrow> cmp x z \<le> 0"
    and "cmp x y < 0 \<Longrightarrow> cmp y z \<le> 0 \<Longrightarrow> cmp x z < 0" and "cmp x y \<le> 0 \<Longrightarrow> cmp y z < 0 \<Longrightarrow> cmp x z < 0"
proof -
  have anti: "cmp x y < 0 \<longleftrightarrow> cmp y x > 0" for x y using assms by (auto simp: consistentOrder_def)
  have trans: "cmp x y \<le> 0 \<Longrightarrow> cmp y z \<le> 0 \<Longrightarrow> cmp x z \<le> 0" for x y z
    using assms unfolding consistentOrder_def by (blast dest: transpD)
  show "cmp x y = 0 \<longleftrightarrow> cmp y x = 0" using anti [of x y] anti [of y x] by auto
  show "cmp x y \<le> 0 \<Longrightarrow> cmp y z \<le> 0 \<Longrightarrow> cmp x z \<le> 0" by (rule trans)
  show "cmp x z < 0" if "cmp x y < 0" "cmp y z \<le> 0"
    using that anti [of x y] anti [of x z] trans [of y z x] by force
  show "cmp x z < 0" if "cmp x y \<le> 0" "cmp y z < 0"
    using that anti [of y z] anti [of x z] trans [of z x y] by force
qed

lemma prunesLater_order:
  assumes "consistentOrder (pr_localeCompare p)"
  shows "prunesLater p x y \<or> prunesLater p y x" and "transp (prunesLater p)"
    and "prunesLater p x y \<Longrightarrow> pr_localeCompare p (pe_finishedAt y) (pe_finishedAt x) \<le> 0"
proof -
  let ?c = "\<lambda>x y. pr_localeCompare p (pe_finishedAt x) (pe_finishedAt y)" and ?d = "\<lambda>x y. pr_localeCompare p (pe_runId x) (pe_runId y)"
  note order = consistentOrder_lt [OF assms]
  have later: "prunesLater p x y \<longleftrightarrow> ?c y x < 0 \<or> ?c y x = 0 \<and> ?d x y \<le> 0" for x y
    by (auto simp: prunesLater_def Let_def)
  have anti: "?c x y < 0 \<longleftrightarrow> ?c y x > 0" "?d x y < 0 \<longleftrightarrow> ?d y x > 0" for x y
    using assms by (simp_all add: consistentOrder_def)
  show "prunesLater p x y \<or> prunesLater p y x"
    unfolding later using anti(1) [of x y] anti(1) [of y x] anti(2) [of x y] anti(2) [of y x] by linarith
  show "transp (prunesLater p)"
  proof (rule transpI)
    fix x y z assume xy: "prunesLater p x y" and yz: "prunesLater p y z"
    then have le: "?c y x \<le> 0" "?c z y \<le> 0" unfolding later by auto
    show "prunesLater p x z"
    proof (cases "?c y x = 0 \<and> ?c z y = 0")
      case True
      then have "?c x y \<le> 0" "?c y z \<le> 0" using order(1) by (metis order_refl)+
      then have "?c z x \<le> 0" "?c x z \<le> 0" using order(2) le by blast+
      then have "?c z x = 0" using anti(1) [of z x] by linarith
      moreover have "?d x z \<le> 0" using xy yz True order(2) unfolding later by auto
      ultimately show ?thesis unfolding later by blast
    next
      case False
      then consider "?c y x < 0" | "?c z y < 0" using le by linarith
      then have "?c z x < 0" using order(3) [OF _ le(1)] order(4) [OF le(2)] by cases blast+
      then show ?thesis unfolding later by blast
    qed
  qed
  show "prunesLater p x y \<Longrightarrow> pr_localeCompare p (pe_finishedAt y) (pe_finishedAt x) \<le> 0"
    by (auto simp: prunesLater_def Let_def split: if_splits)
qed

section \<open>Pruning as a whole\<close>

text \<open>The runs that pruning found, in the order of pruning, and what it went on to delete.\<close>

definition prunedFrom :: "'w prunePorts \<Rightarrow> string \<Rightarrow> nat \<Rightarrow> (string, node) mapping \<Rightarrow> pruneEntry list \<Rightarrow> nat res \<Rightarrow> 'w podStore \<Rightarrow> bool" where
  "prunedFrom p root keep fs es q s' \<longleftrightarrow>
     subseq (map pe_runId es) (runNames p root fs) \<and> (\<forall>e \<in> set es. terminalRunAt p root fs e) \<and>
     (\<exists>t. sys_fs t = fs \<and> deleteRuns p root (drop keep (sortBy (prunesLater p) es)) t = (q, s'))"

lemma prune_triple:
  "triple (\<lambda>s. sys_fs s = fs) (prunePodRuns p stateRoot keep)
     (\<lambda>_ s. sys_fs s = fs \<or> (\<exists>es e. prunedFrom p (strOf stateRoot) (nat (intOf keep)) fs es (Inl e) s))
     (\<lambda>v s. \<exists>es n. prunedFrom p (strOf stateRoot) (nat (intOf keep)) fs es (Inr n) s \<and> fld v ''deleted'' = num (int n))"
  (is "triple ?P _ ?E ?Q")
proof -
  let ?root = "strOf stateRoot" and ?keep = "nat (intOf keep)"
  let ?found = "\<lambda>es s. sys_fs s = fs \<and> subseq (map pe_runId es) (runNames p ?root fs) \<and> (\<forall>e \<in> set es. terminalRunAt p ?root fs e)"
  have E: "?P s \<Longrightarrow> ?E e s" for e s by blast
  note same = triple_keeps [where E = ?E, OF _ E]
  have examine: "triple ?P (examineRuns p ?root (runNames p ?root fs)) ?E ?found"
    by (rule tripleI) (auto dest!: examineRuns_run split: prod.splits sum.splits)
  have delete: "triple (?found es) (deleteRuns p ?root (drop ?keep (sortBy (prunesLater p) es))) ?E
      (\<lambda>n. prunedFrom p ?root ?keep fs es (Inr n))" for es
    by (rule tripleI) (auto simp: prunedFrom_def split: prod.splits sum.splits)
  show ?thesis
    unfolding prunePodRuns_def Let_def
    by (rule triple_then [OF same], rule keeps_basic, assumption, rule triple_then [OF same], rule sameFs_private, assumption,
        rule triple_then [OF same], rule sameFs_keeps, assumption,
        rule triple_bind [OF triple_basic(3) [where Q = "\<lambda>ids s. ids = runNames p ?root fs \<and> ?P s"]], simp, rule triple_pure, simp only:,
        rule triple_then [OF same], rule keeps_basic, assumption, rule triple_bind [OF examine], rule triple_bind [OF delete],
        rule triple_basic(1)) (auto simp: fld_def)
qed

lemma run_dirs_apart:
  assumes "absDir root" and "properName a" and "properName b" and "underPath (pathJoin root a) q" and "underPath (pathJoin root b) q"
  shows "a = b"
proof -
  have no_slash: "CHR ''/'' \<notin> set a" "CHR ''/'' \<notin> set b" using assms(2,3) by (simp_all add: properName_def)
  obtain x y where q: "q = root @ CHR ''/'' # a @ x" "q = root @ CHR ''/'' # b @ y"
    and ends: "x = [] \<or> hd x = CHR ''/''" "y = [] \<or> hd y = CHR ''/''"
    using assms(4,5) pathJoin_abs [OF assms(1,2)] pathJoin_abs [OF assms(1,3)] by (fastforce simp: underPath_def prefix_def)
  have "takeWhile (\<lambda>c. c \<noteq> CHR ''/'') (n @ z) = n" if "CHR ''/'' \<notin> set n" "z = [] \<or> hd z = CHR ''/''" for n z
    using that by (cases z) (auto simp: takeWhile_append)
  from this [OF no_slash(1) ends(1)] this [OF no_slash(2) ends(2)] q show ?thesis by simp
qed

text \<open>The result of pruning: which runs were deleted, and the runs that were kept for them.\<close>

definition prunedRuns :: "'w prunePorts \<Rightarrow> string \<Rightarrow> nat \<Rightarrow> (string, node) mapping \<Rightarrow> pruneEntry list \<Rightarrow> pruneEntry list \<Rightarrow> bool" where
  "prunedRuns p root keep fs deleted kept \<longleftrightarrow>
     distinct (map pe_runId (kept @ deleted)) \<and> (\<forall>e \<in> set (kept @ deleted). reRunId (pe_runId e) \<and> terminalRunAt p root fs e) \<and>
     (deleted \<noteq> [] \<longrightarrow> length kept = keep) \<and>
     (\<forall>d \<in> set deleted. \<forall>k \<in> set kept. pr_localeCompare p (pe_finishedAt d) (pe_finishedAt k) \<le> 0)"

lemma subseq_set: "subseq xs ys \<Longrightarrow> set xs \<subseteq> set ys"
  by (auto elim: list_emb_set)

lemma subseq_distinct: "subseq xs ys \<Longrightarrow> distinct ys \<Longrightarrow> distinct xs"
  by (induction rule: list_emb.induct) (auto dest: subseq_set)

lemma pruned_entries:
  assumes order: "consistentOrder (pr_localeCompare p)" and names: "distinct (pr_readdir p fs root)"
    and pruned: "prunedFrom p root keep fs es q s'" and s: "sys_fs s = fs"
  shows "\<exists>deleted kept. prunedRuns p root keep fs deleted kept \<and> lostRuns root (map pe_runId deleted) s s' \<and>
    (\<forall>n. q = Inr n \<longrightarrow> n = length deleted)"
proof -
  let ?sorted = "sortBy (prunesLater p) es"
  obtain t where ids: "subseq (map pe_runId es) (runNames p root fs)" and terminal: "\<forall>e \<in> set es. terminalRunAt p root fs e"
    and t: "sys_fs t = fs" "deleteRuns p root (drop keep ?sorted) t = (q, s')"
    using pruned by (auto simp: prunedFrom_def)
  obtain ds where ds: "subseq ds (drop keep ?sorted)" "lostRuns root (map pe_runId ds) t s'" "\<forall>n. q = Inr n \<longrightarrow> n = length ds"
    using deleteRuns_run [OF t(2)] by blast
  let ?kept = "take keep ?sorted"
  have "distinct (map pe_runId es)"
    using subseq_distinct [OF ids] names by (simp add: runNames_def)
  then have "distinct (map pe_runId ?sorted)" by (simp add: distinct_map)
  moreover have "subseq (?kept @ ds) ?sorted" using list_emb_append_mono [OF subseq_order.order_refl ds(1), of ?kept] by simp
  then have "subseq (map pe_runId (?kept @ ds)) (map pe_runId ?sorted)" by (rule subseq_map)
  ultimately have dist: "distinct (map pe_runId (?kept @ ds))" by (rule subseq_distinct [rotated])
  have set: "set (?kept @ ds) \<subseteq> set es"
    using set_take_subset [of keep ?sorted] set_drop_subset [of keep ?sorted] subseq_set [OF ds(1)] by fastforce
  have "\<forall>e \<in> set es. reRunId (pe_runId e)"
    using subseq_set [OF ids] by (auto simp: runNames_def)
  then have ok: "\<forall>e \<in> set (?kept @ ds). reRunId (pe_runId e) \<and> terminalRunAt p root fs e"
    using set terminal by blast
  have "length ?kept = keep" if "ds \<noteq> []"
    using that ds(1) by (cases "keep < length ?sorted") auto
  moreover have "sorted_wrt (prunesLater p) (?kept @ drop keep ?sorted)"
    using sorted_sortBy [of "prunesLater p"] prunesLater_order(1,2) [OF order] by simp
  then have "\<forall>k \<in> set ?kept. \<forall>d \<in> set ds. prunesLater p k d"
    using subseq_set [OF ds(1)] unfolding sorted_wrt_append by blast
  ultimately have "prunedRuns p root keep fs ds ?kept"
    using dist ok prunesLater_order(3) [OF order] unfolding prunedRuns_def by blast
  moreover have "lostRuns root (map pe_runId ds) s s'"
    using ds(2) t(1) s by (simp add: lostRuns_def)
  ultimately show ?thesis using ds(3) by blast
qed


definition demoPrune :: "unit prunePorts" where
  "demoPrune = \<lparr>pr_store = demoPorts, pr_readdir = (\<lambda>_ _. [''run-1'']), pr_localeCompare = (\<lambda>x y. int (length x) - int (length y))\<rparr>"

definition demoRun :: "unit podStore" where
  "demoRun = snd (runOps demoPorts demoArgs demoOps (snd (createPodRunStore demoPorts demoArgs (JObj []) demoStore)))"

lemma demo_prune:
  "consistentOrder (pr_localeCompare demoPrune)" "distinct (pr_readdir demoPrune (sys_fs demoRun) ''/pods'')" "absDir ''/pods''"
  "fst (prunePodRuns demoPrune (JStr ''/pods'') (num 0) demoRun) = Inr (JObj [(''examined'', num 1), (''retained'', num 0), (''deleted'', num 1)])"
proof -
  show "consistentOrder (pr_localeCompare demoPrune)" by (auto simp: consistentOrder_def demoPrune_def transp_def)
  show "distinct (pr_readdir demoPrune (sys_fs demoRun) ''/pods'')" by (simp add: demoPrune_def)
  show "absDir ''/pods''" using demo_hyps(1) by (simp add: rooted_def demoArgs_def)
  show "fst (prunePodRuns demoPrune (JStr ''/pods'') (num 0) demoRun) = Inr (JObj [(''examined'', num 1), (''retained'', num 0), (''deleted'', num 1)])"
    by code_simp
qed


end
