(* ===== verification/Pod_Contract.thy ===== *)
theory Pod_Contract
  imports Assertions Sha256 "HOL-Library.Char_ord" "HOL-Library.List_Lexorder"
  "HOL-Library.Multiset"
begin

text \<open>
  The contract of the engineering pod, \<^verbatim>\<open>src/src/pod-contract.mjs\<close>: pod templates, attempt plans and the
  receipts of writers, checkers and conformance gates.

  The validators of receipts read plans that they do not validate again, so an access that JavaScript
  answers with a \<^verbatim>\<open>TypeError\<close> (a property of \<^verbatim>\<open>undefined\<close>, a method of a value that lacks it) is the
  error \<open>typeError\<close> here.  \<^verbatim>\<open>toLowerCase\<close> on directory names that need not be ASCII is an argument
  \<open>lower\<close>; on the paths that passed \<^verbatim>\<open>PORTABLE_COMPONENT\<close> it is the ASCII folding.
\<close>

section \<open>Constants\<close>

definition templateFields :: "string list" where
  "templateFields = [''version'', ''name'', ''maxAttempts'', ''timeouts'', ''changes'', ''writers'', ''prompts'',
     ''verificationProfile'']"

definition writerIds :: "string list" where
  "writerIds = [''engineering-a'', ''engineering-b'', ''qa-tests'']"

definition promptIds :: "string list" where
  "promptIds = [''planner'', ''checker'', ''qa'', ''testing'']"

definition podTimeoutFields :: "string list" where
  "podTimeoutFields = [''executionSeconds'', ''attemptSeconds'', ''workflowSeconds'']"

definition planFields :: "string list" where
  "planFields = [''version'', ''attempt'', ''baseSha'', ''requirements'', ''acceptanceCriteria'', ''writers'']"

definition planWriterFields :: "string list" where
  "planWriterFields = [''brief'', ''requirementIds'', ''acceptanceIds'', ''writePaths'']"

definition writerReceiptFields :: "string list" where
  "writerReceiptFields = [''outcome'', ''baseSha'', ''what'', ''why'', ''evidence'', ''requirementIds'',
     ''acceptanceIds'', ''inboxCursor'', ''dependencyRequest'']"

definition dependencyRequestFields :: "string list" where
  "dependencyRequestFields = [''owner'', ''path'', ''requirementIds'', ''acceptanceIds'', ''ownerBriefSha256'',
     ''need'', ''why'']"

definition inboxEntryFields :: "string list" where
  "inboxEntryFields = [''sequence'', ''requester'', ''owner'', ''path'', ''requirementIds'', ''acceptanceIds'',
     ''ownerBriefSha256'', ''need'', ''why'', ''requesterCheckpointSha'']"

definition checkerReceiptFields :: "string list" where
  "checkerReceiptFields = [''outcome'', ''baseSha'', ''resultSha'', ''diffSha256'', ''what'', ''why'', ''evidence'',
     ''requirementIds'', ''acceptanceIds'', ''files'', ''deliveredInbox'']"

definition conformanceReceiptFields :: "string list" where
  "conformanceReceiptFields = [''gate'', ''outcome'', ''candidateSha'', ''what'', ''why'', ''evidence'',
     ''requirementIds'', ''acceptanceIds'', ''files'']"

definition verificationProfiles :: "string list" where
  "verificationProfiles = [''bimo-repo-v1'', ''pi-palantir-v1'']"

definition maxPodReceiptBytes :: nat where
  "maxPodReceiptBytes = 60 * 1024"

text \<open>\<^verbatim>\<open>/^[A-Z][A-Z0-9-]{0,63}$/\<close>\<close>

fun reTraceId :: "string \<Rightarrow> bool" where
  "reTraceId [] = False"
| "reTraceId (c # cs) =
     (isUpper c \<and> list_all (\<lambda>c. isUpper c \<or> isDigit c \<or> c = CHR ''-'') cs \<and> length cs \<le> 63)"

definition typeError :: err where
  "typeError = ''TypeError''"

definition getProp :: "jsval \<Rightarrow> string \<Rightarrow> jsval res" where
  "getProp v k = (if v = JUndef \<or> v = JNull then Inl typeError else Inr (fld v k))"

section \<open>Paths\<close>

definition canonicalPath :: "string \<Rightarrow> bool" where
  "canonicalPath s =
     (\<not> list_ex badSegment (splitOn (CHR ''/'') s) \<and> posixNormalize s = s)"

definition assertPromptPath :: "jsval \<Rightarrow> string \<Rightarrow> unit res" where
  "assertPromptPath v label =
     checks
       [assertText v label 512,
        require (\<not> (sublist backslash (strOf v) \<or> isAbsolutePath (strOf v)))
          (label @ '' must be a canonical relative path''),
        require (canonicalPath (strOf v)) (label @ '' must be a canonical relative path'')]"

definition controlPath :: "string \<Rightarrow> bool" where
  "controlPath s =
     (let folded = map toLowerCase (splitOn (CHR ''/'') s)
      in ''.git'' \<in> set folded \<or> ''.github'' \<in> set folded)"

definition assertPortable :: "jsval \<Rightarrow> string \<Rightarrow> unit res" where
  "assertPortable v label =
     checks
       [require (byteLength (strOf v) \<le> 240 \<and> list_all rePortable (splitOn (CHR ''/'') (strOf v)))
          (label @ '' must be a portable ASCII path no larger than 240 bytes''),
        require (\<not> controlPath (strOf v)) (label @ '' names a forbidden repository control path'')]"

definition assertRepositoryDirectory :: "jsval \<Rightarrow> string \<Rightarrow> unit res" where
  "assertRepositoryDirectory v label =
     checks
       [assertText v label 512,
        require (\<not> (sublist backslash (strOf v) \<or> isAbsolutePath (strOf v)))
          (label @ '' must be a canonical relative directory''),
        require (canonicalPath (strOf v)) (label @ '' must be a canonical relative directory''),
        assertPortable v label]"

definition assertRepositoryFile :: "jsval \<Rightarrow> string \<Rightarrow> unit res" where
  "assertRepositoryFile v label =
     checks
       [assertText v label 512,
        require (\<not> (sublist backslash (strOf v) \<or> isAbsolutePath (strOf v) \<or> suffix ''/'' (strOf v)))
          (label @ '' must be a canonical relative file path''),
        require (canonicalPath (strOf v)) (label @ '' must be a canonical relative file path''),
        assertPortable v label]"

text \<open>\<^verbatim>\<open>directoryContains\<close> coerces a parent that is not a string in its template literal.\<close>

definition directoryContains :: "jsval \<Rightarrow> string \<Rightarrow> bool" where
  "directoryContains parent child = (parent = JStr child \<or> prefix (toStr parent @ ''/'') child)"

definition directoriesOverlap :: "string \<Rightarrow> string \<Rightarrow> bool" where
  "directoriesOverlap left right =
     (let foldedLeft = toLowerCase left; foldedRight = toLowerCase right
      in foldedLeft = foldedRight \<or> prefix (foldedRight @ ''/'') foldedLeft
         \<or> prefix (foldedLeft @ ''/'') foldedRight)"

section \<open>Shared checks\<close>

definition assertFixedKeys :: "jsval \<Rightarrow> string list \<Rightarrow> string \<Rightarrow> unit res" where
  "assertFixedKeys v expected label =
     require (length (jsKeys v) = length expected \<and> list_all (hasOwn v) expected)
       (label @ '' must contain exactly '' @ joinWith '', '' expected)"

definition assertTraceId :: "jsval \<Rightarrow> string \<Rightarrow> unit res" where
  "assertTraceId v label =
     require (isString v \<and> reTraceId (strOf v)) (label @ '' must be a stable uppercase ID'')"

definition assertGitSha :: "jsval \<Rightarrow> string \<Rightarrow> unit res" where
  "assertGitSha v label =
     require (isString v \<and> reGitSha (strOf v)) (label @ '' must be a lowercase 40- or 64-character Git SHA'')"

fun idLoop :: "string list \<Rightarrow> string \<Rightarrow> nat \<Rightarrow> jsval list \<Rightarrow> string list \<Rightarrow> string list res" where
  "idLoop known label i [] seen = Inr seen"
| "idLoop known label i (v # vs) seen =
     bindR (checks
       [assertTraceId v (indexed label i),
        require (strOf v \<notin> set seen) (label @ '' contains duplicate ID: '' @ strOf v),
        require (strOf v \<in> set known) (label @ '' references unknown ID: '' @ strOf v)])
     (\<lambda>_. idLoop known label (Suc i) vs (seen @ [strOf v]))"

definition validateIdArray :: "jsval \<Rightarrow> string list \<Rightarrow> string \<Rightarrow> nat \<Rightarrow> string list res" where
  "validateIdArray values known label maximum =
     bindR (require (isArray values \<and> 1 \<le> length (elems values) \<and> length (elems values) \<le> maximum)
       (label @ '' must contain 1 to '' @ decNat maximum @ '' stable IDs''))
     (\<lambda>_. idLoop known label 0 (elems values) [])"

text \<open>\<^verbatim>\<open>===\<close> between values of different documents: primitive values by content (no value equals
  \<^verbatim>\<open>NaN\<close>), objects and arrays never.\<close>

fun strictEq :: "jsval \<Rightarrow> jsval \<Rightarrow> bool" where
  "strictEq (JArr _) _ = False"
| "strictEq (JObj _) _ = False"
| "strictEq JOther _ = False"
| "strictEq (JNum NNaN) _ = False"
| "strictEq a b = (a = b)"

definition assertExactStringArray :: "jsval \<Rightarrow> jsval \<Rightarrow> string \<Rightarrow> unit res" where
  "assertExactStringArray actual expected label =
     checks
       [require (isArray actual) (label @ '' must exactly match the attempt plan''),
        require (expected \<noteq> JUndef \<and> expected \<noteq> JNull) typeError,
        require (isArray expected \<and> list_all2 strictEq (elems actual) (elems expected))
          (label @ '' must exactly match the attempt plan'')]"

definition validateEvidence :: "jsval \<Rightarrow> string \<Rightarrow> unit res" where
  "validateEvidence values label =
     checks
       [require (isArray values \<and> elems values \<noteq> [] \<and> length (elems values) \<le> 20)
          (label @ '' must contain 1 to 20 strings''),
        checkEach (\<lambda>i v. assertText v (indexed label i) 2000) 0 (elems values)]"

section \<open>Dependency requests and the inbox\<close>

text \<open>\<^verbatim>\<open>new Set(values)\<close> of a value that need not be an array.\<close>

fun setItems :: "jsval \<Rightarrow> jsval list res" where
  "setItems (JArr xs) = Inr xs"
| "setItems (JStr s) = Inr (map JStr (chars s))"
| "setItems JUndef = Inr []"
| "setItems JNull = Inr []"
| "setItems _ = Inl typeError"

fun iterItems :: "jsval \<Rightarrow> jsval list res" where
  "iterItems (JArr xs) = Inr xs"
| "iterItems (JStr s) = Inr (map JStr (chars s))"
| "iterItems _ = Inl typeError"

fun coveredLoop :: "jsval list \<Rightarrow> jsval list \<Rightarrow> string \<Rightarrow> nat \<Rightarrow> jsval list \<Rightarrow> string list \<Rightarrow> unit res" where
  "coveredLoop requester owner label i [] seen = Inr ()"
| "coveredLoop requester owner label i (v # vs) seen =
     bindR (checks
       [assertTraceId v (indexed label i),
        require (strOf v \<notin> set seen) (label @ '' contains duplicate ID: '' @ strOf v),
        require (v \<in> set requester \<and> v \<in> set owner)
          (label @ '' must be covered by both writer items: '' @ strOf v)])
     (\<lambda>_. coveredLoop requester owner label (Suc i) vs (strOf v # seen))"

definition assertIdsCovered :: "jsval \<Rightarrow> jsval \<Rightarrow> jsval \<Rightarrow> string \<Rightarrow> unit res" where
  "assertIdsCovered values requesterValues ownerValues label =
     bindR (setItems requesterValues) (\<lambda>requester.
     bindR (setItems ownerValues) (\<lambda>owner.
     bindR (require (isArray values \<and> elems values \<noteq> []) (label @ '' must be a non-empty array'')) (\<lambda>_.
     coveredLoop requester owner label 0 (elems values) [])))"

fun findById :: "jsval \<Rightarrow> jsval list \<Rightarrow> jsval res" where
  "findById wanted [] = Inr JUndef"
| "findById wanted (item # items) =
     bindR (getProp item ''id'') (\<lambda>v. if strictEq v wanted then Inr item else findById wanted items)"

definition criterionCovered :: "jsval \<Rightarrow> jsval list \<Rightarrow> jsval \<Rightarrow> unit res" where
  "criterionCovered criteria requested acceptanceId =
     bindR (require (isArray criteria) typeError) (\<lambda>_.
     bindR (findById acceptanceId (elems criteria)) (\<lambda>criterion.
     bindR (getProp criterion ''requirementIds'') (\<lambda>linked.
     bindR (iterItems linked) (\<lambda>items.
     checks (map (\<lambda>r. require (r \<in> set requested)
       (''dependency acceptance '' @ toStr acceptanceId @ '' requires '' @ toStr r)) items)))))"

definition otherEngineer :: "string \<Rightarrow> string" where
  "otherEngineer writerId = (if writerId = ''engineering-a'' then ''engineering-b'' else ''engineering-a'')"

definition validateDependencyRequest :: "jsval \<Rightarrow> jsval \<Rightarrow> string \<Rightarrow> unit res" where
  "validateDependencyRequest request plan writerId =
     bindR (checks
       [require (prefix ''engineering-'' writerId)
          ''only Engineering writers may return a same-owner dependency request'',
        assertPlainObject request ''dependency request'',
        assertExactFields request dependencyRequestFields ''dependency request'',
        require (fld request ''owner'' = JStr (otherEngineer writerId))
          ''dependency owner must be the other Engineering slot'']) (\<lambda>_.
     bindR (getProp plan ''writers'') (\<lambda>writers.
     bindR (getProp writers writerId) (\<lambda>requester.
     bindR (getProp writers (otherEngineer writerId)) (\<lambda>owner.
     bindR (assertRepositoryFile (fld request ''path'') ''dependency path'') (\<lambda>_.
     bindR (getProp owner ''writePaths'') (\<lambda>paths.
     bindR (checks
       [require (isArray paths) typeError,
        require (list_ex (\<lambda>w. directoryContains w (strOf (fld request ''path''))) (elems paths))
          (''dependency path must be inside '' @ otherEngineer writerId @ '' writePaths'')]) (\<lambda>_.
     bindR (getProp requester ''requirementIds'') (\<lambda>requesterReqs.
     checks
       [assertIdsCovered (fld request ''requirementIds'') requesterReqs (fld owner ''requirementIds'')
          ''dependency requirementIds'',
        assertIdsCovered (fld request ''acceptanceIds'') (fld requester ''acceptanceIds'')
          (fld owner ''acceptanceIds'') ''dependency acceptanceIds'',
        checks (map (criterionCovered (fld plan ''acceptanceCriteria'') (elems (fld request ''requirementIds'')))
          (elems (fld request ''acceptanceIds''))),
        require (isString (fld request ''ownerBriefSha256'') \<and> reSha256 (strOf (fld request ''ownerBriefSha256'')))
          ''dependency owner brief does not match the immutable attempt plan'',
        require (isString (fld owner ''brief'')) typeError,
        require (fld request ''ownerBriefSha256'' = JStr (sha256 (strOf (fld owner ''brief''))))
          ''dependency owner brief does not match the immutable attempt plan'',
        assertText (fld request ''need'') ''dependency need'' 2000,
        assertText (fld request ''why'') ''dependency why'' 2000]))))))))"

definition entryRequest :: "jsval \<Rightarrow> jsval" where
  "entryRequest entry = JObj (map (\<lambda>k. (k, fld entry k)) dependencyRequestFields)"

definition validateInboxEntry :: "jsval \<Rightarrow> string \<Rightarrow> int \<Rightarrow> nat \<Rightarrow> jsval \<Rightarrow> unit res" where
  "validateInboxEntry plan owner cursor i entry =
     (let label = indexed ''deliveredInbox'' i in
      checks
       [assertPlainObject entry label,
        assertExactFields entry inboxEntryFields label,
        assertInteger (fld entry ''sequence'') (cursor + 1) (cursor + 1) (label @ ''.sequence''),
        require (fld entry ''owner'' = JStr owner) (label @ '' owner must be '' @ owner),
        require (isString (fld entry ''requester'')) typeError,
        validateDependencyRequest (entryRequest entry) plan (strOf (fld entry ''requester'')),
        assertGitSha (fld entry ''requesterCheckpointSha'') (label @ ''.requesterCheckpointSha'')])"

fun inboxLoop :: "jsval \<Rightarrow> string \<Rightarrow> int \<Rightarrow> nat \<Rightarrow> jsval list \<Rightarrow> int res" where
  "inboxLoop plan owner cursor i [] = Inr cursor"
| "inboxLoop plan owner cursor i (entry # entries) =
     bindR (validateInboxEntry plan owner cursor i entry)
       (\<lambda>_. inboxLoop plan owner (intOf (fld entry ''sequence'')) (Suc i) entries)"

definition validateDeliveredInbox :: "jsval \<Rightarrow> jsval \<Rightarrow> string \<Rightarrow> int \<Rightarrow> int res" where
  "validateDeliveredInbox entries plan owner previousInboxCursor =
     bindR (require (isArray entries \<and> length (elems entries) \<le> 20)
       ''deliveredInbox must be an array of at most 20 entries'')
     (\<lambda>_. inboxLoop plan owner previousInboxCursor 0 (elems entries))"

section \<open>Templates\<close>

fun directoryLoop :: "(string \<Rightarrow> string) \<Rightarrow> nat \<Rightarrow> jsval list \<Rightarrow> (string \<times> string) list \<Rightarrow> string list res" where
  "directoryLoop lower i [] folded = Inr []"
| "directoryLoop lower i (v # vs) folded =
     bindR (checks
       [assertText v (indexed ''existingDirectories'' i) 512,
        require (\<not> (sublist backslash (strOf v) \<or> isAbsolutePath (strOf v)) \<and> canonicalPath (strOf v))
          (indexed ''existingDirectories'' i @ '' must be a canonical relative directory''),
        require (map_of folded (lower (strOf v)) \<in> {None, Some (strOf v)})
          (''repository contains a case-colliding directory: '' @
           the (map_of folded (lower (strOf v))) @ '' and '' @ strOf v)]) (\<lambda>_.
     bindR (directoryLoop lower (Suc i) vs ((lower (strOf v), strOf v) # folded)) (\<lambda>rest.
     Inr (strOf v # rest)))"

definition validateExistingDirectories :: "(string \<Rightarrow> string) \<Rightarrow> jsval \<Rightarrow> string list res" where
  "validateExistingDirectories lower values =
     bindR (require (isArray values \<and> elems values \<noteq> [] \<and> length (elems values) \<le> 100000)
       ''existingDirectories must be a non-empty array'')
     (\<lambda>_. directoryLoop lower 0 (elems values) [])"

definition writerRoot :: "jsval \<Rightarrow> string \<Rightarrow> string" where
  "writerRoot template w =
     strOf (hd (elems (fld (fld (fld template ''writers'') w) ''allowedWriteRoots'')))"

definition validateTemplateWriter :: "jsval \<Rightarrow> string list \<Rightarrow> string \<Rightarrow> unit res" where
  "validateTemplateWriter template earlier w =
     (let writer = fld (fld template ''writers'') w; roots = fld writer ''allowedWriteRoots'';
          root = writerRoot template w in
      checks
       [assertPlainObject writer (''writer '' @ w),
        assertExactFields writer [''prompt'', ''allowedWriteRoots''] (''writer '' @ w),
        assertPromptPath (fld writer ''prompt'') (''writer '' @ w @ '' prompt''),
        require (isArray roots \<and> length (elems roots) = 1)
          (''writer '' @ w @ '' allowedWriteRoots must contain exactly one directory''),
        assertRepositoryDirectory (hd (elems roots)) (''writer '' @ w @ '' allowedWriteRoots[0]''),
        checks (map (\<lambda>other. require (\<not> directoriesOverlap (writerRoot template other) root)
          (''writer write roots overlap: '' @ other @ '':'' @ writerRoot template other @ '' and '' @ w @ '':'' @ root))
          earlier)])"

fun templateWritersLoop :: "jsval \<Rightarrow> string list \<Rightarrow> string list \<Rightarrow> unit res" where
  "templateWritersLoop template earlier [] = Inr ()"
| "templateWritersLoop template earlier (w # ws) =
     bindR (validateTemplateWriter template earlier w)
       (\<lambda>_. templateWritersLoop template (earlier @ [w]) ws)"

definition validateTemplateLimits :: "jsval \<Rightarrow> unit res" where
  "validateTemplateLimits template =
     (let timeouts = fld template ''timeouts''; changes = fld template ''changes'' in
      checks
       [assertPlainObject template ''pod template'',
        assertExactFields template templateFields ''pod template'',
        require (fld template ''version'' = JNum (NInt 1)) ''pod template version must be 1'',
        require (reName (toStr (fld template ''name'')))
          ''pod template name must use lowercase letters, numbers, and dashes'',
        assertInteger (fld template ''maxAttempts'') 1 10 ''maxAttempts'',
        assertPlainObject timeouts ''timeouts'',
        assertExactFields timeouts podTimeoutFields ''timeouts'',
        assertInteger (fld timeouts ''executionSeconds'') 10 1800 ''timeouts.executionSeconds'',
        assertInteger (fld timeouts ''attemptSeconds'') (intOf (fld timeouts ''executionSeconds'')) 7200
          ''timeouts.attemptSeconds'',
        assertInteger (fld timeouts ''workflowSeconds'') (intOf (fld timeouts ''attemptSeconds'')) 43200
          ''timeouts.workflowSeconds'',
        assertPlainObject changes ''changes'',
        assertExactFields changes [''maxFiles'', ''maxBytes''] ''changes'',
        assertInteger (fld changes ''maxFiles'') 1 5000 ''changes.maxFiles'',
        assertInteger (fld changes ''maxBytes'') 1024 104857600 ''changes.maxBytes''])"

definition validatePodTemplate :: "jsval \<Rightarrow> jsval res" where
  "validatePodTemplate template =
     bindR (checks
       [validateTemplateLimits template,
        assertPlainObject (fld template ''writers'') ''writers'',
        assertFixedKeys (fld template ''writers'') writerIds ''writers'',
        templateWritersLoop template [] writerIds,
        assertPlainObject (fld template ''prompts'') ''prompts'',
        assertFixedKeys (fld template ''prompts'') promptIds ''prompts'',
        checks (map (\<lambda>p. assertPromptPath (fld (fld template ''prompts'') p) (''prompt '' @ p)) promptIds),
        require (isString (fld template ''verificationProfile'')) ''verificationProfile must be a string'',
        require (strOf (fld template ''verificationProfile'') \<in> set verificationProfiles)
          (''unsupported verificationProfile: '' @ strOf (fld template ''verificationProfile''))])
     (\<lambda>_. Inr template)"

section \<open>Attempt plans\<close>

fun requirementLoop :: "nat \<Rightarrow> jsval list \<Rightarrow> string list \<Rightarrow> string list res" where
  "requirementLoop i [] ids = Inr ids"
| "requirementLoop i (v # vs) ids =
     bindR (checks
       [assertPlainObject v (indexed ''requirements'' i),
        assertExactFields v [''id'', ''text''] (indexed ''requirements'' i),
        assertTraceId (fld v ''id'') (indexed ''requirements'' i @ ''.id''),
        require (strOf (fld v ''id'') \<notin> set ids) (''duplicate requirement ID: '' @ strOf (fld v ''id'')),
        assertText (fld v ''text'') (indexed ''requirements'' i @ ''.text'') 4000])
     (\<lambda>_. requirementLoop (Suc i) vs (ids @ [strOf (fld v ''id'')]))"

text \<open>The criteria with the requirements each one links, in order.\<close>

fun acceptanceLoop ::
  "string list \<Rightarrow> nat \<Rightarrow> jsval list \<Rightarrow> (string \<times> string list) list \<Rightarrow> (string \<times> string list) list res" where
  "acceptanceLoop reqs i [] accs = Inr accs"
| "acceptanceLoop reqs i (v # vs) accs =
     bindR (checks
       [assertPlainObject v (indexed ''acceptanceCriteria'' i),
        assertExactFields v [''id'', ''requirementIds'', ''text''] (indexed ''acceptanceCriteria'' i),
        assertTraceId (fld v ''id'') (indexed ''acceptanceCriteria'' i @ ''.id''),
        require (strOf (fld v ''id'') \<notin> fst ` set accs) (''duplicate acceptance ID: '' @ strOf (fld v ''id''))]) (\<lambda>_.
     bindR (validateIdArray (fld v ''requirementIds'') reqs
       (indexed ''acceptanceCriteria'' i @ ''.requirementIds'') 50) (\<lambda>linked.
     bindR (assertText (fld v ''text'') (indexed ''acceptanceCriteria'' i @ ''.text'') 4000) (\<lambda>_.
     acceptanceLoop reqs (Suc i) vs (accs @ [(strOf (fld v ''id''), linked)]))))"

fun writePathLoop ::
  "string \<Rightarrow> string list \<Rightarrow> string \<Rightarrow> nat \<Rightarrow> jsval list \<Rightarrow> (string \<times> string) list \<Rightarrow> (string \<times> string) list res" where
  "writePathLoop root directories w i [] claimed = Inr claimed"
| "writePathLoop root directories w i (v # vs) claimed =
     bindR (checks
       [assertRepositoryDirectory v (''attempt writer '' @ w @ '' writePaths['' @ decNat i @ '']''),
        require (strOf v \<in> set directories)
          (''attempt writer '' @ w @ '' writePath is not an existing directory: '' @ strOf v),
        require (directoryContains (JStr root) (strOf v))
          (''attempt writer '' @ w @ '' writePath is outside its template-owned root: '' @ strOf v),
        checks (map (\<lambda>(other, path). require (\<not> directoriesOverlap path (strOf v))
          (''attempt writePaths overlap: '' @ other @ '':'' @ path @ '' and '' @ w @ '':'' @ strOf v)) claimed)])
     (\<lambda>_. writePathLoop root directories w (Suc i) vs (claimed @ [(w, strOf v)]))"

text \<open>What the writers of a plan have claimed so far: paths by writer, requirements and criteria.\<close>

record planCover =
  pc_claimed :: "(string \<times> string) list"
  pc_requirements :: "string list"
  pc_acceptance :: "string list"

definition validatePlanWriter ::
  "jsval \<Rightarrow> jsval \<Rightarrow> string list \<Rightarrow> string list \<Rightarrow> (string \<times> string list) list \<Rightarrow> string \<Rightarrow> planCover \<Rightarrow> planCover res" where
  "validatePlanWriter plan template directories reqs accs w cover =
     (let writer = fld (fld plan ''writers'') w; label = ''attempt writer '' @ w in
      bindR (checks
        [assertPlainObject writer label,
         assertExactFields writer planWriterFields label,
         assertText (fld writer ''brief'') (label @ '' brief'') 8000]) (\<lambda>_.
      bindR (validateIdArray (fld writer ''requirementIds'') reqs (label @ '' requirementIds'') 50) (\<lambda>writerReqs.
      bindR (validateIdArray (fld writer ''acceptanceIds'') (map fst accs) (label @ '' acceptanceIds'') 100) (\<lambda>writerAccs.
      bindR (checks
        [checks (map (\<lambda>a. checks (map (\<lambda>r. require (r \<in> set writerReqs)
            (label @ '' acceptance '' @ a @ '' requires '' @ r)) (the (map_of accs a)))) writerAccs),
         require (isArray (fld writer ''writePaths'') \<and> elems (fld writer ''writePaths'') \<noteq> [] \<and>
                  length (elems (fld writer ''writePaths'')) \<le> 20)
           (label @ '' writePaths must contain 1 to 20 directories''),
         require (writerRoot template w \<in> set directories)
           (''template write root does not exist: '' @ w @ '':'' @ writerRoot template w)]) (\<lambda>_.
      bindR (writePathLoop (writerRoot template w) directories w 0 (elems (fld writer ''writePaths''))
        (pc_claimed cover)) (\<lambda>claimed.
      Inr \<lparr>pc_claimed = claimed, pc_requirements = pc_requirements cover @ writerReqs,
           pc_acceptance = pc_acceptance cover @ writerAccs\<rparr>))))))"

fun planWritersLoop ::
  "jsval \<Rightarrow> jsval \<Rightarrow> string list \<Rightarrow> string list \<Rightarrow> (string \<times> string list) list \<Rightarrow> string list \<Rightarrow> planCover \<Rightarrow> planCover res" where
  "planWritersLoop plan template directories reqs accs [] cover = Inr cover"
| "planWritersLoop plan template directories reqs accs (w # ws) cover =
     bindR (validatePlanWriter plan template directories reqs accs w cover)
       (planWritersLoop plan template directories reqs accs ws)"

definition checkCoverage :: "string list \<Rightarrow> (string \<times> string list) list \<Rightarrow> planCover \<Rightarrow> unit res" where
  "checkCoverage reqs accs cover =
     checks
       [checks (map (\<lambda>r. checks
          [require (r \<in> set (concat (map snd accs))) (''requirement has no acceptance criterion: '' @ r),
           require (r \<in> set (pc_requirements cover)) (''requirement is not assigned to a writer: '' @ r)]) reqs),
        checks (map (\<lambda>a. require (a \<in> set (pc_acceptance cover))
          (''acceptance criterion is not assigned to a writer: '' @ a)) (map fst accs))]"

definition validatePlanHead :: "jsval \<Rightarrow> jsval \<Rightarrow> jsval \<Rightarrow> unit res" where
  "validatePlanHead plan template runBaseSha =
     checks
       [assertPlainObject plan ''attempt plan'',
        assertExactFields plan planFields ''attempt plan'',
        require (fld plan ''version'' = JNum (NInt 1)) ''attempt plan version must be 1'',
        assertInteger (fld plan ''attempt'') 1 (intOf (fld template ''maxAttempts'')) ''attempt'',
        assertGitSha (fld plan ''baseSha'') ''attempt plan baseSha'',
        require (fld plan ''baseSha'' = runBaseSha) ''attempt plan baseSha must equal the immutable run base'']"

definition validateAttemptPlan ::
  "(string \<Rightarrow> string) \<Rightarrow> jsval \<Rightarrow> jsval \<Rightarrow> jsval \<Rightarrow> jsval \<Rightarrow> jsval res" where
  "validateAttemptPlan lower plan template runBaseSha existingDirectories =
     bindR (validatePodTemplate template) (\<lambda>_.
     bindR (assertGitSha runBaseSha ''runBaseSha'') (\<lambda>_.
     bindR (validateExistingDirectories lower existingDirectories) (\<lambda>directories.
     bindR (validatePlanHead plan template runBaseSha) (\<lambda>_.
     bindR (require (isArray (fld plan ''requirements'') \<and> elems (fld plan ''requirements'') \<noteq> [] \<and>
                     length (elems (fld plan ''requirements'')) \<le> 50)
       ''requirements must contain 1 to 50 records'') (\<lambda>_.
     bindR (requirementLoop 0 (elems (fld plan ''requirements'')) []) (\<lambda>reqs.
     bindR (require (isArray (fld plan ''acceptanceCriteria'') \<and> elems (fld plan ''acceptanceCriteria'') \<noteq> [] \<and>
                     length (elems (fld plan ''acceptanceCriteria'')) \<le> 100)
       ''acceptanceCriteria must contain 1 to 100 records'') (\<lambda>_.
     bindR (acceptanceLoop reqs 0 (elems (fld plan ''acceptanceCriteria'')) []) (\<lambda>accs.
     bindR (checks
       [assertPlainObject (fld plan ''writers'') ''attempt writers'',
        assertFixedKeys (fld plan ''writers'') writerIds ''attempt writers'']) (\<lambda>_.
     bindR (planWritersLoop plan template directories reqs accs writerIds
       \<lparr>pc_claimed = [], pc_requirements = [], pc_acceptance = []\<rparr>) (\<lambda>cover.
     bindR (checkCoverage reqs accs cover) (\<lambda>_.
     Inr plan)))))))))))"

section \<open>Receipts\<close>

fun canonicalJson :: "jsval \<Rightarrow> string option"
  and canonicalElems :: "jsval list \<Rightarrow> string list"
  and canonicalProps :: "jsobj \<Rightarrow> (string \<times> string) list" where
  "canonicalJson (JArr xs) = Some (''['' @ joinWith '','' (canonicalElems xs) @ '']'')"
| "canonicalJson (JObj kvs) =
     Some (''{'' @ joinWith '','' (map (\<lambda>(k, t). jsonQuote k @ '':'' @ t) (sort_key fst (canonicalProps kvs))) @ ''}'')"
| "canonicalJson v = jsonVal None v"
| "canonicalElems [] = []"
| "canonicalElems (x # xs) = (case canonicalJson x of None \<Rightarrow> [] | Some t \<Rightarrow> t) # canonicalElems xs"
| "canonicalProps [] = []"
| "canonicalProps ((k, v) # kvs) =
     (k, case canonicalJson v of None \<Rightarrow> ''undefined'' | Some t \<Rightarrow> t) # canonicalProps kvs"

definition planWriter :: "jsval \<Rightarrow> string \<Rightarrow> jsval" where
  "planWriter plan w = fld (fld plan ''writers'') w"

definition knownWriter :: "jsval \<Rightarrow> string \<Rightarrow> unit res" where
  "knownWriter plan w =
     require (w \<in> set writerIds \<and> isPlainObject (planWriter plan w)) (''unknown attempt writer: '' @ w)"

definition receiptFits :: "jsval \<Rightarrow> string \<Rightarrow> unit res" where
  "receiptFits receipt label =
     require (byteLength (stringify receipt) \<le> maxPodReceiptBytes)
       (label @ '' must serialize to at most '' @ decNat maxPodReceiptBytes @ '' bytes'')"

definition receiptTexts :: "jsval \<Rightarrow> string \<Rightarrow> unit res" where
  "receiptTexts receipt label =
     checks
       [assertText (fld receipt ''what'') (label @ '' what'') 2000,
        assertText (fld receipt ''why'') (label @ '' why'') 2000,
        validateEvidence (fld receipt ''evidence'') (label @ '' evidence'')]"

definition receiptIds :: "jsval \<Rightarrow> jsval \<Rightarrow> string \<Rightarrow> unit res" where
  "receiptIds receipt writer label =
     checks
       [assertExactStringArray (fld receipt ''requirementIds'') (fld writer ''requirementIds'') (label @ '' requirementIds''),
        assertExactStringArray (fld receipt ''acceptanceIds'') (fld writer ''acceptanceIds'') (label @ '' acceptanceIds'')]"

definition validateWriterReceipt ::
  "jsval \<Rightarrow> jsval \<Rightarrow> jsval \<Rightarrow> string \<Rightarrow> jsval \<Rightarrow> jsval \<Rightarrow> jsval \<Rightarrow> jsval res" where
  "validateWriterReceipt receipt template plan writerId executionBaseSha deliveredInbox previousInboxCursor =
     bindR (validatePodTemplate template) (\<lambda>_.
     bindR (checks
       [assertPlainObject plan ''attempt plan'',
        knownWriter plan writerId,
        assertGitSha executionBaseSha ''executionBaseSha'',
        require (isArray deliveredInbox) ''deliveredInbox must be an array'',
        assertInteger previousInboxCursor 0 maxSafeInteger ''previousInboxCursor'',
        assertPlainObject receipt ''writer receipt'',
        assertExactFields receipt writerReceiptFields ''writer receipt'',
        require (fld receipt ''outcome'' \<in> {JStr ''completed'', JStr ''blocked'', JStr ''failed''})
          ''writer receipt outcome must be completed, blocked, or failed'',
        assertGitSha (fld receipt ''baseSha'') ''writer receipt baseSha'',
        require (fld receipt ''baseSha'' = executionBaseSha) ''writer receipt baseSha must equal the execution base'',
        receiptTexts receipt ''writer receipt'',
        receiptIds receipt (planWriter plan writerId) ''writer receipt'']) (\<lambda>_.
     bindR (validateDeliveredInbox deliveredInbox plan writerId (intOf previousInboxCursor)) (\<lambda>expectedCursor.
     bindR (checks
       [assertInteger (fld receipt ''inboxCursor'') 0 maxSafeInteger ''writer receipt inboxCursor'',
        require (fld receipt ''inboxCursor'' = JNum (NInt expectedCursor))
          (''writer receipt inboxCursor must equal delivered cursor '' @ decInt expectedCursor),
        (if fld receipt ''outcome'' = JStr ''blocked''
         then checks
           [require (isPlainObject (fld receipt ''dependencyRequest'')) ''blocked writer receipt requires dependencyRequest'',
            validateDependencyRequest (fld receipt ''dependencyRequest'') plan writerId]
         else require (fld receipt ''dependencyRequest'' = JNull)
           ''non-blocked writer receipt dependencyRequest must be null''),
        receiptFits receipt ''writer receipt'']) (\<lambda>_.
     Inr receipt))))"

definition validateCheckerReceipt ::
  "jsval \<Rightarrow> jsval \<Rightarrow> string \<Rightarrow> jsval \<Rightarrow> jsval \<Rightarrow> jsval \<Rightarrow> jsval \<Rightarrow> jsval \<Rightarrow> jsval res" where
  "validateCheckerReceipt receipt plan writerId baseSha resultSha diffSha256 deliveredInbox previousInboxCursor =
     bindR (checks
       [assertPlainObject plan ''attempt plan'',
        knownWriter plan writerId,
        assertGitSha baseSha ''checker baseSha'',
        assertGitSha resultSha ''checker resultSha'',
        require (isString diffSha256 \<and> reSha256 (strOf diffSha256))
          ''checker diffSha256 must be a lowercase SHA-256 digest'',
        assertInteger previousInboxCursor 0 maxSafeInteger ''previousInboxCursor'']) (\<lambda>_.
     bindR (validateDeliveredInbox deliveredInbox plan writerId (intOf previousInboxCursor)) (\<lambda>_.
     bindR (checks
       [assertPlainObject receipt ''checker receipt'',
        assertExactFields receipt checkerReceiptFields ''checker receipt'',
        require (fld receipt ''outcome'' \<in> {JStr ''passed'', JStr ''failed''})
          ''checker receipt outcome must be passed or failed'',
        assertGitSha (fld receipt ''baseSha'') ''checker receipt baseSha'',
        require (fld receipt ''baseSha'' = baseSha) ''checker receipt baseSha must equal the checked base'',
        assertGitSha (fld receipt ''resultSha'') ''checker receipt resultSha'',
        require (fld receipt ''resultSha'' = resultSha) ''checker receipt resultSha must equal the checked result'',
        require (fld receipt ''diffSha256'' = diffSha256) ''checker receipt diffSha256 must equal the checked diff'',
        receiptTexts receipt ''checker receipt'',
        receiptIds receipt (planWriter plan writerId) ''checker receipt'',
        require (fld receipt ''files'' = JArr []) ''checker receipt files must be empty'',
        require (canonicalJson (fld receipt ''deliveredInbox'') = canonicalJson deliveredInbox)
          ''checker receipt deliveredInbox must exactly match the controller-delivered slice'',
        receiptFits receipt ''checker receipt'']) (\<lambda>_.
     Inr receipt)))"

definition gateOutcomes :: "string \<Rightarrow> string list" where
  "gateOutcomes gateName =
     (if gateName = ''qa'' then [''passed'', ''test_defect'', ''product_nonconformance''] else [''passed'', ''failed''])"

text \<open>\<^verbatim>\<open>plan.requirements.map(item => item.id)\<close>\<close>

definition idsOf :: "jsval \<Rightarrow> jsval res" where
  "idsOf items =
     bindR (require (isArray items) typeError) (\<lambda>_.
     bindR (mapR (\<lambda>_ item. getProp item ''id'') 0 (elems items)) (\<lambda>ids. Inr (JArr ids)))"

definition validateConformanceReceipt :: "jsval \<Rightarrow> jsval \<Rightarrow> string \<Rightarrow> jsval \<Rightarrow> jsval res" where
  "validateConformanceReceipt receipt plan gateName candidateSha =
     bindR (checks
       [assertPlainObject plan ''attempt plan'',
        require (gateName \<in> {''qa'', ''testing''}) ''conformance gate must be qa or testing'',
        assertGitSha candidateSha ''conformance candidateSha'',
        assertPlainObject receipt ''conformance receipt'',
        assertExactFields receipt conformanceReceiptFields ''conformance receipt'',
        require (fld receipt ''gate'' = JStr gateName) (''conformance receipt gate must equal '' @ gateName),
        require (isString (fld receipt ''outcome'') \<and> strOf (fld receipt ''outcome'') \<in> set (gateOutcomes gateName))
          (if gateName = ''qa'' then ''QA outcome must be passed, test_defect, or product_nonconformance''
           else ''Testing outcome must be passed or failed''),
        assertGitSha (fld receipt ''candidateSha'') ''conformance receipt candidateSha'',
        require (fld receipt ''candidateSha'' = candidateSha)
          ''conformance receipt candidateSha must equal the checked candidate'',
        receiptTexts receipt ''conformance receipt'']) (\<lambda>_.
     bindR (idsOf (fld plan ''requirements'')) (\<lambda>requirementIds.
     bindR (idsOf (fld plan ''acceptanceCriteria'')) (\<lambda>acceptanceIds.
     bindR (checks
       [assertExactStringArray (fld receipt ''requirementIds'') requirementIds ''conformance receipt requirementIds'',
        assertExactStringArray (fld receipt ''acceptanceIds'') acceptanceIds ''conformance receipt acceptanceIds'',
        require (fld receipt ''files'' = JArr []) ''conformance receipt files must be empty'',
        receiptFits receipt ''conformance receipt'']) (\<lambda>_.
     Inr receipt))))"

section \<open>What an accepted plan guarantees\<close>

definition strings :: "jsval \<Rightarrow> string list" where
  "strings v = map strOf (elems v)"

definition recordIds :: "jsval \<Rightarrow> string list" where
  "recordIds v = map (\<lambda>item. strOf (fld item ''id'')) (elems v)"

definition writerReqs :: "jsval \<Rightarrow> string \<Rightarrow> string list" where
  "writerReqs plan w = strings (fld (planWriter plan w) ''requirementIds'')"

definition writerAccs :: "jsval \<Rightarrow> string \<Rightarrow> string list" where
  "writerAccs plan w = strings (fld (planWriter plan w) ''acceptanceIds'')"

definition writerPaths :: "jsval \<Rightarrow> string \<Rightarrow> string list" where
  "writerPaths plan w = strings (fld (planWriter plan w) ''writePaths'')"

definition criteria :: "jsval \<Rightarrow> (string \<times> string list) list" where
  "criteria plan = map (\<lambda>c. (strOf (fld c ''id''), strings (fld c ''requirementIds''))) (elems (fld plan ''acceptanceCriteria''))"

lemma assertTraceId_Inr [res_simps]: "assertTraceId v l = Inr () \<longleftrightarrow> isString v \<and> reTraceId (strOf v)"
  by (simp add: assertTraceId_def res_simps)

lemma assertGitSha_Inr [res_simps]: "assertGitSha v l = Inr () \<longleftrightarrow> isString v \<and> reGitSha (strOf v)"
  by (simp add: assertGitSha_def res_simps)

lemma idLoop_Inr:
  "idLoop known l i vs seen = Inr ids \<Longrightarrow> ids = seen @ map strOf vs \<and> set (map strOf vs) \<subseteq> set known"
  by (induction known l i vs seen rule: idLoop.induct) (auto simp: bindR_unit res_simps)

lemma idLoop_distinct: "idLoop known l i vs seen = Inr ids \<Longrightarrow> distinct seen \<Longrightarrow> distinct ids"
  by (induction known l i vs seen rule: idLoop.induct) (simp_all add: bindR_unit res_simps)

lemma validateIdArray_Inr:
  "validateIdArray v known l n = Inr ids \<Longrightarrow> ids = strings v \<and> distinct ids \<and> set ids \<subseteq> set known"
  using idLoop_Inr [of known l 0 "elems v" "[]" ids] idLoop_distinct [of known l 0 "elems v" "[]" ids]
  by (simp add: validateIdArray_def strings_def bindR_unit res_simps)

lemma requirementLoop_Inr:
  "requirementLoop i vs ids = Inr ids' \<Longrightarrow> ids' = ids @ map (\<lambda>v. strOf (fld v ''id'')) vs"
  by (induction i vs ids rule: requirementLoop.induct) (simp_all add: bindR_unit)

lemma requirementLoop_distinct: "requirementLoop i vs ids = Inr ids' \<Longrightarrow> distinct ids \<Longrightarrow> distinct ids'"
  by (induction i vs ids rule: requirementLoop.induct) (simp_all add: bindR_unit res_simps)

lemma acceptanceLoop_step:
  "acceptanceLoop reqs i (v # vs) accs = Inr accs' \<Longrightarrow>
   strOf (fld v ''id'') \<notin> fst ` set accs \<and>
   acceptanceLoop reqs (Suc i) vs (accs @ [(strOf (fld v ''id''), strings (fld v ''requirementIds''))]) = Inr accs'"
  by (auto simp: bindR_unit res_simps dest: validateIdArray_Inr)

lemma acceptanceLoop_Inr:
  "acceptanceLoop reqs i vs accs = Inr accs' \<Longrightarrow>
   accs' = accs @ map (\<lambda>c. (strOf (fld c ''id''), strings (fld c ''requirementIds''))) vs"
proof (induction vs arbitrary: i accs)
  case (Cons v vs)
  from Cons.IH acceptanceLoop_step [OF Cons.prems] show ?case by fastforce
qed simp

lemma acceptanceLoop_distinct:
  "acceptanceLoop reqs i vs accs = Inr accs' \<Longrightarrow> distinct (map fst accs) \<Longrightarrow> distinct (map fst accs')"
proof (induction vs arbitrary: i accs)
  case (Cons v vs)
  note next_step = acceptanceLoop_step [OF Cons.prems(1)]
  show ?case
    by (rule Cons.IH [OF conjunct2 [OF next_step]]) (use Cons.prems(2) next_step in simp)
qed simp

definition apart :: "string \<times> string \<Rightarrow> string \<times> string \<Rightarrow> bool" where
  "apart a b \<longleftrightarrow> \<not> directoriesOverlap (snd a) (snd b)"

lemma directoriesOverlap_sym: "directoriesOverlap a b \<longleftrightarrow> directoriesOverlap b a"
  by (auto simp: directoriesOverlap_def Let_def)

lemma writePathLoop_Inr:
  "writePathLoop root dirs w i vs claimed = Inr claimed' \<Longrightarrow> sorted_wrt apart claimed \<Longrightarrow>
   claimed' = claimed @ map (\<lambda>v. (w, strOf v)) vs \<and> sorted_wrt apart claimed' \<and>
   (\<forall>v \<in> set vs. strOf v \<in> set dirs \<and> directoryContains (JStr root) (strOf v) \<and> \<not> controlPath (strOf v)) \<and>
   vs = map JStr (map strOf vs)"
proof (induction root dirs w i vs claimed rule: writePathLoop.induct)
  case (2 root dirs w i v vs claimed)
  from "2.prems"(1) have here: "strOf v \<in> set dirs" "directoryContains (JStr root) (strOf v)" "\<not> controlPath (strOf v)"
      "okText 512 v"
    and free: "\<forall>c \<in> set claimed. \<not> directoriesOverlap (snd c) (strOf v)"
    and rest: "writePathLoop root dirs w (Suc i) vs (claimed @ [(w, strOf v)]) = Inr claimed'"
    by (auto simp: res_simps checks_all assertRepositoryDirectory_def assertPortable_def)
  have "sorted_wrt apart (claimed @ [(w, strOf v)])"
    using "2.prems"(2) free by (auto simp: sorted_wrt_append apart_def [of _ "(w, strOf v)"])
  from "2.IH" [OF rest this] here(1-3) okText_str [OF here(4)] show ?case by (elim conjE) simp
qed simp

lemma validatePlanWriter_Inr:
  assumes "validatePlanWriter plan template dirs reqs accs w cover = Inr cover'" and "sorted_wrt apart (pc_claimed cover)"
  shows "pc_claimed cover' = pc_claimed cover @ map (Pair w) (writerPaths plan w)"
    and "sorted_wrt apart (pc_claimed cover')"
    and "\<forall>p \<in> set (writerPaths plan w). p \<in> set dirs \<and> directoryContains (JStr (writerRoot template w)) p \<and> \<not> controlPath p"
    and "elems (fld (planWriter plan w) ''writePaths'') = map JStr (writerPaths plan w)"
    and "pc_requirements cover' = pc_requirements cover @ writerReqs plan w"
    and "pc_acceptance cover' = pc_acceptance cover @ writerAccs plan w"
    and "set (writerReqs plan w) \<subseteq> set reqs" and "set (writerAccs plan w) \<subseteq> fst ` set accs"
    and "\<forall>a \<in> set (writerAccs plan w). set (the (map_of accs a)) \<subseteq> set (writerReqs plan w)"
proof -
  from assms(1) obtain wr wa claimed where
    wr: "validateIdArray (fld (planWriter plan w) ''requirementIds'') reqs (''attempt writer '' @ w @ '' requirementIds'') 50 = Inr wr"
    and wa: "validateIdArray (fld (planWriter plan w) ''acceptanceIds'') (map fst accs) (''attempt writer '' @ w @ '' acceptanceIds'') 100 = Inr wa"
    and closed: "\<forall>a \<in> set wa. \<forall>r \<in> set (the (map_of accs a)). r \<in> set wr"
    and loop: "writePathLoop (writerRoot template w) dirs w 0 (elems (fld (planWriter plan w) ''writePaths'')) (pc_claimed cover) = Inr claimed"
    and cover': "cover' = \<lparr>pc_claimed = claimed, pc_requirements = pc_requirements cover @ wr, pc_acceptance = pc_acceptance cover @ wa\<rparr>"
    by (auto simp: validatePlanWriter_def Let_def res_simps planWriter_def checks_all)
  note ids = validateIdArray_Inr [OF wr] validateIdArray_Inr [OF wa]
  note paths = writePathLoop_Inr [OF loop assms(2)]
  show "pc_claimed cover' = pc_claimed cover @ map (Pair w) (writerPaths plan w)"
    "sorted_wrt apart (pc_claimed cover')"
    using paths by (auto simp: cover' writerPaths_def strings_def)
  show "\<forall>p \<in> set (writerPaths plan w). p \<in> set dirs \<and> directoryContains (JStr (writerRoot template w)) p \<and> \<not> controlPath p"
    using paths by (auto simp: writerPaths_def strings_def)
  show "elems (fld (planWriter plan w) ''writePaths'') = map JStr (writerPaths plan w)"
    using paths unfolding writerPaths_def strings_def by blast
  show "pc_requirements cover' = pc_requirements cover @ writerReqs plan w"
    "pc_acceptance cover' = pc_acceptance cover @ writerAccs plan w"
    "set (writerReqs plan w) \<subseteq> set reqs" "set (writerAccs plan w) \<subseteq> fst ` set accs"
    "\<forall>a \<in> set (writerAccs plan w). set (the (map_of accs a)) \<subseteq> set (writerReqs plan w)"
    using ids closed by (auto simp: cover' writerReqs_def writerAccs_def)
qed

lemma planWritersLoop_Inr:
  assumes "planWritersLoop plan template dirs reqs accs ws cover = Inr cover'" and "sorted_wrt apart (pc_claimed cover)"
  shows "pc_claimed cover' = pc_claimed cover @ concat (map (\<lambda>w. map (Pair w) (writerPaths plan w)) ws) \<and>
     sorted_wrt apart (pc_claimed cover') \<and>
     pc_requirements cover' = pc_requirements cover @ concat (map (writerReqs plan) ws) \<and>
     pc_acceptance cover' = pc_acceptance cover @ concat (map (writerAccs plan) ws) \<and>
     (\<forall>w \<in> set ws.
        (\<forall>p \<in> set (writerPaths plan w). p \<in> set dirs \<and> directoryContains (JStr (writerRoot template w)) p \<and> \<not> controlPath p) \<and>
        elems (fld (planWriter plan w) ''writePaths'') = map JStr (writerPaths plan w) \<and>
        set (writerReqs plan w) \<subseteq> set reqs \<and> set (writerAccs plan w) \<subseteq> fst ` set accs \<and>
        (\<forall>a \<in> set (writerAccs plan w). set (the (map_of accs a)) \<subseteq> set (writerReqs plan w)))"
  using assms
proof (induction ws arbitrary: cover)
  case (Cons w ws)
  from Cons.prems(1) obtain cover1 where here: "validatePlanWriter plan template dirs reqs accs w cover = Inr cover1"
    and rest: "planWritersLoop plan template dirs reqs accs ws cover1 = Inr cover'"
    by (auto simp: bindR_Inr)
  note now = validatePlanWriter_Inr [OF here Cons.prems(2)]
  show ?case
    using Cons.IH [OF rest now(2)] now(1,3-) by (elim conjE) simp
qed simp

text \<open>The validator's intermediate results on an accepted plan.\<close>

lemma validateAttemptPlan_Inr:
  assumes "validateAttemptPlan lower plan template sha dirs = Inr p"
  obtains directories cover where
    "p = plan" "validatePodTemplate template = Inr template" "fld plan ''baseSha'' = sha"
    "okInt 1 (intOf (fld template ''maxAttempts'')) (fld plan ''attempt'')"
    "validateExistingDirectories lower dirs = Inr directories"
    "requirementLoop 0 (elems (fld plan ''requirements'')) [] = Inr (recordIds (fld plan ''requirements''))"
    "acceptanceLoop (recordIds (fld plan ''requirements'')) 0 (elems (fld plan ''acceptanceCriteria'')) [] = Inr (criteria plan)"
    "planWritersLoop plan template directories (recordIds (fld plan ''requirements'')) (criteria plan) writerIds
       \<lparr>pc_claimed = [], pc_requirements = [], pc_acceptance = []\<rparr> = Inr cover"
    "checkCoverage (recordIds (fld plan ''requirements'')) (criteria plan) cover = Inr ()"
proof -
  from assms obtain t directories reqs accs cover where
    steps: "p = plan" "validatePodTemplate template = Inr t"
      "validateExistingDirectories lower dirs = Inr directories" "validatePlanHead plan template sha = Inr ()"
      "requirementLoop 0 (elems (fld plan ''requirements'')) [] = Inr reqs"
      "acceptanceLoop reqs 0 (elems (fld plan ''acceptanceCriteria'')) [] = Inr accs"
      "planWritersLoop plan template directories reqs accs writerIds
         \<lparr>pc_claimed = [], pc_requirements = [], pc_acceptance = []\<rparr> = Inr cover"
      "checkCoverage reqs accs cover = Inr ()"
    unfolding validateAttemptPlan_def bindR_Inr by (elim exE conjE) (simp add: bindR_Inr)
  have "reqs = recordIds (fld plan ''requirements'')" "accs = criteria plan"
    using requirementLoop_Inr [OF steps(5)] acceptanceLoop_Inr [OF steps(6)]
    by (simp_all add: recordIds_def criteria_def)
  moreover have "t = template" using steps(2) by (auto simp: validatePodTemplate_def bindR_unit)
  moreover have "fld plan ''baseSha'' = sha" "okInt 1 (intOf (fld template ''maxAttempts'')) (fld plan ''attempt'')"
    using steps(4) by (simp_all add: validatePlanHead_def res_simps)
  ultimately show thesis using that steps by simp
qed

lemma directoryLoop_Inr: "directoryLoop lower i vs folded = Inr ds \<Longrightarrow> map JStr ds = vs"
  by (induction lower i vs folded arbitrary: ds rule: directoryLoop.induct)
    (auto simp: bindR_unit res_simps dest: okText_str)

lemma existing_directories:
  "validateExistingDirectories lower dirs = Inr ds \<Longrightarrow> d \<in> set ds \<Longrightarrow> JStr d \<in> set (elems dirs)"
  by (auto simp: validateExistingDirectories_def bindR_unit dest!: directoryLoop_Inr)
    (metis image_eqI list.set_map)

definition ownsFile :: "string \<Rightarrow> string \<Rightarrow> bool" where
  "ownsFile path f \<longleftrightarrow> prefix (toLowerCase path @ ''/'') (toLowerCase f)"

lemma not_overlap_not_both:
  assumes "\<not> directoriesOverlap p q"
  shows "\<not> (ownsFile p f \<and> ownsFile q f)"
proof
  assume "ownsFile p f \<and> ownsFile q f"
  then have "prefix (toLowerCase p @ ''/'') (toLowerCase q @ ''/'') \<or> prefix (toLowerCase q @ ''/'') (toLowerCase p @ ''/'')"
    unfolding ownsFile_def using prefix_same_cases by blast
  with assms show False
    by (auto simp: directoriesOverlap_def Let_def)
qed

lemma apart_sym: "apart a b \<Longrightarrow> apart b a"
  unfolding apart_def by (subst directoriesOverlap_sym)

lemma sorted_wrt_symmetric:
  assumes "sorted_wrt P xs" and "\<And>a b. P a b \<Longrightarrow> P b a" and "x \<in> set xs" and "y \<in> set xs" and "x \<noteq> y"
  shows "P x y"
  using assms by (induction xs) auto

lemma plan_paths:
  assumes "validateAttemptPlan lower plan template sha dirs = Inr p" and "w \<in> set writerIds"
  shows "elems (fld (planWriter plan w) ''writePaths'') = map JStr (writerPaths plan w)"
    and "path \<in> set (writerPaths plan w) \<Longrightarrow>
      directoryContains (JStr (writerRoot template w)) path \<and> \<not> controlPath path \<and> JStr path \<in> set (elems dirs)"
    and "path \<in> set (writerPaths plan w) \<Longrightarrow> w' \<in> set writerIds \<Longrightarrow> path' \<in> set (writerPaths plan w') \<Longrightarrow>
      w' \<noteq> w \<Longrightarrow> \<not> directoriesOverlap path path'"
proof -
  obtain directories cover where dirs: "validateExistingDirectories lower dirs = Inr directories"
    and loop: "planWritersLoop plan template directories (recordIds (fld plan ''requirements'')) (criteria plan) writerIds
       \<lparr>pc_claimed = [], pc_requirements = [], pc_acceptance = []\<rparr> = Inr cover"
    using assms(1) by (rule validateAttemptPlan_Inr)
  have claimed: "pc_claimed cover = concat (map (\<lambda>w. map (Pair w) (writerPaths plan w)) writerIds)"
    and apart: "sorted_wrt apart (pc_claimed cover)"
    and strs: "elems (fld (planWriter plan w) ''writePaths'') = map JStr (writerPaths plan w)"
    and good: "\<forall>p \<in> set (writerPaths plan w). p \<in> set directories \<and>
      directoryContains (JStr (writerRoot template w)) p \<and> \<not> controlPath p"
    using planWritersLoop_Inr [OF loop, simplified] assms(2) by (elim conjE, simp)+
  show "elems (fld (planWriter plan w) ''writePaths'') = map JStr (writerPaths plan w)"
    by (rule strs)
  show "directoryContains (JStr (writerRoot template w)) path \<and> \<not> controlPath path \<and> JStr path \<in> set (elems dirs)"
    if "path \<in> set (writerPaths plan w)"
    using good that existing_directories [OF dirs] by simp
  show "\<not> directoriesOverlap path path'"
    if "path \<in> set (writerPaths plan w)" "w' \<in> set writerIds" "path' \<in> set (writerPaths plan w')" "w' \<noteq> w"
  proof -
    have "(w, path) \<in> set (pc_claimed cover)" "(w', path') \<in> set (pc_claimed cover)"
      using assms(2) that(1-3) by (auto simp: claimed)
    with that(4) have "apart (w, path) (w', path')"
      by (metis sorted_wrt_symmetric [OF apart apart_sym] prod.inject)
    then show ?thesis by (simp add: apart_def)
  qed
qed

text \<open>C17: In an accepted attempt plan no file of the repository belongs to two writers: two write paths of
  different writers never both contain a file, even on a file system that folds case.  Every write
  path lies in the writer's own root of the template, names an existing directory and no repository
  control directory.\<close>

theorem plan_ownership:
  assumes "validateAttemptPlan lower plan template sha dirs = Inr p"
    and "w \<in> set writerIds" and "path \<in> set (writerPaths plan w)"
  shows "directoryContains (JStr (writerRoot template w)) path \<and> \<not> controlPath path \<and>
         JStr path \<in> set (elems dirs) \<and>
         (\<forall>w' path' f. w' \<in> set writerIds \<and> path' \<in> set (writerPaths plan w') \<and> w' \<noteq> w \<longrightarrow>
            \<not> (ownsFile path f \<and> ownsFile path' f))"
  using plan_paths(2,3) [OF assms] not_overlap_not_both by blast

text \<open>C20: An accepted attempt plan is complete: its requirement and criterion IDs are distinct, every
  requirement has a criterion that links it and a writer that owns it, and every criterion is assigned
  to a writer that owns all the requirements it links.  The plan is bound to the run's base commit
  and to an attempt number within the template's limit, and is returned unchanged.\<close>

theorem plan_coverage:
  assumes "validateAttemptPlan lower plan template sha dirs = Inr p"
  shows "p = plan \<and> fld plan ''baseSha'' = sha \<and>
    okInt 1 (intOf (fld template ''maxAttempts'')) (fld plan ''attempt'') \<and>
    distinct (recordIds (fld plan ''requirements'')) \<and> distinct (map fst (criteria plan)) \<and>
    (\<forall>r \<in> set (recordIds (fld plan ''requirements'')).
       (\<exists>(a, linked) \<in> set (criteria plan). r \<in> set linked) \<and> (\<exists>w \<in> set writerIds. r \<in> set (writerReqs plan w))) \<and>
    (\<forall>(a, linked) \<in> set (criteria plan).
       \<exists>w \<in> set writerIds. a \<in> set (writerAccs plan w) \<and> set linked \<subseteq> set (writerReqs plan w))"
proof -
  obtain directories cover where facts: "p = plan" "fld plan ''baseSha'' = sha"
    "okInt 1 (intOf (fld template ''maxAttempts'')) (fld plan ''attempt'')"
    and reqs: "requirementLoop 0 (elems (fld plan ''requirements'')) [] = Inr (recordIds (fld plan ''requirements''))"
    and accs: "acceptanceLoop (recordIds (fld plan ''requirements'')) 0 (elems (fld plan ''acceptanceCriteria'')) [] = Inr (criteria plan)"
    and loop: "planWritersLoop plan template directories (recordIds (fld plan ''requirements'')) (criteria plan) writerIds
       \<lparr>pc_claimed = [], pc_requirements = [], pc_acceptance = []\<rparr> = Inr cover"
    and coverage: "checkCoverage (recordIds (fld plan ''requirements'')) (criteria plan) cover = Inr ()"
    using assms by (rule validateAttemptPlan_Inr)
  have ids: "distinct (recordIds (fld plan ''requirements''))" "distinct (map fst (criteria plan))"
    using requirementLoop_distinct [OF reqs] acceptanceLoop_distinct [OF accs] by simp_all
  have cover: "pc_requirements cover = concat (map (writerReqs plan) writerIds)"
    "pc_acceptance cover = concat (map (writerAccs plan) writerIds)"
    and closed: "\<forall>w \<in> set writerIds. \<forall>a \<in> set (writerAccs plan w).
       set (the (map_of (criteria plan) a)) \<subseteq> set (writerReqs plan w)"
    using planWritersLoop_Inr [OF loop] by simp_all
  have req: "(\<exists>(a, linked) \<in> set (criteria plan). r \<in> set linked) \<and> (\<exists>w \<in> set writerIds. r \<in> set (writerReqs plan w))"
    if "r \<in> set (recordIds (fld plan ''requirements''))" for r
    using coverage that by (auto simp: checkCoverage_def checks_all res_simps cover split_beta)
  have acc: "\<exists>w \<in> set writerIds. a \<in> set (writerAccs plan w) \<and> set linked \<subseteq> set (writerReqs plan w)"
    if "(a, linked) \<in> set (criteria plan)" for a linked
  proof -
    have "a \<in> set (pc_acceptance cover)"
      using coverage that by (force simp: checkCoverage_def checks_all res_simps)
    then obtain w where "w \<in> set writerIds" "a \<in> set (writerAccs plan w)"
      by (auto simp: cover)
    then show ?thesis using closed map_of_is_SomeI [OF ids(2) that] by fastforce
  qed
  show ?thesis using facts ids req acc by blast
qed

section \<open>What accepted receipts guarantee\<close>

lemma inboxLoop_Inr:
  "inboxLoop plan owner cursor i entries = Inr c \<Longrightarrow>
   c = cursor + int (length entries) \<and>
   (\<forall>k < length entries. fld (entries ! k) ''sequence'' = JNum (NInt (cursor + 1 + int k)) \<and>
      fld (entries ! k) ''owner'' = JStr owner)"
proof (induction entries arbitrary: cursor i)
  case (Cons entry entries)
  from Cons.prems have here: "fld entry ''sequence'' = JNum (NInt (cursor + 1))" "fld entry ''owner'' = JStr owner"
    and rest: "inboxLoop plan owner (cursor + 1) (Suc i) entries = Inr c"
    by (auto simp: bindR_unit validateInboxEntry_def Let_def res_simps okInt_def)
  from Cons.IH [OF rest] here show ?case
    by (auto simp: nth_Cons split: nat.splits)
qed simp

lemma validateDeliveredInbox_Inr:
  "validateDeliveredInbox entries plan owner cursor = Inr c \<Longrightarrow>
   c = cursor + int (length (elems entries)) \<and> length (elems entries) \<le> 20 \<and>
   (\<forall>k < length (elems entries). fld (elems entries ! k) ''sequence'' = JNum (NInt (cursor + 1 + int k)) \<and>
      fld (elems entries ! k) ''owner'' = JStr owner)"
  using inboxLoop_Inr [of plan owner cursor 0 "elems entries" c]
  by (simp add: validateDeliveredInbox_def bindR_unit res_simps)

lemma validateDependencyRequest_Inr:
  assumes "validateDependencyRequest request plan w = Inr ()"
  shows "fld request ''owner'' = JStr (otherEngineer w)" and "prefix ''engineering-'' w"
    and "fld request ''path'' = JStr (strOf (fld request ''path''))"
    and "\<exists>v \<in> set (elems (fld (planWriter plan (otherEngineer w)) ''writePaths'')).
           directoryContains v (strOf (fld request ''path''))"
    and "fld request ''ownerBriefSha256'' = JStr (sha256 (strOf (fld (planWriter plan (otherEngineer w)) ''brief'')))"
proof -
  from assms show "fld request ''owner'' = JStr (otherEngineer w)" "prefix ''engineering-'' w"
    by (simp_all add: validateDependencyRequest_def bindR_unit bindR_Inr res_simps)
  from assms have "okText 512 (fld request ''path'')"
    by (auto simp: validateDependencyRequest_def bindR_unit bindR_Inr res_simps assertRepositoryFile_def)
  then show "fld request ''path'' = JStr (strOf (fld request ''path''))"
    by (rule okText_str)
  from assms show "\<exists>v \<in> set (elems (fld (planWriter plan (otherEngineer w)) ''writePaths'')).
           directoryContains v (strOf (fld request ''path''))"
    by (auto simp: validateDependencyRequest_def bindR_unit bindR_Inr res_simps getProp_def planWriter_def list_ex_iff
        split: if_splits)
  from assms show "fld request ''ownerBriefSha256'' = JStr (sha256 (strOf (fld (planWriter plan (otherEngineer w)) ''brief'')))"
    by (auto simp: validateDependencyRequest_def bindR_unit bindR_Inr res_simps getProp_def planWriter_def
        split: if_splits)
qed

lemma list_all2_strictEq: "list_all2 strictEq xs ys \<Longrightarrow> xs = ys"
proof -
  have "strictEq a b \<Longrightarrow> a = b" for a b
    by (cases "(a, b)" rule: strictEq.cases) auto
  then show "list_all2 strictEq xs ys \<Longrightarrow> xs = ys"
    by (simp add: list_all2_conv_all_nth nth_equalityI)
qed

lemma assertExactStringArray_Inr:
  "assertExactStringArray a b l = Inr () \<Longrightarrow> a = b"
  by (auto simp: assertExactStringArray_def res_simps isArray_iff dest: list_all2_strictEq)

text \<open>C22: An accepted writer receipt is bound to its execution: it is returned unchanged, names the
  execution's base commit and exactly the plan's requirement and criterion IDs of that writer, and its
  inbox cursor is the previous cursor advanced by the number of delivered entries, whose sequence
  numbers are consecutive and all addressed to that writer.  It carries a dependency request exactly
  when it is blocked.\<close>

theorem writer_receipt_binds:
  assumes "validateWriterReceipt receipt template plan w base inbox previous = Inr r"
  shows "r = receipt \<and> fld r ''baseSha'' = base \<and>
    fld r ''requirementIds'' = fld (planWriter plan w) ''requirementIds'' \<and>
    fld r ''acceptanceIds'' = fld (planWriter plan w) ''acceptanceIds'' \<and>
    fld r ''inboxCursor'' = JNum (NInt (intOf previous + int (length (elems inbox)))) \<and>
    (\<forall>k < length (elems inbox). fld (elems inbox ! k) ''sequence'' = JNum (NInt (intOf previous + 1 + int k)) \<and>
       fld (elems inbox ! k) ''owner'' = JStr w) \<and>
    (fld r ''dependencyRequest'' \<noteq> JNull \<longleftrightarrow> fld r ''outcome'' = JStr ''blocked'') \<and>
    byteLength (stringify r) \<le> maxPodReceiptBytes"
proof -
  from assms obtain c where r: "r = receipt" "fld receipt ''baseSha'' = base"
    and ids: "receiptIds receipt (planWriter plan w) ''writer receipt'' = Inr ()"
    and inbox: "validateDeliveredInbox inbox plan w (intOf previous) = Inr c"
    and cursor: "fld receipt ''inboxCursor'' = JNum (NInt c)"
    and dep: "if fld receipt ''outcome'' = JStr ''blocked'' then isPlainObject (fld receipt ''dependencyRequest'')
         else fld receipt ''dependencyRequest'' = JNull"
    and fits: "byteLength (stringify receipt) \<le> maxPodReceiptBytes"
    by (auto simp: validateWriterReceipt_def bindR_unit bindR_Inr res_simps receiptFits_def split: if_splits)
  have "fld receipt ''requirementIds'' = fld (planWriter plan w) ''requirementIds''"
    "fld receipt ''acceptanceIds'' = fld (planWriter plan w) ''acceptanceIds''"
    using ids by (auto simp: receiptIds_def res_simps dest!: assertExactStringArray_Inr)
  with r validateDeliveredInbox_Inr [OF inbox] cursor dep fits show ?thesis
    by (auto split: if_splits)
qed

lemma both_contain_overlap:
  assumes "directoryContains (JStr p) f" and "directoryContains (JStr q) f"
  shows "directoriesOverlap p q"
proof -
  have fold: "prefix (toLowerCase a @ ''/'') (toLowerCase b)" if "prefix (a @ ''/'') b" for a b
  proof -
    have slash: "toLowerCase ''/'' = ''/''" by code_simp
    from that obtain c where "b = (a @ ''/'') @ c" by (auto simp: prefix_def)
    then have "toLowerCase b = (toLowerCase a @ toLowerCase ''/'') @ toLowerCase c"
      by (simp add: toLowerCase_def)
    then show ?thesis unfolding slash by (auto simp: prefix_def)
  qed
  have "p = q \<or> prefix (p @ ''/'') q \<or> prefix (q @ ''/'') p"
    using assms prefix_same_cases [of "p @ ''/''" f "q @ ''/''"]
    by (auto simp: directoryContains_def)
  then show ?thesis
    by (auto simp: directoriesOverlap_def Let_def dest: fold)
qed

text \<open>C21: A blocked writer can ask only for what it does not own: under an accepted plan, an accepted
  dependency request of a writer comes from one of the two engineering slots, addresses the other one,
  names a file inside that slot's write paths and outside its own, and carries the digest of the
  owner's brief in that plan.\<close>

theorem dependency_request_foreign:
  assumes "validateAttemptPlan lower plan template sha dirs = Inr p"
    and "w \<in> set writerIds" and "validateDependencyRequest request plan w = Inr ()"
  shows "\<exists>path. w \<in> {''engineering-a'', ''engineering-b''} \<and>
    fld request ''owner'' = JStr (otherEngineer w) \<and> fld request ''path'' = JStr path \<and>
    (\<exists>q \<in> set (writerPaths plan (otherEngineer w)). directoryContains (JStr q) path) \<and>
    \<not> (\<exists>q \<in> set (writerPaths plan w). directoryContains (JStr q) path) \<and>
    fld request ''ownerBriefSha256'' = JStr (sha256 (strOf (fld (planWriter plan (otherEngineer w)) ''brief'')))"
proof -
  note facts = validateDependencyRequest_Inr [OF assms(3)]
  have "\<not> prefix ''engineering-'' ''qa-tests''" by code_simp
  then have w: "w \<in> {''engineering-a'', ''engineering-b''}"
    using assms(2) facts(2) unfolding writerIds_def set_simps by (elim insertE) simp_all
  then have other: "otherEngineer w \<in> set writerIds" "otherEngineer w \<noteq> w"
    unfolding otherEngineer_def writerIds_def by (elim insertE; simp)+
  obtain q where q: "q \<in> set (writerPaths plan (otherEngineer w))" "directoryContains (JStr q) (strOf (fld request ''path''))"
    using facts(4) plan_paths(1) [OF assms(1) other(1)] by auto
  have "\<not> directoryContains (JStr q') (strOf (fld request ''path''))" if "q' \<in> set (writerPaths plan w)" for q'
    using plan_paths(3) [OF assms(1,2) that other(1) q(1) other(2)] both_contain_overlap [OF _ q(2)]
    by (rule contrapos_nn)
  then have none: "\<not> (\<exists>q' \<in> set (writerPaths plan w). directoryContains (JStr q') (strOf (fld request ''path'')))"
    by simp
  show ?thesis
    by (intro exI [of _ "strOf (fld request ''path'')"] conjI w facts(1,3,5) none bexI [OF _ q(1)] q(2))
qed

text \<open>C23: An accepted checker receipt is bound to what was checked: it is returned unchanged, names the
  checked base, result and diff digest and the plan's IDs of that writer, claims no file of its own, and
  repeats the delivered inbox slice.\<close>

theorem checker_receipt_binds:
  assumes "validateCheckerReceipt receipt plan w base result diff inbox previous = Inr r"
  shows "r = receipt \<and> fld r ''baseSha'' = base \<and> fld r ''resultSha'' = result \<and> fld r ''diffSha256'' = diff \<and>
    fld r ''outcome'' \<in> {JStr ''passed'', JStr ''failed''} \<and>
    fld r ''requirementIds'' = fld (planWriter plan w) ''requirementIds'' \<and>
    fld r ''acceptanceIds'' = fld (planWriter plan w) ''acceptanceIds'' \<and> fld r ''files'' = JArr [] \<and>
    canonicalJson (fld r ''deliveredInbox'') = canonicalJson inbox"
proof -
  from assms have "r = receipt" "fld receipt ''baseSha'' = base" "fld receipt ''resultSha'' = result"
    "fld receipt ''diffSha256'' = diff" "fld receipt ''outcome'' \<in> {JStr ''passed'', JStr ''failed''}"
    "receiptIds receipt (planWriter plan w) ''checker receipt'' = Inr ()" "fld receipt ''files'' = JArr []"
    "canonicalJson (fld receipt ''deliveredInbox'') = canonicalJson inbox"
    by (auto simp: validateCheckerReceipt_def bindR_unit bindR_Inr res_simps)
  then show ?thesis
    by (auto simp: receiptIds_def res_simps dest!: assertExactStringArray_Inr)
qed

lemma canonicalProps_map:
  "canonicalProps kvs = map (\<lambda>(k, v). (k, case canonicalJson v of None \<Rightarrow> ''undefined'' | Some t \<Rightarrow> t)) kvs"
  by (induction kvs) auto


section \<open>A concrete plan\<close>

definition sampleWriter :: "string \<Rightarrow> string \<Rightarrow> jsval" where
  "sampleWriter prompt root = JObj [(''prompt'', JStr prompt), (''allowedWriteRoots'', JArr [JStr root])]"

definition sampleTemplate :: jsval where
  "sampleTemplate = JObj
     [(''version'', JNum (NInt 1)), (''name'', JStr ''pod''), (''maxAttempts'', JNum (NInt 2)),
      (''timeouts'', JObj [(''executionSeconds'', JNum (NInt 60)), (''attemptSeconds'', JNum (NInt 600)),
         (''workflowSeconds'', JNum (NInt 1200))]),
      (''changes'', JObj [(''maxFiles'', JNum (NInt 10)), (''maxBytes'', JNum (NInt 2048))]),
      (''writers'', JObj [(''engineering-a'', sampleWriter ''a.md'' ''src''), (''engineering-b'', sampleWriter ''b.md'' ''lib''),
         (''qa-tests'', sampleWriter ''t.md'' ''test'')]),
      (''prompts'', JObj [(''planner'', JStr ''p.md''), (''checker'', JStr ''c.md''), (''qa'', JStr ''q.md''),
         (''testing'', JStr ''v.md'')]),
      (''verificationProfile'', JStr ''bimo-repo-v1'')]"

definition samplePlanWriter :: "string \<Rightarrow> jsval" where
  "samplePlanWriter path = JObj [(''brief'', JStr ''do it''), (''requirementIds'', JArr [JStr ''R-1'']),
     (''acceptanceIds'', JArr [JStr ''A-1'']), (''writePaths'', JArr [JStr path])]"

definition sampleSha :: jsval where
  "sampleSha = JStr (replicate 40 (CHR ''a''))"

definition samplePlan :: jsval where
  "samplePlan = JObj
     [(''version'', JNum (NInt 1)), (''attempt'', JNum (NInt 1)), (''baseSha'', sampleSha),
      (''requirements'', JArr [JObj [(''id'', JStr ''R-1''), (''text'', JStr ''works'')]]),
      (''acceptanceCriteria'', JArr [JObj [(''id'', JStr ''A-1''), (''requirementIds'', JArr [JStr ''R-1'']), (''text'', JStr ''ok'')]]),
      (''writers'', JObj [(''engineering-a'', samplePlanWriter ''src''), (''engineering-b'', samplePlanWriter ''lib''),
         (''qa-tests'', samplePlanWriter ''test'')])]"

definition sampleDirs :: jsval where
  "sampleDirs = JArr [JStr ''src'', JStr ''lib'', JStr ''test'']"

definition sampleWriterReceipt :: "string \<Rightarrow> jsval \<Rightarrow> jsval" where
  "sampleWriterReceipt outcome request = JObj
     [(''outcome'', JStr outcome), (''baseSha'', sampleSha), (''what'', JStr ''x''), (''why'', JStr ''y''),
      (''evidence'', JArr [JStr ''z'']), (''requirementIds'', JArr [JStr ''R-1'']), (''acceptanceIds'', JArr [JStr ''A-1'']),
      (''inboxCursor'', JNum (NInt 0)), (''dependencyRequest'', request)]"

definition sampleCheckerReceipt :: jsval where
  "sampleCheckerReceipt = JObj
     [(''outcome'', JStr ''passed''), (''baseSha'', sampleSha), (''resultSha'', sampleSha),
      (''diffSha256'', JStr (replicate 64 (CHR ''b''))), (''what'', JStr ''x''), (''why'', JStr ''y''),
      (''evidence'', JArr [JStr ''z'']), (''requirementIds'', JArr [JStr ''R-1'']), (''acceptanceIds'', JArr [JStr ''A-1'']),
      (''files'', JArr []), (''deliveredInbox'', JArr [])]"

lemma sample_plan_accepted: "validateAttemptPlan toLowerCase samplePlan sampleTemplate sampleSha sampleDirs = Inr samplePlan"
  by code_simp

lemma plan_ownership_witness:
  "writerPaths samplePlan ''engineering-a'' = [''src''] \<and> writerPaths samplePlan ''qa-tests'' = [''test''] \<and>
   \<not> (ownsFile ''src'' ''src/a.mjs'' \<and> ownsFile ''test'' ''src/a.mjs'')"
proof -
  have paths: "writerPaths samplePlan ''engineering-a'' = [''src'']" "writerPaths samplePlan ''qa-tests'' = [''test'']"
    by code_simp+
  have ids: "''engineering-a'' \<in> set writerIds" "''qa-tests'' \<in> set writerIds" "''qa-tests'' \<noteq> ''engineering-a''"
    by code_simp+
  have "''src'' \<in> set (writerPaths samplePlan ''engineering-a'')" "''test'' \<in> set (writerPaths samplePlan ''qa-tests'')"
    unfolding paths by simp_all
  then show ?thesis
    using paths plan_ownership [OF sample_plan_accepted ids(1)] ids(2,3) by blast
qed

lemma plan_coverage_witness:
  "recordIds (fld samplePlan ''requirements'') = [''R-1''] \<and> (\<exists>w \<in> set writerIds. ''R-1'' \<in> set (writerReqs samplePlan w))"
proof -
  have ids: "recordIds (fld samplePlan ''requirements'') = [''R-1'']" by code_simp
  then show ?thesis using plan_coverage [OF sample_plan_accepted] by simp
qed

lemma writer_receipt_binds_witness:
  "fld (sampleWriterReceipt ''completed'' JNull) ''baseSha'' = sampleSha \<and>
   byteLength (stringify (sampleWriterReceipt ''completed'' JNull)) \<le> maxPodReceiptBytes"
proof -
  have "validateWriterReceipt (sampleWriterReceipt ''completed'' JNull) sampleTemplate samplePlan ''engineering-a''
      sampleSha (JArr []) (JNum (NInt 0)) = Inr (sampleWriterReceipt ''completed'' JNull)"
    by code_simp
  from writer_receipt_binds [OF this] show ?thesis by blast
qed

lemma checker_receipt_binds_witness:
  "fld sampleCheckerReceipt ''resultSha'' = sampleSha \<and> fld sampleCheckerReceipt ''files'' = JArr []"
proof -
  have "validateCheckerReceipt sampleCheckerReceipt samplePlan ''engineering-a'' sampleSha sampleSha
      (JStr (replicate 64 (CHR ''b''))) (JArr []) (JNum (NInt 0)) = Inr sampleCheckerReceipt"
    by code_simp
  from checker_receipt_binds [OF this] show ?thesis by blast
qed

definition sampleRequest :: "string \<Rightarrow> jsval" where
  "sampleRequest digest = JObj
     [(''owner'', JStr ''engineering-b''), (''path'', JStr ''lib/a.mjs''), (''requirementIds'', JArr [JStr ''R-1'']),
      (''acceptanceIds'', JArr [JStr ''A-1'']), (''ownerBriefSha256'', JStr digest), (''need'', JStr ''n''), (''why'', JStr ''w'')]"

lemma dependency_request_foreign_witness:
  "\<not> (\<exists>q \<in> set (writerPaths samplePlan ''engineering-a''). directoryContains (JStr q) ''lib/a.mjs'')"
proof -
  let ?h = "sha256 ''do it''"
  have "validateDependencyRequest (sampleRequest h) samplePlan ''engineering-a'' = Inr ()"
    if "reSha256 h" "h = ?h" for h
    unfolding validateDependencyRequest_def
  proof (rule bindR_check, goal_cases)
    case 1
    show ?case by code_simp
  next
    case 2
    have owner: "getProp (fld samplePlan ''writers'') (otherEngineer ''engineering-a'') = Inr (samplePlanWriter ''lib'')"
      by code_simp
    have brief: "fld (samplePlanWriter ''lib'') ''brief'' = JStr ''do it''" by code_simp
    have digest: "fld (sampleRequest h) ''ownerBriefSha256'' = JStr h" by (simp add: sampleRequest_def)
    show ?case
      by (rule bindR_step [where x = "fld samplePlan ''writers''"], code_simp,
          rule bindR_step [where x = "samplePlanWriter ''src''"], code_simp, rule bindR_step [OF owner],
          rule bindR_check, code_simp, rule bindR_step [where x = "JArr [JStr ''lib'']"], code_simp,
          rule bindR_check, code_simp, rule bindR_step [where x = "JArr [JStr ''R-1'']"], code_simp,
          unfold checks_Cons checks_Nil require_Inr digest brief, intro conjI, code_simp, code_simp, code_simp,
          use that in simp, use that in simp, simp, use that in simp, code_simp, code_simp, simp)
  qed
  moreover have "''engineering-a'' \<in> set writerIds" by code_simp
  ultimately show ?thesis
    using dependency_request_foreign [OF sample_plan_accepted, of "''engineering-a''" "sampleRequest ?h"] sha256_hex
    by (auto simp: sampleRequest_def reSha256_def)
qed


end
