(* ===== verification/Call_Log.thy ===== *)
theory Call_Log
  imports Prelude
begin

text \<open>
  Reasoning about the calls a computation makes.  A state has a log \<open>tr\<close> that only grows; \<open>only\<close> bounds
  the kind of calls on every outcome, and \<open>does\<close> gives, for a computation that keeps a state
  predicate, what is known of its result and of the calls it made when it returns.
\<close>

named_theorems only_rules \<open>which calls a computation may make\<close>
named_theorems does_rules \<open>what a computation has done when it returns\<close>

section \<open>Which calls\<close>

definition only :: "('s \<Rightarrow> 'c list) \<Rightarrow> ('c \<Rightarrow> bool) \<Rightarrow> ('s, 'a) io \<Rightarrow> bool" where
  "only tr C m \<longleftrightarrow> (\<forall>s r s'. m s = (r, s') \<longrightarrow> (\<exists>cs. tr s' = tr s @ cs \<and> list_all C cs))"

lemma onlyD: "only tr C m \<Longrightarrow> m s = (r, s') \<Longrightarrow> \<exists>cs. tr s' = tr s @ cs \<and> list_all C cs"
  unfolding only_def by blast

lemma only_bindE [only_rules]:
  assumes "only tr C m" and "\<And>x. only tr C (f x)"
  shows "only tr C (bindE m f)"
  unfolding only_def
proof (intro allI impI)
  fix s r s' assume "bindE m f s = (r, s')"
  then show "\<exists>cs. tr s' = tr s @ cs \<and> list_all C cs"
  proof (cases rule: bindE_elim)
    case (throw e)
    then show ?thesis using onlyD [OF assms(1)] by blast
  next
    case (continue x t)
    then obtain cs ds where "tr t = tr s @ cs" "list_all C cs" "tr s' = tr t @ ds" "list_all C ds"
      using onlyD [OF assms(1)] onlyD [OF assms(2)] by metis
    then show ?thesis by (intro exI [of _ "cs @ ds"]) simp
  qed
qed

lemma only_thenE [only_rules]: "only tr C m \<Longrightarrow> only tr C k \<Longrightarrow> only tr C (thenE m k)"
  unfolding thenE_def by (rule only_bindE)

lemma only_catchE [only_rules]:
  assumes "only tr C m" and "\<And>e. only tr C (h e)"
  shows "only tr C (catchE m h)"
  unfolding only_def
proof (intro allI impI)
  fix s r s' assume "catchE m h s = (r, s')"
  then show "\<exists>cs. tr s' = tr s @ cs \<and> list_all C cs"
  proof (cases rule: catchE_elim)
    case (return x)
    then show ?thesis using onlyD [OF assms(1)] by blast
  next
    case (handle e t)
    then obtain cs ds where "tr t = tr s @ cs" "list_all C cs" "tr s' = tr t @ ds" "list_all C ds"
      using onlyD [OF assms(1)] onlyD [OF assms(2)] by metis
    then show ?thesis by (intro exI [of _ "cs @ ds"]) simp
  qed
qed

lemma only_basic [only_rules]:
  "only tr C (ret x)" "only tr C (throwE e)" "only tr C (liftR r)" "only tr C (getS f)"
  by (simp_all add: only_def)

lemma only_modS [only_rules]: "(\<And>s. tr (f s) = tr s) \<Longrightarrow> only tr C (modS f)"
  by (simp add: only_def)

lemma only_if [only_rules]: "(b \<Longrightarrow> only tr C m) \<Longrightarrow> (\<not> b \<Longrightarrow> only tr C n) \<Longrightarrow> only tr C (if b then m else n)"
  by simp

lemma only_sum [only_rules]:
  "(\<And>x. r = Inl x \<Longrightarrow> only tr C (f x)) \<Longrightarrow> (\<And>y. r = Inr y \<Longrightarrow> only tr C (g y)) \<Longrightarrow>
   only tr C (case r of Inl x \<Rightarrow> f x | Inr y \<Rightarrow> g y)"
  by (cases r) auto

lemma only_option [only_rules]:
  "(r = None \<Longrightarrow> only tr C m) \<Longrightarrow> (\<And>y. r = Some y \<Longrightarrow> only tr C (g y)) \<Longrightarrow>
   only tr C (case r of None \<Rightarrow> m | Some y \<Rightarrow> g y)"
  by (cases r) auto

lemma only_prod [only_rules]: "(\<And>x y. r = (x, y) \<Longrightarrow> only tr C (f x y)) \<Longrightarrow> only tr C (case r of (x, y) \<Rightarrow> f x y)"
  by (cases r) auto

lemma only_weaken: "only tr C m \<Longrightarrow> (\<And>c. C c \<Longrightarrow> D c) \<Longrightarrow> only tr D m"
  unfolding only_def by (meson list.pred_mono_strong)

section \<open>What has been done\<close>

definition does :: "('s \<Rightarrow> 'c list) \<Rightarrow> ('s \<Rightarrow> bool) \<Rightarrow> ('s, 'a) io \<Rightarrow> ('a \<Rightarrow> 'c list \<Rightarrow> bool) \<Rightarrow> bool" where
  "does tr P m R \<longleftrightarrow>
     (\<forall>s r s'. P s \<longrightarrow> m s = (r, s') \<longrightarrow> P s' \<and> (\<exists>cs. tr s' = tr s @ cs \<and> (\<forall>x. r = Inr x \<longrightarrow> R x cs)))"

lemma doesI:
  assumes "\<And>s r s'. P s \<Longrightarrow> m s = (r, s') \<Longrightarrow> P s' \<and> (\<exists>cs. tr s' = tr s @ cs \<and> (\<forall>x. r = Inr x \<longrightarrow> R x cs))"
  shows "does tr P m R"
  unfolding does_def
proof (intro allI impI)
  fix s r s' assume "P s" and "m s = (r, s')"
  then show "P s' \<and> (\<exists>cs. tr s' = tr s @ cs \<and> (\<forall>x. r = Inr x \<longrightarrow> R x cs))" by (rule assms)
qed

lemma doesD:
  assumes "does tr P m R" and "m s = (r, s')" and "P s"
  shows "P s' \<and> (\<exists>cs. tr s' = tr s @ cs \<and> (\<forall>x. r = Inr x \<longrightarrow> R x cs))"
  by (rule mp [OF mp [OF spec [OF spec [OF spec [OF assms(1) [unfolded does_def]]]] assms(3)] assms(2)])

lemma does_bindE:
  assumes "does tr P m Q" and "\<And>x cs. Q x cs \<Longrightarrow> does tr P (f x) (\<lambda>y ds. R y (cs @ ds))"
  shows "does tr P (bindE m f) R"
proof (rule doesI)
  fix s r s' assume P: "P s" and "bindE m f s = (r, s')"
  from this(2) show "P s' \<and> (\<exists>cs. tr s' = tr s @ cs \<and> (\<forall>x. r = Inr x \<longrightarrow> R x cs))"
  proof (cases rule: bindE_elim)
    case (throw e)
    then show ?thesis using doesD [OF assms(1) _ P] by blast
  next
    case (continue x t)
    obtain cs where cs: "P t" "tr t = tr s @ cs" "Q x cs" using doesD [OF assms(1) continue(1) P] by auto
    obtain ds where "P s'" "tr s' = tr t @ ds" "\<forall>x. r = Inr x \<longrightarrow> R x (cs @ ds)"
      using doesD [OF assms(2) [OF cs(3)] continue(2) cs(1)] by auto
    with cs show ?thesis by (intro conjI exI [of _ "cs @ ds"]) auto
  qed
qed

lemma does_thenE:
  assumes "does tr P m Q" and "\<And>x cs. Q x cs \<Longrightarrow> does tr P k (\<lambda>y ds. R y (cs @ ds))"
  shows "does tr P (thenE m k) R"
  using assms unfolding thenE_def by (rule does_bindE)

lemma does_catchE:
  assumes "does tr P m R" and "\<And>e cs. does tr P (h e) (\<lambda>y ds. R y (cs @ ds))"
  shows "does tr P (catchE m h) R"
proof (rule doesI)
  fix s r s' assume P: "P s" and "catchE m h s = (r, s')"
  from this(2) show "P s' \<and> (\<exists>cs. tr s' = tr s @ cs \<and> (\<forall>x. r = Inr x \<longrightarrow> R x cs))"
  proof (cases rule: catchE_elim)
    case (return x)
    then show ?thesis using doesD [OF assms(1) _ P] by blast
  next
    case (handle e t)
    obtain cs where cs: "P t" "tr t = tr s @ cs" using doesD [OF assms(1) handle(1) P] by auto
    obtain ds where "P s'" "tr s' = tr t @ ds" "\<forall>x. r = Inr x \<longrightarrow> R x (cs @ ds)"
      using doesD [OF assms(2) handle(2) cs(1)] by blast
    with cs show ?thesis by (intro conjI exI [of _ "cs @ ds"]) auto
  qed
qed

lemma does_ret: "R x [] \<Longrightarrow> does tr P (ret x) R"
  by (simp add: does_def)

lemma does_throwE: "does tr P (throwE e) R"
  by (simp add: does_def)

lemma does_liftR: "(\<And>x. r = Inr x \<Longrightarrow> R x []) \<Longrightarrow> does tr P (liftR r) R"
  by (simp add: does_def)

lemma does_getS: "(\<And>s. P s \<Longrightarrow> R (f s) []) \<Longrightarrow> does tr P (getS f) R"
  by (simp add: does_def)

lemma does_modS: "(\<And>s. P s \<Longrightarrow> P (f s)) \<Longrightarrow> (\<And>s. tr (f s) = tr s) \<Longrightarrow> R () [] \<Longrightarrow> does tr P (modS f) R"
  by (simp add: does_def)

lemma does_weaken:
  assumes "does tr P m R" and "\<And>x cs. R x cs \<Longrightarrow> S x cs"
  shows "does tr P m S"
  using doesD [OF assms(1)] assms(2) by (intro doesI) metis

lemma does_any: "keeps P m \<Longrightarrow> only tr C m \<Longrightarrow> does tr P m (\<lambda>_ _. True)"
  by (rule doesI) (metis keepsD onlyD)

text \<open>A step whose calls do not matter, before one whose calls do: for a claim that more calls before
  it do not hurt.\<close>

lemma does_skip:
  assumes "keeps P m" and "only tr C m" and "\<And>x. does tr P (f x) R" and "\<And>y cs ds. R y ds \<Longrightarrow> R y (cs @ ds)"
  shows "does tr P (bindE m f) R"
  by (rule does_bindE [OF does_any [OF assms(1,2)]]) (rule does_weaken [OF assms(3)], rule assms(4))

lemma does_skip_then:
  assumes "keeps P m" and "only tr C m" and "does tr P k R" and "\<And>y cs ds. R y ds \<Longrightarrow> R y (cs @ ds)"
  shows "does tr P (thenE m k) R"
  unfolding thenE_def by (rule does_skip [OF assms])

lemma keeps_option [keeps_rules]:
  "(r = None \<Longrightarrow> keeps P m) \<Longrightarrow> (\<And>y. r = Some y \<Longrightarrow> keeps P (g y)) \<Longrightarrow> keeps P (case r of None \<Rightarrow> m | Some y \<Rightarrow> g y)"
  by (cases r) auto

section \<open>How many calls\<close>

text \<open>\<open>costs tr C k m\<close>: whether it returns or throws, the computation makes at most \<open>k\<close> calls of the kind \<open>C\<close>.\<close>

named_theorems costs_rules \<open>how many calls of a kind a computation may make\<close>

definition costs :: "('s \<Rightarrow> 'c list) \<Rightarrow> ('c \<Rightarrow> bool) \<Rightarrow> nat \<Rightarrow> ('s, 'a) io \<Rightarrow> bool" where
  "costs tr C k m \<longleftrightarrow> (\<forall>s r s'. m s = (r, s') \<longrightarrow> (\<exists>cs. tr s' = tr s @ cs \<and> length (filter C cs) \<le> k))"

lemma costsD: "costs tr C k m \<Longrightarrow> m s = (r, s') \<Longrightarrow> \<exists>cs. tr s' = tr s @ cs \<and> length (filter C cs) \<le> k"
  unfolding costs_def by blast

lemma costs_weaken: "costs tr C j m \<Longrightarrow> j \<le> k \<Longrightarrow> costs tr C k m"
  unfolding costs_def by (meson order_trans)

lemma costs_seq:
  assumes "\<exists>cs. ys = xs @ cs \<and> length (filter C cs) \<le> j" and "\<exists>cs. zs = ys @ cs \<and> length (filter C cs) \<le> k"
  shows "\<exists>cs. zs = xs @ cs \<and> length (filter C cs) \<le> j + k"
proof -
  from assms obtain cs ds where "ys = xs @ cs" "length (filter C cs) \<le> j" "zs = ys @ ds" "length (filter C ds) \<le> k"
    by blast
  then show ?thesis by (intro exI [of _ "cs @ ds"]) simp
qed

lemma costs_more: "\<exists>cs. ys = xs @ cs \<and> length (filter C cs) \<le> j \<Longrightarrow> \<exists>cs. ys = xs @ cs \<and> length (filter C cs) \<le> j + k"
  using trans_le_add1 by blast

lemma costs_bind_result:
  assumes "costs tr C j m" and "\<And>s x s'. m s = (Inr x, s') \<Longrightarrow> costs tr C k (f x)"
  shows "costs tr C (j + k) (bindE m f)"
  unfolding costs_def
proof (intro allI impI)
  fix s r s' assume "bindE m f s = (r, s')"
  then show "\<exists>cs. tr s' = tr s @ cs \<and> length (filter C cs) \<le> j + k"
  proof (cases rule: bindE_elim)
    case (throw e)
    show ?thesis by (rule costs_more [OF costsD [OF assms(1) throw(1)]])
  next
    case (continue x t)
    show ?thesis by (rule costs_seq [OF costsD [OF assms(1) continue(1)] costsD [OF assms(2) [OF continue(1)] continue(2)]])
  qed
qed

lemma costs_bindE [costs_rules]: "costs tr C j m \<Longrightarrow> (\<And>x. costs tr C k (f x)) \<Longrightarrow> costs tr C (j + k) (bindE m f)"
  by (rule costs_bind_result)

lemma costs_thenE [costs_rules]: "costs tr C j m \<Longrightarrow> costs tr C k n \<Longrightarrow> costs tr C (j + k) (thenE m n)"
  unfolding thenE_def by (rule costs_bindE)

lemma costs_catchE [costs_rules]:
  assumes "costs tr C j m" and "\<And>e. costs tr C k (h e)"
  shows "costs tr C (j + k) (catchE m h)"
  unfolding costs_def
proof (intro allI impI)
  fix s r s' assume "catchE m h s = (r, s')"
  then show "\<exists>cs. tr s' = tr s @ cs \<and> length (filter C cs) \<le> j + k"
  proof (cases rule: catchE_elim)
    case (return x)
    show ?thesis by (rule costs_more [OF costsD [OF assms(1) return(1)]])
  next
    case (handle e t)
    show ?thesis by (rule costs_seq [OF costsD [OF assms(1) handle(1)] costsD [OF assms(2) handle(2)]])
  qed
qed

lemma costs_basic [costs_rules]:
  "costs tr C 0 (ret x)" "costs tr C 0 (throwE e)" "costs tr C 0 (liftR r)" "costs tr C 0 (getS f)"
  by (simp_all add: costs_def)

lemma costs_modS [costs_rules]: "(\<And>s. tr (f s) = tr s) \<Longrightarrow> costs tr C 0 (modS f)"
  by (simp add: costs_def)

lemma costs_if [costs_rules]: "costs tr C j m \<Longrightarrow> costs tr C k n \<Longrightarrow> costs tr C (max j k) (if b then m else n)"
  by (auto intro: costs_weaken)

lemma costs_option [costs_rules]:
  "costs tr C j m \<Longrightarrow> (\<And>y. costs tr C k (g y)) \<Longrightarrow> costs tr C (max j k) (case r of None \<Rightarrow> m | Some y \<Rightarrow> g y)"
  by (cases r) (auto intro: costs_weaken [OF _ max.cobounded1] costs_weaken [OF _ max.cobounded2])

lemma costs_sum [costs_rules]:
  "(\<And>x. costs tr C j (f x)) \<Longrightarrow> (\<And>y. costs tr C k (g y)) \<Longrightarrow> costs tr C (max j k) (case r of Inl x \<Rightarrow> f x | Inr y \<Rightarrow> g y)"
  by (cases r) (auto intro: costs_weaken [OF _ max.cobounded1] costs_weaken [OF _ max.cobounded2])

lemma costs_prod [costs_rules]: "(\<And>x y. r = (x, y) \<Longrightarrow> costs tr C k (f x y)) \<Longrightarrow> costs tr C k (case r of (x, y) \<Rightarrow> f x y)"
  by (cases r) auto

section \<open>Reaching a state\<close>

text \<open>A computation that keeps \<open>P\<close> when it throws and reaches \<open>A\<close> when it returns.\<close>

definition reaches :: "('s \<Rightarrow> bool) \<Rightarrow> ('s \<Rightarrow> bool) \<Rightarrow> ('s, 'a) io \<Rightarrow> bool" where
  "reaches P A m \<longleftrightarrow> (\<forall>s r s'. P s \<longrightarrow> m s = (r, s') \<longrightarrow> (case r of Inl _ \<Rightarrow> P s' | Inr _ \<Rightarrow> A s'))"

lemma reachesD: "reaches P A m \<Longrightarrow> m s = (r, s') \<Longrightarrow> P s \<Longrightarrow> (case r of Inl _ \<Rightarrow> P s' | Inr _ \<Rightarrow> A s')"
  unfolding reaches_def by simp

lemma reaches_bind:
  assumes "keeps P m" and "\<And>x. reaches P A (f x)"
  shows "reaches P A (bindE m f)"
  unfolding reaches_def
proof (intro allI impI)
  fix s r s' assume P: "P s" and "bindE m f s = (r, s')"
  from this(2) show "case r of Inl _ \<Rightarrow> P s' | Inr _ \<Rightarrow> A s'"
  proof (cases rule: bindE_elim)
    case (throw e)
    then show ?thesis using keepsD [OF assms(1) throw(1) P] by simp
  next
    case (continue x t)
    show ?thesis by (rule reachesD [OF assms(2) continue(2) keepsD [OF assms(1) continue(1) P]])
  qed
qed

lemma reaches_then: "keeps P m \<Longrightarrow> reaches P A k \<Longrightarrow> reaches P A (thenE m k)"
  unfolding thenE_def by (rule reaches_bind)

lemma reaches_last: "(\<And>s. A (f s)) \<Longrightarrow> reaches P A (thenE (modS f) (ret x))"
  by (auto simp: reaches_def io_defs)

lemma reaches_throw: "reaches P A (throwE e)"
  by (simp add: reaches_def)

end
