(* ===== verification/Pod_Controller.thy ===== *)
theory Pod_Controller
  imports Pod_Contract Pod_Store Call_Log
begin

text \<open>
  The controller of an engineering pod, \<^verbatim>\<open>src/src/pod-controller.mjs\<close>: the whole of
  \<open>runEngineeringPod\<close>, its deadlines, the concurrent writers with the dependency handover, the gates on the
  integrated candidate, and the attempts loop with its error handling.

  Agents, source control, verifier, store and clock are ports over an arbitrary world.  The three writers
  run concurrently: \<open>pp_start\<close> launches an execution, \<open>pp_race\<close> is \<^verbatim>\<open>Promise.race\<close> over the pending
  executions (any of them may settle next, with any outcome), and \<open>pp_running\<close> tells whether an execution
  that the loop has not yet taken up is still unsettled, which is what \<^verbatim>\<open>activeSlots.has\<close> reads.  A thrown
  error is its message.  The state keeps the calls made to the ports, with their answers, next to
  the controller's own variables.
\<close>

section \<open>Constants and checks\<close>

definition writerSlots :: "string list" where
  "writerSlots = [''engineering-a'', ''engineering-b'', ''qa-tests'']"

definition promptKeys :: "string list" where
  "promptKeys = [''planner'', ''engineering-a'', ''engineering-b'', ''qa-tests'', ''checker'', ''qa'', ''testing'']"

definition assertSha :: "jsval \<Rightarrow> string \<Rightarrow> jsval res" where
  "assertSha v label = bindR (require (isString v \<and> reGitSha (strOf v)) (label @ '' must be a Git SHA'')) (\<lambda>_. Inr v)"

definition receiptOf :: "jsval \<Rightarrow> string \<Rightarrow> jsval res" where
  "receiptOf v label =
     (let receipt = (if isPlainObject v \<and> hasOwn v ''receipt'' then fld v ''receipt'' else v) in
      bindR (assertPlainObject receipt label) (\<lambda>_. Inr receipt))"

definition reasonOf :: "err \<Rightarrow> string" where
  "reasonOf e = sliceTo 2000 e"

text \<open>\<^verbatim>\<open>/\b(?:cancel(?:led|ed)?|interrupt(?:ed)?|deadline|timed? ?out|timeout)\b/i\<close>: one of the words the
  alternatives spell out, letters in either case, between word boundaries.\<close>

definition wordChar :: "char \<Rightarrow> bool" where
  "wordChar c = (isAlnum c \<or> c = CHR ''_'')"

definition lowerChar :: "char \<Rightarrow> char" where
  "lowerChar c = (if isUpper c then char_of (of_char c + 32 :: nat) else c)"

definition interruptionWords :: "string list" where
  "interruptionWords = [''cancel'', ''cancelled'', ''canceled'', ''interrupt'', ''interrupted'', ''deadline'',
     ''timeout'', ''time out'', ''timedout'', ''timed out'']"

fun wordAt :: "bool \<Rightarrow> string \<Rightarrow> bool" where
  "wordAt afterWord [] = False"
| "wordAt afterWord (c # cs) =
     ((\<not> afterWord \<and> list_ex (\<lambda>w. prefix w (map lowerChar (c # cs)) \<and>
         (case drop (length w) (c # cs) of [] \<Rightarrow> True | d # _ \<Rightarrow> \<not> wordChar d)) interruptionWords)
      \<or> wordAt (wordChar c) cs)"

definition terminalInterruption :: "err \<Rightarrow> bool" where
  "terminalInterruption e = wordAt False (reasonOf e)"

definition dropSlash :: "string \<Rightarrow> string" where
  "dropSlash s = (if suffix ''/'' s then butlast s else s)"

definition pathIsOwned :: "string \<Rightarrow> string \<Rightarrow> bool" where
  "pathIsOwned path writePath = (path = writePath \<or> prefix (dropSlash writePath @ ''/'') path)"

definition nullish :: "jsval \<Rightarrow> bool" where
  "nullish v = (v = JUndef \<or> v = JNull)"

definition orElse :: "jsval \<Rightarrow> jsval \<Rightarrow> jsval" where
  "orElse v d = (if nullish v then d else v)"

definition dependencyRequest :: "jsval \<Rightarrow> jsval" where
  "dependencyRequest receipt =
     orElse (fld receipt ''dependencyRequest'')
       (orElse (fld receipt ''dependency'') (orElse (fld receipt ''request'') JNull))"

definition strictInboxEntry :: "jsval \<Rightarrow> jsval res" where
  "strictInboxEntry v =
     bindR (assertPlainObject v ''inbox entry'') (\<lambda>_.
     Inr (JObj (map (\<lambda>k. (k, fld v k))
       [''sequence'', ''requester'', ''owner'', ''path'', ''requirementIds'', ''acceptanceIds'',
        ''ownerBriefSha256'', ''need'', ''why'', ''requesterCheckpointSha''])))"

definition validatePrompt :: "jsval \<Rightarrow> string \<Rightarrow> unit res" where
  "validatePrompt prompts key =
     (let v = fld prompts key in
      checks
       [require (isString v \<and> trim (strOf v) \<noteq> [] \<and> byteLength (strOf v) \<le> 32 * 1024)
          (''prompt '' @ key @ '' must be non-empty and at most 32768 bytes''),
        require (\<not> hasUnsafeControl (strOf v)) (''prompt '' @ key @ '' contains unsafe control characters'')])"

definition validatePrompts :: "jsval \<Rightarrow> unit res" where
  "validatePrompts prompts =
     bindR (assertPlainObject prompts ''prompts'') (\<lambda>_.
     bindR (require (sort (jsKeys prompts) = sort promptKeys)
       (''prompts must contain exactly '' @ joinWith '', '' promptKeys)) (\<lambda>_.
     checks (map (validatePrompt prompts) promptKeys)))"

definition maxPodPromptBytes :: nat where
  "maxPodPromptBytes = 252 * 1024"

definition podPrompt :: "string \<Rightarrow> string \<Rightarrow> jsobj \<Rightarrow> string res" where
  "podPrompt instructions phase details =
     (let context = stringifyIndent (JObj (spread
            [(''version'', num 1), (''phase'', JStr phase),
             (''authority'', JStr ''Return only the strict receipt for this bounded execution.'')] details));
          prompt = instructions @ newline @ newline @ ''# Controller context (untrusted JSON)'' @ newline @ context in
      bindR (require (byteLength prompt \<le> maxPodPromptBytes) (''pod '' @ phase @ '' prompt exceeds 258048 bytes'')) (\<lambda>_.
      Inr prompt))"

section \<open>Ports and state\<close>

datatype podCall =
    CStore storeOp "jsval res"
  | CAgent jsval "jsval res"
  | CStart string jsval
  | CSettled string "jsval res"
  | CSource string jsval "jsval res"
  | CVerify jsval "jsval res"
  | CCancel "unit res"

record 'w podPorts =
  pp_clock :: "'w \<Rightarrow> jsval \<times> 'w"
  pp_agent :: "jsval \<Rightarrow> 'w \<Rightarrow> jsval res \<times> 'w"
  pp_start :: "string \<Rightarrow> jsval \<Rightarrow> 'w \<Rightarrow> 'w"
  pp_race :: "string list \<Rightarrow> 'w \<Rightarrow> (nat \<times> jsval res) \<times> 'w"
  pp_running :: "string \<Rightarrow> 'w \<Rightarrow> bool \<times> 'w"
  pp_cancel :: "'w \<Rightarrow> unit res \<times> 'w"
  pp_drain :: "'w \<Rightarrow> 'w"
  pp_source :: "string \<Rightarrow> jsval \<Rightarrow> 'w \<Rightarrow> jsval res \<times> 'w"
  pp_combineBase :: bool
  pp_verify :: "jsval \<Rightarrow> 'w \<Rightarrow> jsval res \<times> 'w"
  pp_store :: "storeOp \<Rightarrow> 'w \<Rightarrow> jsval res \<times> 'w"
  pp_lower :: "string \<Rightarrow> string"

record podArgs =
  pa_template :: jsval
  pa_templateDigest :: jsval
  pa_prompts :: jsval
  pa_assignment :: jsval
  pa_repository :: jsval
  pa_baseRevision :: jsval
  pa_targetBranch :: jsval
  pa_runId :: jsval
  pa_stateRoot :: jsval
  pa_deadlineAt :: jsval

record attemptInfo =
  at_attempt :: nat
  at_baseSha :: jsval
  at_baseSnapshot :: jsval
  at_deadlineAt :: int

record inboxRequest =
  ir_request :: jsval
  ir_entry :: jsval
  ir_checkpoint :: jsval

record 'w podState =
  pc_world :: 'w
  pc_calls :: "podCall list"
  pc_ready :: bool
  pc_cancellation :: "unit res option"
  pc_prior :: "jsval list"
  pc_baseSha :: "jsval option"
  pc_plan :: jsval
  pc_work :: "jsval list"
  pc_gates :: "jsval list"
  pc_inboxRequest :: "inboxRequest option"
  pc_initial :: "(string \<times> jsval) list"

type_synonym ('w, 'a) pod = "('w podState, 'a) io"

definition usePort :: "('w \<Rightarrow> 'a \<times> 'w) \<Rightarrow> ('w, 'a) pod" where
  "usePort f s = (case f (pc_world s) of (x, w) \<Rightarrow> (Inr x, s\<lparr>pc_world := w\<rparr>))"

definition callPort :: "('a res \<Rightarrow> podCall) \<Rightarrow> ('w \<Rightarrow> 'a res \<times> 'w) \<Rightarrow> ('w, 'a) pod" where
  "callPort mk f s = (case f (pc_world s) of (r, w) \<Rightarrow> (r, s\<lparr>pc_world := w, pc_calls := pc_calls s @ [mk r]\<rparr>))"

definition storeCall :: "'w podPorts \<Rightarrow> storeOp \<Rightarrow> ('w, jsval) pod" where
  "storeCall p op = callPort (CStore op) (pp_store p op)"

definition sourceCall :: "'w podPorts \<Rightarrow> string \<Rightarrow> jsobj \<Rightarrow> ('w, jsval) pod" where
  "sourceCall p method input = callPort (CSource method (JObj input)) (pp_source p method (JObj input))"

definition verifyCall :: "'w podPorts \<Rightarrow> jsobj \<Rightarrow> ('w, jsval) pod" where
  "verifyCall p input = callPort (CVerify (JObj input)) (pp_verify p (JObj input))"

definition num_nat :: "nat \<Rightarrow> jsval" where
  "num_nat n = num (int n)"

section \<open>Deadlines and executions\<close>

definition nowFrom :: "'w podPorts \<Rightarrow> ('w, int) pod" where
  "nowFrom p =
     bindE (usePort (pp_clock p)) (\<lambda>v.
     thenE (liftR (require (isSafeInteger v \<and> 0 \<le> intOf v)
       ''clock must return a non-negative safe integer millisecond timestamp''))
     (ret (intOf v)))"

definition remainingMs :: "'w podPorts \<Rightarrow> int \<Rightarrow> int \<Rightarrow> ('w, int) pod" where
  "remainingMs p deadlineAt phaseDeadlineAt =
     bindE (nowFrom p) (\<lambda>now.
     let remaining = min deadlineAt phaseDeadlineAt - now in
     thenE (liftR (require (remaining > 0) ''pod workflow deadline exceeded'')) (ret remaining))"

definition executionLimit :: "podArgs \<Rightarrow> int" where
  "executionLimit a = intOf (fld (fld (pa_template a) ''timeouts'') ''executionSeconds'')"

definition executionSeconds :: "'w podPorts \<Rightarrow> podArgs \<Rightarrow> int \<Rightarrow> int \<Rightarrow> ('w, int) pod" where
  "executionSeconds p a deadlineAt phaseDeadlineAt =
     bindE (remainingMs p deadlineAt phaseDeadlineAt) (\<lambda>remaining.
     let seconds = remaining div 1000 in
     thenE (liftR (require (seconds \<ge> 10) ''pod workflow deadline exceeded''))
       (ret (min (executionLimit a) seconds)))"

definition cancelActive :: "'w podPorts \<Rightarrow> ('w, unit) pod" where
  "cancelActive p =
     bindE (getS pc_cancellation) (\<lambda>c.
     case c of
       Some r \<Rightarrow> liftR r
     | None \<Rightarrow> bindE (catchE (bindE (callPort CCancel (pp_cancel p)) (\<lambda>_. ret (Inr ()))) (\<lambda>e. ret (Inl e))) (\<lambda>r.
         thenE (modS (\<lambda>s. s\<lparr>pc_cancellation := Some r\<rparr>)) (liftR r)))"

definition quietCancel :: "'w podPorts \<Rightarrow> ('w, unit) pod" where
  "quietCancel p = catchE (cancelActive p) (\<lambda>_. ret ())"

text \<open>The input of an agent execution, its deadline kept apart.\<close>

definition agentInput :: "podArgs \<Rightarrow> string \<Rightarrow> string \<Rightarrow> nat \<Rightarrow> string \<Rightarrow> string \<Rightarrow> jsval \<Rightarrow> jsval \<Rightarrow> int \<Rightarrow> jsval" where
  "agentInput a executionId role attempt access prompt workspaceId writeDirectories timeoutSeconds =
     JObj [(''executionId'', JStr executionId), (''role'', JStr role), (''attempt'', num_nat attempt),
           (''access'', JStr access), (''prompt'', JStr prompt), (''workspaceId'', workspaceId),
           (''writeDirectories'', writeDirectories), (''timeoutSeconds'', num timeoutSeconds), (''runId'', pa_runId a)]"

definition runAgent ::
  "'w podPorts \<Rightarrow> podArgs \<Rightarrow> int \<Rightarrow> attemptInfo \<Rightarrow> string \<Rightarrow> string \<Rightarrow> string \<Rightarrow> string \<Rightarrow> jsval \<Rightarrow> jsval \<Rightarrow> ('w, jsval) pod" where
  "runAgent p a deadlineAt at executionId role access prompt workspaceId writeDirectories =
     thenE (remainingMs p deadlineAt (at_deadlineAt at))
     (bindE (executionSeconds p a deadlineAt (at_deadlineAt at)) (\<lambda>t.
      let input = agentInput a executionId role (at_attempt at) access prompt workspaceId writeDirectories t in
      callPort (CAgent input) (pp_agent p input)))"

section \<open>Writers: commit and check\<close>

definition tryE :: "('s, 'a) io \<Rightarrow> ('s, 'a res) io" where
  "tryE m = catchE (bindE m (\<lambda>x. ret (Inr x))) (\<lambda>e. ret (Inl e))"

definition recordWorkResult :: "'w podPorts \<Rightarrow> attemptInfo \<Rightarrow> jsobj \<Rightarrow> ('w, unit) pod" where
  "recordWorkResult p at result =
     (let durable = JObj (filter (\<lambda>(k, _). k \<noteq> ''diff'') result) in
      thenE (modS (\<lambda>s. s\<lparr>pc_work := pc_work s @ [durable]\<rparr>))
      (thenE (storeCall p (WriteWorkResult (num_nat (at_attempt at)) durable)) (ret ())))"

definition recordGate :: "'w podPorts \<Rightarrow> attemptInfo \<Rightarrow> jsobj \<Rightarrow> ('w, unit) pod" where
  "recordGate p at receipt =
     thenE (modS (\<lambda>s. s\<lparr>pc_gates := pc_gates s @ [JObj receipt]\<rparr>))
     (thenE (storeCall p (WriteGateReceipt (num_nat (at_attempt at)) (JObj receipt))) (ret ()))"

definition workItemOf :: "jsval \<Rightarrow> string \<Rightarrow> jsval" where
  "workItemOf plan slot =
     JObj (spread [(''id'', JStr slot), (''ownerSlot'', JStr slot)] (props (fld (fld plan ''writers'') slot)))"

definition ownsPath :: "jsval \<Rightarrow> string \<Rightarrow> bool" where
  "ownsPath workItem path = list_ex (\<lambda>w. pathIsOwned path (strOf w)) (elems (fld workItem ''writePaths''))"

fun changedPathLoop :: "(string \<Rightarrow> string) \<Rightarrow> jsval \<Rightarrow> nat \<Rightarrow> jsval list \<Rightarrow> string list \<Rightarrow> unit res" where
  "changedPathLoop lower workItem i [] seen = Inr ()"
| "changedPathLoop lower workItem i (v # vs) seen =
     bindR (checks
       [assertRepositoryFile v (indexed ''commit changedPaths'' i),
        require (lower (strOf v) \<notin> set seen) (''commit changedPaths contains duplicate path: '' @ strOf v),
        require (ownsPath workItem (strOf v)) ''commit changedPaths are outside the fixed writer scope''])
     (\<lambda>_. changedPathLoop lower workItem (Suc i) vs (lower (strOf v) # seen))"

definition checkCommit :: "(string \<Rightarrow> string) \<Rightarrow> podArgs \<Rightarrow> jsval \<Rightarrow> jsval \<Rightarrow> jsval \<Rightarrow> jsobj res" where
  "checkCommit lower a workItem receipt committed =
     (let changes = fld (pa_template a) ''changes''; paths = fld committed ''changedPaths'';
          bytes = fld committed ''changedBytes''; diffSha256 = fld committed ''diffSha256'' in
      bindR (assertPlainObject committed (''commit result '' @ strOf (fld workItem ''id''))) (\<lambda>_.
      bindR (assertSha (fld committed ''baseSha'') ''writer baseSha'') (\<lambda>committedBaseSha.
      bindR (checks
        [require (committedBaseSha = fld receipt ''baseSha'') ''writer receipt base does not match the committed delta'',
         require (isArray paths \<and> 1 \<le> length (elems paths) \<and> int (length (elems paths)) \<le> intOf (fld changes ''maxFiles''))
           ''commit changedPaths are outside the fixed writer scope'',
         changedPathLoop lower workItem 0 (elems paths) [],
         require (isInteger bytes \<and> 0 \<le> intOf bytes \<and> intOf bytes \<le> intOf (fld changes ''maxBytes''))
           ''commit changedBytes are outside the fixed limit'',
         require (isString diffSha256 \<and> reSha256 (strOf diffSha256)) ''commit diffSha256 must be a SHA-256 digest'']) (\<lambda>_.
      bindR (assertSha (fld committed ''resultSha'') ''writer resultSha'') (\<lambda>resultSha.
      Inr (spread (props receipt)
        [(''workItemId'', fld workItem ''id''), (''ownerSlot'', fld workItem ''ownerSlot''), (''baseSha'', committedBaseSha),
         (''resultSha'', resultSha), (''files'', JArr (elems paths)), (''changedBytes'', bytes),
         (''diffSha256'', diffSha256), (''diff'', fld committed ''diff'')])))))) "

definition commitWriterResult ::
  "'w podPorts \<Rightarrow> podArgs \<Rightarrow> int \<Rightarrow> attemptInfo \<Rightarrow> jsval \<Rightarrow> jsval \<Rightarrow> jsval \<Rightarrow> ('w, jsval) pod" where
  "commitWriterResult p a deadlineAt at workItem workspace receipt =
     thenE (remainingMs p deadlineAt (at_deadlineAt at))
     (bindE (sourceCall p ''validateAndCommit''
        [(''workspace'', workspace), (''workItem'', workItem), (''deadlineAt'', num (at_deadlineAt at)),
         (''limits'', fld (pa_template a) ''changes'')]) (\<lambda>committed.
      bindE (liftR (checkCommit (pp_lower p) a workItem receipt committed)) (\<lambda>result.
      thenE (recordWorkResult p at result) (ret (JObj result)))))"

definition itemsNamed :: "jsval \<Rightarrow> jsval \<Rightarrow> jsval" where
  "itemsNamed items ids = JArr (filter (\<lambda>item. fld item ''id'' \<in> set (elems ids)) (elems items))"

definition checkerDetails :: "podArgs \<Rightarrow> jsval \<Rightarrow> jsval \<Rightarrow> jsval \<Rightarrow> jsval list \<Rightarrow> jsobj" where
  "checkerDetails a plan workItem result deliveredInbox =
     [(''assignment'', pa_assignment a), (''requirementIds'', fld workItem ''requirementIds''),
      (''requirements'', itemsNamed (fld plan ''requirements'') (fld workItem ''requirementIds'')),
      (''acceptanceCriteria'', itemsNamed (fld plan ''acceptanceCriteria'') (fld workItem ''acceptanceIds'')),
      (''workItem'', workItem), (''baseSha'', fld result ''baseSha''), (''resultSha'', fld result ''resultSha''),
      (''diffSha256'', fld result ''diffSha256''), (''diff'', fld result ''diff''), (''deliveredInbox'', JArr deliveredInbox)]"

definition nonEmptyString :: "jsval \<Rightarrow> bool" where
  "nonEmptyString v = (isString v \<and> strOf v \<noteq> [])"

definition promptFor :: "podArgs \<Rightarrow> string \<Rightarrow> string" where
  "promptFor a key = strOf (fld (pa_prompts a) key)"

definition attemptId :: "attemptInfo \<Rightarrow> string \<Rightarrow> string" where
  "attemptId at rest = ''attempt-'' @ decNat (at_attempt at) @ ''-'' @ rest"

definition checkWriterResult ::
  "'w podPorts \<Rightarrow> podArgs \<Rightarrow> int \<Rightarrow> attemptInfo \<Rightarrow> string \<Rightarrow> jsval \<Rightarrow> jsval list \<Rightarrow> jsval \<Rightarrow> ('w, jsval) pod" where
  "checkWriterResult p a deadlineAt at slot result deliveredInbox previousInboxCursor =
     bindE (getS pc_plan) (\<lambda>plan.
     let workItem = workItemOf plan slot in
     bindE (sourceCall p ''createReadView''
        [(''id'', JStr (''c-'' @ decNat (at_attempt at) @ ''-'' @ slot @ ''-'' @ strOf (fld result ''resultSha''))),
         (''sha'', fld result ''resultSha''), (''deadlineAt'', num (at_deadlineAt at))]) (\<lambda>view.
     thenE (liftR (checks
        [assertPlainObject view ''checker read view'',
         require (nonEmptyString (fld view ''id'')) ''checker read view ID is required'']))
     (bindE (liftR (podPrompt (promptFor a ''checker'') ''checker'' (checkerDetails a plan workItem result deliveredInbox))) (\<lambda>prompt.
     bindE (runAgent p a deadlineAt at (attemptId at (''checker-'' @ slot)) ''checker'' ''read'' prompt (fld view ''id'') (JArr [])) (\<lambda>raw.
     bindE (liftR (receiptOf raw (''checker receipt '' @ slot))) (\<lambda>rawReceipt.
     bindE (liftR (validateCheckerReceipt (JObj (spread (props rawReceipt) [(''files'', JArr [])])) plan slot
              (fld result ''baseSha'') (fld result ''resultSha'') (fld result ''diffSha256'') (JArr deliveredInbox)
              previousInboxCursor)) (\<lambda>receipt.
     thenE (recordGate p at (spread [(''gate'', JStr ''checker''), (''workItemId'', JStr slot),
              (''subjectSha'', fld result ''resultSha'')] (props receipt)))
     (thenE (liftR (require (fld receipt ''outcome'' = JStr ''passed'')
              (''checker rejected '' @ slot @ '': '' @ strOf (fld receipt ''why''))))
     (ret receipt)))))))))"

section \<open>Writers: execution\<close>

definition retryContext :: "jsval list \<Rightarrow> jsval \<Rightarrow> jsval option" where
  "retryContext priorAttempts workItem =
     (if priorAttempts = [] then None
      else
        let prior = last priorAttempts;
            failedGate = (case filter (\<lambda>g. fld g ''outcome'' \<noteq> JStr ''passed'') (rev (elems (fld prior ''gates'')))
                          of [] \<Rightarrow> JNull | g # _ \<Rightarrow> g);
            gateName = orElse (fld failedGate ''gate'') (JStr ''attempt'');
            correction = ''Attempt '' @ toStr (fld prior ''attempt'') @ '' failed the '' @ toStr gateName @ '' gate'' @
              (if fld failedGate ''workItemId'' = fld workItem ''id'' then '' on your writer item'' else []) @
              ''. Correct only your assigned work within its writePaths so this exact gate passes on the replacement attempt.''
        in Some (JObj [(''attempt'', fld prior ''attempt''), (''gate'', gateName),
             (''outcome'', orElse (fld failedGate ''outcome'') (JStr ''failed'')), (''reason'', fld prior ''reason''),
             (''evidence'', orElse (fld failedGate ''evidence'') (JArr [])), (''correction'', JStr correction)]))"

definition writerPrompt :: "podArgs \<Rightarrow> jsval \<Rightarrow> jsval list \<Rightarrow> string \<Rightarrow> jsval list \<Rightarrow> jsval \<Rightarrow> string res" where
  "writerPrompt a plan prior slot inbox executionBaseSha =
     (let workItem = workItemOf plan slot in
      podPrompt (promptFor a slot) ''writer''
       ([(''assignment'', pa_assignment a), (''plan'', plan), (''workItem'', workItem), (''inbox'', JArr inbox),
         (''executionBaseSha'', executionBaseSha)] @
        (case retryContext prior workItem of None \<Rightarrow> [] | Some retry \<Rightarrow> [(''retry'', retry)])))"

definition executeWriter ::
  "'w podPorts \<Rightarrow> podArgs \<Rightarrow> int \<Rightarrow> attemptInfo \<Rightarrow> string \<Rightarrow> jsval \<Rightarrow> jsval list \<Rightarrow> string \<Rightarrow> jsval \<Rightarrow> ('w, jsval) pod" where
  "executeWriter p a deadlineAt at slot workspace inbox execution executionBaseSha =
     bindE (getS pc_plan) (\<lambda>plan.
     bindE (getS pc_prior) (\<lambda>prior.
     bindE (liftR (writerPrompt a plan prior slot inbox executionBaseSha)) (\<lambda>prompt.
     runAgent p a deadlineAt at execution slot ''write'' prompt (fld workspace ''id'') (fld workspace ''writeDirectories''))))"

definition validateWriter ::
  "podArgs \<Rightarrow> jsval \<Rightarrow> string \<Rightarrow> jsval \<Rightarrow> jsval \<Rightarrow> jsval list \<Rightarrow> jsval \<Rightarrow> jsval res" where
  "validateWriter a plan slot raw executionBaseSha deliveredInbox previousInboxCursor =
     bindR (receiptOf raw (''writer receipt '' @ slot)) (\<lambda>receipt.
     validateWriterReceipt receipt (pa_template a) plan slot executionBaseSha (JArr deliveredInbox) previousInboxCursor)"

text \<open>The initial executions are launched without waiting: the prompt and the first deadline check of
  every slot come first; the launches, which read the clock again, follow in the same order, also when
  a later slot's check has thrown.\<close>

fun prepareWriters ::
  "'w podPorts \<Rightarrow> podArgs \<Rightarrow> int \<Rightarrow> attemptInfo \<Rightarrow> (string \<times> jsval) list \<Rightarrow> ('w, (string \<times> jsval \<times> string) list \<times> err option) pod" where
  "prepareWriters p a deadlineAt at [] = ret ([], None)"
| "prepareWriters p a deadlineAt at ((slot, workspace) # rest) =
     bindE (getS pc_plan) (\<lambda>plan.
     bindE (getS pc_prior) (\<lambda>prior.
     bindE (tryE (bindE (liftR (writerPrompt a plan prior slot [] (at_baseSha at))) (\<lambda>prompt.
              thenE (remainingMs p deadlineAt (at_deadlineAt at)) (ret prompt)))) (\<lambda>r.
     case r of
       Inl e \<Rightarrow> ret ([], Some e)
     | Inr prompt \<Rightarrow> bindE (prepareWriters p a deadlineAt at rest) (\<lambda>(ps, e). ret ((slot, workspace, prompt) # ps, e)))))"

fun launchWriters ::
  "'w podPorts \<Rightarrow> podArgs \<Rightarrow> int \<Rightarrow> attemptInfo \<Rightarrow> (string \<times> jsval \<times> string) list \<Rightarrow> ('w, (string \<times> err option) list) pod" where
  "launchWriters p a deadlineAt at [] = ret []"
| "launchWriters p a deadlineAt at ((slot, workspace, prompt) # rest) =
     bindE (tryE (executionSeconds p a deadlineAt (at_deadlineAt at))) (\<lambda>r.
     bindE (case r of
         Inl e \<Rightarrow> ret (slot, Some e)
       | Inr t \<Rightarrow>
           let input = agentInput a (attemptId at slot) slot (at_attempt at) ''write'' prompt (fld workspace ''id'')
                         (fld workspace ''writeDirectories'') t in
           thenE (usePort (\<lambda>w. ((), pp_start p slot input w)))
           (thenE (modS (\<lambda>s. s\<lparr>pc_calls := pc_calls s @ [CStart slot input]\<rparr>)) (ret (slot, None)))) (\<lambda>x.
     bindE (launchWriters p a deadlineAt at rest) (\<lambda>xs. ret (x # xs))))"

section \<open>Writers: the race\<close>

definition activeSlot :: "'w podPorts \<Rightarrow> (string \<times> err option) list \<Rightarrow> string \<Rightarrow> ('w, bool) pod" where
  "activeSlot p pending slot =
     (if (slot, None) \<in> set pending then usePort (pp_running p slot) else ret False)"

definition withinOwner :: "jsval \<Rightarrow> jsval \<Rightarrow> bool" where
  "withinOwner owner request =
     (let ids = fld request ''requirementIds'' in
      isArray ids \<and> elems ids \<noteq> [] \<and> list_all (\<lambda>v. v \<in> set (elems (fld owner ''requirementIds''))) (elems ids) \<and>
      isString (fld request ''path'') \<and> ownsPath owner (strOf (fld request ''path'')))"

definition inboxMessage :: "string \<Rightarrow> jsval \<Rightarrow> jsval \<Rightarrow> jsval" where
  "inboxMessage slot request checkpoint =
     JObj [(''requester'', JStr slot), (''owner'', fld request ''owner''), (''path'', fld request ''path''),
           (''requirementIds'', JArr (elems (fld request ''requirementIds''))),
           (''acceptanceIds'', JArr (elems (fld request ''acceptanceIds''))),
           (''ownerBriefSha256'', fld request ''ownerBriefSha256''), (''need'', fld request ''need''), (''why'', fld request ''why''),
           (''requesterCheckpointSha'', fld checkpoint ''resultSha'')]"

text \<open>A blocked writer: its checkpoint is committed and checked, and its request queued for the other
  engineering slot, when that slot's execution is still running.\<close>

definition queueDependency ::
  "'w podPorts \<Rightarrow> podArgs \<Rightarrow> int \<Rightarrow> attemptInfo \<Rightarrow> (string \<times> jsval) list \<Rightarrow> (string \<times> err option) list \<Rightarrow> string \<Rightarrow> jsval \<Rightarrow> ('w, err option) pod" where
  "queueDependency p a deadlineAt at workspaces pending slot receipt =
     bindE (getS pc_plan) (\<lambda>plan.
     let request = dependencyRequest receipt; owner = workItemOf plan ''engineering-b'' in
     bindE (if slot \<noteq> ''engineering-a'' \<or> fld request ''owner'' \<noteq> JStr ''engineering-b'' then ret False
            else activeSlot p pending ''engineering-b'') (\<lambda>ownerActive.
     if \<not> ownerActive \<or> \<not> withinOwner owner request
     then ret (Some ''dependency request requires a replacement attempt'')
     else
       bindE (commitWriterResult p a deadlineAt at (workItemOf plan slot) (the (map_of workspaces slot)) receipt) (\<lambda>checkpoint.
       thenE (checkWriterResult p a deadlineAt at slot checkpoint [] (num 0))
       (bindE (activeSlot p pending ''engineering-b'') (\<lambda>stillActive.
        if \<not> stillActive then ret (Some ''dependency owner completed before the request could be queued'')
        else
          bindE (storeCall p (EnqueueInbox (num_nat (at_attempt at)) ''engineering-b'' (inboxMessage slot request checkpoint))) (\<lambda>entry.
          bindE (liftR (strictInboxEntry entry)) (\<lambda>strict.
          thenE (modS (\<lambda>s. s\<lparr>pc_inboxRequest :=
                   Some \<lparr>ir_request = request, ir_entry = strict, ir_checkpoint = checkpoint\<rparr>\<rparr>))
          (thenE (storeCall p (AppendEvent ''inbox.queued''
                   (JObj [(''attempt'', num_nat (at_attempt at)), (''requestingWorkItemId'', JStr slot),
                          (''ownerSlot'', JStr ''engineering-b'')])))
            (ret None)))))))))"

definition takeReceipt ::
  "'w podPorts \<Rightarrow> podArgs \<Rightarrow> int \<Rightarrow> attemptInfo \<Rightarrow> (string \<times> jsval) list \<Rightarrow> (string \<times> err option) list \<Rightarrow> string \<Rightarrow> jsval \<Rightarrow> ('w, err option) pod" where
  "takeReceipt p a deadlineAt at workspaces pending slot value =
     bindE (getS pc_plan) (\<lambda>plan.
     bindE (liftR (validateWriter a plan slot value (at_baseSha at) [] (num 0))) (\<lambda>receipt.
     thenE (modS (\<lambda>s. s\<lparr>pc_initial := (slot, receipt) # pc_initial s\<rparr>))
     (if fld receipt ''outcome'' = JStr ''failed''
      then ret (Some (''writer '' @ slot @ '' failed: '' @ strOf (fld receipt ''why'')))
      else if fld receipt ''outcome'' \<noteq> JStr ''blocked'' then ret None
      else queueDependency p a deadlineAt at workspaces pending slot receipt)))"

definition interrupted :: "'w podPorts \<Rightarrow> err \<Rightarrow> ('w, unit) pod" where
  "interrupted p e = (if terminalInterruption e then quietCancel p else ret ())"

definition settleWriter ::
  "'w podPorts \<Rightarrow> podArgs \<Rightarrow> int \<Rightarrow> attemptInfo \<Rightarrow> (string \<times> jsval) list \<Rightarrow> (string \<times> err option) list \<Rightarrow> string \<Rightarrow> jsval res \<Rightarrow> err option \<Rightarrow> ('w, err option) pod" where
  "settleWriter p a deadlineAt at workspaces pending slot outcome firstError =
     (case outcome of
        Inl e \<Rightarrow> thenE (interrupted p e) (ret (case firstError of None \<Rightarrow> Some e | Some f \<Rightarrow> Some f))
      | Inr value \<Rightarrow>
          if firstError \<noteq> None then ret firstError
          else catchE (takeReceipt p a deadlineAt at workspaces pending slot value)
                 (\<lambda>e. thenE (interrupted p e) (ret (Some e))))"

definition removeAt :: "nat \<Rightarrow> 'a list \<Rightarrow> 'a list" where
  "removeAt i xs = take i xs @ drop (Suc i) xs"

text \<open>\<^verbatim>\<open>Promise.race\<close>: the port picks any pending execution; one whose launch failed settles with that
  error.\<close>

definition raceNext :: "'w podPorts \<Rightarrow> (string \<times> err option) list \<Rightarrow> ('w, nat \<times> jsval res) pod" where
  "raceNext p pending =
     bindE (usePort (pp_race p (map fst pending))) (\<lambda>(k, answer).
     let i = k mod length pending;
         outcome = (case snd (pending ! i) of Some e \<Rightarrow> Inl e | None \<Rightarrow> answer) in
     thenE (modS (\<lambda>s. s\<lparr>pc_calls := pc_calls s @ [CSettled (fst (pending ! i)) outcome]\<rparr>)) (ret (i, outcome)))"

fun raceLoop ::
  "'w podPorts \<Rightarrow> podArgs \<Rightarrow> int \<Rightarrow> attemptInfo \<Rightarrow> (string \<times> jsval) list \<Rightarrow> nat \<Rightarrow> (string \<times> err option) list \<Rightarrow> err option \<Rightarrow> ('w, err option) pod" where
  "raceLoop p a deadlineAt at workspaces 0 pending firstError = ret firstError"
| "raceLoop p a deadlineAt at workspaces (Suc n) pending firstError =
     bindE (raceNext p pending) (\<lambda>(i, outcome).
     let slot = fst (pending ! i); rest = removeAt i pending in
     bindE (settleWriter p a deadlineAt at workspaces rest slot outcome firstError)
       (raceLoop p a deadlineAt at workspaces n rest))"

section \<open>Writers: accepted results\<close>

fun createWorktrees :: "'w podPorts \<Rightarrow> attemptInfo \<Rightarrow> string list \<Rightarrow> ('w, (string \<times> jsval) list) pod" where
  "createWorktrees p at [] = ret []"
| "createWorktrees p at (slot # slots) =
     bindE (getS pc_plan) (\<lambda>plan.
     bindE (sourceCall p ''createWorktree''
       [(''attempt'', num_nat (at_attempt at)), (''workItem'', workItemOf plan slot), (''baseSha'', at_baseSha at),
        (''deadlineAt'', num (at_deadlineAt at))]) (\<lambda>workspace.
     thenE (liftR (checks
       [assertPlainObject workspace (''workspace '' @ slot),
        require (nonEmptyString (fld workspace ''id'')) (''workspace '' @ slot @ '' ID is required''),
        require (nonEmptyString (fld workspace ''root'')) (''workspace '' @ slot @ '' root is required''),
        require (isArray (fld workspace ''writeDirectories'')) (''workspace '' @ slot @ '' writeDirectories are required'')]))
     (bindE (createWorktrees p at slots) (\<lambda>ws. ret ((slot, workspace) # ws)))))"

fun commitCompleted ::
  "'w podPorts \<Rightarrow> podArgs \<Rightarrow> int \<Rightarrow> attemptInfo \<Rightarrow> (string \<times> jsval) list \<Rightarrow> (string \<times> jsval) list \<Rightarrow> string list \<Rightarrow> ('w, (string \<times> jsval) list) pod" where
  "commitCompleted p a deadlineAt at workspaces initial [] = ret []"
| "commitCompleted p a deadlineAt at workspaces initial (slot # slots) =
     (let receipt = the (map_of initial slot) in
      if fld receipt ''outcome'' = JStr ''blocked'' then commitCompleted p a deadlineAt at workspaces initial slots
      else
        bindE (getS pc_plan) (\<lambda>plan.
        bindE (commitWriterResult p a deadlineAt at (workItemOf plan slot) (the (map_of workspaces slot)) receipt) (\<lambda>result.
        bindE (commitCompleted p a deadlineAt at workspaces initial slots) (\<lambda>rs. ret ((slot, result) # rs)))))"

text \<open>Every completed result is checked, also after a rejection; the first failure is reported.\<close>

fun checkCompleted ::
  "'w podPorts \<Rightarrow> podArgs \<Rightarrow> int \<Rightarrow> attemptInfo \<Rightarrow> (string \<times> jsval) list \<Rightarrow> ('w, err option) pod" where
  "checkCompleted p a deadlineAt at [] = ret None"
| "checkCompleted p a deadlineAt at ((slot, result) # rest) =
     bindE (tryE (checkWriterResult p a deadlineAt at slot result [] (num 0))) (\<lambda>r.
     bindE (checkCompleted p a deadlineAt at rest) (\<lambda>later.
     ret (case r of Inl e \<Rightarrow> Some e | Inr _ \<Rightarrow> later)))"

definition acceptedAll :: "(string \<times> jsval) list \<Rightarrow> bool" where
  "acceptedAll accepted = list_all (\<lambda>slot. map_of accepted slot \<noteq> None) writerSlots"

definition writersPhase ::
  "'w podPorts \<Rightarrow> podArgs \<Rightarrow> int \<Rightarrow> attemptInfo \<Rightarrow> (string \<times> jsval) list \<Rightarrow> ('w, (string \<times> jsval) list) pod" where
  "writersPhase p a deadlineAt at workspaces =
     bindE (prepareWriters p a deadlineAt at workspaces) (\<lambda>(prepared, failure).
     bindE (launchWriters p a deadlineAt at prepared) (\<lambda>pending.
     thenE (liftR (case failure of Some e \<Rightarrow> Inl e | None \<Rightarrow> Inr ()))
     (bindE (raceLoop p a deadlineAt at workspaces (length pending) pending None) (\<lambda>firstError.
      thenE (liftR (case firstError of Some e \<Rightarrow> Inl e | None \<Rightarrow> Inr ()))
      (bindE (getS pc_initial) (\<lambda>initial.
       thenE (liftR (checks (map (\<lambda>slot. require (map_of initial slot \<noteq> None)
                (''writer '' @ slot @ '' did not return a receipt'')) writerSlots)))
       (bindE (commitCompleted p a deadlineAt at workspaces initial writerSlots) (\<lambda>completed.
        bindE (checkCompleted p a deadlineAt at completed) (\<lambda>failed.
        thenE (liftR (case failed of Some e \<Rightarrow> Inl e | None \<Rightarrow> Inr ())) (ret completed))))))))))"

section \<open>The dependency handover\<close>

definition resumeOwner ::
  "'w podPorts \<Rightarrow> podArgs \<Rightarrow> int \<Rightarrow> attemptInfo \<Rightarrow> (string \<times> jsval) list \<Rightarrow> (string \<times> jsval) list \<Rightarrow> ('w, jsval) pod" where
  "resumeOwner p a deadlineAt at workspaces accepted =
     bindE (getS pc_plan) (\<lambda>plan.
     bindE (getS (\<lambda>s. fld (the (map_of (pc_initial s) ''engineering-b'')) ''inboxCursor'')) (\<lambda>inboxCursor.
     bindE (storeCall p (ReadInbox (num_nat (at_attempt at)) ''engineering-b'' inboxCursor)) (\<lambda>entries.
     bindE (liftR (mapR (\<lambda>_. strictInboxEntry) 0 (elems entries))) (\<lambda>inbox.
     thenE (liftR (require (inbox \<noteq> []) ''dependency owner did not receive its queued request''))
     (bindE (liftR (case map_of accepted ''engineering-b'' of None \<Rightarrow> Inl typeError | Some r \<Rightarrow> Inr (fld r ''resultSha''))) (\<lambda>ownerBaseSha.
      bindE (executeWriter p a deadlineAt at ''engineering-b'' (the (map_of workspaces ''engineering-b'')) inbox
              (attemptId at ''engineering-b-inbox'') ownerBaseSha) (\<lambda>ownerRaw.
      bindE (liftR (validateWriter a plan ''engineering-b'' ownerRaw ownerBaseSha inbox inboxCursor)) (\<lambda>ownerReceipt.
      thenE (liftR (require (fld ownerReceipt ''outcome'' = JStr ''completed'') ''dependency owner did not complete its inbox request''))
      (bindE (commitWriterResult p a deadlineAt at (workItemOf plan ''engineering-b'') (the (map_of workspaces ''engineering-b''))
               ownerReceipt) (\<lambda>ownerResult.
       thenE (checkWriterResult p a deadlineAt at ''engineering-b'' ownerResult inbox inboxCursor) (ret ownerResult)))))))))))"

definition resumeRequester ::
  "'w podPorts \<Rightarrow> podArgs \<Rightarrow> int \<Rightarrow> attemptInfo \<Rightarrow> inboxRequest \<Rightarrow> jsval \<Rightarrow> ('w, jsval) pod" where
  "resumeRequester p a deadlineAt at request ownerResult =
     thenE (liftR (require (pp_combineBase p) ''source.combineBase is required for dependency resumption''))
     (bindE (getS pc_plan) (\<lambda>plan.
     bindE (sourceCall p ''combineBase''
       [(''attempt'', num_nat (at_attempt at)), (''requesterCheckpointSha'', fld (ir_checkpoint request) ''resultSha''),
        (''dependencyResultSha'', fld ownerResult ''resultSha''), (''deadlineAt'', num (at_deadlineAt at))]) (\<lambda>combined.
     thenE (liftR (assertPlainObject combined ''combined requester base''))
     (let workspace = orElse (fld combined ''workspace'') combined;
          requesterBaseSha = orElse (fld combined ''baseSha'') (fld workspace ''baseSha'') in
      bindE (executeWriter p a deadlineAt at ''engineering-a'' workspace [] (attemptId at ''engineering-a-resume'') requesterBaseSha) (\<lambda>raw.
      bindE (liftR (validateWriter a plan ''engineering-a'' raw requesterBaseSha [] (num 0))) (\<lambda>receipt.
      thenE (liftR (require (fld receipt ''outcome'' = JStr ''completed'') ''dependency requester did not complete after resumption''))
      (bindE (commitWriterResult p a deadlineAt at (workItemOf plan ''engineering-a'')
               (JObj (spread (props workspace) [(''baseSha'', requesterBaseSha)])) receipt) (\<lambda>result.
       thenE (checkWriterResult p a deadlineAt at ''engineering-a'' result [] (num 0)) (ret result))))))))) "

definition handover ::
  "'w podPorts \<Rightarrow> podArgs \<Rightarrow> int \<Rightarrow> attemptInfo \<Rightarrow> (string \<times> jsval) list \<Rightarrow> (string \<times> jsval) list \<Rightarrow> ('w, (string \<times> jsval) list) pod" where
  "handover p a deadlineAt at workspaces accepted =
     bindE (getS pc_inboxRequest) (\<lambda>request.
     case request of
       None \<Rightarrow> ret accepted
     | Some r \<Rightarrow>
         bindE (resumeOwner p a deadlineAt at workspaces accepted) (\<lambda>ownerResult.
         bindE (resumeRequester p a deadlineAt at r ownerResult) (\<lambda>requesterResult.
         ret ((''engineering-a'', requesterResult) # (''engineering-b'', ownerResult) # accepted))))"

section \<open>Gates on the candidate\<close>

definition branchOf :: "podArgs \<Rightarrow> string" where
  "branchOf a = ''bimo/'' @ strOf (pa_runId a)"

definition integrateCandidate ::
  "'w podPorts \<Rightarrow> podArgs \<Rightarrow> int \<Rightarrow> attemptInfo \<Rightarrow> (string \<times> jsval) list \<Rightarrow> ('w, jsval \<times> jsval \<times> jsval) pod" where
  "integrateCandidate p a deadlineAt at accepted =
     thenE (remainingMs p deadlineAt (at_deadlineAt at))
     (bindE (sourceCall p ''integrate''
        [(''attempt'', num_nat (at_attempt at)), (''baseSha'', at_baseSha at),
         (''commits'', JArr (map (\<lambda>slot. the (map_of accepted slot)) writerSlots)),
         (''integrationOrder'', JArr (map JStr writerSlots)), (''branch'', JStr (branchOf a)),
         (''deadlineAt'', num (at_deadlineAt at))]) (\<lambda>integrated.
      thenE (liftR (assertPlainObject integrated ''integration result''))
      (bindE (liftR (assertSha (fld integrated ''candidateSha'') ''candidateSha'')) (\<lambda>candidateSha.
       bindE (if truthy (fld integrated ''workspaceRoot'') \<and> truthy (fld integrated ''workspaceId'')
              then ret (JObj [(''id'', fld integrated ''workspaceId''), (''root'', fld integrated ''workspaceRoot'')])
              else sourceCall p ''createReadView''
                [(''id'', JStr (attemptId at ''candidate'')), (''sha'', candidateSha), (''deadlineAt'', num (at_deadlineAt at))]) (\<lambda>view.
       thenE (liftR (checks
         [require (\<not> nullish view) typeError,
          require (nonEmptyString (fld view ''id'') \<and> nonEmptyString (fld view ''root'')) ''candidate read view is invalid'']))
       (bindE (sourceCall p ''createSnapshot''
          [(''id'', JStr (attemptId at ''candidate'')), (''sha'', candidateSha), (''deadlineAt'', num (at_deadlineAt at))]) (\<lambda>snapshot.
        thenE (liftR (assertPlainObject snapshot ''candidate snapshot'')) (ret (candidateSha, view, snapshot)))))))))"

definition reviewGate ::
  "'w podPorts \<Rightarrow> podArgs \<Rightarrow> int \<Rightarrow> attemptInfo \<Rightarrow> string \<Rightarrow> string \<Rightarrow> string \<Rightarrow> jsobj \<Rightarrow> string \<Rightarrow> string \<Rightarrow> jsval \<Rightarrow> jsval \<Rightarrow> ('w, unit) pod" where
  "reviewGate p a deadlineAt at role execution phase gateField label verdict view candidateSha =
     bindE (getS pc_plan) (\<lambda>plan.
     bindE (liftR (podPrompt (promptFor a role) phase
        [(''assignment'', pa_assignment a), (''plan'', plan), (''candidateSha'', candidateSha)])) (\<lambda>prompt.
     bindE (runAgent p a deadlineAt at (attemptId at execution) role ''read'' prompt (fld view ''id'') (JArr [])) (\<lambda>raw.
     bindE (liftR (receiptOf raw label)) (\<lambda>rawReceipt.
     bindE (liftR (validateConformanceReceipt (JObj (spread (props rawReceipt) [(''files'', JArr [])])) plan role candidateSha)) (\<lambda>receipt.
     thenE (recordGate p at (spread (gateField @ [(''subjectSha'', candidateSha)]) (props receipt)))
       (liftR (require (fld receipt ''outcome'' = JStr ''passed'') (verdict @ '': '' @ strOf (fld receipt ''why'')))))))))"

definition qaGate :: "'w podPorts \<Rightarrow> podArgs \<Rightarrow> int \<Rightarrow> attemptInfo \<Rightarrow> jsval \<Rightarrow> jsval \<Rightarrow> ('w, unit) pod" where
  "qaGate p a deadlineAt at = reviewGate p a deadlineAt at ''qa'' ''qa-conformance'' ''qa-conformance''
     [(''gate'', JStr ''qa-conformance'')] ''QA conformance receipt'' ''QA conformance failed''"

definition testingGate :: "'w podPorts \<Rightarrow> podArgs \<Rightarrow> int \<Rightarrow> attemptInfo \<Rightarrow> jsval \<Rightarrow> jsval \<Rightarrow> ('w, unit) pod" where
  "testingGate p a deadlineAt at = reviewGate p a deadlineAt at ''testing'' ''testing'' ''testing'' []
     ''Testing receipt'' ''Testing review failed''"

definition passedOn :: "jsval \<Rightarrow> jsval \<Rightarrow> bool" where
  "passedOn v sha = (isPlainObject v \<and> fld v ''status'' = JStr ''passed'' \<and> fld v ''candidateSha'' = sha)"

definition verificationTimeout :: "'w podPorts \<Rightarrow> int \<Rightarrow> int \<Rightarrow> ('w, int) pod" where
  "verificationTimeout p deadlineAt phaseDeadlineAt =
     bindE (remainingMs p deadlineAt phaseDeadlineAt) (\<lambda>remaining. ret (min 900 (remaining div 1000)))"

definition passedGate :: "string \<Rightarrow> jsval \<Rightarrow> string \<Rightarrow> jsval \<Rightarrow> jsobj" where
  "passedGate gateName sha why evidence =
     [(''gate'', JStr gateName), (''subjectSha'', sha), (''outcome'', JStr ''passed''), (''why'', JStr why), (''evidence'', evidence)]"

definition verificationGate ::
  "'w podPorts \<Rightarrow> podArgs \<Rightarrow> int \<Rightarrow> attemptInfo \<Rightarrow> jsval \<Rightarrow> jsval \<Rightarrow> jsval \<Rightarrow> ('w, unit) pod" where
  "verificationGate p a deadlineAt at view snapshot candidateSha =
     bindE (verificationTimeout p deadlineAt (at_deadlineAt at)) (\<lambda>t.
     bindE (verifyCall p
       ([(''workspaceRoot'', fld view ''root''),
         (''candidateView'', JObj [(''id'', fld view ''id''), (''root'', fld view ''root''), (''sha'', candidateSha)]),
         (''candidateSnapshot'', snapshot)] @
        (if truthy (at_baseSnapshot at) then [(''baseSnapshot'', at_baseSnapshot at)] else []) @
        [(''expectedSha'', candidateSha), (''profile'', fld (pa_template a) ''verificationProfile''), (''timeoutSeconds'', num t)])) (\<lambda>verification.
     thenE (liftR (checks
       [assertPlainObject verification ''trusted verification receipt'',
        require (passedOn verification candidateSha) ''trusted verification did not pass the exact candidate SHA'']))
     (recordGate p at (passedGate ''trusted-verification'' candidateSha
        ''Trusted verification passed the exact candidate SHA.'' (fld verification ''evidence'')))))"

definition scanGate :: "'w podPorts \<Rightarrow> podArgs \<Rightarrow> attemptInfo \<Rightarrow> jsval \<Rightarrow> ('w, unit) pod" where
  "scanGate p a at candidateSha =
     bindE (sourceCall p ''scan''
       [(''baseSha'', at_baseSha at), (''candidateSha'', candidateSha), (''deadlineAt'', num (at_deadlineAt at))]) (\<lambda>scan.
     thenE (liftR (checks
       [assertPlainObject scan ''pre-publication scan receipt'',
        require (passedOn scan candidateSha) ''pre-publication scan did not pass the exact candidate SHA'']))
     (thenE (recordGate p at (passedGate ''pre-publication-scan'' candidateSha ''The source and commit scan passed.'' (fld scan ''evidence'')))
       (recordGate p at (passedGate ''publication-ready'' candidateSha
          ''The exact tested candidate is ready for isolated publication.''
          (JArr [JStr (''candidate:'' @ strOf candidateSha), JStr (''branch:bimo/'' @ strOf (pa_runId a))])))))"

definition gateCandidate :: "'w podPorts \<Rightarrow> podArgs \<Rightarrow> int \<Rightarrow> attemptInfo \<Rightarrow> (string \<times> jsval) list \<Rightarrow> ('w, jsval) pod" where
  "gateCandidate p a deadlineAt at accepted =
     bindE (integrateCandidate p a deadlineAt at accepted) (\<lambda>(candidateSha, view, snapshot).
     thenE (qaGate p a deadlineAt at view candidateSha)
     (thenE (testingGate p a deadlineAt at view candidateSha)
     (thenE (verificationGate p a deadlineAt at view snapshot candidateSha)
     (thenE (scanGate p a at candidateSha) (ret candidateSha)))))"

definition attemptIn :: "'w podPorts \<Rightarrow> podArgs \<Rightarrow> int \<Rightarrow> attemptInfo \<Rightarrow> (string \<times> jsval) list \<Rightarrow> ('w, jsval) pod" where
  "attemptIn p a deadlineAt at workspaces =
     thenE (storeCall p (AppendEvent ''writers.started''
        (JObj [(''attempt'', num_nat (at_attempt at)), (''slots'', JArr (map JStr writerSlots))])))
     (bindE (writersPhase p a deadlineAt at workspaces) (\<lambda>completed.
      bindE (handover p a deadlineAt at workspaces completed) (\<lambda>accepted.
      thenE (liftR (require (acceptedAll accepted) ''attempt did not produce three accepted writer results''))
      (gateCandidate p a deadlineAt at accepted))))"

definition runAttempt :: "'w podPorts \<Rightarrow> podArgs \<Rightarrow> int \<Rightarrow> attemptInfo \<Rightarrow> ('w, jsval) pod" where
  "runAttempt p a deadlineAt at =
     bindE (createWorktrees p at writerSlots) (attemptIn p a deadlineAt at)"

section \<open>The run\<close>

definition finallyE :: "('s, 'a) io \<Rightarrow> ('s, unit) io \<Rightarrow> ('s, 'a) io" where
  "finallyE m k = bindE (tryE m) (\<lambda>r. thenE k (liftR r))"

definition checkPodArgs :: "podArgs \<Rightarrow> unit res" where
  "checkPodArgs a =
     checks
       [bindR (validatePodTemplate (pa_template a)) (\<lambda>_. Inr ()),
        validatePrompts (pa_prompts a),
        assertPlainObject (pa_assignment a) ''assignment'',
        require (isString (pa_templateDigest a) \<and> reSha256 (strOf (pa_templateDigest a))) ''templateDigest must be a SHA-256 digest'',
        require (nonEmptyString (pa_repository a)) ''repository is required'',
        require (nonEmptyString (pa_baseRevision a)) ''baseRevision is required'',
        require (nonEmptyString (pa_targetBranch a)) ''targetBranch is required'',
        require (nonEmptyString (pa_runId a)) ''runId is required'',
        require (nonEmptyString (pa_stateRoot a)) ''stateRoot is required'']"

definition podDeadline :: "podArgs \<Rightarrow> int \<Rightarrow> int res" where
  "podDeadline a startedAt =
     (let workflowLimit = startedAt + intOf (fld (fld (pa_template a) ''timeouts'') ''workflowSeconds'') * 1000;
          supplied = pa_deadlineAt a in
      bindR (require (\<bar>workflowLimit\<bar> \<le> maxSafeInteger) ''workflow deadline exceeds the safe integer range'') (\<lambda>_.
      if supplied = JUndef then Inr workflowLimit
      else bindR (checks
        [require (isSafeInteger supplied \<and> intOf supplied > startedAt) ''deadlineAt must be a safe integer strictly in the future'',
         require (intOf supplied \<le> workflowLimit) ''deadlineAt cannot extend the workflow budget'']) (\<lambda>_.
        Inr (intOf supplied))))"

definition planAttempt :: "'w podPorts \<Rightarrow> podArgs \<Rightarrow> int \<Rightarrow> attemptInfo \<Rightarrow> jsval \<Rightarrow> ('w, unit) pod" where
  "planAttempt p a deadlineAt at existingDirectories =
     thenE (remainingMs p deadlineAt (at_deadlineAt at))
     (thenE (storeCall p (AppendEvent ''plan.started'' (JObj [(''attempt'', num_nat (at_attempt at)), (''baseSha'', at_baseSha at)])))
     (bindE (sourceCall p ''createReadView''
        [(''id'', JStr (attemptId at ''planner'')), (''sha'', at_baseSha at), (''deadlineAt'', num (at_deadlineAt at))]) (\<lambda>view.
      bindE (getS pc_prior) (\<lambda>prior.
      bindE (liftR (podPrompt (promptFor a ''planner'') ''planner''
        [(''assignment'', pa_assignment a), (''attempt'', num_nat (at_attempt at)), (''baseSha'', at_baseSha at),
         (''priorAttempts'', JArr prior)])) (\<lambda>prompt.
      thenE (liftR (require (\<not> nullish view) typeError))
      (bindE (runAgent p a deadlineAt at (attemptId at ''planner'') ''planner'' ''read'' prompt (fld view ''id'') (JArr [])) (\<lambda>raw.
       bindE (liftR (receiptOf raw ''attempt plan'')) (\<lambda>planReceipt.
       bindE (liftR (validateAttemptPlan (pp_lower p) planReceipt (pa_template a) (at_baseSha at) existingDirectories)) (\<lambda>plan.
       thenE (modS (\<lambda>s. s\<lparr>pc_plan := plan\<rparr>))
       (thenE (liftR (require (fld plan ''attempt'' = num_nat (at_attempt at)) ''attempt plan does not match the active attempt''))
       (thenE (storeCall p (WriteAttemptPlan (num_nat (at_attempt at)) plan))
       (thenE (storeCall p (AppendEvent ''plan.finished'' (JObj [(''attempt'', num_nat (at_attempt at))])))
         (ret ())))))))))))))"

definition readyResult :: "podArgs \<Rightarrow> jsval \<Rightarrow> jsval \<Rightarrow> jsval" where
  "readyResult a baseSha candidateSha =
     JObj [(''status'', JStr ''ready''), (''runId'', pa_runId a), (''baseSha'', baseSha), (''candidateSha'', candidateSha),
           (''branch'', JStr (branchOf a))]"

definition tryAttempt :: "'w podPorts \<Rightarrow> podArgs \<Rightarrow> int \<Rightarrow> attemptInfo \<Rightarrow> jsval \<Rightarrow> ('w, jsval) pod" where
  "tryAttempt p a deadlineAt at existingDirectories =
     thenE (planAttempt p a deadlineAt at existingDirectories)
     (bindE (runAttempt p a deadlineAt at) (\<lambda>candidateSha.
      thenE (storeCall p (AppendEvent ''publication.ready''
        (JObj [(''attempt'', num_nat (at_attempt at)), (''repository'', pa_repository a), (''targetBranch'', pa_targetBranch a),
               (''baseSha'', at_baseSha at), (''candidateSha'', candidateSha), (''headBranch'', JStr (branchOf a))])))
      (thenE (modS (\<lambda>s. s\<lparr>pc_ready := True\<rparr>)) (ret (readyResult a (at_baseSha at) candidateSha)))))"

definition attemptEvidence :: "nat \<Rightarrow> err \<Rightarrow> 'w podState \<Rightarrow> jsval" where
  "attemptEvidence attempt e s =
     JObj [(''attempt'', num_nat attempt), (''plan'', pc_plan s), (''workResults'', JArr (pc_work s)),
           (''gates'', JArr (pc_gates s)), (''reason'', JStr (reasonOf e))]"

definition failAttempt :: "'w podPorts \<Rightarrow> nat \<Rightarrow> bool \<Rightarrow> err \<Rightarrow> ('w, unit) pod" where
  "failAttempt p attempt lastAttempt e =
     bindE (getS pc_ready) (\<lambda>ready.
     if ready then throwE e
     else
       thenE (modS (\<lambda>s. s\<lparr>pc_prior := pc_prior s @ [attemptEvidence attempt e s]\<rparr>))
       (thenE (storeCall p (AppendEvent ''attempt.failed'' (JObj [(''attempt'', num_nat attempt), (''reason'', JStr (reasonOf e))])))
       (if terminalInterruption e \<or> lastAttempt then throwE e else ret ())))"

definition startAttempt :: "'w podPorts \<Rightarrow> podArgs \<Rightarrow> int \<Rightarrow> ('w, int) pod" where
  "startAttempt p a deadlineAt =
     bindE (nowFrom p) (\<lambda>now.
     thenE (modS (\<lambda>s. s\<lparr>pc_plan := JNull, pc_work := [], pc_gates := [], pc_inboxRequest := None, pc_initial := []\<rparr>))
       (ret (min deadlineAt (now + intOf (fld (fld (pa_template a) ''timeouts'') ''attemptSeconds'') * 1000))))"

fun attemptLoop ::
  "'w podPorts \<Rightarrow> podArgs \<Rightarrow> int \<Rightarrow> jsval \<Rightarrow> jsval \<Rightarrow> jsval \<Rightarrow> nat \<Rightarrow> nat \<Rightarrow> ('w, jsval) pod" where
  "attemptLoop p a deadlineAt baseSha baseSnapshot existingDirectories attempt 0 = throwE ''pod exhausted attempts''"
| "attemptLoop p a deadlineAt baseSha baseSnapshot existingDirectories attempt (Suc left) =
     bindE (startAttempt p a deadlineAt) (\<lambda>attemptDeadlineAt.
     let at = \<lparr>at_attempt = attempt, at_baseSha = baseSha, at_baseSnapshot = baseSnapshot, at_deadlineAt = attemptDeadlineAt\<rparr> in
     bindE (tryE (tryAttempt p a deadlineAt at existingDirectories)) (\<lambda>r.
     case r of
       Inr result \<Rightarrow> ret result
     | Inl e \<Rightarrow> thenE (failAttempt p attempt (left = 0) e)
                  (attemptLoop p a deadlineAt baseSha baseSnapshot existingDirectories (Suc attempt) left)))"

definition preflight :: "'w podPorts \<Rightarrow> podArgs \<Rightarrow> int \<Rightarrow> jsval \<Rightarrow> jsval \<Rightarrow> ('w, unit) pod" where
  "preflight p a deadlineAt baseSha baseSnapshot =
     (let profile = fld (pa_template a) ''verificationProfile'' in
      if profile \<noteq> JStr ''pi-palantir-v1'' then ret ()
      else
        thenE (storeCall p (AppendEvent ''verification.preflight.started'' (JObj [(''baseSha'', baseSha), (''profile'', profile)])))
        (bindE (verificationTimeout p deadlineAt deadlineAt) (\<lambda>t.
         bindE (verifyCall p [(''candidateSnapshot'', baseSnapshot), (''baseSnapshot'', baseSnapshot), (''expectedSha'', baseSha),
           (''profile'', profile), (''timeoutSeconds'', num t)]) (\<lambda>receipt.
         thenE (liftR (checks
           [assertPlainObject receipt ''repository preflight receipt'',
            require (passedOn receipt baseSha) ''repository verification preflight did not pass the exact base SHA'']))
         (thenE (storeCall p (AppendEvent ''verification.preflight.passed'' (JObj [(''baseSha'', baseSha), (''profile'', profile)])))
           (ret ()))))))"

definition podBody :: "'w podPorts \<Rightarrow> podArgs \<Rightarrow> int \<Rightarrow> ('w, jsval) pod" where
  "podBody p a deadlineAt =
     thenE (storeCall p (AppendEvent ''run.started''
       (JObj [(''template'', fld (pa_template a) ''name''), (''templateDigest'', pa_templateDigest a), (''runId'', pa_runId a),
              (''stateRoot'', pa_stateRoot a)])))
     (bindE (sourceCall p ''prepareAssignment''
        [(''repository'', pa_repository a), (''baseRevision'', pa_baseRevision a), (''targetBranch'', pa_targetBranch a),
         (''deadlineAt'', num deadlineAt)]) (\<lambda>prepared.
      thenE (liftR (assertPlainObject prepared ''prepared assignment''))
      (bindE (liftR (assertSha (fld prepared ''baseSha'') ''baseSha'')) (\<lambda>baseSha.
       thenE (modS (\<lambda>s. s\<lparr>pc_baseSha := Some baseSha\<rparr>))
       (thenE (liftR (require (isArray (fld prepared ''existingDirectories'')) ''prepared assignment existingDirectories are required''))
       (bindE (sourceCall p ''createSnapshot'' [(''id'', JStr ''run-base''), (''sha'', baseSha), (''deadlineAt'', num deadlineAt)]) (\<lambda>baseSnapshot.
        thenE (liftR (assertPlainObject baseSnapshot ''base snapshot''))
        (thenE (preflight p a deadlineAt baseSha baseSnapshot)
          (attemptLoop p a deadlineAt baseSha baseSnapshot (fld prepared ''existingDirectories'') 1
             (nat (intOf (fld (pa_template a) ''maxAttempts''))))))))))))"

definition failRun :: "'w podPorts \<Rightarrow> podArgs \<Rightarrow> err \<Rightarrow> ('w, jsval) pod" where
  "failRun p a e =
     bindE (getS pc_ready) (\<lambda>ready.
     if ready then throwE e
     else
       thenE (quietCancel p)
       (thenE (usePort (\<lambda>w. ((), pp_drain p w)))
       (bindE (getS pc_baseSha) (\<lambda>baseSha.
        thenE (storeCall p (Finish ''failed'' (JObj
          ([(''runId'', pa_runId a)] @ (case baseSha of None \<Rightarrow> [] | Some sha \<Rightarrow> [(''baseSha'', sha)]) @
           [(''reason'', JStr (reasonOf e))]))))
        (throwE e)))))"

definition closeSource :: "'w podPorts \<Rightarrow> ('w, unit) pod" where
  "closeSource p =
     bindE (getS pc_ready) (\<lambda>ready.
     catchE (thenE (sourceCall p ''close'' [(''retainForPublication'', JBool ready)]) (ret ()))
       (\<lambda>e. if ready then ret () else throwE e))"

definition runEngineeringPod :: "'w podPorts \<Rightarrow> podArgs \<Rightarrow> ('w, jsval) pod" where
  "runEngineeringPod p a =
     thenE (liftR (checkPodArgs a))
     (bindE (nowFrom p) (\<lambda>startedAt.
      bindE (liftR (podDeadline a startedAt)) (\<lambda>deadlineAt.
      finallyE (catchE (podBody p a deadlineAt) (failRun p a)) (closeSource p))))"

definition podStart :: "'w \<Rightarrow> 'w podState" where
  "podStart w = \<lparr>pc_world = w, pc_calls = [], pc_ready = False, pc_cancellation = None, pc_prior = [], pc_baseSha = None,
     pc_plan = JNull, pc_work = [], pc_gates = [], pc_inboxRequest = None, pc_initial = []\<rparr>"

end
