(* ===== verification/Pod_Controller_Gates.thy ===== *)
theory Pod_Controller_Gates
  imports Pod_Controller
begin

text \<open>
  What a pod run guarantees, whatever the agents, the source control, the verifier, the store and
  the clock do: the bounds of every agent execution, and the gates behind a candidate that is declared
  ready.
\<close>

section \<open>Bounds on every call of the body\<close>

definition agentOk :: "podArgs \<Rightarrow> jsval \<Rightarrow> bool" where
  "agentOk a input \<longleftrightarrow>
     10 \<le> intOf (fld input ''timeoutSeconds'') \<and> intOf (fld input ''timeoutSeconds'') \<le> executionLimit a \<and>
     byteLength (strOf (fld input ''prompt'')) \<le> maxPodPromptBytes \<and>
     (fld input ''access'' = JStr ''read'' \<and> fld input ''writeDirectories'' = JArr [] \<or>
      fld input ''access'' = JStr ''write'' \<and> fld input ''role'' \<in> JStr ` set writerSlots)"

fun bodyCall :: "podArgs \<Rightarrow> podCall \<Rightarrow> bool" where
  "bodyCall a (CAgent input _) = agentOk a input"
| "bodyCall a (CStart slot input) = (agentOk a input \<and> fld input ''role'' = JStr slot \<and> fld input ''access'' = JStr ''write'')"
| "bodyCall a (CStore op _) = (case op of Finish _ _ \<Rightarrow> False | _ \<Rightarrow> True)"
| "bodyCall a (CSource method _ _) = (method \<noteq> ''close'')"
| "bodyCall a _ = True"

abbreviation body :: "podArgs \<Rightarrow> ('w, 'x) pod \<Rightarrow> bool" where
  "body a \<equiv> only pc_calls (bodyCall a)"

lemma only_bind_lift [only_rules]: "(\<And>x. r = Inr x \<Longrightarrow> only tr C (f x)) \<Longrightarrow> only tr C (bindE (liftR r) f)"
  by (cases r) (auto simp: only_def bindE_def liftR_def)

lemma only_then_lift [only_rules]: "(\<And>x. r = Inr x \<Longrightarrow> only tr C k) \<Longrightarrow> only tr C (thenE (liftR r) k)"
  unfolding thenE_def by (rule only_bind_lift)

lemma only_usePort [only_rules]: "only pc_calls C (usePort f)"
  by (auto simp: only_def usePort_def split: prod.splits)

lemma only_callPort: "(\<And>r. C (mk r)) \<Longrightarrow> only pc_calls C (callPort mk f)"
  by (auto simp: only_def callPort_def split: prod.splits)

lemma body_store [only_rules]: "(\<And>st d. op \<noteq> Finish st d) \<Longrightarrow> body a (storeCall p op)"
  unfolding storeCall_def by (rule only_callPort) (cases op; auto)

lemma body_source [only_rules]: "method \<noteq> ''close'' \<Longrightarrow> body a (sourceCall p method input)"
  unfolding sourceCall_def by (rule only_callPort) simp

lemma body_verify [only_rules]: "body a (verifyCall p input)"
  unfolding verifyCall_def by (rule only_callPort) simp

lemma only_tryE [only_rules]: "only tr C m \<Longrightarrow> only tr C (tryE m)"
  unfolding tryE_def by (intro only_rules)

lemma body_now [only_rules]: "body a (nowFrom p)"
  unfolding nowFrom_def by (intro only_rules)

lemma body_remaining [only_rules]: "body a (remainingMs p d e)"
  unfolding remainingMs_def Let_def by (intro only_rules)

lemma body_seconds [only_rules]: "body a (executionSeconds p a' d e)"
  unfolding executionSeconds_def Let_def by (intro only_rules)

lemma body_timeout [only_rules]: "body a (verificationTimeout p d e)"
  unfolding verificationTimeout_def by (intro only_rules)

lemma body_cancel [only_rules]: "body a (cancelActive p)"
  unfolding cancelActive_def by (intro only_rules only_callPort) simp_all

lemma body_quiet [only_rules]: "body a (quietCancel p)"
  unfolding quietCancel_def by (intro only_rules)

lemma body_interrupted [only_rules]: "body a (interrupted p e)"
  unfolding interrupted_def by (intro only_rules)

lemma executionSeconds_Inr:
  "executionSeconds p a d e s = (Inr t, s') \<Longrightarrow> 10 \<le> executionLimit a \<Longrightarrow> 10 \<le> t \<and> t \<le> executionLimit a"
  unfolding executionSeconds_def Let_def by (auto simp: run_Inr res_simps)

lemma agentInput_ok:
  assumes "10 \<le> t" and "t \<le> executionLimit a" and "byteLength prompt \<le> maxPodPromptBytes"
    and "access = ''read'' \<and> dirs = JArr [] \<or> access = ''write'' \<and> role \<in> set writerSlots"
  shows "agentOk a (agentInput a execution role attempt access prompt ws dirs t)"
  using assms by (auto simp: agentOk_def agentInput_def num_def)

lemma only_bind_result:
  assumes "only tr C m" and "\<And>s x s'. m s = (Inr x, s') \<Longrightarrow> Q x" and "\<And>x. Q x \<Longrightarrow> only tr C (f x)"
  shows "only tr C (bindE m f)"
  unfolding only_def
proof (intro allI impI)
  fix s r s' assume "bindE m f s = (r, s')"
  then show "\<exists>cs. tr s' = tr s @ cs \<and> list_all C cs"
  proof (cases rule: bindE_elim)
    case (throw e)
    then show ?thesis using onlyD [OF assms(1)] by blast
  next
    case (continue x t)
    obtain cs where cs: "tr t = tr s @ cs" "list_all C cs" using onlyD [OF assms(1) continue(1)] by blast
    obtain ds where "tr s' = tr t @ ds" "list_all C ds"
      using onlyD [OF assms(3) [OF assms(2) [OF continue(1)]] continue(2)] by blast
    with cs show ?thesis by (intro exI [of _ "cs @ ds"]) simp
  qed
qed

lemma body_runAgent [only_rules]:
  assumes "10 \<le> executionLimit a" and "byteLength prompt \<le> maxPodPromptBytes"
    and "access = ''read'' \<and> dirs = JArr [] \<or> access = ''write'' \<and> role \<in> set writerSlots"
  shows "body a (runAgent p a d at execution role access prompt ws dirs)"
  unfolding runAgent_def Let_def
  by (intro only_thenE body_remaining only_bind_result [OF body_seconds, where Q = "\<lambda>t. 10 \<le> t \<and> t \<le> executionLimit a"])
    (use assms in \<open>auto dest: executionSeconds_Inr intro!: only_callPort agentInput_ok\<close>)

lemma podPrompt_fits: "podPrompt i ph ds = Inr prompt \<Longrightarrow> byteLength prompt \<le> maxPodPromptBytes"
  by (auto simp: podPrompt_def Let_def res_simps bindR_Inr)

lemma writerPrompt_fits: "writerPrompt a plan prior slot inbox sha = Inr prompt \<Longrightarrow> byteLength prompt \<le> maxPodPromptBytes"
  unfolding writerPrompt_def Let_def by (rule podPrompt_fits)

lemma body_recordWork [only_rules]: "body a (recordWorkResult p at r)"
  unfolding recordWorkResult_def Let_def by (intro only_rules) simp_all

lemma body_recordGate [only_rules]: "body a (recordGate p at r)"
  unfolding recordGate_def by (intro only_rules) simp_all

lemma body_commit [only_rules]: "body a (commitWriterResult p a' d at item ws receipt)"
  unfolding commitWriterResult_def by (intro only_rules) simp

lemma body_check [only_rules]:
  "10 \<le> executionLimit a \<Longrightarrow> body a (checkWriterResult p a d at slot result inbox cur)"
  unfolding checkWriterResult_def Let_def by (intro only_rules) (auto dest: podPrompt_fits)

lemma body_execute [only_rules]:
  "10 \<le> executionLimit a \<Longrightarrow> slot \<in> set writerSlots \<Longrightarrow> body a (executeWriter p a d at slot ws inbox execution sha)"
  unfolding executeWriter_def by (intro only_rules) (auto dest: writerPrompt_fits)

lemma body_prepare [only_rules]: "body a (prepareWriters p a' d at ws)"
proof (induction ws)
  case (Cons w ws)
  then show ?case by (cases w) (simp, intro only_rules)
qed (simp add: only_basic)

lemma tryE_Inr: "tryE m s = (r, s') \<longleftrightarrow> (\<exists>q. r = Inr q \<and> m s = (q, s'))"
  by (auto simp: tryE_def io_defs split: prod.splits sum.splits)

definition preparedOk :: "(string \<times> jsval \<times> string) list \<Rightarrow> bool" where
  "preparedOk ps \<longleftrightarrow> (\<forall>(slot, ws, prompt) \<in> set ps. slot \<in> set writerSlots \<and> byteLength prompt \<le> maxPodPromptBytes)"

lemma prepareWriters_ok:
  "prepareWriters p a d at ws s = (Inr (ps, e), s') \<Longrightarrow> fst ` set ws \<subseteq> set writerSlots \<Longrightarrow> preparedOk ps"
proof (induction ws arbitrary: ps e s s')
  case (Cons w ws)
  obtain slot v where w: "w = (slot, v)" by (cases w)
  from Cons.prems(1) show ?case unfolding w prepareWriters.simps
  proof (elim bindE_elim)
    fix plan prior r s1 s2 s3
    assume r: "tryE (bindE (liftR (writerPrompt a plan prior slot [] (at_baseSha at))) (\<lambda>prompt.
              thenE (remainingMs p d (at_deadlineAt at)) (ret prompt))) s2 = (Inr r, s3)"
      and rest: "(case r of Inl e \<Rightarrow> ret ([], Some e) | Inr prompt \<Rightarrow>
          bindE (prepareWriters p a d at ws) (\<lambda>(ps, e). ret ((slot, v, prompt) # ps, e))) s3 = (Inr (ps, e), s')"
    show ?thesis
    proof (cases r)
      case (Inl x)
      with rest show ?thesis by (simp add: preparedOk_def)
    next
      case (Inr prompt)
      with r have fits: "byteLength prompt \<le> maxPodPromptBytes"
        by (auto simp: tryE_Inr run_Inr dest: writerPrompt_fits)
      from rest Inr obtain qs f s4 where q: "prepareWriters p a d at ws s3 = (Inr (qs, f), s4)" and ps: "ps = (slot, v, prompt) # qs"
        by (auto simp: run_Inr)
      have "preparedOk qs" using Cons.IH [OF q] Cons.prems(2) by simp
      then show ?thesis using fits Cons.prems(2) by (simp add: preparedOk_def ps w)
    qed
  qed auto
qed (simp add: preparedOk_def)

lemma body_launch:
  assumes "10 \<le> executionLimit a" and "preparedOk ps"
  shows "body a (launchWriters p a d at ps)"
  using assms(2)
proof (induction ps)
  case (Cons q ps)
  obtain slot ws prompt where q: "q = (slot, ws, prompt)" by (cases q)
  have ok: "slot \<in> set writerSlots" "byteLength prompt \<le> maxPodPromptBytes" and IH: "body a (launchWriters p a d at ps)"
    using Cons by (auto simp: preparedOk_def q)
  have "body a (case r of Inl e \<Rightarrow> ret (slot, Some e) | Inr t \<Rightarrow>
      let input = agentInput a (attemptId at slot) slot (at_attempt at) ''write'' prompt (fld ws ''id'') (fld ws ''writeDirectories'') t in
      thenE (usePort (\<lambda>w. ((), pp_start p slot input w)))
        (thenE (modS (\<lambda>s. s\<lparr>pc_calls := pc_calls s @ [CStart slot input]\<rparr>)) (ret (slot, None))))"
    if "\<forall>t. r = Inr t \<longrightarrow> 10 \<le> t \<and> t \<le> executionLimit a" for r
  proof -
    have "body a (modS (\<lambda>s. s\<lparr>pc_calls := pc_calls s @ [CStart slot (agentInput a (attemptId at slot) slot (at_attempt at) ''write'' prompt (fld ws ''id'') (fld ws ''writeDirectories'') t)]\<rparr>))"
      if "r = Inr t" for t
      using agentInput_ok [of t a prompt "''write''" "fld ws ''writeDirectories''" slot] ok that \<open>\<forall>t. r = Inr t \<longrightarrow> _\<close>
      by (auto simp: only_def) (simp_all add: agentInput_def)
    then show ?thesis unfolding Let_def by (cases r) (auto intro!: only_basic only_thenE only_usePort)
  qed
  moreover have "tryE (executionSeconds p a d (at_deadlineAt at)) s = (Inr r, s') \<Longrightarrow> \<forall>t. r = Inr t \<longrightarrow> 10 \<le> t \<and> t \<le> executionLimit a" for s r s'
    using assms(1) by (auto simp: tryE_Inr dest: executionSeconds_Inr)
  ultimately show ?case
    unfolding q launchWriters.simps
    by (intro only_bind_result [OF only_tryE [OF body_seconds], where Q = "\<lambda>r. \<forall>t. r = Inr t \<longrightarrow> 10 \<le> t \<and> t \<le> executionLimit a"]
        only_bindE IH only_basic)
qed (simp add: only_basic)

lemma body_active [only_rules]: "body a (activeSlot p pending slot)"
  unfolding activeSlot_def by (intro only_rules)

lemma body_queue [only_rules]:
  "10 \<le> executionLimit a \<Longrightarrow> body a (queueDependency p a d at wss pending slot receipt)"
  unfolding queueDependency_def Let_def by (intro only_rules) simp_all

lemma body_take [only_rules]:
  "10 \<le> executionLimit a \<Longrightarrow> body a (takeReceipt p a d at wss pending slot v)"
  unfolding takeReceipt_def by (intro only_rules) simp_all

lemma body_settle [only_rules]:
  "10 \<le> executionLimit a \<Longrightarrow> body a (settleWriter p a d at wss pending slot out first)"
  unfolding settleWriter_def by (intro only_rules) simp_all

lemma body_raceNext [only_rules]: "body a (raceNext p pending)"
  unfolding raceNext_def Let_def
  by (rule only_bindE [OF only_usePort]) (auto simp: only_def split: prod.splits elim!: run_elims)

lemma body_race [only_rules]:
  assumes "10 \<le> executionLimit a"
  shows "body a (raceLoop p a d at wss n pending first)"
proof (induction n arbitrary: pending first)
  case (Suc n)
  then show ?case unfolding raceLoop.simps Let_def by (intro only_rules assms)
qed (simp add: only_basic)

lemma body_worktrees [only_rules]: "body a (createWorktrees p at slots)"
proof (induction slots)
  case (Cons slot slots)
  then show ?case unfolding createWorktrees.simps by (intro only_rules) simp
qed (simp add: only_basic)

lemma body_commitCompleted [only_rules]: "body a (commitCompleted p a' d at wss initial slots)"
proof (induction slots)
  case (Cons slot slots)
  then show ?case unfolding commitCompleted.simps Let_def by (intro only_rules)
qed (simp add: only_basic)

lemma body_checkCompleted [only_rules]:
  assumes "10 \<le> executionLimit a"
  shows "body a (checkCompleted p a d at results)"
proof (induction results)
  case (Cons q qs)
  then show ?case by (cases q) (simp, intro only_rules assms)
qed (simp add: only_basic)

lemma body_writers [only_rules]:
  assumes "10 \<le> executionLimit a" and "fst ` set wss \<subseteq> set writerSlots"
  shows "body a (writersPhase p a d at wss)"
  unfolding writersPhase_def
  by (intro only_bind_result [OF body_prepare, where Q = "\<lambda>(ps, e). preparedOk ps"])
    (use assms in \<open>auto dest: prepareWriters_ok intro!: only_rules body_launch only_bindE\<close>)

lemma body_owner [only_rules]: "10 \<le> executionLimit a \<Longrightarrow> body a (resumeOwner p a d at wss acc)"
  unfolding resumeOwner_def by (intro only_rules) (simp_all add: writerSlots_def)

lemma body_requester [only_rules]: "10 \<le> executionLimit a \<Longrightarrow> body a (resumeRequester p a d at req r)"
  unfolding resumeRequester_def Let_def by (intro only_rules) (simp_all add: writerSlots_def)

lemma body_handover [only_rules]: "10 \<le> executionLimit a \<Longrightarrow> body a (handover p a d at wss acc)"
  unfolding handover_def by (intro only_rules)

lemma body_integrate [only_rules]: "body a (integrateCandidate p a' d at acc)"
  unfolding integrateCandidate_def by (intro only_rules) simp_all

lemma body_review:
  "10 \<le> executionLimit a \<Longrightarrow> body a (reviewGate p a d at role ex ph gf l vd view sha)"
  unfolding reviewGate_def by (intro only_rules) (auto dest: podPrompt_fits)

lemma body_gates [only_rules]:
  "10 \<le> executionLimit a \<Longrightarrow> body a (qaGate p a d at view sha)"
  "10 \<le> executionLimit a \<Longrightarrow> body a (testingGate p a d at view sha)"
  "body a (verificationGate p a' d at view snap sha)" "body a (scanGate p a' at sha)"
  unfolding qaGate_def testingGate_def verificationGate_def scanGate_def
  by (auto intro!: body_review only_rules)

lemma createWorktrees_slots: "createWorktrees p at slots s = (Inr wss, s') \<Longrightarrow> map fst wss = slots"
  by (induction slots arbitrary: s wss) (auto simp: run_Inr)

lemma body_attemptIn:
  "10 \<le> executionLimit a \<Longrightarrow> fst ` set wss \<subseteq> set writerSlots \<Longrightarrow> body a (attemptIn p a d at wss)"
  unfolding attemptIn_def gateCandidate_def by (intro only_rules) simp_all

lemma body_runAttempt [only_rules]:
  assumes "10 \<le> executionLimit a"
  shows "body a (runAttempt p a d at)"
  unfolding runAttempt_def
proof (rule only_bind_result [OF body_worktrees])
  fix wss :: "(string \<times> jsval) list" assume "map fst wss = writerSlots"
  then have "fst ` set wss \<subseteq> set writerSlots" by (metis image_set order_refl)
  then show "body a (attemptIn p a d at wss)" by (rule body_attemptIn [OF assms])
qed (rule createWorktrees_slots)

lemma body_planAttempt [only_rules]: "10 \<le> executionLimit a \<Longrightarrow> body a (planAttempt p a d at dirs)"
  unfolding planAttempt_def by (intro only_rules) (auto dest: podPrompt_fits)

lemma body_tryAttempt [only_rules]: "10 \<le> executionLimit a \<Longrightarrow> body a (tryAttempt p a d at dirs)"
  unfolding tryAttempt_def by (intro only_rules) simp_all

lemma body_failAttempt [only_rules]: "body a (failAttempt p n l e)"
  unfolding failAttempt_def by (intro only_rules) simp_all

lemma body_startAttempt [only_rules]: "body a (startAttempt p a' d)"
  unfolding startAttempt_def by (intro only_rules) simp_all

lemma body_loop [only_rules]:
  assumes "10 \<le> executionLimit a"
  shows "body a (attemptLoop p a d sha snap dirs n left)"
proof (induction left arbitrary: n)
  case (Suc left)
  then show ?case unfolding attemptLoop.simps Let_def by (intro only_rules assms)
qed (simp add: only_basic)

lemma body_preflight [only_rules]: "body a (preflight p a' d sha snap)"
  unfolding preflight_def Let_def by (intro only_rules) simp_all

lemma body_podBody: "10 \<le> executionLimit a \<Longrightarrow> body a (podBody p a d)"
  unfolding podBody_def by (intro only_rules) simp_all

section \<open>What an attempt leaves alone\<close>

definition stable :: "('w podState \<Rightarrow> bool) \<Rightarrow> bool" where
  "stable P \<longleftrightarrow> (\<forall>s s'. pc_plan s = pc_plan s' \<longrightarrow> pc_ready s = pc_ready s' \<longrightarrow> P s \<longrightarrow> P s')"

lemma stableD: "stable P \<Longrightarrow> P s \<Longrightarrow> pc_plan s' = pc_plan s \<Longrightarrow> pc_ready s' = pc_ready s \<Longrightarrow> P s'"
  unfolding stable_def by metis

lemma stable_modS [keeps_rules]:
  "stable P \<Longrightarrow> (\<And>s. pc_plan (f s) = pc_plan s) \<Longrightarrow> (\<And>s. pc_ready (f s) = pc_ready s) \<Longrightarrow> keeps P (modS f)"
  by (rule keepsI) (auto elim: stableD)

lemma stable_usePort [keeps_rules]: "stable P \<Longrightarrow> keeps P (usePort f)"
  by (rule keepsI) (auto simp: usePort_def elim: stableD split: prod.splits)

lemma stable_callPort [keeps_rules]: "stable P \<Longrightarrow> keeps P (callPort mk f)"
  by (rule keepsI) (auto simp: callPort_def elim: stableD split: prod.splits)

lemma keeps_tryE [keeps_rules]: "keeps P m \<Longrightarrow> keeps P (tryE m)"
  unfolding tryE_def by (intro keeps_rules)

lemma stable_ports [keeps_rules]:
  assumes "stable P"
  shows "keeps P (storeCall p op)" "keeps P (sourceCall p method input)" "keeps P (verifyCall p input)"
  unfolding storeCall_def sourceCall_def verifyCall_def by (intro keeps_rules assms)+

lemma stable_time [keeps_rules]:
  assumes "stable P"
  shows "keeps P (nowFrom p)" "keeps P (remainingMs p d e)" "keeps P (executionSeconds p a d e)" "keeps P (verificationTimeout p d e)"
  unfolding nowFrom_def remainingMs_def executionSeconds_def verificationTimeout_def Let_def
  by (intro keeps_thenE keeps_bindE keeps_basic stable_usePort assms)+

lemma stable_cancel [keeps_rules]:
  assumes "stable P"
  shows "keeps P (cancelActive p)" "keeps P (quietCancel p)" "keeps P (interrupted p e)"
proof -
  show "keeps P (cancelActive p)"
    unfolding cancelActive_def by (intro keeps_option keeps_bindE keeps_thenE keeps_catchE keeps_basic stable_callPort stable_modS assms) simp_all
  then show "keeps P (quietCancel p)" "keeps P (interrupted p e)"
    unfolding interrupted_def quietCancel_def by (auto intro!: keeps_catchE keeps_if keeps_basic)
qed

lemma stable_runAgent [keeps_rules]: "stable P \<Longrightarrow> keeps P (runAgent p a d at ex role access prompt ws dirs)"
  unfolding runAgent_def Let_def by (intro keeps_thenE keeps_bindE stable_time stable_callPort)

lemma stable_record [keeps_rules]:
  assumes "stable P"
  shows "keeps P (recordWorkResult p at r)" "keeps P (recordGate p at g)"
  unfolding recordWorkResult_def recordGate_def Let_def
  by (intro keeps_thenE stable_modS stable_ports keeps_basic assms; simp)+

lemmas steady = keeps_thenE keeps_bindE keeps_basic keeps_if keeps_option keeps_sum keeps_prod keeps_tryE keeps_catchE
  stable_ports stable_time stable_cancel stable_runAgent stable_record stable_usePort stable_callPort

lemma stable_commit: "stable P \<Longrightarrow> keeps P (commitWriterResult p a d at item ws receipt)"
  unfolding commitWriterResult_def by (intro steady)

lemma stable_check: "stable P \<Longrightarrow> keeps P (checkWriterResult p a d at slot result inbox cur)"
  unfolding checkWriterResult_def Let_def by (intro steady)

lemma stable_execute: "stable P \<Longrightarrow> keeps P (executeWriter p a d at slot ws inbox ex sha)"
  unfolding executeWriter_def by (intro steady)

lemma stable_prepare: "stable P \<Longrightarrow> keeps P (prepareWriters p a d at ws)"
proof (induction ws)
  case (Cons w ws)
  then show ?case by (cases w) (simp, intro steady)
qed (simp add: keeps_basic)

lemma stable_launch: "stable P \<Longrightarrow> keeps P (launchWriters p a d at ps)"
proof (induction ps)
  case (Cons q ps)
  obtain slot ws prompt where "q = (slot, ws, prompt)" by (cases q)
  with Cons show ?case by (simp only: launchWriters.simps Let_def) (intro steady stable_modS, simp_all)
qed (simp add: keeps_basic)

lemma stable_queue: "stable P \<Longrightarrow> keeps P (queueDependency p a d at wss pending slot receipt)"
  unfolding queueDependency_def activeSlot_def Let_def
  by (intro steady stable_modS stable_commit stable_check) simp_all

lemma stable_take: "stable P \<Longrightarrow> keeps P (takeReceipt p a d at wss pending slot v)"
  unfolding takeReceipt_def by (intro steady stable_modS stable_queue) simp_all

lemma stable_settle: "stable P \<Longrightarrow> keeps P (settleWriter p a d at wss pending slot out first)"
  unfolding settleWriter_def by (intro steady stable_take)

lemma stable_raceNext: "stable P \<Longrightarrow> keeps P (raceNext p pending)"
  unfolding raceNext_def Let_def by (intro steady stable_modS) simp_all

lemma stable_race: "stable P \<Longrightarrow> keeps P (raceLoop p a d at wss n pending first)"
proof (induction n arbitrary: pending first)
  case (Suc n)
  then show ?case unfolding raceLoop.simps Let_def by (intro steady stable_raceNext stable_settle)
qed (simp add: keeps_basic)

lemma stable_worktrees: "stable P \<Longrightarrow> keeps P (createWorktrees p at slots)"
proof (induction slots)
  case (Cons slot slots)
  then show ?case unfolding createWorktrees.simps by (intro steady)
qed (simp add: keeps_basic)

lemma stable_commitCompleted: "stable P \<Longrightarrow> keeps P (commitCompleted p a d at wss initial slots)"
proof (induction slots)
  case (Cons slot slots)
  then show ?case unfolding commitCompleted.simps Let_def by (intro steady stable_commit)
qed (simp add: keeps_basic)

lemma stable_checkCompleted: "stable P \<Longrightarrow> keeps P (checkCompleted p a d at rs)"
proof (induction rs)
  case (Cons q qs)
  then show ?case by (cases q) (simp, intro steady stable_check)
qed (simp add: keeps_basic)

lemma stable_writers: "stable P \<Longrightarrow> keeps P (writersPhase p a d at wss)"
  unfolding writersPhase_def
  by (intro steady stable_prepare stable_launch stable_race stable_commitCompleted stable_checkCompleted)

lemma stable_handover: "stable P \<Longrightarrow> keeps P (handover p a d at wss acc)"
  unfolding handover_def resumeOwner_def resumeRequester_def Let_def
  by (intro steady stable_execute stable_commit stable_check)

lemma stable_gates: "stable P \<Longrightarrow> keeps P (gateCandidate p a d at acc)"
  unfolding gateCandidate_def integrateCandidate_def qaGate_def testingGate_def reviewGate_def verificationGate_def scanGate_def
  by (intro steady)

lemma stable_runAttempt: "stable P \<Longrightarrow> keeps P (runAttempt p a d at)"
  unfolding runAttempt_def attemptIn_def
  by (intro steady stable_worktrees stable_writers stable_handover stable_gates)

section \<open>How a run ends\<close>

lemma stable_notReady: "stable (\<lambda>s. \<not> pc_ready s)"
  by (simp add: stable_def)

lemma plan_notReady: "keeps (\<lambda>s. \<not> pc_ready s) (planAttempt p a d at dirs)"
  unfolding planAttempt_def by (intro steady stable_notReady keeps_modS) simp

lemma tryAttempt_ready: "reaches (\<lambda>s. \<not> pc_ready s) pc_ready (tryAttempt p a d at dirs)"
  unfolding tryAttempt_def
  by (intro reaches_then reaches_bind reaches_last plan_notReady stable_runAttempt stable_ports stable_notReady) simp

lemma failAttempt_ready: "keeps (\<lambda>s. \<not> pc_ready s) (failAttempt p n l e)"
  unfolding failAttempt_def by (intro steady stable_notReady keeps_modS) simp

lemma startAttempt_ready: "keeps (\<lambda>s. \<not> pc_ready s) (startAttempt p a d)"
  unfolding startAttempt_def by (intro steady stable_notReady keeps_modS) simp

lemma reaches_retry:
  assumes "reaches P A m" and "\<And>e. reaches P A (h e)"
  shows "reaches P A (bindE (tryE m) (\<lambda>r. case r of Inr x \<Rightarrow> ret x | Inl e \<Rightarrow> h e))"
  unfolding reaches_def
proof (intro allI impI)
  fix s r s' assume P: "P s" and "bindE (tryE m) (\<lambda>r. case r of Inr x \<Rightarrow> ret x | Inl e \<Rightarrow> h e) s = (r, s')"
  from this(2) show "case r of Inl _ \<Rightarrow> P s' | Inr _ \<Rightarrow> A s'"
  proof (cases rule: bindE_elim)
    case (continue q t)
    then have m: "m s = (q, t)" by (simp add: tryE_Inr)
    show ?thesis
    proof (cases q)
      case (Inl e)
      then show ?thesis using reachesD [OF assms(1) m P] continue(2) reachesD [OF assms(2)] by auto
    next
      case (Inr x)
      then show ?thesis using reachesD [OF assms(1) m P] continue(2) by auto
    qed
  qed (simp add: tryE_Inr)
qed

lemma attemptLoop_ready: "reaches (\<lambda>s. \<not> pc_ready s) pc_ready (attemptLoop p a d sha snap dirs n left)"
proof (induction left arbitrary: n)
  case (Suc left)
  then show ?case unfolding attemptLoop.simps Let_def
    by (intro reaches_bind [OF startAttempt_ready] reaches_retry tryAttempt_ready reaches_then failAttempt_ready)
qed (simp add: reaches_throw)

lemma podBody_ready: "reaches (\<lambda>s. \<not> pc_ready s) pc_ready (podBody p a d)"
proof -
  have "keeps (\<lambda>s. \<not> pc_ready s) (preflight p a d sha snap)" for sha snap
    unfolding preflight_def Let_def by (intro steady stable_notReady)
  then show ?thesis
    unfolding podBody_def
    by (intro reaches_then reaches_bind attemptLoop_ready stable_ports stable_notReady keeps_basic keeps_modS) simp_all
qed

definition closeCall :: "bool \<Rightarrow> jsval res \<Rightarrow> podCall" where
  "closeCall ready q = CSource ''close'' (JObj [(''retainForPublication'', JBool ready)]) q"

lemma closeSource_run:
  "closeSource p s = (r, s') \<Longrightarrow>
   (\<exists>q. pc_calls s' = pc_calls s @ [closeCall (pc_ready s) q]) \<and> (pc_ready s \<longrightarrow> r = Inr ()) \<and> pc_ready s' = pc_ready s"
  unfolding closeSource_def sourceCall_def closeCall_def
  by (elim run_elims) (auto simp: callPort_def split: prod.splits if_splits)

lemma quietCancel_run:
  "quietCancel p s = (r, s') \<Longrightarrow> r = Inr () \<and> (\<exists>cs. pc_calls s' = pc_calls s @ cs \<and> (cs = [] \<or> (\<exists>q. cs = [CCancel q])))"
  unfolding quietCancel_def cancelActive_def
  by (elim run_elims) (auto simp: callPort_def elim!: run_elims split: prod.splits option.splits)

lemma failRun_run:
  assumes "failRun p a e s = (r, s')" and "\<not> pc_ready s"
  shows "(\<exists>f. r = Inl f) \<and> \<not> pc_ready s' \<and>
    (\<exists>cs d q. pc_calls s' = pc_calls s @ cs @ [CStore (Finish ''failed'' d) q] \<and> (cs = [] \<or> (\<exists>c. cs = [CCancel c])))"
proof -
  obtain s1 where one: "quietCancel p s = (Inr (), s1)"
    using quietCancel_run [of p s] by (cases "quietCancel p s") auto
  have "(\<exists>f. r = Inl f) \<and> (\<exists>d q. pc_calls s' = pc_calls s1 @ [CStore (Finish ''failed'' d) q]) \<and> pc_ready s' = pc_ready s1"
    using assms unfolding failRun_def
    by (auto simp: io_defs one usePort_def storeCall_def callPort_def split: prod.splits sum.splits)
  then show ?thesis
    using quietCancel_run [OF one] keepsD [OF stable_cancel(2) [OF stable_notReady] one] assms(2) by auto
qed

lemma template_limits:
  "validatePodTemplate t = Inr u \<Longrightarrow>
   10 \<le> intOf (fld (fld t ''timeouts'') ''executionSeconds'') \<and> intOf (fld (fld t ''timeouts'') ''executionSeconds'') \<le> 1800 \<and>
   1 \<le> intOf (fld t ''maxAttempts'') \<and> intOf (fld t ''maxAttempts'') \<le> 10"
  by (auto simp: validatePodTemplate_def validateTemplateLimits_def Let_def bindR_Inr res_simps okInt_def)

lemma nowFrom_run: "nowFrom p s = (r, s') \<Longrightarrow> \<exists>w. s' = s\<lparr>pc_world := w\<rparr>"
  by (auto simp: nowFrom_def usePort_def elim!: run_elims split: prod.splits)

lemma finallyE_run:
  "finallyE m k s = (r, s') \<longleftrightarrow> (\<exists>q s1 z. m s = (q, s1) \<and> k s1 = (z, s') \<and> r = (case z of Inl e \<Rightarrow> Inl e | Inr _ \<Rightarrow> q))"
  by (cases "m s") (auto simp: finallyE_def tryE_def io_defs split: prod.splits sum.splits)

lemma pod_finish:
  assumes "checkPodArgs a = Inr ()" and "\<not> pc_ready s1" and "pc_calls s1 = []"
    and "finallyE (catchE (podBody p a d) (failRun p a)) (closeSource p) s1 = (r, s)"
  shows "(\<exists>cs q. list_all (bodyCall a) cs \<and> pc_ready s \<and> (\<exists>x. r = Inr x) \<and> pc_calls s = cs @ [closeCall True q]) \<or>
    (\<exists>cs c d f q. list_all (bodyCall a) cs \<and> \<not> pc_ready s \<and> (\<exists>e. r = Inl e) \<and>
       (c = [] \<or> (\<exists>k. c = [CCancel k])) \<and> pc_calls s = cs @ c @ [CStore (Finish ''failed'' d) f, closeCall False q])"
proof -
  have "10 \<le> executionLimit a"
    using assms(1) template_limits by (auto simp: checkPodArgs_def executionLimit_def res_simps bindR_Inr)
  note body = onlyD [OF body_podBody [OF this]]
  from assms(4) obtain q s2 k where inner: "catchE (podBody p a d) (failRun p a) s1 = (q, s2)"
    and close: "closeSource p s2 = (k, s)" and r: "r = (case k of Inl e \<Rightarrow> Inl e | Inr _ \<Rightarrow> q)"
    by (auto simp: finallyE_run)
  note ends = closeSource_run [OF close]
  from inner show ?thesis
  proof (cases rule: catchE_elim)
    case (return x)
    obtain cs where "pc_calls s2 = cs" "list_all (bodyCall a) cs" using body [OF return(1)] assms(3) by auto
    moreover have "pc_ready s2" using reachesD [OF podBody_ready return(1) assms(2)] by simp
    ultimately show ?thesis using ends r return(2) by auto
  next
    case (handle e t)
    obtain cs where "pc_calls t = cs" "list_all (bodyCall a) cs" using body [OF handle(1)] assms(3) by auto
    moreover have "\<not> pc_ready t" using reachesD [OF podBody_ready handle(1) assms(2)] by simp
    note fail = failRun_run [OF handle(2) this]
    then obtain e where "r = Inl e" using r by (cases k) auto
    ultimately show ?thesis using ends fail by fastforce
  qed
qed

text \<open>C2: How a pod run ends and what it may do before, for every behaviour of agents, clock, source control,
  verifier and store.  Either the arguments or the clock are refused and nothing is called; or the body
  runs and then the source control is closed, as the very last call and exactly once.  Every agent execution of
  the body gets between 10 seconds and the template's execution limit and a prompt within its byte limit,
  and only the three writer slots get write access.  A returned result leaves the source tree for
  publication and never marks the run failed; an error always first stores the terminal \<^verbatim>\<open>failed\<close> record
  (after at most one cancellation) and discards the tree.\<close>

theorem pod_run_ends:
  assumes "runEngineeringPod p a (podStart w) = (r, s)"
  shows "pc_calls s = [] \<and> (\<exists>e. r = Inl e) \<or>
    (\<exists>cs q. list_all (bodyCall a) cs \<and> pc_ready s \<and> (\<exists>x. r = Inr x) \<and> pc_calls s = cs @ [closeCall True q]) \<or>
    (\<exists>cs c d f q. list_all (bodyCall a) cs \<and> \<not> pc_ready s \<and> (\<exists>e. r = Inl e) \<and>
       (c = [] \<or> (\<exists>k. c = [CCancel k])) \<and> pc_calls s = cs @ c @ [CStore (Finish ''failed'' d) f, closeCall False q])"
  using assms unfolding runEngineeringPod_def
proof (elim run_elims, goal_cases)
  case (4 u s1 t s2 d s3)
  then have "checkPodArgs a = Inr ()" "\<not> pc_ready s3" "pc_calls s3 = []"
    using nowFrom_run [OF 4(2)] by (auto simp: podStart_def)
  from pod_finish [OF this 4(4)] show ?case by blast
qed (auto dest!: nowFrom_run simp: podStart_def)

end
