(* ===== verification/Pod_Controller_Ready.thy ===== *)
theory Pod_Controller_Ready
  imports Pod_Controller_Gates
begin

text \<open>
  What stands behind a candidate that a pod run declares ready: the integrated commits are the accepted
  results of the three writers, each committed within its write paths and passed by a checker on that exact
  commit, and every later gate has passed on the candidate itself.
\<close>

section \<open>Evidence\<close>

definition committedBy :: "podArgs \<Rightarrow> jsval \<Rightarrow> string \<Rightarrow> jsval \<Rightarrow> podCall \<Rightarrow> bool" where
  "committedBy a plan slot result c \<longleftrightarrow>
     (\<exists>input committed. c = CSource ''validateAndCommit'' input (Inr committed) \<and>
        fld input ''workItem'' = workItemOf plan slot \<and>
        fld result ''baseSha'' = fld committed ''baseSha'' \<and> fld result ''resultSha'' = fld committed ''resultSha'' \<and>
        fld result ''diffSha256'' = fld committed ''diffSha256'' \<and> elems (fld result ''files'') = elems (fld committed ''changedPaths'') \<and>
        elems (fld result ''files'') \<noteq> [] \<and>
        int (length (elems (fld result ''files''))) \<le> intOf (fld (fld (pa_template a) ''changes'') ''maxFiles'') \<and>
        (\<forall>f \<in> set (elems (fld result ''files'')). isString f \<and> ownsPath (workItemOf plan slot) (strOf f)))"

definition checkedBy :: "jsval \<Rightarrow> string \<Rightarrow> jsval \<Rightarrow> podCall \<Rightarrow> bool" where
  "checkedBy plan slot result c \<longleftrightarrow>
     (\<exists>input raw receipt inbox cursor. c = CAgent input (Inr raw) \<and> fld input ''role'' = JStr ''checker'' \<and>
        fld input ''access'' = JStr ''read'' \<and>
        validateCheckerReceipt receipt plan slot (fld result ''baseSha'') (fld result ''resultSha'') (fld result ''diffSha256'')
          inbox cursor = Inr receipt \<and>
        fld receipt ''outcome'' = JStr ''passed'')"

definition acceptedWriter :: "podArgs \<Rightarrow> jsval \<Rightarrow> string \<Rightarrow> jsval \<Rightarrow> podCall list \<Rightarrow> bool" where
  "acceptedWriter a plan slot result cs \<longleftrightarrow>
     (\<exists>c d. subseq [c, d] cs \<and> committedBy a plan slot result c \<and> checkedBy plan slot result d)"

definition reviewedBy :: "jsval \<Rightarrow> string \<Rightarrow> jsval \<Rightarrow> podCall \<Rightarrow> bool" where
  "reviewedBy plan role sha c \<longleftrightarrow>
     (\<exists>input raw receipt. c = CAgent input (Inr raw) \<and> fld input ''role'' = JStr role \<and> fld input ''access'' = JStr ''read'' \<and>
        validateConformanceReceipt receipt plan role sha = Inr receipt \<and> fld receipt ''outcome'' = JStr ''passed'')"

definition verifiedBy :: "jsval \<Rightarrow> podCall \<Rightarrow> bool" where
  "verifiedBy sha c \<longleftrightarrow>
     (\<exists>input v. c = CVerify input (Inr v) \<and> fld input ''expectedSha'' = sha \<and> passedOn v sha)"

definition scannedBy :: "jsval \<Rightarrow> podCall \<Rightarrow> bool" where
  "scannedBy sha c \<longleftrightarrow>
     (\<exists>input v. c = CSource ''scan'' input (Inr v) \<and> fld input ''candidateSha'' = sha \<and> passedOn v sha)"

lemma subseq_before: "subseq xs ds \<Longrightarrow> subseq xs (cs @ ds)"
  by (rule list_emb_append2)

lemma subseq_after: "subseq xs cs \<Longrightarrow> subseq xs (cs @ ds)"
  by (rule list_emb_prefix) simp

lemma subseq_join: "subseq [c] cs \<Longrightarrow> subseq ds es \<Longrightarrow> subseq (c # ds) (cs @ es)"
  using list_emb_append_mono [of "(=)" "[c]" cs ds es] by simp

lemma accepted_mono:
  "acceptedWriter a plan slot result cs \<Longrightarrow> acceptedWriter a plan slot result (pre @ cs)"
  "acceptedWriter a plan slot result cs \<Longrightarrow> acceptedWriter a plan slot result (cs @ post)"
  unfolding acceptedWriter_def by (meson subseq_before subseq_after)+

section \<open>Steps\<close>

definition planIs :: "jsval \<Rightarrow> 'w podState \<Rightarrow> bool" where
  "planIs plan s \<longleftrightarrow> pc_plan s = plan"

abbreviation doing :: "jsval \<Rightarrow> ('w, 'x) pod \<Rightarrow> ('x \<Rightarrow> podCall list \<Rightarrow> bool) \<Rightarrow> bool" where
  "doing plan \<equiv> does pc_calls (planIs plan)"

lemma stable_planIs: "stable (planIs plan)"
  by (simp add: stable_def planIs_def)

lemmas planKept = stable_planIs [THEN stable_ports(1)] stable_planIs [THEN stable_ports(2)] stable_planIs [THEN stable_ports(3)]
  stable_planIs [THEN stable_time(1)] stable_planIs [THEN stable_time(2)] stable_planIs [THEN stable_time(3)]
  stable_planIs [THEN stable_time(4)] stable_planIs [THEN stable_record(1)] stable_planIs [THEN stable_record(2)]

lemma does_callPort:
  assumes "stable P" and "\<And>x. R x [mk (Inr x)]"
  shows "does pc_calls P (callPort mk f) R"
proof (rule doesI)
  fix s r s' assume P: "P s" and run: "callPort mk f s = (r, s')"
  have "P s'" using keepsD [OF stable_callPort [OF assms(1)] run P] .
  moreover have "pc_calls s' = pc_calls s @ [mk r]" using run by (auto simp: callPort_def split: prod.splits)
  ultimately show "P s' \<and> (\<exists>cs. pc_calls s' = pc_calls s @ cs \<and> (\<forall>x. r = Inr x \<longrightarrow> R x cs))"
    using assms(2) by auto
qed

lemma does_source: "(\<And>x. R x [CSource m (JObj i) (Inr x)]) \<Longrightarrow> doing plan (sourceCall p m i) R"
  unfolding sourceCall_def by (rule does_callPort [OF stable_planIs])

lemma does_verify: "(\<And>x. R x [CVerify (JObj i) (Inr x)]) \<Longrightarrow> doing plan (verifyCall p i) R"
  unfolding verifyCall_def by (rule does_callPort [OF stable_planIs])

lemma does_store: "(\<And>x. R x [CStore op (Inr x)]) \<Longrightarrow> doing plan (storeCall p op) R"
  unfolding storeCall_def by (rule does_callPort [OF stable_planIs])

lemma only_any:
  "only pc_calls (\<lambda>_. True) (storeCall p op)" "only pc_calls (\<lambda>_. True) (sourceCall p m i)"
  "only pc_calls (\<lambda>_. True) (remainingMs p d e)" "only pc_calls (\<lambda>_. True) (executionSeconds p a d e)"
  "only pc_calls (\<lambda>_. True) (verificationTimeout p d e)"
  "only pc_calls (\<lambda>_. True) (recordWorkResult p at r)" "only pc_calls (\<lambda>_. True) (recordGate p at g)"
  unfolding storeCall_def sourceCall_def recordWorkResult_def recordGate_def Let_def
  by (intro only_rules only_callPort only_weaken [OF body_remaining] only_weaken [OF body_seconds]
      only_weaken [OF body_timeout]; simp)+

lemma does_bind_lift: "(\<And>x. r = Inr x \<Longrightarrow> does tr P (f x) R) \<Longrightarrow> does tr P (bindE (liftR r) f) R"
  by (rule does_bindE [OF does_liftR [where R = "\<lambda>x cs. r = Inr x \<and> cs = []"]]) auto

lemma does_then_lift: "(\<And>x. r = Inr x \<Longrightarrow> does tr P k R) \<Longrightarrow> does tr P (thenE (liftR r) k) R"
  unfolding thenE_def by (rule does_bind_lift)

lemma does_bind_plan: "doing plan (f plan) R \<Longrightarrow> doing plan (bindE (getS pc_plan) f) R"
  by (rule does_bindE [OF does_getS [where R = "\<lambda>x cs. x = plan \<and> cs = []"]]) (auto simp: planIs_def)

lemma does_ignore:
  assumes "doing plan m R" and "keeps (planIs plan) k" and "only pc_calls C k" and "\<And>x cs ds. R x cs \<Longrightarrow> Q x (cs @ ds)"
    and "\<And>x. f x = thenE k (ret x)"
  shows "doing plan (bindE m f) Q"
proof (rule does_bindE [OF assms(1)])
  fix x cs assume R: "R x cs"
  show "doing plan (f x) (\<lambda>y ds. Q y (cs @ ds))"
    unfolding assms(5) by (rule does_thenE [OF does_any [OF assms(2,3)]]) (rule does_ret, use assms(4) [OF R] in simp)
qed

lemma does_runAgent:
  "doing plan (runAgent p a d at ex role access prompt ws dirs)
     (\<lambda>raw cs. \<exists>input. subseq [CAgent input (Inr raw)] cs \<and> fld input ''role'' = JStr role \<and> fld input ''access'' = JStr access)"
  unfolding runAgent_def Let_def
  by (rule does_skip_then [OF planKept(5) only_any(3)], rule does_skip [OF planKept(6) only_any(4)],
      rule does_callPort [OF stable_planIs])
    (auto simp: agentInput_def intro: subseq_before)

lemma changedPathLoop_Inr:
  "changedPathLoop lower item i vs seen = Inr () \<Longrightarrow> v \<in> set vs \<Longrightarrow> isString v \<and> ownsPath item (strOf v)"
  by (induction lower item i vs seen rule: changedPathLoop.induct)
    (auto simp: bindR_Inr res_simps assertRepositoryFile_def assertPortable_def okText_def)

lemma checkCommit_Inr:
  assumes "checkCommit lower a item receipt committed = Inr result" and "item = workItemOf plan slot"
  shows "committedBy a plan slot (JObj result)
    (CSource ''validateAndCommit'' (JObj [(''workspace'', ws), (''workItem'', item), (''deadlineAt'', dl), (''limits'', l)]) (Inr committed))"
proof -
  let ?paths = "fld committed ''changedPaths''"
  let ?new = "[(''workItemId'', fld item ''id''), (''ownerSlot'', fld item ''ownerSlot''), (''baseSha'', fld committed ''baseSha''),
         (''resultSha'', fld committed ''resultSha''), (''files'', JArr (elems ?paths)), (''changedBytes'', fld committed ''changedBytes''),
         (''diffSha256'', fld committed ''diffSha256''), (''diff'', fld committed ''diff'')]"
  from assms(1) have result: "result = spread (props receipt) ?new"
    and loop: "changedPathLoop lower item 0 (elems ?paths) [] = Inr ()"
    and size: "1 \<le> length (elems ?paths)" "int (length (elems ?paths)) \<le> intOf (fld (fld (pa_template a) ''changes'') ''maxFiles'')"
    by (auto simp: checkCommit_def Let_def bindR_Inr res_simps assertSha_def)
  have look: "map_of result k = (case map_of ?new k of None \<Rightarrow> map_of (props receipt) k | Some v \<Rightarrow> Some v)" for k
    unfolding result by (simp add: map_of_spread map_add_def)
  have "fld (JObj result) ''baseSha'' = fld committed ''baseSha''" "fld (JObj result) ''resultSha'' = fld committed ''resultSha''"
    "fld (JObj result) ''diffSha256'' = fld committed ''diffSha256''" "fld (JObj result) ''files'' = JArr (elems ?paths)"
    by (simp_all add: look)
  moreover have "elems ?paths \<noteq> []" using size(1) by auto
  ultimately show ?thesis
    unfolding committedBy_def using changedPathLoop_Inr [OF loop] size(2) assms(2) by (simp del: fld_JObj) simp
qed

lemma does_commit:
  "doing plan (commitWriterResult p a d at (workItemOf plan slot) ws receipt)
     (\<lambda>result cs. \<exists>c. subseq [c] cs \<and> committedBy a plan slot result c)"
  unfolding commitWriterResult_def
proof (rule does_skip_then [OF planKept(5) only_any(3)])
  let ?input = "[(''workspace'', ws), (''workItem'', workItemOf plan slot), (''deadlineAt'', num (at_deadlineAt at)),
         (''limits'', fld (pa_template a) ''changes'')]"
  show "doing plan (bindE (sourceCall p ''validateAndCommit'' ?input) (\<lambda>committed.
      bindE (liftR (checkCommit (pp_lower p) a (workItemOf plan slot) receipt committed)) (\<lambda>result.
      thenE (recordWorkResult p at result) (ret (JObj result)))))
      (\<lambda>result cs. \<exists>c. subseq [c] cs \<and> committedBy a plan slot result c)"
  proof (rule does_bindE [OF does_source [where R = "\<lambda>x cs. cs = [CSource ''validateAndCommit'' (JObj ?input) (Inr x)]"]])
    fix x cs assume cs: "cs = [CSource ''validateAndCommit'' (JObj ?input) (Inr x)]"
    show "doing plan (bindE (liftR (checkCommit (pp_lower p) a (workItemOf plan slot) receipt x)) (\<lambda>result.
        thenE (recordWorkResult p at result) (ret (JObj result)))) (\<lambda>y ds. \<exists>c. subseq [c] (cs @ ds) \<and> committedBy a plan slot y c)"
    proof (rule does_bind_lift, rule does_thenE [OF does_any [OF planKept(8) only_any(6)]], rule does_ret)
      fix result ds assume "checkCommit (pp_lower p) a (workItemOf plan slot) receipt x = Inr result"
      from checkCommit_Inr [OF this refl] show "\<exists>c. subseq [c] (cs @ ds @ []) \<and> committedBy a plan slot (JObj result) c"
        by (auto simp: cs intro!: exI subseq_after)
    qed
  qed simp
qed (auto intro: subseq_before)

lemma validateChecker_same: "validateCheckerReceipt r plan w b res df inbox cur = Inr r' \<Longrightarrow> r' = r"
  by (auto simp: validateCheckerReceipt_def bindR_unit bindR_Inr)

lemma checkedBy_I:
  assumes "fld input ''role'' = JStr ''checker''" and "fld input ''access'' = JStr ''read''"
    and "validateCheckerReceipt r plan slot (fld result ''baseSha'') (fld result ''resultSha'') (fld result ''diffSha256'') inbox cur = Inr receipt"
    and "fld receipt ''outcome'' = JStr ''passed''"
  shows "checkedBy plan slot result (CAgent input (Inr raw))"
  unfolding checkedBy_def using assms validateChecker_same [OF assms(3)] by blast

lemma does_check:
  "doing plan (checkWriterResult p a d at slot result inbox cur) (\<lambda>_ cs. \<exists>c. subseq [c] cs \<and> checkedBy plan slot result c)"
  unfolding checkWriterResult_def Let_def
proof (rule does_bind_plan, rule does_skip [OF planKept(2) only_any(2)], goal_cases)
  case (1 view)
  show ?case
    by (rule does_then_lift, rule does_bind_lift, rule does_bindE [OF does_runAgent], rule does_bind_lift, rule does_bind_lift,
        rule does_thenE [OF does_any [OF planKept(9) only_any(7)]], rule does_then_lift, rule does_ret)
      (clarsimp simp: res_simps, meson subseq_after checkedBy_I)
qed (meson subseq_before)

section \<open>Accepted results\<close>

definition allAccepted :: "podArgs \<Rightarrow> jsval \<Rightarrow> (string \<times> jsval) list \<Rightarrow> podCall list \<Rightarrow> bool" where
  "allAccepted a plan results cs \<longleftrightarrow> (\<forall>(slot, result) \<in> set results. acceptedWriter a plan slot result cs)"

lemma does_commitCompleted:
  "doing plan (commitCompleted p a d at wss initial slots)
     (\<lambda>rs cs. \<forall>(slot, result) \<in> set rs. \<exists>c. subseq [c] cs \<and> committedBy a plan slot result c)"
proof (induction slots)
  case (Cons slot slots)
  show ?case
  proof (cases "fld (the (map_of initial slot)) ''outcome'' = JStr ''blocked''")
    case False
    show ?thesis
      unfolding commitCompleted.simps Let_def if_not_P [OF False]
      by (rule does_bind_plan, rule does_bindE [OF does_commit], rule does_bindE [OF Cons], rule does_ret)
        (fastforce intro: subseq_before subseq_after)
  qed (use Cons in simp)
qed (simp add: does_ret)

lemma does_tryE: "does tr P m R \<Longrightarrow> does tr P (tryE m) (\<lambda>r cs. \<forall>x. r = Inr x \<longrightarrow> R x cs)"
  by (rule doesI) (auto simp: tryE_Inr dest: doesD)

lemma does_checkCompleted:
  "doing plan (checkCompleted p a d at rs)
     (\<lambda>failed cs. failed = None \<longrightarrow> (\<forall>(slot, result) \<in> set rs. \<exists>c. subseq [c] cs \<and> checkedBy plan slot result c))"
proof (induction rs)
  case (Cons q rs)
  obtain slot result where q: "q = (slot, result)" by (cases q)
  show ?case
    unfolding q checkCompleted.simps
    by (rule does_bindE [OF does_tryE [OF does_check]], rule does_bindE [OF Cons], rule does_ret)
      (fastforce split: sum.splits intro: subseq_before subseq_after)
qed (simp add: does_ret)

lemma accepted_join:
  assumes "\<forall>(slot, result) \<in> set rs. \<exists>c. subseq [c] cs \<and> committedBy a plan slot result c"
    and "\<forall>(slot, result) \<in> set rs. \<exists>c. subseq [c] ds \<and> checkedBy plan slot result c"
  shows "allAccepted a plan rs (cs @ ds)"
  unfolding allAccepted_def acceptedWriter_def
proof (clarify)
  fix slot result assume "(slot, result) \<in> set rs"
  with assms obtain c d where c: "subseq [c] cs" "committedBy a plan slot result c" and d: "subseq [d] ds" "checkedBy plan slot result d"
    by blast
  from subseq_join [OF c(1) d(1)] c(2) d(2)
  show "\<exists>c d. subseq [c, d] (cs @ ds) \<and> committedBy a plan slot result c \<and> checkedBy plan slot result d"
    by (intro exI conjI)
qed

lemma launch_any: "only pc_calls (\<lambda>_. True) (launchWriters p a d at ps)"
proof (induction ps)
  case (Cons q ps)
  obtain slot ws prompt where q: "q = (slot, ws, prompt)" by (cases q)
  have log: "only pc_calls (\<lambda>_. True) (modS (\<lambda>s. s\<lparr>pc_calls := pc_calls s @ [c]\<rparr>))" for c
    by (simp add: only_def)
  show ?case
    unfolding q launchWriters.simps Let_def
    by (rule only_bindE only_tryE only_any only_sum only_basic only_thenE only_usePort log Cons)+
qed (simp add: only_basic)

lemma allAccepted_mono:
  "allAccepted a plan rs ds \<Longrightarrow> allAccepted a plan rs (cs @ ds)" "allAccepted a plan rs cs \<Longrightarrow> allAccepted a plan rs (cs @ ds)"
  unfolding allAccepted_def using accepted_mono by blast+

lemma does_writers:
  assumes "10 \<le> executionLimit a"
  shows "doing plan (writersPhase p a d at wss) (allAccepted a plan)"
proof -
  note any = only_weaken [OF body_prepare TrueI] launch_any only_weaken [OF body_race [OF assms] TrueI]
  note kept = stable_prepare [OF stable_planIs] stable_launch [OF stable_planIs] stable_race [OF stable_planIs]
  show ?thesis
    unfolding writersPhase_def
    apply (rule does_skip [OF kept(1) any(1)])
     apply (rename_tac x, case_tac x, simp only: prod.case)
     apply (rule does_skip [OF kept(2) any(2)], rule does_then_lift, rule does_skip [OF kept(3) any(3)], rule does_then_lift)
       apply (rule does_skip [OF keeps_basic(4) only_basic(4)], rule does_then_lift)
        apply (rule does_bindE [OF does_commitCompleted], rule does_bindE [OF does_checkCompleted], rule does_then_lift, rule does_ret)
        apply (auto intro: allAccepted_mono accepted_join split: option.splits)
    done
qed

lemma accepted_pair:
  assumes "\<exists>c. subseq [c] cs \<and> committedBy a plan slot result c" and "\<exists>c. subseq [c] ds \<and> checkedBy plan slot result c"
  shows "acceptedWriter a plan slot result (cs @ ds)"
  using accepted_join [of "[(slot, result)]" cs a plan ds] assms by (simp add: allAccepted_def)

lemma does_accept:
  "doing plan (bindE (commitWriterResult p a d at (workItemOf plan slot) ws receipt) (\<lambda>result.
     thenE (checkWriterResult p a d at slot result inbox cur) (ret result))) (acceptedWriter a plan slot)"
  by (rule does_bindE [OF does_commit], rule does_thenE [OF does_check], rule does_ret)
    (simp only: append_Nil2, rule accepted_pair)

lemma execute_any:
  assumes "10 \<le> executionLimit a" and "slot \<in> set writerSlots"
  shows "only pc_calls (\<lambda>_. True) (executeWriter p a d at slot ws inbox ex sha)"
  using body_execute [OF assms] by (rule only_weaken) simp

lemma slots: "''engineering-a'' \<in> set writerSlots" "''engineering-b'' \<in> set writerSlots"
  by (simp_all add: writerSlots_def)

lemma does_owner:
  assumes "10 \<le> executionLimit a"
  shows "doing plan (resumeOwner p a d at wss acc) (acceptedWriter a plan ''engineering-b'')"
  unfolding resumeOwner_def
  apply (rule does_bind_plan, rule does_skip [OF keeps_basic(4) only_basic(4)], rule does_skip [OF planKept(1) only_any(1)])
     apply (rule does_bind_lift, rule does_then_lift, rule does_bind_lift)
     apply (rule does_skip [OF stable_execute [OF stable_planIs] execute_any [OF assms slots(2)]])
      apply (rule does_bind_lift, rule does_then_lift, rule does_accept)
     apply (erule accepted_mono)+
  done

lemma does_requester:
  assumes "10 \<le> executionLimit a"
  shows "doing plan (resumeRequester p a d at req r) (acceptedWriter a plan ''engineering-a'')"
  unfolding resumeRequester_def Let_def
  apply (rule does_then_lift, rule does_bind_plan, rule does_skip [OF planKept(2) only_any(2)], rule does_then_lift)
   apply (rule does_skip [OF stable_execute [OF stable_planIs] execute_any [OF assms slots(1)]])
    apply (rule does_bind_lift, rule does_then_lift, rule does_accept)
   apply (erule accepted_mono)+
  done

lemma does_handover:
  assumes "10 \<le> executionLimit a"
  shows "doing plan (handover p a d at wss acc)
    (\<lambda>acc' cs. \<forall>(slot, r) \<in> set acc'. (slot, r) \<in> set acc \<or> acceptedWriter a plan slot r cs)"
  unfolding handover_def
proof (rule does_skip [OF keeps_basic(4) only_basic(4)])
  fix request
  show "doing plan (case request of None \<Rightarrow> ret acc | Some r \<Rightarrow>
         bindE (resumeOwner p a d at wss acc) (\<lambda>ownerResult.
         bindE (resumeRequester p a d at r ownerResult) (\<lambda>requesterResult.
         ret ((''engineering-a'', requesterResult) # (''engineering-b'', ownerResult) # acc))))
    (\<lambda>acc' cs. \<forall>(slot, r) \<in> set acc'. (slot, r) \<in> set acc \<or> acceptedWriter a plan slot r cs)"
  proof (cases request)
    case (Some r)
    show ?thesis
      unfolding Some option.case
      by (rule does_bindE [OF does_owner [OF assms]], rule does_bindE [OF does_requester [OF assms]], rule does_ret)
        (auto intro: accepted_mono)
  qed (auto intro: does_ret)
qed (auto intro: accepted_mono)

section \<open>The gates\<close>

definition integratedBy :: "(string \<times> jsval) list \<Rightarrow> jsval \<Rightarrow> podCall \<Rightarrow> bool" where
  "integratedBy acc sha c \<longleftrightarrow>
     (\<exists>input i. c = CSource ''integrate'' input (Inr i) \<and> fld i ''candidateSha'' = sha \<and> isString sha \<and>
        fld input ''commits'' = JArr (map (\<lambda>slot. the (map_of acc slot)) writerSlots))"

definition gatesPassed :: "jsval \<Rightarrow> jsval \<Rightarrow> podCall list \<Rightarrow> bool" where
  "gatesPassed plan sha cs \<longleftrightarrow>
     (\<exists>q t v c. subseq [q, t, v, c] cs \<and> reviewedBy plan ''qa'' sha q \<and> reviewedBy plan ''testing'' sha t \<and>
        verifiedBy sha v \<and> scannedBy sha c)"

lemma does_integrate:
  "doing plan (integrateCandidate p a d at acc)
     (\<lambda>(sha, view, snap) cs. \<exists>c. subseq [c] cs \<and> integratedBy acc sha c)"
  unfolding integrateCandidate_def
proof (rule does_skip_then [OF planKept(5) only_any(3)], goal_cases)
  case 1
  have view: "only pc_calls (\<lambda>_. True) (if b then ret v else sourceCall p m i)" "keeps (planIs plan) (if b then ret v else sourceCall p m i)" for b v m i
    by (auto intro: only_basic only_any keeps_basic planKept)
  show ?case
    apply (rule does_bindE [OF does_source [where R = "\<lambda>x cs. \<exists>input. cs = [CSource ''integrate'' input (Inr x)] \<and>
        fld input ''commits'' = JArr (map (\<lambda>slot. the (map_of acc slot)) writerSlots)"]])
     apply simp
    apply (rule does_then_lift, rule does_bind_lift, rule does_bindE [OF does_any [OF view(2,1)]], rule does_then_lift)
    apply (rule does_bindE [OF does_any [OF planKept(2) only_any(2)]], rule does_then_lift, rule does_ret)
    apply (auto simp: assertSha_def bindR_Inr res_simps integratedBy_def)
    done
qed (auto intro: subseq_before)

lemma validateConformance_same: "validateConformanceReceipt r plan g sha = Inr r' \<Longrightarrow> r' = r"
  by (auto simp: validateConformanceReceipt_def bindR_unit bindR_Inr)

lemma reviewedBy_I:
  assumes "fld input ''role'' = JStr role" and "fld input ''access'' = JStr ''read''"
    and "validateConformanceReceipt r plan role sha = Inr receipt" and "fld receipt ''outcome'' = JStr ''passed''"
  shows "reviewedBy plan role sha (CAgent input (Inr raw))"
  unfolding reviewedBy_def using assms validateConformance_same [OF assms(3)] by blast

lemma does_review:
  "doing plan (reviewGate p a d at role ex ph gf l vd view sha) (\<lambda>_ cs. \<exists>c. subseq [c] cs \<and> reviewedBy plan role sha c)"
  unfolding reviewGate_def
  by (rule does_bind_plan, rule does_bind_lift, rule does_bindE [OF does_runAgent], rule does_bind_lift, rule does_bind_lift,
      rule does_thenE [OF does_any [OF planKept(9) only_any(7)]], rule does_liftR)
    (clarsimp simp: res_simps, meson subseq_after reviewedBy_I)

lemma does_verification:
  "doing plan (verificationGate p a d at view snap sha) (\<lambda>_ cs. \<exists>c. subseq [c] cs \<and> verifiedBy sha c)"
  unfolding verificationGate_def
proof (rule does_skip [OF planKept(7) only_any(5)], goal_cases)
  case (1 t)
  show ?case
    apply (rule does_bindE [OF does_verify [where R = "\<lambda>x cs. \<exists>input. cs = [CVerify input (Inr x)] \<and> fld input ''expectedSha'' = sha"]])
     apply (simp add: map_of_append split: if_splits)
    apply (rule does_then_lift, rule does_weaken [OF does_any [OF planKept(9) only_any(7)]])
    apply (auto simp: res_simps verifiedBy_def)
    done
qed (auto intro: subseq_before)

lemma does_scan: "doing plan (scanGate p a at sha) (\<lambda>_ cs. \<exists>c. subseq [c] cs \<and> scannedBy sha c)"
  unfolding scanGate_def
  apply (rule does_bindE [OF does_source [where R = "\<lambda>x cs. \<exists>input. cs = [CSource ''scan'' input (Inr x)] \<and> fld input ''candidateSha'' = sha"]])
   apply simp
  apply (rule does_then_lift, rule does_thenE [OF does_any [OF planKept(9) only_any(7)]],
      rule does_weaken [OF does_any [OF planKept(9) only_any(7)]])
  apply (auto simp: res_simps scannedBy_def)
  done

lemma does_gates:
  "doing plan (gateCandidate p a d at acc)
     (\<lambda>sha cs. \<exists>pre c post. cs = pre @ c # post \<and> integratedBy acc sha c \<and> gatesPassed plan sha post)"
  unfolding gateCandidate_def
proof (rule does_bindE [OF does_integrate], clarify)
  fix sha view snap cs c assume "subseq [c] cs" and c: "integratedBy acc sha c"
  then obtain pre rest where cs: "cs = pre @ c # rest" by (auto simp: subseq_singleton_left in_set_conv_decomp)
  show "doing plan (thenE (qaGate p a d at view sha) (thenE (testingGate p a d at view sha)
     (thenE (verificationGate p a d at view snap sha) (thenE (scanGate p a at sha) (ret sha)))))
     (\<lambda>y ds. \<exists>pre c post. cs @ ds = pre @ c # post \<and> integratedBy acc y c \<and> gatesPassed plan y post)"
    unfolding qaGate_def testingGate_def
  proof (rule does_thenE [OF does_review], rule does_thenE [OF does_review], rule does_thenE [OF does_verification],
      rule does_thenE [OF does_scan], rule does_ret, elim exE conjE)
    fix cs1 cs2 cs3 cs4 q t v w
    assume q: "subseq [q] cs1" "reviewedBy plan ''qa'' sha q" and t: "subseq [t] cs2" "reviewedBy plan ''testing'' sha t"
      and v: "subseq [v] cs3" "verifiedBy sha v" and w: "subseq [w] cs4" "scannedBy sha w"
    have "subseq [q, t, v, w] (rest @ cs1 @ cs2 @ cs3 @ cs4)"
      by (rule subseq_before, rule subseq_join [OF q(1)], rule subseq_join [OF t(1)], rule subseq_join [OF v(1) w(1)])
    with q t v w have "gatesPassed plan sha (rest @ cs1 @ cs2 @ cs3 @ cs4)"
      unfolding gatesPassed_def by blast
    with c show "\<exists>pre c post. cs @ cs1 @ cs2 @ cs3 @ cs4 @ [] = pre @ c # post \<and> integratedBy acc sha c \<and> gatesPassed plan sha post"
      by (intro exI [of _ pre] exI [of _ c] exI [of _ "rest @ cs1 @ cs2 @ cs3 @ cs4"]) (simp add: cs)
  qed
qed

definition readyEvidence :: "podArgs \<Rightarrow> jsval \<Rightarrow> jsval \<Rightarrow> podCall list \<Rightarrow> bool" where
  "readyEvidence a plan sha cs \<longleftrightarrow>
     (\<exists>acc pre c post. cs = pre @ c # post \<and> integratedBy acc sha c \<and> gatesPassed plan sha post \<and>
        (\<forall>slot \<in> set writerSlots. acceptedWriter a plan slot (the (map_of acc slot)) pre))"

lemma readyEvidence_mono: "readyEvidence a plan sha cs \<Longrightarrow> readyEvidence a plan sha (ds @ cs)"
  unfolding readyEvidence_def
proof (elim exE conjE)
  fix acc pre c post assume *: "cs = pre @ c # post" "integratedBy acc sha c" "gatesPassed plan sha post"
    "\<forall>slot \<in> set writerSlots. acceptedWriter a plan slot (the (map_of acc slot)) pre"
  show "\<exists>acc pre c post. ds @ cs = pre @ c # post \<and> integratedBy acc sha c \<and> gatesPassed plan sha post \<and>
        (\<forall>slot \<in> set writerSlots. acceptedWriter a plan slot (the (map_of acc slot)) pre)"
    using * by (intro exI [of _ acc] exI [of _ "ds @ pre"] exI [of _ c] exI [of _ post]) (auto intro: accepted_mono)
qed

lemma does_attemptIn:
  assumes "10 \<le> executionLimit a"
  shows "doing plan (attemptIn p a d at wss) (readyEvidence a plan)"
  unfolding attemptIn_def
proof (rule does_skip_then [OF planKept(1) only_any(1)], rule does_bindE [OF does_writers [OF assms]],
    rule does_bindE [OF does_handover [OF assms]], rule does_then_lift, rule does_weaken [OF does_gates], goal_cases)
  case (1 completed cs1 acc cs2 u sha cs3)
  then obtain pre c post where split: "cs3 = pre @ c # post" "integratedBy acc sha c" "gatesPassed plan sha post" by blast
  have "acceptedWriter a plan slot (the (map_of acc slot)) (cs1 @ cs2 @ pre)" if "slot \<in> set writerSlots" for slot
  proof -
    have "\<forall>slot \<in> set writerSlots. map_of acc slot \<noteq> None"
      using 1(3) by (simp add: res_simps acceptedAll_def list_all_iff)
    with that obtain r where r: "map_of acc slot = Some r" by blast
    then have "(slot, r) \<in> set acc" by (rule map_of_SomeD)
    then have "acceptedWriter a plan slot r cs1 \<or> acceptedWriter a plan slot r cs2"
      using 1(1,2) by (auto simp: allAccepted_def)
    then show ?thesis using r by (auto intro: accepted_mono)
  qed
  with split show ?case
    unfolding readyEvidence_def
    by (intro exI [of _ acc] exI [of _ "cs1 @ cs2 @ pre"] exI [of _ c] exI [of _ post]) simp
qed (rule readyEvidence_mono)

lemma does_runAttempt:
  assumes "10 \<le> executionLimit a"
  shows "doing plan (runAttempt p a d at) (readyEvidence a plan)"
  unfolding runAttempt_def
  by (rule does_skip [OF stable_worktrees [OF stable_planIs] only_weaken [OF body_worktrees TrueI]])
    (rule does_attemptIn [OF assms], rule readyEvidence_mono)

section \<open>The ready result\<close>

lemma planAttempt_run:
  assumes "planAttempt p a d at dirs s = (Inr (), s')"
  shows "\<exists>receipt. validateAttemptPlan (pp_lower p) receipt (pa_template a) (at_baseSha at) dirs = Inr (pc_plan s')"
proof -
  have kept: "pc_plan t' = pc_plan t" if "storeCall p op t = (r, t')" for op t r t'
    using keepsD [OF planKept(1) that] by (simp add: planIs_def)
  from assms show ?thesis
    unfolding planAttempt_def by (auto simp: run_Inr dest!: kept)
qed

definition readyRun :: "(string \<Rightarrow> string) \<Rightarrow> podArgs \<Rightarrow> jsval \<Rightarrow> jsval \<Rightarrow> podCall list \<Rightarrow> bool" where
  "readyRun lower a base x cs \<longleftrightarrow>
     (\<exists>plan receipt dirs sha ev d e. x = readyResult a base sha \<and>
        validateAttemptPlan lower receipt (pa_template a) base dirs = Inr plan \<and> readyEvidence a plan sha ev \<and>
        cs = ev @ [CStore (AppendEvent ''publication.ready'' d) (Inr e)] \<and> fld d ''candidateSha'' = sha)"

lemma readyRun_mono: "readyRun lower a base x cs \<Longrightarrow> readyRun lower a base x (ds @ cs)"
  unfolding readyRun_def by (metis append.assoc readyEvidence_mono)

lemma tryAttempt_run:
  assumes "10 \<le> executionLimit a" and "tryAttempt p a d at dirs s = (Inr x, s')"
  shows "\<exists>cs. pc_calls s' = pc_calls s @ cs \<and> readyRun (pp_lower p) a (at_baseSha at) x cs"
proof -
  let ?details = "\<lambda>sha. JObj [(''attempt'', num_nat (at_attempt at)), (''repository'', pa_repository a), (''targetBranch'', pa_targetBranch a),
               (''baseSha'', at_baseSha at), (''candidateSha'', sha), (''headBranch'', JStr (branchOf a))]"
  from assms(2) obtain s1 sha s2 s3 e where plan: "planAttempt p a d at dirs s = (Inr (), s1)"
    and run: "runAttempt p a d at s1 = (Inr sha, s2)"
    and store: "storeCall p (AppendEvent ''publication.ready'' (?details sha)) s2 = (Inr e, s3)"
    and x: "x = readyResult a (at_baseSha at) sha" and s': "pc_calls s' = pc_calls s3"
    unfolding tryAttempt_def by (auto simp: run_Inr)
  obtain cs where one: "pc_calls s1 = pc_calls s @ cs" using onlyD [OF body_planAttempt [OF assms(1)] plan] by blast
  obtain receipt where receipt: "validateAttemptPlan (pp_lower p) receipt (pa_template a) (at_baseSha at) dirs = Inr (pc_plan s1)"
    using planAttempt_run [OF plan] by blast
  obtain ev where two: "pc_calls s2 = pc_calls s1 @ ev" "readyEvidence a (pc_plan s1) sha ev"
    using doesD [OF does_runAttempt [OF assms(1)] run, of "pc_plan s1"] by (auto simp: planIs_def)
  have "pc_calls s3 = pc_calls s2 @ [CStore (AppendEvent ''publication.ready'' (?details sha)) (Inr e)]"
    using store by (auto simp: storeCall_def callPort_def split: prod.splits)
  moreover have "readyRun (pp_lower p) a (at_baseSha at) x (ev @ [CStore (AppendEvent ''publication.ready'' (?details sha)) (Inr e)])"
  proof -
    have "fld (?details sha) ''candidateSha'' = sha" by simp
    from x receipt two(2) refl this show ?thesis unfolding readyRun_def by (intro exI conjI)
  qed
  ultimately show ?thesis
    using one two(1) s' readyRun_mono [of _ _ _ _ _ cs]
    by (intro exI [of _ "cs @ ev @ [CStore (AppendEvent ''publication.ready'' (?details sha)) (Inr e)]"]) simp
qed

lemma retry_Inr:
  assumes "bindE (tryE m) (\<lambda>r. case r of Inr x \<Rightarrow> ret x | Inl e \<Rightarrow> h e) s = (Inr x, s')"
  shows "m s = (Inr x, s') \<or> (\<exists>e t. m s = (Inl e, t) \<and> h e t = (Inr x, s'))"
  using assms by (cases "m s"; cases "fst (m s)") (auto simp: tryE_def io_defs)

lemma attemptLoop_run:
  assumes "10 \<le> executionLimit a"
  shows "attemptLoop p a d base snap dirs n left s = (Inr x, s') \<Longrightarrow>
    \<exists>cs. pc_calls s' = pc_calls s @ cs \<and> readyRun (pp_lower p) a base x cs"
proof (induction left arbitrary: n s)
  case (Suc left)
  let ?at = "\<lambda>t. \<lparr>at_attempt = n, at_baseSha = base, at_baseSnapshot = snap, at_deadlineAt = t\<rparr>"
  from Suc.prems [unfolded attemptLoop.simps Let_def]
  obtain t s1 where start: "startAttempt p a d s = (Inr t, s1)"
    and rest: "bindE (tryE (tryAttempt p a d (?at t) dirs)) (\<lambda>r. case r of Inr x \<Rightarrow> ret x | Inl e \<Rightarrow>
        thenE (failAttempt p n (left = 0) e) (attemptLoop p a d base snap dirs (Suc n) left)) s1 = (Inr x, s')"
    by (rule bindE_elim) simp_all
  obtain cs where one: "pc_calls s1 = pc_calls s @ cs" using onlyD [OF body_startAttempt start] by blast
  from retry_Inr [OF rest] show ?case
  proof (elim disjE exE conjE)
    assume "tryAttempt p a d (?at t) dirs s1 = (Inr x, s')"
    from tryAttempt_run [OF assms this] obtain ds where "pc_calls s' = pc_calls s1 @ ds" "readyRun (pp_lower p) a base x ds" by auto
    then show ?thesis using one readyRun_mono [of "pp_lower p" a base x ds cs] by (intro exI [of _ "cs @ ds"]) simp
  next
    fix e s2 assume attempt: "tryAttempt p a d (?at t) dirs s1 = (Inl e, s2)"
      and "thenE (failAttempt p n (left = 0) e) (attemptLoop p a d base snap dirs (Suc n) left) s2 = (Inr x, s')"
    from this(2) obtain s3 where fail: "failAttempt p n (left = 0) e s2 = (Inr (), s3)"
      and again: "attemptLoop p a d base snap dirs (Suc n) left s3 = (Inr x, s')" by (rule thenE_elim) auto
    obtain ds es where "pc_calls s2 = pc_calls s1 @ ds" "pc_calls s3 = pc_calls s2 @ es"
      using onlyD [OF body_tryAttempt [OF assms] attempt] onlyD [OF body_failAttempt fail] by blast
    moreover obtain fs where "pc_calls s' = pc_calls s3 @ fs" "readyRun (pp_lower p) a base x fs" using Suc.IH [OF again] by blast
    ultimately show ?thesis
      using one readyRun_mono [of "pp_lower p" a base x fs "cs @ ds @ es"] by (intro exI [of _ "cs @ ds @ es @ fs"]) simp
  qed
qed simp

lemma stable_True: "stable (\<lambda>_. True)"
  by (simp add: stable_def)

lemma does_podBody:
  assumes "10 \<le> executionLimit a"
  shows "does pc_calls (\<lambda>_. True) (podBody p a d) (\<lambda>x cs. \<exists>base. readyRun (pp_lower p) a base x cs)"
proof -
  have loop: "does pc_calls (\<lambda>_. True) (attemptLoop p a d base snap dirs 1 k) (\<lambda>x cs. \<exists>base. readyRun (pp_lower p) a base x cs)" for base snap dirs k
  proof (rule doesI)
    fix s r s' assume run: "attemptLoop p a d base snap dirs 1 k s = (r, s')"
    show "True \<and> (\<exists>cs. pc_calls s' = pc_calls s @ cs \<and> (\<forall>x. r = Inr x \<longrightarrow> (\<exists>base. readyRun (pp_lower p) a base x cs)))"
    proof (cases r)
      case (Inl e)
      then show ?thesis using onlyD [OF body_loop [OF assms] run] by auto
    next
      case (Inr x)
      then show ?thesis using attemptLoop_run [OF assms, of p d base snap dirs 1 k s x s'] run by auto
    qed
  qed
  have pre: "keeps (\<lambda>_. True) m" for m :: "('a, 'b) pod" by (simp add: keeps_def)
  have mono: "\<exists>base. readyRun (pp_lower p) a base x ds \<Longrightarrow> \<exists>base. readyRun (pp_lower p) a base x (cs @ ds)" for x cs ds
    using readyRun_mono by blast
  show ?thesis
    unfolding podBody_def
    apply (rule does_skip_then [OF stable_ports(1) [OF stable_True] only_any(1)])
     apply (rule does_skip [OF stable_ports(2) [OF stable_True] only_any(2)])
      apply (rule does_then_lift, rule does_bind_lift)
      apply (rule does_skip_then [OF _ only_modS], simp add: keeps_def, simp, rule does_then_lift)
       apply (rule does_skip [OF stable_ports(2) [OF stable_True] only_any(2)])
        apply (rule does_then_lift, rule does_skip_then [OF _ only_weaken [OF body_preflight TrueI]], simp add: keeps_def)
         apply (rule loop)
        apply (erule mono)+
    done
qed


end
