(* ===== verification/Pod_Controller_Demo.thy ===== *)
theory Pod_Controller_Demo
  imports Pod_Controller_Ready
begin

text \<open>
  A pod run in which everything goes well, on concrete ports: the witness that the theorems about pod
  runs speak of runs that exist.
\<close>

definition demoDigest :: jsval where
  "demoDigest = JStr (replicate 64 (CHR ''b''))"

definition demoReview :: "string \<Rightarrow> jsval" where
  "demoReview gateName = JObj
     [(''gate'', JStr gateName), (''outcome'', JStr ''passed''), (''candidateSha'', sampleSha), (''what'', JStr ''x''), (''why'', JStr ''y''),
      (''evidence'', JArr [JStr ''z'']), (''requirementIds'', JArr [JStr ''R-1'']), (''acceptanceIds'', JArr [JStr ''A-1'']),
      (''files'', JArr [])]"

definition demoAgent :: "jsval \<Rightarrow> unit \<Rightarrow> jsval res \<times> unit" where
  "demoAgent input w =
     (let role = strOf (fld input ''role'') in
      (Inr (if role = ''planner'' then samplePlan else if role = ''checker'' then sampleCheckerReceipt else demoReview role), w))"

definition demoSource :: "string \<Rightarrow> jsval \<Rightarrow> unit \<Rightarrow> jsval res \<times> unit" where
  "demoSource method input w =
     (Inr (JObj (
        if method = ''prepareAssignment'' then [(''baseSha'', sampleSha), (''existingDirectories'', sampleDirs)]
        else if method = ''validateAndCommit'' then
          [(''baseSha'', sampleSha), (''resultSha'', sampleSha), (''diffSha256'', demoDigest), (''diff'', JStr ''d''), (''changedBytes'', num 5),
           (''changedPaths'', JArr [JStr (strOf (hd (elems (fld (fld input ''workItem'') ''writePaths''))) @ ''/a.mjs'')])]
        else if method = ''integrate'' then [(''candidateSha'', sampleSha), (''workspaceRoot'', JStr ''/w''), (''workspaceId'', JStr ''c'')]
        else if method = ''scan'' then [(''status'', JStr ''passed''), (''candidateSha'', sampleSha), (''evidence'', JArr [])]
        else [(''id'', JStr ''v''), (''root'', JStr ''/w''), (''writeDirectories'', JArr [])])), w)"

definition demoPod :: "unit podPorts" where
  "demoPod = \<lparr>pp_clock = (\<lambda>w. (num 1000, w)), pp_agent = demoAgent, pp_start = (\<lambda>_ _ w. w),
     pp_race = (\<lambda>_ w. ((0, Inr (sampleWriterReceipt ''completed'' JNull)), w)), pp_running = (\<lambda>_ w. (False, w)),
     pp_cancel = (\<lambda>w. (Inr (), w)), pp_drain = (\<lambda>w. w), pp_source = demoSource, pp_combineBase = False,
     pp_verify = (\<lambda>_ w. (Inr (JObj [(''status'', JStr ''passed''), (''candidateSha'', sampleSha), (''evidence'', JArr [])]), w)),
     pp_store = (\<lambda>_ w. (Inr JNull, w)), pp_lower = toLowerCase\<rparr>"

definition demoPodArgs :: podArgs where
  "demoPodArgs = \<lparr>pa_template = sampleTemplate, pa_templateDigest = demoDigest,
     pa_prompts = JObj (map (\<lambda>k. (k, JStr ''go'')) promptKeys), pa_assignment = JObj [], pa_repository = JStr ''r'',
     pa_baseRevision = JStr ''main'', pa_targetBranch = JStr ''main'', pa_runId = JStr ''run-1'', pa_stateRoot = JStr ''/s'',
     pa_deadlineAt = JUndef\<rparr>"

section \<open>Runs that succeed\<close>

text \<open>On these ports a step returns a known value from every state that has the sample plan and the given
  receipts; the steps compose.\<close>

definition ready_state :: "jsval \<times> (string \<times> jsval) list \<Rightarrow> 'w podState \<Rightarrow> bool" where
  "ready_state i s \<longleftrightarrow> pc_plan s = fst i \<and> pc_prior s = [] \<and> pc_inboxRequest s = None \<and> pc_initial s = snd i"

definition steps :: "jsval \<times> (string \<times> jsval) list \<Rightarrow> (unit, 'a) pod \<Rightarrow> 'a \<Rightarrow> jsval \<times> (string \<times> jsval) list \<Rightarrow> bool" where
  "steps i m x j \<longleftrightarrow> (\<forall>s. ready_state i s \<longrightarrow> (\<exists>s'. m s = (Inr x, s') \<and> ready_state j s'))"

abbreviation goes :: "(string \<times> jsval) list \<Rightarrow> (unit, 'a) pod \<Rightarrow> 'a \<Rightarrow> (string \<times> jsval) list \<Rightarrow> bool" where
  "goes i m x j \<equiv> steps (samplePlan, i) m x (samplePlan, j)"

lemma goes_bind: "steps i m x j \<Longrightarrow> steps j (f x) y k \<Longrightarrow> steps i (bindE m f) y k"
  unfolding steps_def bindE_def by fastforce

lemma goes_then: "steps i m x j \<Longrightarrow> steps j k y l \<Longrightarrow> steps i (thenE m k) y l"
  unfolding thenE_def by (rule goes_bind)

lemma goes_basic:
  "steps i (ret x) x i" "r = Inr y \<Longrightarrow> steps i (liftR r) y i" "goes j (getS pc_plan) samplePlan j" "steps i (getS pc_prior) [] i"
  "goes j (getS pc_initial) j j" "steps i (getS pc_inboxRequest) None i"
  by (simp_all add: steps_def ready_state_def ret_def liftR_def getS_def)

lemma goes_ret [simp]: "steps i (ret x) x i"
  by (simp add: steps_def ret_def)

lemma goes_bind_lift: "r = Inr x \<Longrightarrow> steps i (f x) y j \<Longrightarrow> steps i (bindE (liftR r) f) y j"
  by (rule goes_bind [OF goes_basic(2)])

lemma goes_then_lift: "r = Inr x \<Longrightarrow> steps i k y j \<Longrightarrow> steps i (thenE (liftR r) k) y j"
  by (rule goes_then [OF goes_basic(2)])

lemma goes_mod: "(\<And>s. ready_state i s \<Longrightarrow> ready_state j (f s)) \<Longrightarrow> steps i (modS f) () j"
  by (simp add: steps_def modS_def)

lemma goes_keep: "(\<And>s. ready_state i s \<Longrightarrow> ready_state i (f s)) \<Longrightarrow> steps i (modS f) () i"
  by (rule goes_mod)

lemma goes_log: "steps i (modS (\<lambda>s. s\<lparr>pc_calls := f s\<rparr>)) () i"
  "goes j (modS (\<lambda>s. s\<lparr>pc_initial := r # pc_initial s\<rparr>)) () (r # j)"
  by (rule goes_mod, simp add: ready_state_def)+

lemma goes_try: "steps i m x j \<Longrightarrow> steps i (tryE m) (Inr x) j"
  unfolding steps_def tryE_def by (fastforce simp: io_defs)

lemma goes_port: "f () = (x, ()) \<Longrightarrow> steps i (usePort f) x i"
  by (simp add: steps_def usePort_def ready_state_def)

lemma goes_call: "f () = (Inr x, ()) \<Longrightarrow> steps i (callPort mk f) x i"
  by (simp add: steps_def callPort_def ready_state_def)

lemma goes_store: "steps i (storeCall demoPod op) JNull i"
  unfolding storeCall_def by (rule goes_call) (simp add: demoPod_def)

lemma goes_source: "fst (demoSource m (JObj input) ()) = Inr x \<Longrightarrow> steps i (sourceCall demoPod m input) x i"
  unfolding sourceCall_def by (rule goes_call) (simp add: demoPod_def demoSource_def)

lemma goes_verify:
  "steps i (verifyCall demoPod input) (JObj [(''status'', JStr ''passed''), (''candidateSha'', sampleSha), (''evidence'', JArr [])]) i"
  unfolding verifyCall_def by (rule goes_call) (simp add: demoPod_def)

lemma goes_now: "steps i (nowFrom demoPod) 1000 i"
  unfolding nowFrom_def
  by (rule goes_bind [OF goes_port [where x = "num 1000"]])
    (simp_all add: demoPod_def num_def require_def maxSafeInteger_def goes_then_lift goes_basic)

lemma goes_remaining: "1000 < min d e \<Longrightarrow> steps i (remainingMs demoPod d e) (min d e - 1000) i"
  unfolding remainingMs_def Let_def
  by (rule goes_bind [OF goes_now]) (auto intro!: goes_then_lift goes_basic simp: require_def)

lemma goes_seconds:
  assumes "61000 \<le> min d e"
  shows "steps i (executionSeconds demoPod demoPodArgs d e) 60 i"
proof -
  have "60 \<le> (min d e - 1000) div 1000" using assms by linarith
  moreover have "executionLimit demoPodArgs = 60" by code_simp
  ultimately show ?thesis
    unfolding executionSeconds_def Let_def
    by (intro goes_bind [OF goes_remaining] goes_then_lift) (use assms in \<open>auto simp: require_def min_def intro: goes_basic\<close>)
qed

lemma goes_agent:
  assumes "61000 \<le> min d (at_deadlineAt at)"
    and "x = (if role = ''planner'' then samplePlan else if role = ''checker'' then sampleCheckerReceipt else demoReview role)"
  shows "steps i (runAgent demoPod demoPodArgs d at ex role access prompt ws dirs) x i"
  unfolding runAgent_def Let_def
  by (rule goes_then [OF goes_remaining], use assms in linarith, rule goes_bind [OF goes_seconds [OF assms(1)]], rule goes_call)
    (use assms(2) in \<open>simp add: demoPod_def demoAgent_def agentInput_def\<close>)

lemma goes_record: "steps i (recordWorkResult demoPod at r) () i" "steps i (recordGate demoPod at g) () i"
  unfolding recordWorkResult_def recordGate_def Let_def
  by (rule goes_then [OF goes_mod goes_then [OF goes_store goes_basic(1)]], simp add: ready_state_def)+

definition demoAt :: attemptInfo where
  "demoAt = \<lparr>at_attempt = 1, at_baseSha = sampleSha, at_baseSnapshot = JObj [(''id'', JStr ''v''), (''root'', JStr ''/w''),
     (''writeDirectories'', JArr [])], at_deadlineAt = 601000\<rparr>"

definition demoResult :: "string \<Rightarrow> jsval" where
  "demoResult slot = JObj (spread (props (sampleWriterReceipt ''completed'' JNull))
     [(''workItemId'', JStr slot), (''ownerSlot'', JStr slot), (''baseSha'', sampleSha), (''resultSha'', sampleSha),
      (''files'', JArr [JStr (hd (map strOf (elems (fld (workItemOf samplePlan slot) ''writePaths''))) @ ''/a.mjs'')]),
      (''changedBytes'', num 5), (''diffSha256'', demoDigest), (''diff'', JStr ''d'')])"

lemma demo_at [simp]: "at_deadlineAt demoAt = 601000" "at_attempt demoAt = 1" "at_baseSha demoAt = sampleSha"
  by (simp_all add: demoAt_def)

abbreviation demoReceipt :: jsval where
  "demoReceipt \<equiv> sampleWriterReceipt ''completed'' JNull"

abbreviation demoView :: jsval where
  "demoView \<equiv> JObj [(''id'', JStr ''v''), (''root'', JStr ''/w''), (''writeDirectories'', JArr [])]"

lemma slot_cases: "slot \<in> set writerSlots \<Longrightarrow> (P ''engineering-a'' \<Longrightarrow> P ''engineering-b'' \<Longrightarrow> P ''qa-tests'' \<Longrightarrow> P slot)"
  unfolding writerSlots_def by (simp only: set_simps) (elim insertE; simp)

lemma succeeds_Inr: "succeeds r \<Longrightarrow> \<exists>x. r = Inr x"
  by (cases r) (simp_all add: succeeds_def)

lemma demo_commit_ok:
  "slot \<in> set writerSlots \<Longrightarrow> case fst (demoSource ''validateAndCommit'' (JObj [(''workspace'', ws), (''workItem'', workItemOf samplePlan slot),
     (''deadlineAt'', num 601000), (''limits'', fld (pa_template demoPodArgs) ''changes'')]) ()) of Inl _ \<Rightarrow> False | Inr committed \<Rightarrow>
     checkCommit (pp_lower demoPod) demoPodArgs (workItemOf samplePlan slot) demoReceipt committed = Inr (props (demoResult slot))"
  by (erule slot_cases) code_simp+

lemma goes_commit:
  assumes "slot \<in> set writerSlots"
  shows "goes i (commitWriterResult demoPod demoPodArgs 1201000 demoAt (workItemOf samplePlan slot) ws demoReceipt) (demoResult slot) i"
proof -
  let ?input = "[(''workspace'', ws), (''workItem'', workItemOf samplePlan slot), (''deadlineAt'', num 601000),
     (''limits'', fld (pa_template demoPodArgs) ''changes'')]"
  obtain committed where c: "fst (demoSource ''validateAndCommit'' (JObj ?input) ()) = Inr committed"
    "checkCommit (pp_lower demoPod) demoPodArgs (workItemOf samplePlan slot) demoReceipt committed = Inr (props (demoResult slot))"
    using demo_commit_ok [OF assms, of ws] by (auto split: sum.splits)
  have "JObj (props (demoResult slot)) = demoResult slot" by (simp add: demoResult_def)
  then show ?thesis
    unfolding commitWriterResult_def demo_at
    by (intro goes_then [OF goes_remaining] goes_bind [OF goes_source [OF c(1)]] goes_bind_lift [OF c(2)] goes_then [OF goes_record(1)])
      (simp_all add: goes_basic)
qed

lemma demo_check_ok:
  "slot \<in> set writerSlots \<Longrightarrow>
   succeeds (podPrompt (promptFor demoPodArgs ''checker'') ''checker'' (checkerDetails demoPodArgs samplePlan (workItemOf samplePlan slot) (demoResult slot) []))"
  "slot \<in> set writerSlots \<Longrightarrow>
   validateCheckerReceipt (JObj (spread (props sampleCheckerReceipt) [(''files'', JArr [])])) samplePlan slot
     (fld (demoResult slot) ''baseSha'') (fld (demoResult slot) ''resultSha'') (fld (demoResult slot) ''diffSha256'') (JArr []) (num 0)
   = Inr sampleCheckerReceipt"
   apply (erule slot_cases; code_simp)
  apply (erule slot_cases; code_simp)
  done

lemma demo_receiptOf: "receiptOf sampleCheckerReceipt l = Inr sampleCheckerReceipt" "receiptOf samplePlan l = Inr samplePlan"
  "receiptOf demoReceipt l = Inr demoReceipt" "receiptOf (demoReview g) l = Inr (demoReview g)"
  by (simp_all add: receiptOf_def sampleCheckerReceipt_def samplePlan_def sampleWriterReceipt_def demoReview_def hasOwn_def jsKeys_def
      assertPlainObject_def require_def)

lemma goes_checker: "goes i (runAgent demoPod demoPodArgs 1201000 demoAt ex ''checker'' access prompt ws dirs) sampleCheckerReceipt i"
  by (rule goes_agent) simp_all

lemma goes_check:
  assumes "slot \<in> set writerSlots"
  shows "goes i (checkWriterResult demoPod demoPodArgs 1201000 demoAt slot (demoResult slot) [] (num 0)) sampleCheckerReceipt i"
proof -
  obtain prompt where prompt: "podPrompt (promptFor demoPodArgs ''checker'') ''checker''
      (checkerDetails demoPodArgs samplePlan (workItemOf samplePlan slot) (demoResult slot) []) = Inr prompt"
    using succeeds_Inr [OF demo_check_ok(1) [OF assms]] by blast
  have view: "fst (demoSource ''createReadView'' (JObj input) ()) = Inr demoView" for input
    by (simp add: demoSource_def)
  have "fld sampleCheckerReceipt ''outcome'' = JStr ''passed''" by code_simp
  then show ?thesis
    unfolding checkWriterResult_def Let_def demo_at
    by (intro goes_bind [OF goes_basic(3)] goes_bind [OF goes_source [OF view]] goes_then_lift goes_bind_lift [OF prompt]
        goes_bind [OF goes_checker] goes_bind_lift [OF demo_receiptOf(1)] goes_bind_lift [OF demo_check_ok(2) [OF assms]]
        goes_then [OF goes_record(2)])
      (simp_all add: require_def assertPlainObject_def nonEmptyString_def goes_basic checks.simps)
qed

lemma goes_commitCompleted:
  "set slots \<subseteq> set writerSlots \<Longrightarrow> \<forall>slot \<in> set slots. map_of j slot = Some demoReceipt \<Longrightarrow>
   goes i (commitCompleted demoPod demoPodArgs 1201000 demoAt wss j slots) (map (\<lambda>slot. (slot, demoResult slot)) slots) i"
proof (induction slots)
  case (Cons slot slots)
  have "fld demoReceipt ''outcome'' \<noteq> JStr ''blocked''" by code_simp
  then show ?case
    using Cons by (simp add: Let_def)
      (intro goes_bind [OF goes_basic(3)] goes_bind [OF goes_commit] goes_bind [OF Cons.IH] goes_basic(1); simp)
qed (simp add: goes_basic)

lemma goes_checkCompleted:
  "set slots \<subseteq> set writerSlots \<Longrightarrow>
   goes i (checkCompleted demoPod demoPodArgs 1201000 demoAt (map (\<lambda>slot. (slot, demoResult slot)) slots)) None i"
proof (induction slots)
  case (Cons slot slots)
  then have IH: "goes i (checkCompleted demoPod demoPodArgs 1201000 demoAt (map (\<lambda>slot. (slot, demoResult slot)) slots)) None i" by simp
  show ?case
    unfolding list.map checkCompleted.simps
    by (rule goes_bind [OF goes_try [OF goes_check] goes_bind [OF IH]]) (use Cons.prems in \<open>simp_all add: goes_basic\<close>)
qed (simp add: goes_basic)

lemma demo_writer_ok:
  "slot \<in> set writerSlots \<Longrightarrow> succeeds (writerPrompt demoPodArgs samplePlan [] slot [] sampleSha)"
  "slot \<in> set writerSlots \<Longrightarrow> validateWriter demoPodArgs samplePlan slot demoReceipt sampleSha [] (num 0) = Inr demoReceipt"
  by (erule slot_cases; code_simp)+

definition demoSpaces :: "string list \<Rightarrow> (string \<times> jsval) list" where
  "demoSpaces slots = map (\<lambda>slot. (slot, demoView)) slots"

lemma goes_prepare:
  "set slots \<subseteq> set writerSlots \<Longrightarrow> \<exists>ps. map fst ps = slots \<and>
   goes i (prepareWriters demoPod demoPodArgs 1201000 demoAt (demoSpaces slots)) (ps, None) i"
proof (induction slots)
  case (Cons slot slots)
  then obtain ps where ps: "map fst ps = slots" "goes i (prepareWriters demoPod demoPodArgs 1201000 demoAt (demoSpaces slots)) (ps, None) i"
    by auto
  obtain prompt where prompt: "writerPrompt demoPodArgs samplePlan [] slot [] sampleSha = Inr prompt"
    using succeeds_Inr [OF demo_writer_ok(1)] Cons.prems by auto
  have one: "goes i (tryE (bindE (liftR (writerPrompt demoPodArgs samplePlan [] slot [] (at_baseSha demoAt))) (\<lambda>prompt.
              thenE (remainingMs demoPod 1201000 (at_deadlineAt demoAt)) (ret prompt)))) (Inr prompt) i"
    unfolding demo_at by (intro goes_try goes_bind_lift [OF prompt] goes_then [OF goes_remaining] goes_basic) simp
  have "goes i (prepareWriters demoPod demoPodArgs 1201000 demoAt (demoSpaces (slot # slots))) ((slot, demoView, prompt) # ps, None) i"
    unfolding demoSpaces_def list.map prepareWriters.simps
    by (rule goes_bind [OF goes_basic(3)], rule goes_bind [OF goes_basic(4)], rule goes_bind [OF one], unfold sum.case)
      (rule goes_bind [OF ps(2) [unfolded demoSpaces_def]], simp add: goes_basic)
  with ps(1) show ?case by (intro exI [of _ "(slot, demoView, prompt) # ps"]) simp
qed (simp add: goes_basic demoSpaces_def)

lemma goes_launch: "goes i (launchWriters demoPod demoPodArgs 1201000 demoAt ps) (map (\<lambda>q. (fst q, None)) ps) i"
proof (induction ps)
  case (Cons q ps)
  obtain slot ws prompt where q: "q = (slot, ws, prompt)" by (cases q)
  have start: "goes i (thenE (usePort (\<lambda>w. ((), pp_start demoPod slot input w)))
           (thenE (modS (\<lambda>s. s\<lparr>pc_calls := pc_calls s @ [CStart slot input]\<rparr>)) (ret (slot, None)))) (slot, None) i" for input
    by (rule goes_then [OF goes_port], simp, rule goes_then [OF goes_log(1)]) simp
  show ?case
    unfolding q launchWriters.simps Let_def
    by (rule goes_bind [OF goes_try [OF goes_seconds]], simp, unfold sum.case, rule goes_bind [OF start], rule goes_bind [OF Cons])
      (simp add: goes_basic)
qed (simp add: goes_basic)

lemma goes_take:
  assumes "slot \<in> set writerSlots"
  shows "goes i (takeReceipt demoPod demoPodArgs 1201000 demoAt wss pending slot demoReceipt) None ((slot, demoReceipt) # i)"
proof -
  have "fld demoReceipt ''outcome'' = JStr ''completed''" by code_simp
  then show ?thesis
    unfolding takeReceipt_def demo_at
    by (intro goes_bind [OF goes_basic(3)] goes_bind_lift [OF demo_writer_ok(2) [OF assms]] goes_then [OF goes_log(2)])
      simp
qed

lemma goes_catch: "steps i m x j \<Longrightarrow> steps i (catchE m h) x j"
  unfolding steps_def catchE_def by fastforce

lemma goes_race:
  "set slots \<subseteq> set writerSlots \<Longrightarrow>
   goes i (raceLoop demoPod demoPodArgs 1201000 demoAt wss (length slots) (map (\<lambda>slot. (slot, None)) slots) None) None
     (rev (map (\<lambda>slot. (slot, demoReceipt)) slots) @ i)"
proof (induction slots arbitrary: i)
  case (Cons slot slots)
  let ?pending = "map (\<lambda>slot. (slot, None)) (slot # slots)"
  have next_: "goes i (raceNext demoPod ?pending) (0, Inr demoReceipt) i"
    unfolding raceNext_def
    by (rule goes_bind [OF goes_port [where x = "(0, Inr demoReceipt)"]], simp add: demoPod_def, simp only: prod.case Let_def,
        rule goes_then [OF goes_log(1)]) simp
  have settle: "goes i (settleWriter demoPod demoPodArgs 1201000 demoAt wss rest slot (Inr demoReceipt) None) None ((slot, demoReceipt) # i)" for rest
    unfolding settleWriter_def using Cons.prems by (auto intro!: goes_catch goes_take)
  have "goes ((slot, demoReceipt) # i) (raceLoop demoPod demoPodArgs 1201000 demoAt wss (length slots) (map (\<lambda>slot. (slot, None)) slots) None) None
     (rev (map (\<lambda>slot. (slot, demoReceipt)) slots) @ (slot, demoReceipt) # i)"
    using Cons.IH Cons.prems by simp
  then have "goes i (raceLoop demoPod demoPodArgs 1201000 demoAt wss (Suc (length slots)) ?pending None) None
     (rev (map (\<lambda>slot. (slot, demoReceipt)) slots) @ (slot, demoReceipt) # i)"
    unfolding raceLoop.simps
    by (intro goes_bind [OF next_], unfold prod.case Let_def) (simp add: removeAt_def, rule goes_bind [OF settle])
  then show ?case by simp
qed (simp add: goes_basic)

section \<open>The ready run\<close>

lemma goes_worktrees: "goes i (createWorktrees demoPod demoAt slots) (demoSpaces slots) i"
proof (induction slots)
  case (Cons slot slots)
  have view: "fst (demoSource ''createWorktree'' (JObj input) ()) = Inr demoView" for input
    by (simp add: demoSource_def)
  show ?case
    unfolding createWorktrees.simps demo_at demoSpaces_def list.map
    by (rule goes_bind [OF goes_basic(3)], rule goes_bind [OF goes_source [OF view]], rule goes_then_lift,
        simp add: require_def assertPlainObject_def nonEmptyString_def checks.simps, rule goes_bind [OF Cons])
      (simp add: demoSpaces_def)
qed (simp add: demoSpaces_def)

definition demoAccepted :: "(string \<times> jsval) list" where
  "demoAccepted = map (\<lambda>slot. (slot, demoResult slot)) writerSlots"

lemma goes_writers:
  "goes [] (writersPhase demoPod demoPodArgs 1201000 demoAt (demoSpaces writerSlots)) demoAccepted
     (rev (map (\<lambda>slot. (slot, demoReceipt)) writerSlots))"
proof -
  obtain ps where ps: "map fst ps = writerSlots"
    "goes [] (prepareWriters demoPod demoPodArgs 1201000 demoAt (demoSpaces writerSlots)) (ps, None) []"
    using goes_prepare [of writerSlots] by auto
  let ?pending = "map (\<lambda>q. (fst q, None :: err option)) ps"
  let ?j = "rev (map (\<lambda>slot. (slot, demoReceipt)) writerSlots)"
  have pending: "?pending = map (\<lambda>slot. (slot, None)) writerSlots" "length ?pending = length writerSlots"
    using ps(1) by (metis (no_types, lifting) list.map_comp comp_def map_eq_conv, metis length_map)
  have race: "goes [] (raceLoop demoPod demoPodArgs 1201000 demoAt (demoSpaces writerSlots) (length ?pending) ?pending None) None ?j"
    unfolding pending using goes_race [of writerSlots "[]"] by simp
  have found: "\<forall>slot \<in> set writerSlots. map_of ?j slot = Some demoReceipt"
    by (simp add: writerSlots_def)
  have commit: "goes ?j (commitCompleted demoPod demoPodArgs 1201000 demoAt (demoSpaces writerSlots) ?j writerSlots) demoAccepted ?j"
    unfolding demoAccepted_def by (rule goes_commitCompleted [OF order_refl found])
  have check: "goes ?j (checkCompleted demoPod demoPodArgs 1201000 demoAt demoAccepted) None ?j"
    unfolding demoAccepted_def by (rule goes_checkCompleted [OF order_refl])
  have all: "checks (map (\<lambda>slot. require (map_of ?j slot \<noteq> None) (''writer '' @ slot @ '' did not return a receipt'')) writerSlots) = Inr ()"
    using found by (simp add: checks_map_require)
  show ?thesis
    unfolding writersPhase_def
    by (rule goes_bind [OF ps(2)], unfold prod.case, rule goes_bind [OF goes_launch], rule goes_then_lift, simp, rule goes_bind [OF race],
        rule goes_then_lift, simp, rule goes_bind [OF goes_basic(5)], rule goes_then_lift [OF all], rule goes_bind [OF commit],
        rule goes_bind [OF check], rule goes_then_lift) simp_all
qed

lemma demo_review_ok:
  "succeeds (podPrompt (promptFor demoPodArgs ''qa'') ''qa-conformance''
     [(''assignment'', pa_assignment demoPodArgs), (''plan'', samplePlan), (''candidateSha'', sampleSha)])"
  "succeeds (podPrompt (promptFor demoPodArgs ''testing'') ''testing''
     [(''assignment'', pa_assignment demoPodArgs), (''plan'', samplePlan), (''candidateSha'', sampleSha)])"
  "validateConformanceReceipt (JObj (spread (props (demoReview ''qa'')) [(''files'', JArr [])])) samplePlan ''qa'' sampleSha = Inr (demoReview ''qa'')"
  "validateConformanceReceipt (JObj (spread (props (demoReview ''testing'')) [(''files'', JArr [])])) samplePlan ''testing'' sampleSha
     = Inr (demoReview ''testing'')"
  "succeeds (podPrompt (promptFor demoPodArgs ''planner'') ''planner''
     [(''assignment'', pa_assignment demoPodArgs), (''attempt'', num_nat 1), (''baseSha'', sampleSha), (''priorAttempts'', JArr [])])"
  by code_simp+

lemma goes_review:
  assumes "succeeds (podPrompt (promptFor demoPodArgs role) phase
     [(''assignment'', pa_assignment demoPodArgs), (''plan'', samplePlan), (''candidateSha'', sampleSha)])"
    and "validateConformanceReceipt (JObj (spread (props (demoReview role)) [(''files'', JArr [])])) samplePlan role sampleSha = Inr (demoReview role)"
    and "role \<noteq> ''planner''" and "role \<noteq> ''checker''"
  shows "goes i (reviewGate demoPod demoPodArgs 1201000 demoAt role ex phase gf l vd view sampleSha) () i"
proof -
  obtain prompt where prompt: "podPrompt (promptFor demoPodArgs role) phase
     [(''assignment'', pa_assignment demoPodArgs), (''plan'', samplePlan), (''candidateSha'', sampleSha)] = Inr prompt"
    using succeeds_Inr [OF assms(1)] by blast
  have agent: "goes i (runAgent demoPod demoPodArgs 1201000 demoAt e role access pr ws dirs) (demoReview role) i" for e access pr ws dirs
    by (rule goes_agent) (use assms(3,4) in simp_all)
  show ?thesis
    unfolding reviewGate_def
    by (intro goes_bind [OF goes_basic(3)] goes_bind_lift [OF prompt] goes_bind [OF agent] goes_bind_lift [OF demo_receiptOf(4)]
        goes_bind_lift [OF assms(2)] goes_then [OF goes_record(2)] goes_basic(2)) (simp add: demoReview_def require_def)
qed

lemma goes_integrate:
  "goes i (integrateCandidate demoPod demoPodArgs 1201000 demoAt accepted)
     (sampleSha, JObj [(''id'', JStr ''c''), (''root'', JStr ''/w'')], demoView) i"
proof -
  let ?integrated = "JObj [(''candidateSha'', sampleSha), (''workspaceRoot'', JStr ''/w''), (''workspaceId'', JStr ''c'')]"
  have integrate: "fst (demoSource ''integrate'' (JObj input) ()) = Inr ?integrated"
    and snapshot: "fst (demoSource ''createSnapshot'' (JObj input) ()) = Inr demoView" for input
    by (simp_all add: demoSource_def)
  have sha: "assertSha (fld ?integrated ''candidateSha'') ''candidateSha'' = Inr sampleSha"
    by code_simp
  have view: "goes i (if truthy (fld ?integrated ''workspaceRoot'') \<and> truthy (fld ?integrated ''workspaceId'')
      then ret (JObj [(''id'', fld ?integrated ''workspaceId''), (''root'', fld ?integrated ''workspaceRoot'')]) else m)
      (JObj [(''id'', JStr ''c''), (''root'', JStr ''/w'')]) i" for m
    by simp
  show ?thesis
    unfolding integrateCandidate_def demo_at
    by (intro goes_then [OF goes_remaining] goes_bind [OF goes_source [OF integrate]] goes_then_lift goes_bind_lift [OF sha]
        goes_bind [OF view] goes_bind [OF goes_source [OF snapshot]])
      (simp_all add: require_def assertPlainObject_def nonEmptyString_def nullish_def checks.simps)
qed

lemma goes_verification:
  "goes i (verificationGate demoPod demoPodArgs 1201000 demoAt view snapshot sampleSha) () i"
proof -
  have time: "goes i (verificationTimeout demoPod 1201000 601000) 600 i"
    unfolding verificationTimeout_def by (rule goes_bind [OF goes_remaining]) simp_all
  show ?thesis
    unfolding verificationGate_def demo_at
    by (rule goes_bind [OF time], rule goes_bind [OF goes_verify], rule goes_then_lift)
      (simp_all add: passedOn_def require_def assertPlainObject_def checks.simps goes_record)
qed

lemma goes_scan: "goes i (scanGate demoPod demoPodArgs demoAt sampleSha) () i"
proof -
  have scan: "fst (demoSource ''scan'' (JObj input) ()) =
      Inr (JObj [(''status'', JStr ''passed''), (''candidateSha'', sampleSha), (''evidence'', JArr [])])" for input
    by (simp add: demoSource_def)
  show ?thesis
    unfolding scanGate_def
    by (rule goes_bind [OF goes_source [OF scan]], rule goes_then_lift, simp add: passedOn_def require_def assertPlainObject_def checks.simps)
      (rule goes_then [OF goes_record(2) goes_record(2)])
qed

lemma goes_gates: "goes i (gateCandidate demoPod demoPodArgs 1201000 demoAt accepted) sampleSha i"
proof -
  have qa: "goes i (qaGate demoPod demoPodArgs 1201000 demoAt view sampleSha) () i" for view
    unfolding qaGate_def by (rule goes_review [OF demo_review_ok(1,3)]) simp_all
  have testing: "goes i (testingGate demoPod demoPodArgs 1201000 demoAt view sampleSha) () i" for view
    unfolding testingGate_def by (rule goes_review [OF demo_review_ok(2,4)]) simp_all
  show ?thesis
    unfolding gateCandidate_def
    by (rule goes_bind [OF goes_integrate], unfold prod.case, rule goes_then [OF qa], rule goes_then [OF testing],
        rule goes_then [OF goes_verification], rule goes_then [OF goes_scan goes_ret])
qed

lemma goes_runAttempt:
  "goes [] (runAttempt demoPod demoPodArgs 1201000 demoAt) sampleSha (rev (map (\<lambda>slot. (slot, demoReceipt)) writerSlots))"
proof -
  have handover: "goes i (handover demoPod demoPodArgs 1201000 demoAt wss accepted) accepted i" for i wss accepted
    unfolding handover_def by (rule goes_bind [OF goes_basic(6)]) simp
  have "acceptedAll demoAccepted"
    by (simp add: acceptedAll_def demoAccepted_def writerSlots_def)
  then show ?thesis
    unfolding runAttempt_def attemptIn_def
    by (intro goes_bind [OF goes_worktrees] goes_then [OF goes_store] goes_bind [OF goes_writers] goes_bind [OF handover] goes_then_lift
        goes_gates) (simp add: require_def)
qed

lemma goes_plan:
  "steps (JNull, []) (planAttempt demoPod demoPodArgs 1201000 demoAt sampleDirs) () (samplePlan, [])"
proof -
  obtain prompt where prompt: "podPrompt (promptFor demoPodArgs ''planner'') ''planner''
      [(''assignment'', pa_assignment demoPodArgs), (''attempt'', num_nat 1), (''baseSha'', sampleSha), (''priorAttempts'', JArr [])] = Inr prompt"
    using succeeds_Inr [OF demo_review_ok(5)] by blast
  have view: "fst (demoSource ''createReadView'' (JObj input) ()) = Inr demoView" for input
    by (simp add: demoSource_def)
  have agent: "steps i (runAgent demoPod demoPodArgs 1201000 demoAt e ''planner'' access pr ws dirs) samplePlan i" for i e access pr ws dirs
    by (rule goes_agent) simp_all
  have plan: "validateAttemptPlan (pp_lower demoPod) samplePlan (pa_template demoPodArgs) sampleSha sampleDirs = Inr samplePlan"
    using sample_plan_accepted by (simp add: demoPod_def demoPodArgs_def)
  have set: "steps (JNull, i) (modS (\<lambda>s. s\<lparr>pc_plan := samplePlan\<rparr>)) () (samplePlan, i)" for i
    by (rule goes_mod) (simp add: ready_state_def)
  have attempt: "fld samplePlan ''attempt'' = num_nat 1"
    by code_simp
  show ?thesis
    unfolding planAttempt_def demo_at
    by (intro goes_then [OF goes_remaining] goes_then [OF goes_store] goes_bind [OF goes_source [OF view]] goes_bind [OF goes_basic(4)]
        goes_bind_lift [OF prompt] goes_then_lift goes_bind [OF agent] goes_bind_lift [OF demo_receiptOf(2)] goes_bind_lift [OF plan]
        goes_then [OF set]) (simp_all add: require_def nullish_def attempt)
qed

lemma goes_start: "steps (JNull, []) (startAttempt demoPod demoPodArgs 1201000) 601000 (JNull, [])"
proof -
  have "intOf (fld (fld (pa_template demoPodArgs) ''timeouts'') ''attemptSeconds'') = 600"
    by code_simp
  then show ?thesis
    unfolding startAttempt_def
    by (intro goes_bind [OF goes_now] goes_then [OF goes_keep]) (simp_all add: ready_state_def)
qed

lemma goes_tryAttempt:
  "steps (JNull, []) (tryAttempt demoPod demoPodArgs 1201000 demoAt sampleDirs) (readyResult demoPodArgs sampleSha sampleSha)
     (samplePlan, rev (map (\<lambda>slot. (slot, demoReceipt)) writerSlots))"
  unfolding tryAttempt_def demo_at
  by (intro goes_then [OF goes_plan] goes_bind [OF goes_runAttempt] goes_then [OF goes_store] goes_then [OF goes_keep])
    (simp_all add: ready_state_def)

lemma goes_attempts:
  "steps (JNull, []) (attemptLoop demoPod demoPodArgs 1201000 sampleSha demoView sampleDirs 1 (Suc n)) (readyResult demoPodArgs sampleSha sampleSha)
     (samplePlan, rev (map (\<lambda>slot. (slot, demoReceipt)) writerSlots))"
  unfolding attemptLoop.simps
  by (rule goes_bind [OF goes_start], unfold Let_def, rule goes_bind [OF goes_try [OF goes_tryAttempt [unfolded demoAt_def]]]) simp

lemma goes_body:
  "steps (JNull, []) (podBody demoPod demoPodArgs 1201000) (readyResult demoPodArgs sampleSha sampleSha)
     (samplePlan, rev (map (\<lambda>slot. (slot, demoReceipt)) writerSlots))"
proof -
  let ?prepared = "JObj [(''baseSha'', sampleSha), (''existingDirectories'', sampleDirs)]"
  have source: "fst (demoSource ''prepareAssignment'' (JObj input) ()) = Inr ?prepared"
    "fst (demoSource ''createSnapshot'' (JObj input) ()) = Inr demoView" for input
    by (simp_all add: demoSource_def)
  have sha: "assertSha (fld ?prepared ''baseSha'') ''baseSha'' = Inr sampleSha"
    by code_simp
  have profile: "fld (pa_template demoPodArgs) ''verificationProfile'' \<noteq> JStr ''pi-palantir-v1''" by code_simp
  obtain n where n: "nat (intOf (fld (pa_template demoPodArgs) ''maxAttempts'')) = Suc n"
    by (rule that [of 1]) code_simp
  have dirs: "fld ?prepared ''existingDirectories'' = sampleDirs" "isArray sampleDirs" by code_simp+
  have preflight: "steps i (preflight demoPod demoPodArgs d b v) () i" for i d b v
    using profile by (simp add: preflight_def Let_def)
  show ?thesis
    unfolding podBody_def n dirs(1)
    by (intro goes_then [OF goes_store] goes_bind [OF goes_source [OF source(1)]] goes_then_lift goes_bind_lift [OF sha]
        goes_bind [OF goes_source [OF source(2)]] goes_then [OF goes_keep] goes_then [OF preflight])
      (simp_all add: require_def assertPlainObject_def ready_state_def dirs goes_attempts [unfolded One_nat_def] del: attemptLoop.simps)
qed

lemma demo_args_ok: "checkPodArgs demoPodArgs = Inr ()" "podDeadline demoPodArgs 1000 = Inr 1201000"
  by code_simp+

lemma demo_pod_ready: "\<exists>s. runEngineeringPod demoPod demoPodArgs (podStart ()) = (Inr (readyResult demoPodArgs sampleSha sampleSha), s)"
proof -
  have get: "steps i (bindE (getS g) f) y j" if "\<And>x. steps i (f x) y j" for i g j y and f :: "bool \<Rightarrow> (unit, unit) pod"
    using that unfolding steps_def getS_def bindE_def by simp
  have close: "fst (demoSource ''close'' (JObj input) ()) = Inr demoView" for input
    by (simp add: demoSource_def)
  have closing: "steps i (closeSource demoPod) () i" for i
    unfolding closeSource_def by (rule get, rule goes_catch, rule goes_then [OF goes_source [OF close]]) simp
  have "steps (JNull, []) (runEngineeringPod demoPod demoPodArgs) (readyResult demoPodArgs sampleSha sampleSha)
     (samplePlan, rev (map (\<lambda>slot. (slot, demoReceipt)) writerSlots))"
    unfolding runEngineeringPod_def finallyE_def
    by (rule goes_then_lift [OF demo_args_ok(1)], rule goes_bind [OF goes_now], rule goes_bind_lift [OF demo_args_ok(2)],
        rule goes_bind [OF goes_try [OF goes_catch [OF goes_body]]], rule goes_then [OF closing]) (simp add: goes_basic)
  moreover have "ready_state (JNull, []) (podStart ())"
    by (simp add: ready_state_def podStart_def)
  ultimately show ?thesis unfolding steps_def by blast
qed

section \<open>Witnesses\<close>


theorem pod_run_ends_witness:
  "\<exists>s. fst (runEngineeringPod demoPod demoPodArgs (podStart ())) = Inr (readyResult demoPodArgs sampleSha sampleSha) \<and>
     s = snd (runEngineeringPod demoPod demoPodArgs (podStart ())) \<and>
     (\<exists>cs q. list_all (bodyCall demoPodArgs) cs \<and> pc_ready s \<and> pc_calls s = cs @ [closeCall True q])"
proof -
  obtain s where run: "runEngineeringPod demoPod demoPodArgs (podStart ()) = (Inr (readyResult demoPodArgs sampleSha sampleSha), s)"
    using demo_pod_ready by blast
  have "\<exists>cs q. list_all (bodyCall demoPodArgs) cs \<and> pc_ready s \<and> pc_calls s = cs @ [closeCall True q]"
    using pod_run_ends [OF run] by blast
  then show ?thesis using run by simp
qed

end
