(* ===== verification/Pod_Controller_Bound.thy ===== *)
theory Pod_Controller_Bound
  imports Pod_Controller_Demo
begin

text \<open>
  A pod run ends after a bounded number of agent executions and a bounded time spent in them, whatever the agents
  answer and however the writers interleave.
\<close>

section \<open>Executions of one attempt\<close>

fun executionInputOf :: "podCall \<Rightarrow> jsval option" where
  "executionInputOf (CAgent input _) = Some input"
| "executionInputOf (CStart _ input) = Some input"
| "executionInputOf _ = None"

definition isExecution :: "podCall \<Rightarrow> bool" where
  "isExecution c \<longleftrightarrow> executionInputOf c \<noteq> None"

abbreviation executes :: "nat \<Rightarrow> ('w, 'x) pod \<Rightarrow> bool" where
  "executes \<equiv> costs pc_calls isExecution"

lemma executes_usePort [costs_rules]: "executes 0 (usePort f)"
  by (auto simp: costs_def usePort_def split: prod.splits)

lemma executes_callPort: "(\<And>r. \<not> isExecution (mk r)) \<Longrightarrow> executes 0 (callPort mk f)"
  by (auto simp: costs_def callPort_def split: prod.splits)

lemma executes_ports [costs_rules]:
  "executes 0 (storeCall p op)" "executes 0 (sourceCall p method input)" "executes 0 (verifyCall p input)"
  "executes 0 (callPort CCancel g)"
  unfolding storeCall_def sourceCall_def verifyCall_def by (rule executes_callPort, simp add: isExecution_def)+

lemma costs_tryE [costs_rules]: "costs tr C k m \<Longrightarrow> costs tr C k (tryE m)"
  unfolding tryE_def by (rule costs_weaken, (rule costs_rules | assumption)+) simp

text \<open>The rules add the bounds of the parts up; the sum is then compared with the bound claimed.\<close>

lemmas executes_sum = costs_weaken [where tr = pc_calls and C = isExecution]

lemma executes_time [costs_rules]:
  "executes 0 (nowFrom p)" "executes 0 (remainingMs p d e)" "executes 0 (executionSeconds p a d e)" "executes 0 (verificationTimeout p d e)"
  unfolding nowFrom_def remainingMs_def executionSeconds_def verificationTimeout_def Let_def
  by (rule executes_sum, (rule costs_rules)+, simp)+

lemma executes_cancel [costs_rules]: "executes 0 (cancelActive p)" "executes 0 (quietCancel p)" "executes 0 (interrupted p e)"
  unfolding cancelActive_def quietCancel_def interrupted_def
  by (rule executes_sum, (rule costs_rules | simp; fail)+)+

lemma executes_record [costs_rules]: "executes 0 (recordWorkResult p at r)" "executes 0 (recordGate p at g)"
  unfolding recordWorkResult_def recordGate_def Let_def
  by (rule executes_sum, (rule costs_rules | simp; fail)+)+

lemma executes_logged [costs_rules]:
  "executes 1 (callPort (CAgent input) f)" "executes 1 (modS (\<lambda>s. s\<lparr>pc_calls := pc_calls s @ [CStart slot input]\<rparr>))"
  "executes 0 (modS (\<lambda>s. s\<lparr>pc_calls := pc_calls s @ [CSettled slot out]\<rparr>))"
  by (auto simp: costs_def callPort_def isExecution_def split: prod.splits)

lemma executes_agent [costs_rules]: "executes 1 (runAgent p a d at ex role access prompt ws dirs)"
  unfolding runAgent_def Let_def by (rule executes_sum, (rule costs_rules)+, simp)

lemma executes_commit [costs_rules]: "executes 0 (commitWriterResult p a d at item ws receipt)"
  unfolding commitWriterResult_def by (rule executes_sum, (rule costs_rules)+, simp)

lemma executes_check [costs_rules]: "executes 1 (checkWriterResult p a d at slot result inbox cur)"
  unfolding checkWriterResult_def Let_def by (rule executes_sum, (rule costs_rules)+, simp)

lemma executes_writer [costs_rules]: "executes 1 (executeWriter p a d at slot ws inbox ex sha)"
  unfolding executeWriter_def by (rule executes_sum, (rule costs_rules)+, simp)

lemma executes_queue [costs_rules]: "executes 1 (queueDependency p a d at wss pending slot receipt)"
  unfolding queueDependency_def activeSlot_def Let_def by (rule executes_sum, (rule costs_rules | simp; fail)+)

lemma executes_settle [costs_rules]: "executes 1 (settleWriter p a d at wss pending slot out first)"
  unfolding settleWriter_def takeReceipt_def by (rule executes_sum, (rule costs_rules | simp; fail)+)

text \<open>The initial writers: at most as many as there are workspaces.\<close>

lemma executes_prepare [costs_rules]: "executes 0 (prepareWriters p a d at ws)"
proof (induction ws)
  case (Cons w ws)
  obtain slot ws' where w: "w = (slot, ws')" by (cases w)
  show ?case unfolding w prepareWriters.simps by (rule executes_sum, (rule Cons.IH costs_rules)+, simp)
qed (simp add: costs_basic)

lemma prepareWriters_length: "prepareWriters p a d at ws s = (Inr (ps, e), s') \<Longrightarrow> length ps \<le> length ws"
proof (induction ws arbitrary: s ps e s')
  case (Cons w ws)
  obtain slot v where w: "w = (slot, v)" by (cases w)
  obtain r s1 where "(case r of Inl e \<Rightarrow> ret ([], Some e) | Inr prompt \<Rightarrow>
      bindE (prepareWriters p a d at ws) (\<lambda>(ps, e). ret ((slot, v, prompt) # ps, e))) s1 = (Inr (ps, e), s')"
    using Cons.prems unfolding w prepareWriters.simps run_Inr by blast
  then show ?case by (cases r) (auto simp: run_Inr dest!: Cons.IH)
qed simp

lemma executes_launch: "executes (length ps) (launchWriters p a d at ps)"
proof (induction ps)
  case (Cons q ps)
  obtain slot ws prompt where q: "q = (slot, ws, prompt)" by (cases q)
  show ?case
    unfolding q launchWriters.simps Let_def
    by (rule executes_sum, (rule executes_logged Cons.IH costs_rules | simp; fail)+)
qed (simp add: costs_basic)

lemma launchWriters_length: "launchWriters p a d at ps s = (Inr xs, s') \<Longrightarrow> length xs = length ps"
  by (induction ps arbitrary: s xs s') (auto simp: run_Inr)

lemma executes_raceNext [costs_rules]: "executes 0 (raceNext p pending)"
  unfolding raceNext_def Let_def by (rule executes_sum, (rule executes_logged costs_rules)+, simp)

lemma executes_race: "executes n (raceLoop p a d at wss n pending first)"
proof (induction n arbitrary: pending first)
  case (Suc n)
  show ?case
    unfolding raceLoop.simps Let_def by (rule executes_sum, (rule costs_rules Suc.IH)+, simp)
qed (simp add: costs_basic)

lemma executes_commitCompleted [costs_rules]: "executes 0 (commitCompleted p a d at wss initial slots)"
proof (induction slots)
  case (Cons slot slots)
  show ?case unfolding commitCompleted.simps Let_def by (rule executes_sum, (rule Cons.IH costs_rules)+, simp)
qed (simp add: costs_basic)

lemma commitCompleted_length: "commitCompleted p a d at wss initial slots s = (Inr rs, s') \<Longrightarrow> length rs \<le> length slots"
  by (induction slots arbitrary: s rs s') (fastforce simp: run_Inr Let_def split: if_splits)+

lemma executes_checkCompleted: "executes (length results) (checkCompleted p a d at results)"
proof (induction results)
  case (Cons q qs)
  obtain slot result where q: "q = (slot, result)" by (cases q)
  show ?case unfolding q checkCompleted.simps by (rule executes_sum, (rule Cons.IH costs_rules)+, simp)
qed (simp add: costs_basic)

lemma executes_writers:
  assumes "length wss = 3"
  shows "executes 9 (writersPhase p a d at wss)"
proof -
  have launch: "executes 3 (launchWriters p a d at ps)" if "length ps \<le> 3" for ps
    by (rule executes_sum [OF executes_launch that])
  have race: "executes 3 (raceLoop p a d at wss (length pending) pending None)" if "length pending \<le> 3" for pending
    by (rule executes_sum [OF executes_race that])
  have check: "executes 3 (checkCompleted p a d at rs)" if "length rs \<le> 3" for rs
    by (rule executes_sum [OF executes_checkCompleted that])
  have ps: "prepareWriters p a d at wss s = (Inr x, s') \<Longrightarrow> x = (ps, e) \<Longrightarrow> length ps \<le> 3" for s x s' ps e
    using prepareWriters_length assms by fastforce
  have rs: "commitCompleted p a d at wss initial writerSlots s = (Inr rs, s') \<Longrightarrow> length rs \<le> 3" for initial s rs s'
    using commitCompleted_length [of p a d at wss initial writerSlots] by (fastforce simp: writerSlots_def)
  show ?thesis
    unfolding writersPhase_def
    by (rule executes_sum, rule costs_bind_result, rule executes_prepare, rule costs_prod, drule (1) ps, rule costs_bind_result,
        rule launch, assumption, drule launchWriters_length, rule costs_thenE, rule costs_basic, rule costs_bindE, rule race, simp,
        rule costs_thenE, rule costs_basic, rule costs_bindE, rule costs_basic, rule costs_thenE, rule costs_basic,
        rule costs_bind_result, rule executes_commitCompleted, drule rs, rule costs_bindE, rule check, assumption,
        rule costs_thenE, rule costs_basic, rule costs_basic, simp)
qed

lemma executes_handover [costs_rules]: "executes 4 (handover p a d at wss acc)"
  unfolding handover_def resumeOwner_def resumeRequester_def Let_def by (rule executes_sum, (rule costs_rules)+, simp)

lemma executes_gates [costs_rules]: "executes 2 (gateCandidate p a d at acc)"
  unfolding gateCandidate_def integrateCandidate_def qaGate_def testingGate_def reviewGate_def verificationGate_def scanGate_def
  by (rule executes_sum, (rule costs_rules)+, simp)

lemma executes_worktrees [costs_rules]: "executes 0 (createWorktrees p at slots)"
proof (induction slots)
  case (Cons slot slots)
  show ?case unfolding createWorktrees.simps by (rule executes_sum, (rule Cons.IH costs_rules)+, simp)
qed (simp add: costs_basic)

lemma executes_attemptIn:
  assumes "map fst wss = writerSlots"
  shows "executes 15 (attemptIn p a d at wss)"
proof -
  have "length wss = 3" using arg_cong [OF assms, of length] by (simp add: writerSlots_def)
  note writers = executes_writers [OF this]
  show ?thesis unfolding attemptIn_def by (rule executes_sum, (rule writers costs_rules)+, simp)
qed

lemma executes_runAttempt [costs_rules]: "executes 15 (runAttempt p a d at)"
  unfolding runAttempt_def
  by (rule executes_sum, rule costs_bind_result, rule executes_worktrees, drule createWorktrees_slots, rule executes_attemptIn) simp_all

lemma executes_tryAttempt [costs_rules]: "executes 16 (tryAttempt p a d at dirs)"
  unfolding tryAttempt_def planAttempt_def by (rule executes_sum, (rule costs_rules | simp; fail)+)

section \<open>The whole run\<close>

lemma executes_failAttempt [costs_rules]: "executes 0 (failAttempt p n l e)"
  unfolding failAttempt_def by (rule executes_sum, (rule costs_rules | simp; fail)+)

lemma executes_startAttempt [costs_rules]: "executes 0 (startAttempt p a d)"
  unfolding startAttempt_def by (rule executes_sum, (rule costs_rules | simp; fail)+)

lemma executes_loop [costs_rules]: "executes (16 * left) (attemptLoop p a d sha snap dirs n left)"
proof (induction left arbitrary: n)
  case (Suc left)
  show ?case unfolding attemptLoop.simps Let_def by (rule executes_sum, (rule Suc.IH costs_rules)+, simp)
qed (simp add: costs_basic)

lemma executes_preflight [costs_rules]: "executes 0 (preflight p a d sha snap)"
  unfolding preflight_def Let_def by (rule executes_sum, (rule costs_rules)+, simp)

lemma executes_body [costs_rules]: "executes (16 * nat (intOf (fld (pa_template a) ''maxAttempts''))) (podBody p a d)"
  unfolding podBody_def by (rule executes_sum, (rule costs_rules | simp; fail)+)

lemma executes_end [costs_rules]: "executes 0 (failRun p a e)" "executes 0 (closeSource p)"
  unfolding failRun_def closeSource_def by (rule executes_sum, (rule costs_rules)+, simp)+

lemma executes_run: "executes (16 * nat (intOf (fld (pa_template a) ''maxAttempts''))) (runEngineeringPod p a)"
  unfolding runEngineeringPod_def finallyE_def by (rule executes_sum, (rule costs_rules)+, simp)

definition executionsOf :: "podCall list \<Rightarrow> jsval list" where
  "executionsOf calls = List.map_filter executionInputOf calls"

lemma executionsOf_length: "length (executionsOf calls) = length (filter isExecution calls)"
  by (induction calls) (auto simp: executionsOf_def map_filter_simps isExecution_def split: option.splits)

lemma executionsOf_set: "i \<in> set (executionsOf calls) \<longleftrightarrow> (\<exists>c \<in> set calls. executionInputOf c = Some i)"
  by (induction calls) (auto simp: executionsOf_def map_filter_simps split: option.splits)

lemma sum_list_bound: "(\<And>x. x \<in> set xs \<Longrightarrow> f x \<le> b) \<Longrightarrow> sum_list (map f xs) \<le> length xs * (b :: nat)"
  by (induction xs) (auto intro: add_mono)

lemma body_execution: "list_all (bodyCall a) cs \<Longrightarrow> c \<in> set cs \<Longrightarrow> executionInputOf c = Some i \<Longrightarrow> agentOk a i"
  by (cases c) (auto simp: list_all_iff)

lemma run_executions:
  assumes "runEngineeringPod p a (podStart w) = (r, s)"
  shows "pc_calls s = [] \<or> checkPodArgs a = Inr () \<and> (\<forall>i \<in> set (executionsOf (pc_calls s)). agentOk a i)"
  using assms unfolding runEngineeringPod_def
proof (elim run_elims, goal_cases)
  case (4 u s1 t s2 d s3)
  then have ok: "checkPodArgs a = Inr ()" "\<not> pc_ready s3" "pc_calls s3 = []"
    using nowFrom_run [OF 4(2)] by (auto simp: podStart_def)
  from pod_finish [OF this 4(4)] have "\<forall>c \<in> set (pc_calls s). \<forall>i. executionInputOf c = Some i \<longrightarrow> agentOk a i"
    by (elim disjE exE conjE) (auto simp: closeCall_def dest: body_execution)
  then show ?case using ok(1) by (auto simp: executionsOf_set)
qed (auto dest!: nowFrom_run simp: podStart_def)

text \<open>C5: A pod run comes to its end after at most 16 agent executions per attempt that the template allows, and the time
  limits given to these executions add up to at most that many times the execution limit of the template, whatever
  agents, source control, verifier, store and clock do, and in whatever order the writers settle; the template
  allows at most 10 attempts and 1800 seconds per execution.\<close>

theorem pod_executions_bounded:
  assumes "runEngineeringPod p a (podStart w) = (r, s)"
  shows "length (executionsOf (pc_calls s)) \<le> 16 * nat (intOf (fld (pa_template a) ''maxAttempts'')) \<and>
    (\<Sum>i \<leftarrow> executionsOf (pc_calls s). nat (intOf (fld i ''timeoutSeconds'')))
      \<le> 16 * nat (intOf (fld (pa_template a) ''maxAttempts'')) * nat (executionLimit a) \<and>
    (pc_calls s \<noteq> [] \<longrightarrow> intOf (fld (pa_template a) ''maxAttempts'') \<le> 10 \<and> executionLimit a \<le> 1800)"
proof (intro conjI impI)
  show n: "length (executionsOf (pc_calls s)) \<le> 16 * nat (intOf (fld (pa_template a) ''maxAttempts''))"
    using costsD [OF executes_run assms] by (auto simp: executionsOf_length podStart_def)
  have "(\<Sum>i \<leftarrow> executionsOf (pc_calls s). nat (intOf (fld i ''timeoutSeconds''))) \<le> length (executionsOf (pc_calls s)) * nat (executionLimit a)"
    using run_executions [OF assms] by (intro sum_list_bound) (auto simp: agentOk_def executionsOf_def map_filter_simps)
  then show "(\<Sum>i \<leftarrow> executionsOf (pc_calls s). nat (intOf (fld i ''timeoutSeconds'')))
           \<le> 16 * nat (intOf (fld (pa_template a) ''maxAttempts'')) * nat (executionLimit a)"
    using n by (meson le_trans mult_le_mono1)
  show "intOf (fld (pa_template a) ''maxAttempts'') \<le> 10" "executionLimit a \<le> 1800" if "pc_calls s \<noteq> []"
    using run_executions [OF assms] that template_limits
    by (auto simp: checkPodArgs_def executionLimit_def res_simps bindR_Inr)
qed

theorem pod_executions_bounded_witness:
  "\<exists>s. runEngineeringPod demoPod demoPodArgs (podStart ()) = (Inr (readyResult demoPodArgs sampleSha sampleSha), s) \<and>
     length (executionsOf (pc_calls s)) \<le> 16 * nat (intOf (fld (pa_template demoPodArgs) ''maxAttempts'')) \<and>
     (\<Sum>i \<leftarrow> executionsOf (pc_calls s). nat (intOf (fld i ''timeoutSeconds'')))
       \<le> 16 * nat (intOf (fld (pa_template demoPodArgs) ''maxAttempts'')) * nat (executionLimit demoPodArgs)"
proof -
  obtain s where run: "runEngineeringPod demoPod demoPodArgs (podStart ()) = (Inr (readyResult demoPodArgs sampleSha sampleSha), s)"
    using demo_pod_ready by blast
  then show ?thesis using pod_executions_bounded [OF run] by blast
qed

end
