(* ===== verification/Organizer.thy ===== *)
theory Organizer
  imports Assertions Json Sha256 Workflow_Contract "HOL-Library.AList"
begin

text \<open>
  The organizer, \<^verbatim>\<open>src/src/organize.mjs\<close>: up to three agents vote on which installed template fits an
  assignment, and the template that more than half of them name is planned.

  The agents run concurrently, each against its own timer.  The port \<open>og_agents\<close> answers with the
  executions in the order they settle; an execution it leaves out never settles, and its timer ends it.
  \<^verbatim>\<open>localeCompare\<close>, which depends on the locale, is a port as well.
\<close>

section \<open>Validation\<close>

definition maxOrganizerPromptBytes :: nat where "maxOrganizerPromptBytes = 65536"
definition maxReasonBytes :: nat where "maxReasonBytes = 2000"
definition maxBaseInstructionsBytes :: nat where "maxBaseInstructionsBytes = 16 * 1024"
definition defaultAgentTimeoutMs :: int where "defaultAgentTimeoutMs = 300000"
definition maxAgentTimeoutMs :: int where "maxAgentTimeoutMs = 1800000"

text \<open>\<^verbatim>\<open>/^[a-z][a-z0-9-]{0,63}$/u\<close> and \<^verbatim>\<open>/^--[a-z][a-z0-9-]{0,63}$/u\<close>\<close>

fun reTemplateName :: "string \<Rightarrow> bool" where
  "reTemplateName [] = False"
| "reTemplateName (c # cs) = (isLower c \<and> list_all nameChar cs \<and> length cs \<le> 63)"

definition reOptionName :: "string \<Rightarrow> bool" where
  "reOptionName s = (prefix ''--'' s \<and> reTemplateName (drop 2 s))"

definition organizerReceiptFields :: "string list" where
  "organizerReceiptFields = [''version'', ''template'', ''templateDigest'', ''reason'']"

definition exactFields :: "jsval \<Rightarrow> string list \<Rightarrow> string \<Rightarrow> unit res" where
  "exactFields v expected label =
     require (sort (jsKeys v) = sort expected) (label @ '' must contain exactly '' @ joinWith '', '' expected)"

definition boundedText :: "jsval \<Rightarrow> string \<Rightarrow> unit res" where
  "boundedText v label =
     checks
       [require (isString v \<and> trim (strOf v) \<noteq> [] \<and> byteLength (strOf v) \<le> maxReasonBytes)
          (label @ '' must be a non-empty string no larger than '' @ decNat maxReasonBytes @ '' UTF-8 bytes''),
        require (\<not> hasUnsafeControl (strOf v)) (label @ '' contains unsafe control characters'')]"

definition normalizeOptionNames :: "jsval \<Rightarrow> string \<Rightarrow> jsval list res" where
  "normalizeOptionNames v label =
     (if v = JUndef then Inr []
      else bindR (checks
        [require (isArray v \<and> length (elems v) \<le> 32) (label @ '' must be an array of option names''),
         checkEach (\<lambda>i x. require (isString x \<and> reOptionName (strOf x)) (indexed label i @ '' is not a safe option name'')) 0 (elems v),
         require (distinct (elems v)) (label @ '' contains duplicate option names'')]) (\<lambda>_. Inr (elems v)))"

definition boundName :: "jsval \<Rightarrow> string" where
  "boundName entry = (if fld entry ''kind'' = JStr ''workflow'' then ''maxSteps'' else ''maxAttempts'')"

definition entryFields :: "jsval \<Rightarrow> string list" where
  "entryFields entry = [''template'', ''templateDigest'', ''acceptedOptions'', ''kind'', ''roles'', boundName entry]"

definition checkRoles :: "jsval \<Rightarrow> string \<Rightarrow> unit res" where
  "checkRoles roles label =
     checks
       [require (isArray roles \<and> elems roles \<noteq> [] \<and> length (elems roles) \<le> 64) (label @ ''.roles must contain 1 to 64 role names''),
        checkEach (\<lambda>i r. require (isString r \<and> reTemplateName (strOf r)) (indexed (label @ ''.roles'') i @ '' is invalid'')) 0 (elems roles),
        require (distinct (elems roles)) (label @ ''.roles contains duplicates'')]"

definition normalizeEntry :: "string list \<Rightarrow> nat \<Rightarrow> jsval \<Rightarrow> jsval res" where
  "normalizeEntry seen i entry =
     (let label = indexed ''catalog'' i; template = fld entry ''template''; templateDigest = fld entry ''templateDigest'';
          bound = fld entry (boundName entry) in
      bindR (checks
        [assertPlainObject entry label,
         require (fld entry ''kind'' = JStr ''workflow'' \<or> fld entry ''kind'' = JStr ''engineering-pod'')
           (label @ ''.kind must be workflow or engineering-pod''),
         exactFields entry (entryFields entry) label,
         require (isString template \<and> reTemplateName (strOf template)) (label @ ''.template is invalid''),
         require (isString templateDigest \<and> reSha256 (strOf templateDigest)) (label @ ''.templateDigest must be a SHA-256 hex digest''),
         require (strOf template \<notin> set seen) (''catalog contains duplicate template: '' @ strOf template),
         checkRoles (fld entry ''roles'') label,
         require (isInteger bound \<and> 1 \<le> intOf bound \<and> intOf bound \<le> 100)
           (label @ ''.'' @ boundName entry @ '' must be an integer from 1 to 100'')]) (\<lambda>_.
      bindR (normalizeOptionNames (fld entry ''acceptedOptions'') (label @ ''.acceptedOptions'')) (\<lambda>options.
      Inr (JObj [(''template'', template), (''templateDigest'', templateDigest), (''acceptedOptions'', JArr options),
                 (''kind'', fld entry ''kind''), (''roles'', JArr (elems (fld entry ''roles''))), (boundName entry, bound)]))))"

fun catalogLoop :: "string list \<Rightarrow> nat \<Rightarrow> jsval list \<Rightarrow> jsval list res" where
  "catalogLoop seen i [] = Inr []"
| "catalogLoop seen i (entry # entries) =
     bindR (normalizeEntry seen i entry) (\<lambda>e.
     bindR (catalogLoop (strOf (fld entry ''template'') # seen) (Suc i) entries) (\<lambda>es. Inr (e # es)))"

definition normalizeCatalog :: "jsval \<Rightarrow> jsval list res" where
  "normalizeCatalog catalog =
     bindR (require (isArray catalog \<and> elems catalog \<noteq> [] \<and> length (elems catalog) \<le> 64)
       ''catalog must contain 1 to 64 installed templates'') (\<lambda>_.
     catalogLoop [] 0 (elems catalog))"

definition catalogEntryForAgent :: "jsval \<Rightarrow> jsval" where
  "catalogEntryForAgent entry =
     JObj [(''template'', fld entry ''template''), (''templateDigest'', fld entry ''templateDigest''),
           (''acceptedOptions'', JArr (elems (fld entry ''acceptedOptions''))), (''kind'', fld entry ''kind''),
           (''roles'', JArr (elems (fld entry ''roles''))), (boundName entry, fld entry (boundName entry))]"

definition validateOrganizerPrompt :: "jsval \<Rightarrow> unit res" where
  "validateOrganizerPrompt prompt =
     checks
       [require (isString prompt \<and> trim (strOf prompt) \<noteq> []) ''prompt must be a non-empty string'',
        require (byteLength (strOf prompt) \<le> maxOrganizerPromptBytes) ''prompt must be no larger than 65536 UTF-8 bytes'',
        require (\<not> hasUnsafeControl (strOf prompt)) ''prompt contains unsafe control characters'']"

definition validateAgentCount :: "jsval \<Rightarrow> unit res" where
  "validateAgentCount agents =
     require (isInteger agents \<and> 1 \<le> intOf agents \<and> intOf agents \<le> 3) ''agents must be an integer from 1 to 3''"

definition organizerReason :: "string \<Rightarrow> string" where
  "organizerReason reason = sliceTo 2000 (removeFirst unsafeControl reason)"

definition validateTimeout :: "jsval \<Rightarrow> int res" where
  "validateTimeout timeoutMs =
     (if timeoutMs = JUndef then Inr defaultAgentTimeoutMs
      else bindR (require (isInteger timeoutMs \<and> 1 \<le> intOf timeoutMs \<and> intOf timeoutMs \<le> maxAgentTimeoutMs)
        ''timeoutMs must be an integer from 1 to 1800000'') (\<lambda>_. Inr (intOf timeoutMs)))"

definition receiptForAgent :: "jsval \<Rightarrow> jsval list \<Rightarrow> jsval res" where
  "receiptForAgent receipt catalog =
     (let template = fld receipt ''template''; templateDigest = fld receipt ''templateDigest'' in
      bindR (checks
        [assertPlainObject receipt ''agent receipt'',
         exactFields receipt organizerReceiptFields ''agent receipt'',
         require (fld receipt ''version'' = num 1) ''agent receipt version must be 1'',
         require (isString template \<and> reTemplateName (strOf template)) ''agent receipt template is invalid'',
         require (isString templateDigest \<and> reSha256 (strOf templateDigest)) ''agent receipt templateDigest must be a SHA-256 hex digest'',
         boundedText (fld receipt ''reason'') ''agent receipt reason'']) (\<lambda>_.
      case find (\<lambda>entry. fld entry ''template'' = template) catalog of
        None \<Rightarrow> Inl (''agent selected unknown template: '' @ strOf template)
      | Some installed \<Rightarrow>
          bindR (require (templateDigest = fld installed ''templateDigest'')
            (''agent selected a mismatched digest for template: '' @ strOf template)) (\<lambda>_.
          Inr (JObj [(''template'', fld installed ''template''), (''templateDigest'', fld installed ''templateDigest''),
                     (''reason'', JStr (organizerReason (strOf (fld receipt ''reason''))))]))))"

section \<open>The vote\<close>

definition voteFor :: "jsval \<Rightarrow> string" where
  "voteFor vote = strOf (fld vote ''template'')"

definition voteCounts :: "jsval list \<Rightarrow> (string \<times> nat) list" where
  "voteCounts votes =
     (let names = map voteFor votes in map (\<lambda>t. (t, count_list names t)) (rev (remdups (rev names))))"

definition chooseTemplate :: "(string \<Rightarrow> string \<Rightarrow> bool) \<Rightarrow> jsval list \<Rightarrow> nat \<Rightarrow> string res" where
  "chooseTemplate localeLe votes agents =
     (let sorted = sortBy (\<lambda>l r. localeLe (fst l) (fst r)) (voteCounts votes);
          enough = filter (\<lambda>(_, n). if agents = 2 then n = agents else (agents + 1) div 2 \<le> n) sorted in
      case sortBy (\<lambda>l r. snd r \<le> snd l) enough of
        [] \<Rightarrow> Inl (if agents = 2 then ''agent votes must be unanimous'' else ''agent votes have no majority'')
      | (winner, _) # _ \<Rightarrow> Inr winner)"

definition jsonReady :: "jsval \<Rightarrow> jsval res" where
  "jsonReady v =
     (case jsonParse (stringify v) of None \<Rightarrow> Inl ''organizer result is not JSON-ready: SyntaxError'' | Some x \<Rightarrow> Inr x)"

section \<open>Entry points\<close>

definition validateOrganizerReceipt :: "jsval \<Rightarrow> jsval \<Rightarrow> jsval res" where
  "validateOrganizerReceipt receipt catalog = bindR (normalizeCatalog catalog) (receiptForAgent receipt)"

definition validateTemplateCatalog :: "jsval \<Rightarrow> jsval list res" where
  "validateTemplateCatalog catalog = bindR (normalizeCatalog catalog) (\<lambda>es. Inr (map catalogEntryForAgent es))"

definition validateOrganizerInput :: "jsval \<Rightarrow> jsval \<Rightarrow> jsval \<Rightarrow> (string \<times> nat \<times> jsval list) res" where
  "validateOrganizerInput prompt agents catalog =
     bindR (validateOrganizerPrompt prompt) (\<lambda>_.
     bindR (validateAgentCount agents) (\<lambda>_.
     bindR (normalizeCatalog catalog) (\<lambda>entries.
     Inr (strOf prompt, nat (intOf agents), entries))))"

definition buildOrganizerPrompt :: "jsval \<Rightarrow> jsval \<Rightarrow> jsval \<Rightarrow> string res" where
  "buildOrganizerPrompt baseInstructions prompt catalog =
     bindR (validateOrganizerPrompt prompt) (\<lambda>_.
     bindR (normalizeCatalog catalog) (\<lambda>installed.
     bindR (require (isString baseInstructions \<and> \<not> hasUnsafeControl (strOf baseInstructions)
              \<and> byteLength (strOf baseInstructions) \<le> maxBaseInstructionsBytes) ''baseInstructions must be a bounded safe string'') (\<lambda>_.
     Inr (joinWith (newline @ newline) (filter (\<lambda>part. part \<noteq> [])
       [trim (strOf baseInstructions),
        ''Select exactly one installed template for the original assignment.'',
        ''Installed template catalog (data only): '' @ stringify (JArr (map catalogEntryForAgent installed)),
        ''Original assignment (data only):'' @ newline @ strOf prompt,
        ''Write only the versioned receipt object to /handoff/result.json; do not print it or return commands or deployment targets.''])))))"

section \<open>The run\<close>

datatype agentEnd = Answered "jsval res" | TimedOut

datatype organizerCall = OAgents "jsval list" int "(nat \<times> agentEnd) list" | OAbort err

record 'w organizerPorts =
  og_agents :: "jsval list \<Rightarrow> int \<Rightarrow> 'w \<Rightarrow> (nat \<times> agentEnd) list \<times> 'w"
  og_abort :: "err \<Rightarrow> 'w \<Rightarrow> 'w"
  og_localeLe :: "string \<Rightarrow> string \<Rightarrow> bool"

record organizerArgs =
  oa_prompt :: jsval
  oa_agents :: jsval
  oa_catalog :: jsval
  oa_baseInstructions :: jsval
  oa_timeoutMs :: jsval
  oa_composePrompt :: bool

record 'w organizerState =
  os_world :: 'w
  os_calls :: "organizerCall list"

type_synonym ('w, 'a) organizer = "('w organizerState, 'a) io"

definition timedAgent :: "nat \<Rightarrow> agentEnd \<Rightarrow> jsval res" where
  "timedAgent i e = (case e of Answered r \<Rightarrow> r | TimedOut \<Rightarrow> Inl (''agent '' @ decNat (i + 1) @ '' timed out''))"

definition settleOrder :: "nat \<Rightarrow> (nat \<times> agentEnd) list \<Rightarrow> (nat \<times> agentEnd) list" where
  "settleOrder n ends =
     (let known = AList.clearjunk (filter (\<lambda>(i, _). i < n) ends) in
      known @ map (\<lambda>i. (i, TimedOut)) (filter (\<lambda>i. i \<notin> fst ` set known) [0..<n]))"

text \<open>\<^verbatim>\<open>Promise.all\<close>: the first rejection in settling order, else the values in the order of the executions.\<close>

definition promiseAll :: "nat \<Rightarrow> (nat \<times> jsval res) list \<Rightarrow> jsval list res" where
  "promiseAll n settled =
     (case find (\<lambda>(_, r). isl r) settled of
        Some (_, r) \<Rightarrow> Inl (projl r)
      | None \<Rightarrow> Inr (map (\<lambda>i. projr (the (map_of settled i))) [0..<n]))"

definition runAgents :: "'w organizerPorts \<Rightarrow> jsval list \<Rightarrow> int \<Rightarrow> ('w, jsval list) organizer" where
  "runAgents p inputs timeoutMs s =
     (case og_agents p inputs timeoutMs (os_world s) of (ends, w) \<Rightarrow>
      let n = length inputs; started = s\<lparr>os_world := w, os_calls := os_calls s @ [OAgents inputs timeoutMs ends]\<rparr> in
      case promiseAll n (map (\<lambda>(i, e). (i, timedAgent i e)) (settleOrder n ends)) of
        Inl e \<Rightarrow> (Inl e, started\<lparr>os_world := og_abort p e w, os_calls := os_calls started @ [OAbort e]\<rparr>)
      | Inr raws \<Rightarrow> (Inr raws, started))"

definition rawReceipt :: "jsval \<Rightarrow> jsval" where
  "rawReceipt raw = (if isPlainObject raw \<and> hasOwn raw ''receipt'' then fld raw ''receipt'' else raw)"

definition voteOf :: "jsval list \<Rightarrow> nat \<Rightarrow> jsval \<Rightarrow> jsval res" where
  "voteOf catalog i raw =
     (case receiptForAgent (rawReceipt raw) catalog of
        Inl e \<Rightarrow> Inl (''agent '' @ decNat (i + 1) @ '' returned an invalid receipt: '' @ e)
      | Inr vote \<Rightarrow> Inr vote)"

definition organizerResult :: "string \<Rightarrow> nat \<Rightarrow> jsval \<Rightarrow> jsval list \<Rightarrow> jsval" where
  "organizerResult prompt agents selected votes =
     JObj [(''version'', num 1), (''status'', JStr ''planned''), (''promptSha256'', JStr (sha256 prompt)),
           (''template'', fld selected ''template''), (''templateDigest'', fld selected ''templateDigest''),
           (''agents'', num (int agents)), (''votes'', JArr votes),
           (''handoff'', JObj [(''template'', fld selected ''template''), (''templateDigest'', fld selected ''templateDigest''),
                             (''acceptedOptions'', JArr (elems (fld selected ''acceptedOptions'')))])]"

definition decide :: "'w organizerPorts \<Rightarrow> string \<Rightarrow> nat \<Rightarrow> jsval list \<Rightarrow> jsval list \<Rightarrow> jsval res" where
  "decide p prompt agents catalog raws =
     bindR (mapR (voteOf catalog) 0 raws) (\<lambda>votes.
     bindR (chooseTemplate (og_localeLe p) votes agents) (\<lambda>selectedTemplate.
     case find (\<lambda>entry. fld entry ''template'' = JStr selectedTemplate) catalog of
       None \<Rightarrow> Inl ''TypeError''
     | Some selected \<Rightarrow> jsonReady (organizerResult prompt agents selected votes)))"

definition agentInputs :: "nat \<Rightarrow> string \<Rightarrow> jsval list \<Rightarrow> jsval list" where
  "agentInputs n prompt catalog =
     map (\<lambda>i. JObj [(''index'', num (int i)), (''prompt'', JStr prompt), (''catalog'', JArr (map catalogEntryForAgent catalog))]) [0..<n]"

definition runOrganizerCore :: "'w organizerPorts \<Rightarrow> organizerArgs \<Rightarrow> ('w, jsval) organizer" where
  "runOrganizerCore p a =
     bindE (liftR (validateOrganizerInput (oa_prompt a) (oa_agents a) (oa_catalog a))) (\<lambda>(prompt, agents, catalog).
     bindE (liftR (validateTimeout (oa_timeoutMs a))) (\<lambda>boundedTimeout.
     bindE (liftR (if oa_composePrompt a then buildOrganizerPrompt (oa_baseInstructions a) (oa_prompt a) (oa_catalog a)
                   else Inr prompt)) (\<lambda>agentPrompt.
     bindE (runAgents p (agentInputs agents agentPrompt catalog) boundedTimeout) (\<lambda>raws.
     liftR (decide p prompt agents catalog raws)))))"

definition organize :: "'w organizerPorts \<Rightarrow> organizerArgs \<Rightarrow> ('w, jsval) organizer" where
  "organize p a = runOrganizerCore p (a\<lparr>oa_composePrompt := False\<rparr>)"

definition runOrganizer :: "'w organizerPorts \<Rightarrow> organizerArgs \<Rightarrow> ('w, jsval) organizer" where
  "runOrganizer p a = runOrganizerCore p (a\<lparr>oa_composePrompt := True\<rparr>)"

end
