(* ===== verification/Organizer_Controller.thy ===== *)
theory Organizer_Controller
  imports Organizer FileSystem
begin

text \<open>
  The controller around the organizer vote, \<^verbatim>\<open>src/src/organizer-controller.mjs\<close>: it prepares the run and the
  agents' workspaces on disk, keeps the journal, runs the vote in the container runtime and cleans up.

  The container runtime, the clocks and the signals of the process are ports over the world.  The two roots are
  the absolute paths that \<^verbatim>\<open>path.resolve\<close> gives.  \<open>oc_interrupted\<close> reads the flag that the signal handler sets.  The agents' executions go through \<open>oc_executions\<close>, which
  answers like \<open>og_agents\<close>; an execution that starts after an interruption fails there.
\<close>

section \<open>State and ports\<close>

definition organizerSeconds :: int where "organizerSeconds = 300"
definition controllerSeconds :: int where "controllerSeconds = 600"

record 'w ocPorts =
  oc_clock :: "'w \<Rightarrow> jsval \<times> 'w"
  oc_now :: "'w \<Rightarrow> string res \<times> 'w"
  oc_fault :: "'w fault"
  oc_interrupted :: "'w \<Rightarrow> bool \<times> 'w"
  oc_imageDigest :: "int \<Rightarrow> 'w \<Rightarrow> string res \<times> 'w"
  oc_start :: "int \<Rightarrow> 'w \<Rightarrow> unit res \<times> 'w"
  oc_executions :: "jsval list \<Rightarrow> int \<Rightarrow> 'w \<Rightarrow> (nat \<times> agentEnd) list \<times> 'w"
  oc_abort :: "err \<Rightarrow> 'w \<Rightarrow> 'w"
  oc_cancel :: "'w \<Rightarrow> unit res \<times> 'w"
  oc_close :: "'w \<Rightarrow> unit res \<times> 'w"
  oc_localeLe :: "string \<Rightarrow> string \<Rightarrow> bool"

record ocArgs =
  ca_prompt :: jsval
  ca_agents :: jsval
  ca_catalog :: jsval
  ca_baseInstructions :: jsval
  ca_model :: jsval
  ca_agentRuntime :: jsval
  ca_stateRoot :: string
  ca_worktreesRoot :: string
  ca_runId :: jsval

record 'w ocState = "'w sys" +
  oc_events :: "jsval list"
  oc_sequence :: nat

type_synonym ('w, 'a) oc = "('w ocState, 'a) io"

definition controllerReason :: "err \<Rightarrow> string" where
  "controllerReason e =
     (let reason = sliceTo 2000 (filter (\<lambda>c. \<not> unsafeControl c) e) in if reason = [] then ''unknown organizer failure'' else reason)"

section \<open>The journal\<close>

definition changelogLines :: "jsval \<Rightarrow> string list" where
  "changelogLines event =
     (let type = fld event ''type'' in
      if type = JStr ''run.started'' then
        [''- Run: '' @ toStr (fld event ''runId''), ''- Prompt SHA-256: '' @ toStr (fld event ''promptSha256''),
         ''- Organizers: '' @ toStr (fld event ''agents''), []]
      else if type = JStr ''run.completed'' then
        [''## Selection'', [], ''- Template: '' @ toStr (fld event ''template''),
         ''- Template digest: '' @ toStr (fld event ''templateDigest''), []]
      else if type = JStr ''run.failed'' then [''## Failure'', [], toStr (fld event ''reason''), []]
      else [])"

definition organizerChangelog :: "jsval list \<Rightarrow> string" where
  "organizerChangelog events =
     trim (joinWith newline ([''# Organizer run'', []] @ concat (map changelogLines events))) @ newline"

definition ocRunDir :: "ocArgs \<Rightarrow> string" where
  "ocRunDir a = pathJoin (ca_stateRoot a) (strOf (ca_runId a))"

definition ocWorkspaces :: "ocArgs \<Rightarrow> string" where
  "ocWorkspaces a = pathJoin (ca_worktreesRoot a) (strOf (ca_runId a))"

definition ocRunPath :: "ocArgs \<Rightarrow> string" where
  "ocRunPath a = pathJoin (ocRunDir a) ''run.json''"

definition ocEventsPath :: "ocArgs \<Rightarrow> string" where
  "ocEventsPath a = pathJoin (ocRunDir a) ''events.jsonl''"

definition recordOrganizer :: "'w ocPorts \<Rightarrow> ocArgs \<Rightarrow> string \<Rightarrow> jsobj \<Rightarrow> ('w, unit) oc" where
  "recordOrganizer p a type details =
     thenE (modS (\<lambda>s. s\<lparr>oc_sequence := Suc (oc_sequence s)\<rparr>))
     (bindE (getS oc_sequence) (\<lambda>seq.
      bindE (useWorldR (oc_now p)) (\<lambda>timestamp.
      let event = JObj (spread [(''version'', num 1), (''sequence'', num (int seq)), (''timestamp'', JStr timestamp),
                                (''runId'', ca_runId a), (''type'', JStr type)] details) in
      thenE (modS (\<lambda>s. s\<lparr>oc_events := oc_events s @ [event]\<rparr>))
      (thenE (appendFile (oc_fault p) (ocEventsPath a) (stringify event @ newline))
      (bindE (getS oc_events) (\<lambda>events.
       atomicWrite (oc_fault p) (pathJoin (ocRunDir a) ''CHANGELOG.md'') (organizerChangelog events)))))))"

definition writeOrganizerRun :: "'w ocPorts \<Rightarrow> ocArgs \<Rightarrow> jsobj \<Rightarrow> ('w, unit) oc" where
  "writeOrganizerRun p a run = atomicWrite (oc_fault p) (ocRunPath a) (stringifyIndent (JObj run) @ newline)"

section \<open>Preparing a run\<close>

definition privateDirectory :: "'w ocPorts \<Rightarrow> string \<Rightarrow> ('w, bool) oc" where
  "privateDirectory p path =
     catchE (thenE (faultPoint (oc_fault p)) (getS (\<lambda>s. case nodeAt s path of Some (NDir mode _) \<Rightarrow> mode mod 512 = 448 | _ \<Rightarrow> False)))
       (\<lambda>_. ret False)"

definition workspaceName :: "nat \<Rightarrow> string" where
  "workspaceName i = ''organizer-'' @ decNat (i + 1)"

fun createWorkspaces :: "'w ocPorts \<Rightarrow> ocArgs \<Rightarrow> nat list \<Rightarrow> ('w, unit) oc" where
  "createWorkspaces p a [] = ret ()"
| "createWorkspaces p a (i # is) =
     (let dir = pathJoin (ocWorkspaces a) (workspaceName i) in
      thenE (createNew (oc_fault p) dir (NDir 493 0))
      (thenE (createNew (oc_fault p) (pathJoin dir ''.git'') (NFile 292 []))
        (createWorkspaces p a is)))"

definition createRunFiles :: "'w ocPorts \<Rightarrow> ocArgs \<Rightarrow> nat \<Rightarrow> ('w, unit) oc" where
  "createRunFiles p a agents =
     thenE (createNew (oc_fault p) (ocWorkspaces a) (NDir 493 0))
     (thenE (createWorkspaces p a [0..<agents])
     (thenE (createNew (oc_fault p) (ocEventsPath a) (NFile 384 []))
       (atomicWrite (oc_fault p) (pathJoin (ca_stateRoot a) ''latest'') (strOf (ca_runId a) @ newline))))"

definition ocRecord :: "ocArgs \<Rightarrow> string \<Rightarrow> string \<Rightarrow> nat \<Rightarrow> string \<Rightarrow> jsval \<Rightarrow> jsobj" where
  "ocRecord a status promptSha256 agents startedAt finishedAt =
     [(''version'', num 1), (''runId'', ca_runId a), (''type'', JStr ''organizer''), (''status'', JStr status),
      (''promptSha256'', JStr promptSha256), (''agents'', num (int agents)), (''startedAt'', JStr startedAt), (''finishedAt'', finishedAt)]"

definition ocQuiet :: "('w, unit) oc \<Rightarrow> ('w, unit) oc" where
  "ocQuiet m = catchE m (\<lambda>_. ret ())"

definition prepareOrganizerRun :: "'w ocPorts \<Rightarrow> ocArgs \<Rightarrow> string \<Rightarrow> nat \<Rightarrow> ('w, string) oc" where
  "prepareOrganizerRun p a promptSha256 agents =
     bindE (privateDirectory p (ca_stateRoot a)) (\<lambda>stateOk.
     bindE (privateDirectory p (ca_worktreesRoot a)) (\<lambda>worktreesOk.
     thenE (liftR (checks
       [require stateOk ''state root must be a private regular directory'',
        require worktreesOk ''worktrees root must be a private regular directory'',
        require (isString (ca_runId a)) ''TypeError'']))
     (thenE (createNew (oc_fault p) (ocRunDir a) (NDir 448 0))
     (thenE (catchE (createRunFiles p a agents)
        (\<lambda>e. thenE (ocQuiet (removeTree (oc_fault p) (ocRunDir a)))
              (thenE (ocQuiet (removeTree (oc_fault p) (ocWorkspaces a))) (throwE e))))
     (bindE (useWorldR (oc_now p)) (\<lambda>startedAt.
      thenE (modS (\<lambda>s. s\<lparr>oc_events := [], oc_sequence := 0\<rparr>))
      (thenE (writeOrganizerRun p a (ocRecord a ''running'' promptSha256 agents startedAt JNull)) (ret startedAt))))))))"

section \<open>The run\<close>

definition executionInput :: "ocArgs \<Rightarrow> jsval \<Rightarrow> jsval" where
  "executionInput a input =
     (let name = JStr (workspaceName (nat (intOf (fld input ''index'')))) in
      JObj [(''executionId'', name), (''role'', JStr ''organizer''), (''attempt'', num 1), (''access'', JStr ''read''),
            (''prompt'', fld input ''prompt''), (''timeoutSeconds'', num organizerSeconds), (''runId'', ca_runId a),
            (''workspaceId'', name), (''writeDirectories'', JArr [])])"

definition organizerPortsOf :: "'w ocPorts \<Rightarrow> ocArgs \<Rightarrow> 'w organizerPorts" where
  "organizerPortsOf p a =
     \<lparr>og_agents = (\<lambda>inputs t w. oc_executions p (map (executionInput a) inputs) t w), og_abort = oc_abort p,
      og_localeLe = oc_localeLe p\<rparr>"

definition organizerArgsOf :: "ocArgs \<Rightarrow> string \<Rightarrow> nat \<Rightarrow> jsval list \<Rightarrow> organizerArgs" where
  "organizerArgsOf a prompt agents catalog =
     \<lparr>oa_prompt = JStr prompt, oa_agents = num (int agents), oa_catalog = JArr catalog, oa_baseInstructions = ca_baseInstructions a,
      oa_timeoutMs = num ((organizerSeconds + 30) * 1000), oa_composePrompt = True\<rparr>"

text \<open>The vote runs on the world of the controller.\<close>

definition runVote :: "'w ocPorts \<Rightarrow> ocArgs \<Rightarrow> string \<Rightarrow> nat \<Rightarrow> jsval list \<Rightarrow> ('w, jsval) oc" where
  "runVote p a prompt agents catalog s =
     (case runOrganizer (organizerPortsOf p a) (organizerArgsOf a prompt agents catalog) \<lparr>os_world = sys_world s, os_calls = []\<rparr> of
        (r, t) \<Rightarrow> (r, s\<lparr>sys_world := os_world t\<rparr>))"

definition notInterrupted :: "'w ocPorts \<Rightarrow> ('w, unit) oc" where
  "notInterrupted p =
     bindE (useWorld (oc_interrupted p)) (\<lambda>i. liftR (require (\<not> i) ''organizer controller interrupted''))"

definition organizerBody ::
  "'w ocPorts \<Rightarrow> ocArgs \<Rightarrow> string \<Rightarrow> nat \<Rightarrow> jsval list \<Rightarrow> int \<Rightarrow> string \<Rightarrow> ('w, jsval) oc" where
  "organizerBody p a prompt agents catalog deadlineAt startedAt =
     (let promptSha256 = sha256 prompt in
      bindE (useWorldR (oc_imageDigest p deadlineAt)) (\<lambda>imageDigest.
      thenE (recordOrganizer p a ''run.started''
        [(''promptSha256'', JStr promptSha256), (''agents'', num (int agents)), (''model'', ca_model a),
         (''agentRuntime'', ca_agentRuntime a), (''imageDigest'', JStr imageDigest)])
      (thenE (useWorldR (oc_start p deadlineAt))
      (thenE (notInterrupted p)
      (bindE (runVote p a prompt agents catalog) (\<lambda>result.
       thenE (notInterrupted p)
       (bindE (useWorldR (oc_now p)) (\<lambda>finishedAt.
        let response = JObj (spread (props result) [(''runId'', ca_runId a)]) in
        thenE (recordOrganizer p a ''run.completed''
          [(''template'', fld response ''template''), (''templateDigest'', fld response ''templateDigest''), (''votes'', fld response ''votes'')])
        (thenE (writeOrganizerRun p a (ocRecord a ''completed'' promptSha256 agents startedAt (JStr finishedAt) @ [(''result'', response)]))
          (ret response))))))))))"

definition failOrganizer :: "'w ocPorts \<Rightarrow> ocArgs \<Rightarrow> string \<Rightarrow> nat \<Rightarrow> string \<Rightarrow> err \<Rightarrow> ('w, jsval) oc" where
  "failOrganizer p a promptSha256 agents startedAt e =
     thenE (ocQuiet (useWorldR (oc_cancel p)))
     (bindE (useWorldR (oc_now p)) (\<lambda>finishedAt.
      let reason = controllerReason e in
      thenE (ocQuiet (recordOrganizer p a ''run.failed'' [(''reason'', JStr reason)]))
      (thenE (ocQuiet (writeOrganizerRun p a
        (ocRecord a ''failed'' promptSha256 agents startedAt (JStr finishedAt) @ [(''reason'', JStr reason)])))
        (throwE e))))"

definition closeOrganizer :: "'w ocPorts \<Rightarrow> ocArgs \<Rightarrow> ('w, unit) oc" where
  "closeOrganizer p a =
     thenE (useWorldR (oc_close p)) (ocQuiet (removeTree (oc_fault p) (ocWorkspaces a)))"

definition checkOcArgs :: "ocArgs \<Rightarrow> unit res" where
  "checkOcArgs a =
     checks
       [require (reRunId (if ca_runId a = JUndef \<or> ca_runId a = JNull then [] else toStr (ca_runId a))) ''organizer run ID is invalid'',
        require (isString (ca_baseInstructions a) \<and> trim (strOf (ca_baseInstructions a)) \<noteq> []) ''organizer base instructions are required'',
        require (isString (ca_model a) \<and> strOf (ca_model a) \<noteq> []) ''organizer model is required'']"

definition runOrganizerController :: "'w ocPorts \<Rightarrow> ocArgs \<Rightarrow> ('w, jsval) oc" where
  "runOrganizerController p a =
     bindE (liftR (validateOrganizerInput (ca_prompt a) (ca_agents a) (ca_catalog a))) (\<lambda>(prompt, agents, catalog).
     thenE (liftR (checkOcArgs a))
     (bindE (useWorld (oc_clock p)) (\<lambda>invokedAt.
      thenE (liftR (require (isSafeInteger invokedAt \<and> 0 \<le> intOf invokedAt) ''clock must return safe millisecond time''))
      (let deadlineAt = intOf invokedAt + controllerSeconds * 1000; promptSha256 = sha256 prompt in
       bindE (prepareOrganizerRun p a promptSha256 agents) (\<lambda>startedAt.
       bindE (catchE (bindE (catchE (organizerBody p a prompt agents catalog deadlineAt startedAt)
                (failOrganizer p a promptSha256 agents startedAt)) (\<lambda>x. ret (Inr x))) (\<lambda>e. ret (Inl e))) (\<lambda>r.
       thenE (closeOrganizer p a) (liftR r)))))))"

end
