(* ===== verification/Organizer_Decision.thy ===== *)
theory Organizer_Decision
  imports Organizer
begin

text \<open>
  What the organizer decides: the vote is a majority whatever the locale, normalising a catalog twice is
  normalising it once, and a planned result names an installed template that more than half of the
  agents selected.
\<close>

section \<open>The vote is a majority\<close>

lemma count_two: "a \<noteq> b \<Longrightarrow> count_list xs a + count_list xs b \<le> length xs"
  by (induction xs) auto

lemma majority_unique:
  "length xs < 2 * count_list xs a \<Longrightarrow> length xs < 2 * count_list xs b \<Longrightarrow> a = b"
  using count_two [of a b xs] by fastforce

lemma set_voteCounts: "set (voteCounts votes) = (\<lambda>t. (t, count_list (map voteFor votes) t)) ` voteFor ` set votes"
  by (auto simp: voteCounts_def Let_def)

lemma enough_majority:
  assumes "n \<in> {1, 2, 3}" and "c \<le> (n :: nat)"
  shows "(if n = 2 then c = n else (n + 1) div 2 \<le> c) \<longleftrightarrow> n < 2 * c"
  using assms by auto

lemma chooseTemplate_Inr:
  assumes "length votes = n" and "n \<in> {1, 2, 3}"
  shows "chooseTemplate le votes n = Inr t \<longleftrightarrow> n < 2 * count_list (map voteFor votes) t"
proof -
  let ?c = "count_list (map voteFor votes)"
  define reached where "reached c \<longleftrightarrow> (if n = 2 then c = n else (n + 1) div 2 \<le> c)" for c
  define enough where "enough = filter (\<lambda>(_, c). reached c) (sortBy (\<lambda>l r. le (fst l) (fst r)) (voteCounts votes))"
  have bound: "?c u \<le> n" for u using count_le_length [of "map voteFor votes" u] assms(1) by simp
  have major: "reached (?c u) \<longleftrightarrow> n < 2 * ?c u" for u
    unfolding reached_def by (rule enough_majority [OF assms(2) bound])
  have named: "u \<in> voteFor ` set votes" if "n < 2 * ?c u" for u
    using that count_notin [of u "map voteFor votes"] by fastforce
  have enough: "(u, c) \<in> set enough \<longleftrightarrow> c = ?c u \<and> n < 2 * ?c u" for u c
    using major [of u] named [of u] unfolding enough_def by (simp add: set_voteCounts) blast
  define best where "best = sortBy (\<lambda>l r. snd r \<le> (snd l :: nat)) enough"
  have choose: "chooseTemplate le votes n = (case best of
      [] \<Rightarrow> Inl (if n = 2 then ''agent votes must be unanimous'' else ''agent votes have no majority'') | (w, _) # _ \<Rightarrow> Inr w)"
    unfolding chooseTemplate_def Let_def best_def enough_def reached_def ..
  have members: "set best = set enough" by (simp add: best_def)
  show ?thesis
  proof
    assume "chooseTemplate le votes n = Inr t"
    then obtain c rest where "best = (t, c) # rest" using choose by (auto split: list.splits)
    then show "n < 2 * ?c t" using members enough [of t c] by auto
  next
    assume t: "n < 2 * ?c t"
    then have "best \<noteq> []" using members enough [of t "?c t"] by auto
    then obtain u c rest where best: "best = (u, c) # rest" by (cases best) auto
    then have "n < 2 * ?c u" using members enough [of u c] by auto
    then have "u = t" using majority_unique [of "map voteFor votes" u t] t assms(1) by simp
    then show "chooseTemplate le votes n = Inr t" using choose best by simp
  qed
qed

section \<open>Normalised catalogs\<close>

definition installedEntry :: "jsval \<Rightarrow> bool" where
  "installedEntry e \<longleftrightarrow>
     (\<exists>t d os k rs b. e = JObj [(''template'', JStr t), (''templateDigest'', JStr d), (''acceptedOptions'', JArr os), (''kind'', JStr k),
        (''roles'', JArr rs), (boundName e, JNum (NInt b))] \<and>
      k \<in> {''workflow'', ''engineering-pod''} \<and> reTemplateName t \<and> reSha256 d \<and> 1 \<le> b \<and> b \<le> 100 \<and>
      rs \<noteq> [] \<and> length rs \<le> 64 \<and> distinct rs \<and> (\<forall>r \<in> set rs. isString r \<and> reTemplateName (strOf r)) \<and>
      length os \<le> 32 \<and> distinct os \<and> (\<forall>x \<in> set os. isString x \<and> reOptionName (strOf x)))"

lemma normalizeOptionNames_Inr:
  "normalizeOptionNames v l = Inr os \<longleftrightarrow>
     (if v = JUndef then os = [] else v = JArr os \<and> length os \<le> 32 \<and> distinct os \<and> (\<forall>x \<in> set os. isString x \<and> reOptionName (strOf x)))"
  by (auto simp: normalizeOptionNames_def res_simps isArray_iff checkEach_ball [of _ "\<lambda>x. isString x \<and> reOptionName (strOf x)"])

lemma checkRoles_Inr:
  "checkRoles v l = Inr () \<longleftrightarrow>
     (\<exists>rs. v = JArr rs \<and> rs \<noteq> [] \<and> length rs \<le> 64 \<and> distinct rs \<and> (\<forall>r \<in> set rs. isString r \<and> reTemplateName (strOf r)))"
  by (auto simp: checkRoles_def res_simps isArray_iff checkEach_ball [of _ "\<lambda>x. isString x \<and> reTemplateName (strOf x)"])

lemma normalizeEntry_Inr:
  assumes "normalizeEntry seen i entry = Inr e"
  shows "installedEntry e \<and> fld e ''template'' = fld entry ''template'' \<and> strOf (fld e ''template'') \<notin> set seen"
proof -
  let ?b = "boundName entry"
  obtain os where os: "normalizeOptionNames (fld entry ''acceptedOptions'') (indexed ''catalog'' i @ ''.acceptedOptions'') = Inr os"
    and e: "e = JObj [(''template'', fld entry ''template''), (''templateDigest'', fld entry ''templateDigest''), (''acceptedOptions'', JArr os),
      (''kind'', fld entry ''kind''), (''roles'', JArr (elems (fld entry ''roles''))), (?b, fld entry ?b)]"
    and kind: "fld entry ''kind'' = JStr ''workflow'' \<or> fld entry ''kind'' = JStr ''engineering-pod''"
    and template: "isString (fld entry ''template'')" "reTemplateName (strOf (fld entry ''template''))" "strOf (fld entry ''template'') \<notin> set seen"
    and digest: "isString (fld entry ''templateDigest'')" "reSha256 (strOf (fld entry ''templateDigest''))"
    and roles: "checkRoles (fld entry ''roles'') (indexed ''catalog'' i) = Inr ()"
    and bound: "isInteger (fld entry ?b)" "1 \<le> intOf (fld entry ?b)" "intOf (fld entry ?b) \<le> 100"
    using assms by (auto simp: normalizeEntry_def Let_def res_simps)
  have same: "boundName e = ?b" by (simp add: e boundName_def)
  have os': "length os \<le> 32" "distinct os" "\<forall>x \<in> set os. isString x \<and> reOptionName (strOf x)"
    using os unfolding normalizeOptionNames_Inr by (auto split: if_splits)
  show ?thesis
    using kind template digest roles bound os' unfolding installedEntry_def same checkRoles_Inr
    by (auto simp: e isString_iff isInteger_iff)
qed

lemma normalizeEntry_installed:
  assumes "installedEntry e" and "strOf (fld e ''template'') \<notin> set seen"
  shows "normalizeEntry seen i e = Inr e"
proof -
  obtain t d os k rs b where e: "e = JObj [(''template'', JStr t), (''templateDigest'', JStr d), (''acceptedOptions'', JArr os), (''kind'', JStr k),
        (''roles'', JArr rs), (boundName e, JNum (NInt b))]"
    and ok: "k \<in> {''workflow'', ''engineering-pod''}" "reTemplateName t" "reSha256 d" "1 \<le> b" "b \<le> 100"
      "rs \<noteq> []" "length rs \<le> 64" "distinct rs" "\<forall>r \<in> set rs. isString r \<and> reTemplateName (strOf r)"
      "length os \<le> 32" "distinct os" "\<forall>x \<in> set os. isString x \<and> reOptionName (strOf x)"
    using assms(1) unfolding installedEntry_def by blast
  have bn: "boundName e = ''maxSteps'' \<or> boundName e = ''maxAttempts''" by (simp add: boundName_def)
  have fields: "fld e ''template'' = JStr t" "fld e ''templateDigest'' = JStr d" "fld e ''acceptedOptions'' = JArr os" "fld e ''kind'' = JStr k"
    "fld e ''roles'' = JArr rs" "fld e (boundName e) = JNum (NInt b)" "isPlainObject e" "jsKeys e = entryFields e"
    by (subst e, use bn in \<open>auto simp: jsKeys_def entryFields_def\<close>)+
  have "checkRoles (JArr rs) l = Inr ()" "normalizeOptionNames (JArr os) l = Inr os" for l
    using ok by (simp_all add: checkRoles_Inr normalizeOptionNames_Inr)
  then show ?thesis
    using ok fields assms(2) e
    by (auto simp: normalizeEntry_def Let_def exactFields_def res_simps intro!: bindR_step)
qed

lemma catalogLoop_Inr:
  "catalogLoop seen i entries = Inr es \<Longrightarrow>
   length es = length entries \<and> (\<forall>e \<in> set es. installedEntry e) \<and> distinct (map (\<lambda>e. strOf (fld e ''template'')) es) \<and>
   (\<forall>e \<in> set es. strOf (fld e ''template'') \<notin> set seen)"
proof (induction entries arbitrary: seen i es)
  case (Cons entry entries)
  then obtain e rest where e: "normalizeEntry seen i entry = Inr e" "es = e # rest"
    and rest: "catalogLoop (strOf (fld entry ''template'') # seen) (Suc i) entries = Inr rest"
    by (auto simp: bindR_Inr)
  show ?case using normalizeEntry_Inr [OF e(1)] Cons.IH [OF rest] e(2) by auto
qed simp

lemma catalogLoop_installed:
  "\<forall>e \<in> set es. installedEntry e \<Longrightarrow> distinct (map (\<lambda>e. strOf (fld e ''template'')) es) \<Longrightarrow>
   \<forall>e \<in> set es. strOf (fld e ''template'') \<notin> set seen \<Longrightarrow> catalogLoop seen i es = Inr es"
proof (induction es arbitrary: seen i)
  case (Cons e es)
  have "catalogLoop (strOf (fld e ''template'') # seen) (Suc i) es = Inr es"
    using Cons.prems by (intro Cons.IH) (auto simp: image_iff)
  then show ?case using Cons.prems by (simp add: normalizeEntry_installed)
qed simp

lemma entry_for_agent: "installedEntry e \<Longrightarrow> catalogEntryForAgent e = e"
proof -
  assume "installedEntry e"
  then obtain t d os k rs b where e: "e = JObj [(''template'', JStr t), (''templateDigest'', JStr d), (''acceptedOptions'', JArr os), (''kind'', JStr k),
        (''roles'', JArr rs), (boundName e, JNum (NInt b))]" unfolding installedEntry_def by blast
  have bn: "boundName e = ''maxSteps'' \<or> boundName e = ''maxAttempts''" by (simp add: boundName_def)
  have fields: "fld e ''template'' = JStr t" "fld e ''templateDigest'' = JStr d" "fld e ''acceptedOptions'' = JArr os" "fld e ''kind'' = JStr k"
    "fld e ''roles'' = JArr rs" "fld e (boundName e) = JNum (NInt b)"
    by (subst e, use bn in auto)+
  show ?thesis unfolding catalogEntryForAgent_def fields using e by simp
qed

lemma normalizeCatalog_Inr:
  assumes "normalizeCatalog catalog = Inr es"
  shows "es \<noteq> [] \<and> length es \<le> 64 \<and> (\<forall>e \<in> set es. installedEntry e) \<and> distinct (map (\<lambda>e. strOf (fld e ''template'')) es)"
proof -
  have "catalogLoop [] 0 (elems catalog) = Inr es" "elems catalog \<noteq> []" "length (elems catalog) \<le> 64"
    using assms by (auto simp: normalizeCatalog_def bindR_unit require_Inr)
  then show ?thesis using catalogLoop_Inr [of "[]" 0 "elems catalog" es] by auto
qed

text \<open>C30: a catalog that the organizer has validated is a catalog of 1 to 64 entries with distinct template
  names; validating it again, as the organizer controller does when it hands the validated catalog on, gives the same entries,
  and so does the copy the agents see.\<close>
theorem catalog_normal_form:
  assumes "normalizeCatalog catalog = Inr es"
  shows "1 \<le> length es \<and> length es \<le> 64 \<and> distinct (map (\<lambda>e. strOf (fld e ''template'')) es) \<and>
    normalizeCatalog (JArr es) = Inr es \<and> validateTemplateCatalog catalog = Inr es"
proof -
  note es = normalizeCatalog_Inr [OF assms]
  have "normalizeCatalog (JArr es) = Inr es"
    using es catalogLoop_installed [of es "[]" 0] by (simp add: normalizeCatalog_def require_def)
  moreover have "map catalogEntryForAgent es = es"
    using es by (intro map_idI) (simp add: entry_for_agent)
  ultimately show ?thesis using es assms by (cases es) (simp_all add: validateTemplateCatalog_def)
qed

section \<open>Receipts and executions\<close>

lemma find_entry:
  assumes "find (\<lambda>e. fld e ''template'' = v) es = Some e"
  shows "e \<in> set es \<and> fld e ''template'' = v"
  using assms by (auto simp: find_Some_iff)

lemma okGroup_width: "okGroup ch \<Longrightarrow> ch \<noteq> [] \<and> (240 \<le> (of_char (hd ch) :: nat) \<longrightarrow> 2 \<le> length ch)"
  by (auto simp: okGroup_def split: list.splits)

lemma sliceChars_whole: "length (concat chs) \<le> n \<Longrightarrow> list_all okGroup chs \<Longrightarrow> sliceChars n chs = chs"
proof (induction chs arbitrary: n)
  case (Cons ch chs)
  then have ch: "ch \<noteq> []" "240 \<le> (of_char (hd ch) :: nat) \<longrightarrow> 2 \<le> length ch" using okGroup_width by auto
  then have "n \<noteq> 0" "240 \<le> (of_char (hd ch) :: nat) \<longrightarrow> n \<noteq> 1" using Cons.prems(1) by (cases ch; force)+
  moreover have "sliceChars (n - k) chs = chs" if "k \<le> length ch" for k
    using Cons that by (intro Cons.IH) auto
  ultimately show ?case using ch by (cases ch) auto
qed simp

lemma organizerReason_id:
  assumes "length s \<le> 2000" and "\<not> hasUnsafeControl s" and "utf8Text s"
  shows "organizerReason s = s"
proof -
  have "removeFirst unsafeControl s = s"
    using assms(2) by (induction s) (auto simp: hasUnsafeControl_def)
  then show ?thesis
    using sliceChars_whole [of "chars s" 2000] assms(1,3)
    by (simp add: organizerReason_def sliceTo_def concat_chars utf8Text_def)
qed

lemma receiptForAgent_Inr:
  assumes "receiptForAgent receipt catalog = Inr vote"
  shows "\<exists>e \<in> set catalog. vote = JObj [(''template'', fld e ''template''), (''templateDigest'', fld e ''templateDigest''),
       (''reason'', JStr (organizerReason (strOf (fld receipt ''reason''))))] \<and>
     fld receipt ''template'' = fld e ''template'' \<and> fld receipt ''templateDigest'' = fld e ''templateDigest'' \<and>
     length (strOf (fld receipt ''reason'')) \<le> 2000 \<and> \<not> hasUnsafeControl (strOf (fld receipt ''reason'')) \<and>
     isString (fld receipt ''reason'') \<and> isPlainObject receipt"
  using assms
  by (auto simp: receiptForAgent_def Let_def res_simps boundedText_def byteLength_def maxReasonBytes_def find_Some_iff
      split: option.splits dest!: find_entry)

lemma jsonReady_id: "jsonable v \<Longrightarrow> jsonReady v = Inr v"
  using jsonParse_stringify(1) [of v "[]"] by (simp add: jsonReady_def)

lemma jsonable_field: "jsonable v \<Longrightarrow> fld v k \<noteq> JUndef \<Longrightarrow> jsonable (fld v k)"
  by (cases v) (auto simp: fld_def list_all_iff split: option.splits dest!: map_of_SomeD)

lemma jsonable_rawReceipt: "jsonable raw \<Longrightarrow> isPlainObject (rawReceipt raw) \<Longrightarrow> jsonable (rawReceipt raw)"
  unfolding rawReceipt_def using jsonable_field [of raw "''receipt''"] by (cases "fld raw ''receipt''") (auto split: if_splits)

lemma ascii_name: "list_all nameChar s \<Longrightarrow> utf8Text s"
  by (intro ascii_utf8) (auto simp: list_all_iff nameChar_def char_classes)

lemma template_utf8: "reTemplateName s \<Longrightarrow> utf8Text s"
  by (intro ascii_name, cases s) (auto simp: nameChar_def)

lemma digest_utf8: "reSha256 s \<Longrightarrow> utf8Text s"
  by (intro ascii_utf8) (auto simp: reSha256_def list_all_iff char_classes)

lemma option_utf8:
  assumes "reOptionName s"
  shows "utf8Text s"
proof -
  obtain u where u: "s = ''--'' @ u" "reTemplateName u" using assms by (auto simp: reOptionName_def prefix_def)
  have "list_all nameChar s" using u(2) unfolding u(1) by (cases u) (auto simp: nameChar_def)
  then show ?thesis by (rule ascii_name)
qed

lemma sha256_utf8: "utf8Text (sha256 s)"
  by (rule digest_utf8) (use sha256_hex in \<open>simp add: reSha256_def\<close>)

lemma map_of_below: "i < n \<Longrightarrow> map_of (filter (\<lambda>(i, _). i < n) ends) i = map_of ends (i :: nat)"
  by (induction ends) auto

lemma settleOrder_map_of:
  assumes "i < n"
  shows "map_of (settleOrder n ends) i = Some (case map_of ends i of None \<Rightarrow> TimedOut | Some e \<Rightarrow> e)"
proof -
  define known where "known = AList.clearjunk (filter (\<lambda>(i, _). i < n) ends)"
  have known: "map_of known i = map_of ends i"
    using map_of_below [OF assms] by (simp add: known_def map_of_clearjunk)
  have "map_of (map (\<lambda>i. (i, TimedOut)) is) i = (if i \<in> set is then Some TimedOut else None)" for "is"
    by (induction "is") auto
  moreover have "settleOrder n ends = known @ map (\<lambda>i. (i, TimedOut)) (filter (\<lambda>i. i \<notin> fst ` set known) [0..<n])"
    unfolding settleOrder_def Let_def known_def ..
  ultimately show ?thesis
    using assms known by (auto simp: map_add_def map_of_eq_None_iff [symmetric] split: option.splits)
qed

lemma settleOrder_keys: "fst ` set (settleOrder n ends) = {..<n}" "distinct (map fst (settleOrder n ends))"
proof -
  define known where "known = AList.clearjunk (filter (\<lambda>(i, _). i < n) ends)"
  have order: "settleOrder n ends = known @ map (\<lambda>i. (i, TimedOut)) (filter (\<lambda>i. i \<notin> fst ` set known) [0..<n])"
    unfolding settleOrder_def Let_def known_def ..
  have "fst ` set known = fst ` set (filter (\<lambda>(i, _). i < n) ends)"
    unfolding known_def using clearjunk_keys_set [of "filter (\<lambda>(i, _). i < n) ends"] by (simp only: set_map)
  then have known: "fst ` set known \<subseteq> {..<n}" by auto
  have known_distinct: "distinct (map fst known)"
    unfolding known_def by (rule distinct_clearjunk)
  show "fst ` set (settleOrder n ends) = {..<n}"
    unfolding order using known by (auto simp: image_Un image_image)
  show "distinct (map fst (settleOrder n ends))"
    unfolding order using known_distinct by (auto simp: comp_def)
qed

definition outcomes :: "nat \<Rightarrow> (nat \<times> agentEnd) list \<Rightarrow> (nat \<times> jsval res) list" where
  "outcomes n ends = map (\<lambda>(i, e). (i, timedAgent i e)) (settleOrder n ends)"

lemma outcomes_at:
  assumes "(i, r) \<in> set (outcomes n ends)"
  shows "i < n \<and> r = timedAgent i (case map_of ends i of None \<Rightarrow> TimedOut | Some e \<Rightarrow> e)"
proof -
  obtain e where e: "(i, e) \<in> set (settleOrder n ends)" "r = timedAgent i e" using assms by (auto simp: outcomes_def)
  then have "i < n" using settleOrder_keys(1) [of n ends] by (metis fst_conv image_eqI lessThan_iff)
  moreover have "map_of (settleOrder n ends) i = Some e" using e(1) settleOrder_keys(2) by simp
  ultimately show ?thesis using settleOrder_map_of [of i n ends] e(2) by simp
qed

lemma outcomes_map_of:
  "i < n \<Longrightarrow> map_of (outcomes n ends) i = Some (timedAgent i (case map_of ends i of None \<Rightarrow> TimedOut | Some e \<Rightarrow> e))"
proof -
  assume "i < n"
  have "map_of (map (\<lambda>(i, e). (i, f i e)) xs) i = map_option (f i) (map_of xs i)" for f :: "nat \<Rightarrow> agentEnd \<Rightarrow> jsval res" and xs
    by (induction xs) auto
  then show ?thesis using settleOrder_map_of [OF \<open>i < n\<close>] by (simp add: outcomes_def)
qed

lemma promiseAll_Inr:
  "promiseAll n (outcomes n ends) = Inr raws \<longleftrightarrow>
     length raws = n \<and> (\<forall>i < n. map_of ends i = Some (Answered (Inr (raws ! i))))"
  (is "?all \<longleftrightarrow> ?each")
proof
  assume all: ?all
  then have none: "\<forall>(i, r) \<in> set (outcomes n ends). \<not> isl r"
    and raws: "raws = map (\<lambda>i. projr (the (map_of (outcomes n ends) i))) [0..<n]"
    by (auto simp: promiseAll_def find_None_iff split: option.splits prod.splits)
  have "map_of ends i = Some (Answered (Inr (raws ! i)))" if i: "i < n" for i
  proof -
    let ?e = "case map_of ends i of None \<Rightarrow> TimedOut | Some e \<Rightarrow> e"
    have at: "map_of (outcomes n ends) i = Some (timedAgent i ?e)" by (rule outcomes_map_of [OF i])
    then have "\<not> isl (timedAgent i ?e)" using none by (fastforce dest: map_of_SomeD)
    then show ?thesis
      using at i raws by (auto simp: timedAgent_def split: agentEnd.splits option.splits sum.splits)
  qed
  then show ?each using raws by simp
next
  assume each: ?each
  have at: "timedAgent i (case map_of ends i of None \<Rightarrow> TimedOut | Some e \<Rightarrow> e) = Inr (raws ! i)" if "i < n" for i
    using each that by (simp add: timedAgent_def)
  then have "find (\<lambda>(_, r). isl r) (outcomes n ends) = None"
    using outcomes_at by (force simp: find_None_iff)
  moreover have "map (\<lambda>i. projr (the (map_of (outcomes n ends) i))) [0..<n] = raws"
    using each at by (intro nth_equalityI) (simp_all add: outcomes_map_of)
  ultimately show ?all by (simp add: promiseAll_def)
qed

lemma promiseAll_Inl:
  assumes "promiseAll n (outcomes n ends) = Inl e"
  shows "\<exists>i < n. timedAgent i (case map_of ends i of None \<Rightarrow> TimedOut | Some e \<Rightarrow> e) = Inl e"
proof -
  obtain i r where "find (\<lambda>(_, r). isl r) (outcomes n ends) = Some (i, r)" "e = projl r"
    using assms by (auto simp: promiseAll_def split: option.splits)
  then have "(i, r) \<in> set (outcomes n ends)" "r = Inl e" by (auto simp: find_Some_iff in_set_conv_nth isl_def)
  then show ?thesis using outcomes_at [of i r n ends] by auto
qed

section \<open>The decision\<close>

lemma mapR_voteOf:
  "mapR (voteOf catalog) i raws = Inr votes \<longleftrightarrow>
     length votes = length raws \<and> (\<forall>k < length raws. receiptForAgent (rawReceipt (raws ! k)) catalog = Inr (votes ! k))"
proof (induction raws arbitrary: i votes)
  case (Cons raw raws)
  have "voteOf catalog i raw = Inr v \<longleftrightarrow> receiptForAgent (rawReceipt raw) catalog = Inr v" for v
    by (auto simp: voteOf_def split: sum.splits)
  then have "mapR (voteOf catalog) i (raw # raws) = Inr votes \<longleftrightarrow>
      (\<exists>v vs. votes = v # vs \<and> receiptForAgent (rawReceipt raw) catalog = Inr v \<and> mapR (voteOf catalog) (Suc i) raws = Inr vs)"
    by (cases "voteOf catalog i raw") (auto split: sum.splits)
  then show ?case
    unfolding Cons.IH by (cases votes) (auto simp: nth_Cons less_Suc_eq_0_disj split: nat.splits)
qed auto

lemma installed_fields:
  assumes "installedEntry e"
  shows "\<exists>t d os. fld e ''template'' = JStr t \<and> fld e ''templateDigest'' = JStr d \<and> fld e ''acceptedOptions'' = JArr os \<and>
    utf8Text t \<and> utf8Text d \<and> list_all jsonable os"
proof -
  obtain t d os k rs b where "e = JObj [(''template'', JStr t), (''templateDigest'', JStr d), (''acceptedOptions'', JArr os), (''kind'', JStr k),
        (''roles'', JArr rs), (boundName e, JNum (NInt b))]"
    and "reTemplateName t" "reSha256 d" and os: "\<forall>x \<in> set os. isString x \<and> reOptionName (strOf x)"
    using assms unfolding installedEntry_def by blast
  moreover have "list_all jsonable os" using os by (auto simp: list_all_iff isString_iff option_utf8)
  moreover have "fld e ''template'' = JStr t" "fld e ''templateDigest'' = JStr d" "fld e ''acceptedOptions'' = JArr os"
    by (subst calculation(1), simp)+
  ultimately show ?thesis using template_utf8 [of t] digest_utf8 [of d] by simp
qed

lemma vote_jsonable:
  assumes "\<forall>e \<in> set catalog. installedEntry e" and "jsonable raw" and "receiptForAgent (rawReceipt raw) catalog = Inr vote"
  shows "jsonable vote"
proof -
  let ?r = "rawReceipt raw"
  obtain e where e: "e \<in> set catalog" and vote: "vote = JObj [(''template'', fld e ''template''), (''templateDigest'', fld e ''templateDigest''),
       (''reason'', JStr (organizerReason (strOf (fld ?r ''reason''))))]"
    and r: "length (strOf (fld ?r ''reason'')) \<le> 2000" "\<not> hasUnsafeControl (strOf (fld ?r ''reason''))"
      "isString (fld ?r ''reason'')" "isPlainObject ?r"
    using receiptForAgent_Inr [OF assms(3)] by blast
  have "jsonable (fld ?r ''reason'')"
    using jsonable_field [OF jsonable_rawReceipt [OF assms(2) r(4)], of "''reason''"] r(3) by (cases "fld ?r ''reason''") auto
  then have "utf8Text (strOf (fld ?r ''reason''))" using r(3) by (auto simp: isString_iff)
  moreover have "utf8Text ''template''" "utf8Text ''templateDigest''" "utf8Text ''reason''" by code_simp+
  ultimately show ?thesis
    using installed_fields [of e] assms(1) e r organizerReason_id unfolding vote by fastforce
qed

lemma result_jsonable:
  assumes "installedEntry e" and "\<forall>v \<in> set votes. jsonable v"
  shows "jsonable (organizerResult prompt n e votes)"
proof -
  have "list_all utf8Text [''version'', ''status'', ''promptSha256'', ''template'', ''templateDigest'', ''agents'', ''votes'', ''handoff'',
     ''acceptedOptions'', ''planned'']"
    by code_simp
  then show ?thesis
    using installed_fields [OF assms(1)] assms(2) sha256_utf8 [of prompt]
    by (auto simp: organizerResult_def num_def list_all_iff)
qed

lemma decide_Inr:
  assumes "\<forall>e \<in> set catalog. installedEntry e" and "distinct (map (\<lambda>e. strOf (fld e ''template'')) catalog)"
    and "length raws = n" and "n \<in> {1, 2, 3}" and "\<forall>raw \<in> set raws. jsonable raw"
  shows "decide p prompt n catalog raws = Inr result \<longleftrightarrow>
    (\<exists>votes e. length votes = n \<and> (\<forall>i < n. receiptForAgent (rawReceipt (raws ! i)) catalog = Inr (votes ! i)) \<and>
       e \<in> set catalog \<and> n < 2 * count_list (map voteFor votes) (strOf (fld e ''template'')) \<and> result = organizerResult prompt n e votes)"
  (is "_ \<longleftrightarrow> ?decision")
proof -
  have same: "fld e ''template'' = JStr t \<longleftrightarrow> strOf (fld e ''template'') = t" if "e \<in> set catalog" for e t
    using installed_fields [of e] assms(1) that by auto
  have find: "find (\<lambda>e. fld e ''template'' = JStr t) catalog = Some e \<longleftrightarrow> e \<in> set catalog \<and> strOf (fld e ''template'') = t" for e t
  proof
    assume "find (\<lambda>e. fld e ''template'' = JStr t) catalog = Some e"
    then show "e \<in> set catalog \<and> strOf (fld e ''template'') = t" using find_entry [of "JStr t" catalog e] by simp
  next
    assume e: "e \<in> set catalog \<and> strOf (fld e ''template'') = t"
    then obtain e' where e': "find (\<lambda>e. fld e ''template'' = JStr t) catalog = Some e'"
      using same by (cases "find (\<lambda>e. fld e ''template'' = JStr t) catalog") (auto simp: find_None_iff)
    then have "e' \<in> set catalog" "strOf (fld e' ''template'') = t" using find_entry [of "JStr t" catalog e'] by simp_all
    then have "e' = e" using e assms(2) by (auto simp: distinct_map inj_on_def)
    then show "find (\<lambda>e. fld e ''template'' = JStr t) catalog = Some e" using e' by simp
  qed
  have ready: "jsonReady (organizerResult prompt n e votes) = Inr (organizerResult prompt n e votes)"
    if "e \<in> set catalog" "mapR (voteOf catalog) 0 raws = Inr votes" for e votes
  proof -
    have "\<forall>v \<in> set votes. jsonable v"
      using that(2) vote_jsonable [OF assms(1)] assms(5) by (force simp: mapR_voteOf in_set_conv_nth)
    then show ?thesis using that(1) assms(1) by (intro jsonReady_id result_jsonable) auto
  qed
  have "decide p prompt n catalog raws = Inr result \<longleftrightarrow>
    (\<exists>votes. mapR (voteOf catalog) 0 raws = Inr votes \<and> (\<exists>t. chooseTemplate (og_localeLe p) votes n = Inr t \<and>
      (\<exists>e. find (\<lambda>e. fld e ''template'' = JStr t) catalog = Some e \<and> jsonReady (organizerResult prompt n e votes) = Inr result)))"
    unfolding decide_def by (simp add: bindR_Inr option.case_eq_if) (metis option.distinct(1) option.sel sum.distinct(1) option.collapse)
  also have "\<dots> \<longleftrightarrow> (\<exists>votes. mapR (voteOf catalog) 0 raws = Inr votes \<and> (\<exists>e \<in> set catalog.
      chooseTemplate (og_localeLe p) votes n = Inr (strOf (fld e ''template'')) \<and> organizerResult prompt n e votes = result))"
    using ready unfolding find by fastforce
  also have "\<dots> \<longleftrightarrow> ?decision"
  proof -
    have "(mapR (voteOf catalog) 0 raws = Inr votes \<and> chooseTemplate (og_localeLe p) votes n = Inr t) \<longleftrightarrow>
      length votes = n \<and> (\<forall>i < n. receiptForAgent (rawReceipt (raws ! i)) catalog = Inr (votes ! i)) \<and> n < 2 * count_list (map voteFor votes) t"
      for votes t
      unfolding mapR_voteOf assms(3) using chooseTemplate_Inr [OF _ assms(4)] by blast
    then show ?thesis by blast
  qed
  finally show ?thesis .
qed

lemma organizer_input:
  assumes "validateOrganizerInput prompt agents catalog = Inr (pr, n, es)"
  shows "n \<in> {1, 2, 3} \<and> (\<forall>e \<in> set es. installedEntry e) \<and> distinct (map (\<lambda>e. strOf (fld e ''template'')) es)"
proof -
  have "normalizeCatalog catalog = Inr es" "n = nat (intOf agents)" "1 \<le> intOf agents" "intOf agents \<le> 3"
    using assms by (auto simp: validateOrganizerInput_def validateAgentCount_def res_simps)
  then show ?thesis using normalizeCatalog_Inr by force
qed

definition agentPromptOf :: "organizerArgs \<Rightarrow> string \<Rightarrow> string res" where
  "agentPromptOf a prompt =
     (if oa_composePrompt a then buildOrganizerPrompt (oa_baseInstructions a) (oa_prompt a) (oa_catalog a) else Inr prompt)"

lemma runOrganizerCore_run:
  assumes "validateOrganizerInput (oa_prompt a) (oa_agents a) (oa_catalog a) = Inr (prompt, n, catalog)"
    and "validateTimeout (oa_timeoutMs a) = Inr t" and "agentPromptOf a prompt = Inr ap"
    and "og_agents p (agentInputs n ap catalog) t (os_world s) = (ends, w)"
  shows "fst (runOrganizerCore p a s) =
    bindR (promiseAll n (outcomes n ends)) (decide p prompt n catalog)"
proof -
  have "length (agentInputs n ap catalog) = n" by (simp add: agentInputs_def)
  then show ?thesis
    using assms
    by (simp add: runOrganizerCore_def agentPromptOf_def io_defs runAgents_def Let_def outcomes_def split: sum.splits)
qed

text \<open>C27: the organizer plans a template exactly when every agent answered in time with a receipt for an
  installed template and its digest, and more than half of the agents (both of two) name that template; the
  result then carries this template, its digest, the votes and the hand-over data.  The order in which the
  agents settle and the locale play no part.\<close>
theorem organizer_decision:
  assumes "validateOrganizerInput (oa_prompt a) (oa_agents a) (oa_catalog a) = Inr (prompt, n, catalog)"
    and "validateTimeout (oa_timeoutMs a) = Inr t" and "agentPromptOf a prompt = Inr ap"
    and "og_agents p (agentInputs n ap catalog) t (os_world s) = (ends, w)"
    and "\<forall>i raw. (i, Answered (Inr raw)) \<in> set ends \<longrightarrow> jsonable raw"
  shows "fst (runOrganizerCore p a s) = Inr result \<longleftrightarrow>
    (\<exists>raws votes e. length raws = n \<and> (\<forall>i < n. map_of ends i = Some (Answered (Inr (raws ! i)))) \<and>
       length votes = n \<and> (\<forall>i < n. receiptForAgent (rawReceipt (raws ! i)) catalog = Inr (votes ! i)) \<and>
       e \<in> set catalog \<and> n < 2 * count_list (map voteFor votes) (strOf (fld e ''template'')) \<and>
       result = organizerResult prompt n e votes)"
proof -
  note input = organizer_input [OF assms(1)]
  have json: "\<forall>raw \<in> set raws. jsonable raw" if len: "length raws = n" and each: "\<forall>i < n. map_of ends i = Some (Answered (Inr (raws ! i)))" for raws
  proof
    fix raw assume "raw \<in> set raws"
    then obtain i where "i < n" "raw = raws ! i" using len by (auto simp: in_set_conv_nth)
    then show "jsonable raw" using each assms(5) by (blast dest: map_of_SomeD)
  qed
  have "fst (runOrganizerCore p a s) = Inr result \<longleftrightarrow>
    (\<exists>raws. (length raws = n \<and> (\<forall>i < n. map_of ends i = Some (Answered (Inr (raws ! i))))) \<and> decide p prompt n catalog raws = Inr result)"
    unfolding runOrganizerCore_run [OF assms(1-4)] bindR_Inr promiseAll_Inr ..
  also have "\<dots> \<longleftrightarrow> (\<exists>raws. (length raws = n \<and> (\<forall>i < n. map_of ends i = Some (Answered (Inr (raws ! i))))) \<and>
    (\<exists>votes e. length votes = n \<and> (\<forall>i < n. receiptForAgent (rawReceipt (raws ! i)) catalog = Inr (votes ! i)) \<and>
       e \<in> set catalog \<and> n < 2 * count_list (map voteFor votes) (strOf (fld e ''template'')) \<and> result = organizerResult prompt n e votes))"
    using decide_Inr [of catalog _ n p prompt result] input json by (intro ex_cong1 conj_cong refl) blast
  finally show ?thesis by simp
qed

text \<open>C28: a failing organizer run either refused its input before any agent was started, or failed because an
  agent failed or ran out of time, in which case the signal shared by all agents was aborted with that agent's
  error, or rejected the receipts after every agent had answered.\<close>
theorem organizer_errors:
  assumes "runOrganizerCore p a s = (Inl e, s')"
  shows "s' = s \<or>
    (\<exists>inputs t ends. length inputs \<in> {1, 2, 3} \<and>
       (os_calls s' = os_calls s @ [OAgents inputs t ends, OAbort e] \<and>
          (\<exists>i < length inputs. timedAgent i (case map_of ends i of None \<Rightarrow> TimedOut | Some x \<Rightarrow> x) = Inl e) \<or>
        os_calls s' = os_calls s @ [OAgents inputs t ends] \<and>
          (\<forall>i < length inputs. \<exists>raw. map_of ends i = Some (Answered (Inr raw)))))"
proof -
  show ?thesis
  proof (cases "s' = s")
    case False
    obtain prompt n catalog where input: "validateOrganizerInput (oa_prompt a) (oa_agents a) (oa_catalog a) = Inr (prompt, n, catalog)"
      using assms False by (cases "validateOrganizerInput (oa_prompt a) (oa_agents a) (oa_catalog a)") (auto simp: runOrganizerCore_def io_defs)
    obtain t where t: "validateTimeout (oa_timeoutMs a) = Inr t"
      using assms False input by (cases "validateTimeout (oa_timeoutMs a)") (auto simp: runOrganizerCore_def io_defs)
    obtain ap where ap: "agentPromptOf a prompt = Inr ap"
      using assms False input t by (cases "agentPromptOf a prompt") (auto simp: runOrganizerCore_def agentPromptOf_def io_defs)
    obtain ends w where ends: "og_agents p (agentInputs n ap catalog) t (os_world s) = (ends, w)" by fastforce
    let ?inputs = "agentInputs n ap catalog"
    have len: "length ?inputs = n" by (simp add: agentInputs_def)
    have run: "runOrganizerCore p a s = bindE (runAgents p ?inputs t) (\<lambda>raws. liftR (decide p prompt n catalog raws)) s"
      using input t ap by (simp add: runOrganizerCore_def agentPromptOf_def io_defs)
    have three: "length ?inputs \<in> {1, 2, 3}" using organizer_input [OF input] len by simp
    show ?thesis
    proof (cases "promiseAll n (outcomes n ends)")
      case (Inl e')
      then have "e' = e" "os_calls s' = os_calls s @ [OAgents ?inputs t ends, OAbort e]"
        using assms ends len unfolding run by (auto simp: io_defs runAgents_def Let_def outcomes_def)
      moreover have "\<exists>i < length ?inputs. timedAgent i (case map_of ends i of None \<Rightarrow> TimedOut | Some x \<Rightarrow> x) = Inl e"
        using promiseAll_Inl [OF Inl] len \<open>e' = e\<close> by simp
      ultimately show ?thesis using three by blast
    next
      case (Inr raws)
      then have "os_calls s' = os_calls s @ [OAgents ?inputs t ends]"
        using assms ends len unfolding run by (auto simp: io_defs runAgents_def Let_def outcomes_def)
      moreover have "\<forall>i < length ?inputs. \<exists>raw. map_of ends i = Some (Answered (Inr raw))"
        using Inr len unfolding promiseAll_Inr by auto
      ultimately show ?thesis using three by blast
    qed
  qed simp
qed

section \<open>Witnesses\<close>

definition demoEntry :: "string \<Rightarrow> jsval" where
  "demoEntry name = JObj [(''template'', JStr name), (''templateDigest'', JStr (replicate 64 (CHR ''a''))), (''acceptedOptions'', JArr [JStr ''--host'']),
     (''kind'', JStr ''workflow''), (''roles'', JArr [JStr ''builder'']), (''maxSteps'', num 5)]"

definition demoReceiptFor :: "string \<Rightarrow> jsval" where
  "demoReceiptFor name = JObj [(''version'', num 1), (''template'', JStr name), (''templateDigest'', JStr (replicate 64 (CHR ''a''))),
     (''reason'', JStr ''fits'')]"

definition demoVote :: "string \<Rightarrow> jsval" where
  "demoVote name = JObj [(''template'', JStr name), (''templateDigest'', JStr (replicate 64 (CHR ''a''))), (''reason'', JStr ''fits'')]"

definition demoEnds :: "(nat \<times> agentEnd) list" where
  "demoEnds = [(2, Answered (Inr (demoReceiptFor ''solo''))), (0, Answered (Inr (demoReceiptFor ''solo''))), (1, Answered (Inr (demoReceiptFor ''pod'')))]"

definition demoOrganizer :: "unit organizerPorts" where
  "demoOrganizer = \<lparr>og_agents = (\<lambda>_ _ w. (demoEnds, w)), og_abort = (\<lambda>_ w. w), og_localeLe = (\<lambda>_ _. True)\<rparr>"

definition demoOrganizerArgs :: organizerArgs where
  "demoOrganizerArgs = \<lparr>oa_prompt = JStr ''x'', oa_agents = num 3, oa_catalog = JArr [demoEntry ''pod'', demoEntry ''solo''],
     oa_baseInstructions = JStr ''go'', oa_timeoutMs = JUndef, oa_composePrompt = False\<rparr>"

lemma demo_organizer:
  "validateOrganizerInput (oa_prompt demoOrganizerArgs) (oa_agents demoOrganizerArgs) (oa_catalog demoOrganizerArgs)
     = Inr (''x'', 3, [demoEntry ''pod'', demoEntry ''solo''])"
  "validateTimeout (oa_timeoutMs demoOrganizerArgs) = Inr 300000" "agentPromptOf demoOrganizerArgs ''x'' = Inr ''x''"
  "receiptForAgent (rawReceipt (demoReceiptFor ''solo'')) [demoEntry ''pod'', demoEntry ''solo''] = Inr (demoVote ''solo'')"
  "receiptForAgent (rawReceipt (demoReceiptFor ''pod'')) [demoEntry ''pod'', demoEntry ''solo''] = Inr (demoVote ''pod'')"
  "jsonable (demoReceiptFor ''solo'') \<and> jsonable (demoReceiptFor ''pod'')"
  "count_list (map voteFor [demoVote ''solo'', demoVote ''pod'', demoVote ''solo'']) (strOf (fld (demoEntry ''solo'') ''template'')) = 2"
  by code_simp+

theorem organizer_decision_witness:
  "fst (runOrganizerCore demoOrganizer demoOrganizerArgs \<lparr>os_world = (), os_calls = []\<rparr>) =
     Inr (organizerResult ''x'' 3 (demoEntry ''solo'') [demoVote ''solo'', demoVote ''pod'', demoVote ''solo''])"
proof -
  let ?catalog = "[demoEntry ''pod'', demoEntry ''solo'']"
  let ?raws = "[demoReceiptFor ''solo'', demoReceiptFor ''pod'', demoReceiptFor ''solo'']"
  let ?votes = "[demoVote ''solo'', demoVote ''pod'', demoVote ''solo'']"
  have ports: "og_agents demoOrganizer (agentInputs 3 ''x'' ?catalog) 300000 (os_world \<lparr>os_world = (), os_calls = []\<rparr>) = (demoEnds, ())"
    by (simp add: demoOrganizer_def)
  have json: "\<forall>i raw. (i, Answered (Inr raw)) \<in> set demoEnds \<longrightarrow> jsonable raw"
    using demo_organizer(6) by (auto simp: demoEnds_def)
  have ends: "\<forall>i < 3. map_of demoEnds i = Some (Answered (Inr (?raws ! i)))"
    by (auto simp: demoEnds_def less_Suc_eq numeral_3_eq_3)
  have votes: "\<forall>i < 3. receiptForAgent (rawReceipt (?raws ! i)) ?catalog = Inr (?votes ! i)"
    using demo_organizer(4,5) by (auto simp: less_Suc_eq numeral_3_eq_3)
  have most: "3 < 2 * count_list (map voteFor ?votes) (strOf (fld (demoEntry ''solo'') ''template''))"
    using demo_organizer(7) by simp
  have "\<exists>raws votes e. length raws = 3 \<and> (\<forall>i < 3. map_of demoEnds i = Some (Answered (Inr (raws ! i)))) \<and>
       length votes = 3 \<and> (\<forall>i < 3. receiptForAgent (rawReceipt (raws ! i)) ?catalog = Inr (votes ! i)) \<and>
       e \<in> set ?catalog \<and> 3 < 2 * count_list (map voteFor votes) (strOf (fld e ''template'')) \<and>
       organizerResult ''x'' 3 (demoEntry ''solo'') ?votes = organizerResult ''x'' 3 e votes"
    by (rule exI [of _ ?raws], rule exI [of _ ?votes], rule exI [of _ "demoEntry ''solo''"]) (use ends votes most in simp)
  then show ?thesis by (rule organizer_decision [OF demo_organizer(1,2,3) ports json, THEN iffD2])
qed

theorem organizer_errors_witness:
  "\<exists>e s'. runOrganizerCore (demoOrganizer\<lparr>og_agents := (\<lambda>_ _ w. ([], w))\<rparr>) demoOrganizerArgs \<lparr>os_world = (), os_calls = []\<rparr> = (Inl e, s') \<and>
     (\<exists>inputs t ends. length inputs \<in> {1, 2, 3} \<and> os_calls s' = [OAgents inputs t ends, OAbort e] \<and>
        (\<exists>i < length inputs. timedAgent i (case map_of ends i of None \<Rightarrow> TimedOut | Some x \<Rightarrow> x) = Inl e))"
proof -
  let ?p = "demoOrganizer\<lparr>og_agents := (\<lambda>_ _ w. ([], w))\<rparr>" and ?s = "\<lparr>os_world = (), os_calls = []\<rparr>"
  let ?in = "agentInputs 3 ''x'' [demoEntry ''pod'', demoEntry ''solo'']"
  have "promiseAll 3 (outcomes 3 []) = Inl ''agent 1 timed out''" by code_simp
  then have run: "runOrganizerCore ?p demoOrganizerArgs ?s =
      (Inl ''agent 1 timed out'', ?s\<lparr>os_calls := [OAgents ?in 300000 [], OAbort ''agent 1 timed out'']\<rparr>)"
    using demo_organizer(1,2,3)
    by (simp add: runOrganizerCore_def agentPromptOf_def io_defs runAgents_def Let_def outcomes_def agentInputs_def demoOrganizer_def)
  define s' where "s' = ?s\<lparr>os_calls := [OAgents ?in 300000 [], OAbort ''agent 1 timed out'']\<rparr>"
  have calls: "length (os_calls s') = 2" "s' \<noteq> ?s" by (simp_all add: s'_def)
  obtain inputs t ends where "length inputs \<in> {1, 2, 3}"
    "os_calls s' = os_calls ?s @ [OAgents inputs t ends, OAbort ''agent 1 timed out''] \<and>
       (\<exists>i < length inputs. timedAgent i (case map_of ends i of None \<Rightarrow> TimedOut | Some x \<Rightarrow> x) = Inl ''agent 1 timed out'') \<or>
     os_calls s' = os_calls ?s @ [OAgents inputs t ends]"
    using organizer_errors [OF run [folded s'_def]] calls(2) by blast
  then have "length inputs \<in> {1, 2, 3} \<and> os_calls s' = [OAgents inputs t ends, OAbort ''agent 1 timed out''] \<and>
      (\<exists>i < length inputs. timedAgent i (case map_of ends i of None \<Rightarrow> TimedOut | Some x \<Rightarrow> x) = Inl ''agent 1 timed out'')"
    using calls(1) by (elim disjE) simp_all
  then show ?thesis using run [folded s'_def] by blast
qed

theorem catalog_normal_form_witness:
  "normalizeCatalog (JArr [demoEntry ''pod'', demoEntry ''solo'']) = Inr [demoEntry ''pod'', demoEntry ''solo''] \<and>
   validateTemplateCatalog (JArr [demoEntry ''pod'', demoEntry ''solo'']) = Inr [demoEntry ''pod'', demoEntry ''solo'']"
proof -
  have "normalizeCatalog (JArr [demoEntry ''pod'', demoEntry ''solo'']) = Inr [demoEntry ''pod'', demoEntry ''solo'']" by code_simp
  then show ?thesis using catalog_normal_form by blast
qed

end
