(* ===== verification/Organizer_Journal.thy ===== *)
theory Organizer_Journal
  imports Organizer_Controller Organizer_Decision Paths Triples
begin

text \<open>
  What an organizer run leaves on disk: the events, the changelog and the run record tell the same story as the
  result of the controller, and the agents' workspaces are gone.
\<close>

section \<open>The journal\<close>

definition organizerJournal :: "ocArgs \<Rightarrow> string list \<Rightarrow> jsobj \<Rightarrow> 'w ocState \<Rightarrow> bool" where
  "organizerJournal a types run s \<longleftrightarrow>
     nodeAt s (ocEventsPath a) = Some (NFile 384 (concat (map (\<lambda>e. stringify e @ newline) (oc_events s)))) \<and>
     (types \<noteq> [] \<longrightarrow> nodeAt s (pathJoin (ocRunDir a) ''CHANGELOG.md'') = Some (NFile 384 (organizerChangelog (oc_events s)))) \<and>
     nodeAt s (ocRunPath a) = Some (NFile 384 (stringifyIndent (JObj run) @ newline)) \<and>
     map (\<lambda>e. fld e ''type'') (oc_events s) = map JStr types \<and>
     (\<forall>i < length types. fld (oc_events s ! i) ''sequence'' = num (int (Suc i))) \<and>
     oc_sequence s = length types"

lemma journal_world [simp]: "organizerJournal a types run (s\<lparr>sys_world := w\<rparr>) = organizerJournal a types run s"
  by (simp add: organizerJournal_def)

lemma journal_useWorld [keeps_rules]:
  "keeps (organizerJournal a types run) (useWorldR f)" "keeps (organizerJournal a types run) (useWorld g)"
  by (auto simp: keeps_def useWorldR_def useWorld_def split: prod.splits)

lemma journal_vote [keeps_rules]: "keeps (organizerJournal a types run) (runVote p b prompt n catalog)"
  by (auto simp: keeps_def runVote_def split: prod.splits)

lemma journal_interrupted [keeps_rules]: "keeps (organizerJournal a types run) (notInterrupted p)"
  unfolding notInterrupted_def by (intro keeps_rules)

lemma last_distinct: "last x \<noteq> last y \<Longrightarrow> x \<noteq> y"
  by auto

lemma journal_last:
  "last (ocEventsPath a) = CHR ''l''" "last (ocRunPath a) = CHR ''n''"
  "last (pathJoin (ocRunDir a) ''CHANGELOG.md'') = CHR ''d''" "last (pathJoin d ''latest'') = CHR ''t''"
  by (simp_all add: ocEventsPath_def ocRunPath_def pathJoin_last)

lemma journal_paths [simp]:
  "ocEventsPath a \<noteq> ocRunPath a" "ocRunPath a \<noteq> ocEventsPath a"
  "ocEventsPath a \<noteq> pathJoin (ocRunDir a) ''CHANGELOG.md''" "pathJoin (ocRunDir a) ''CHANGELOG.md'' \<noteq> ocEventsPath a"
  "ocRunPath a \<noteq> pathJoin (ocRunDir a) ''CHANGELOG.md''" "pathJoin (ocRunDir a) ''CHANGELOG.md'' \<noteq> ocRunPath a"
  "pathJoin d ''latest'' \<noteq> ocEventsPath a"
  by (rule last_distinct, simp add: journal_last)+

definition organizerReliable :: "'w ocPorts \<Rightarrow> bool" where
  "organizerReliable p \<longleftrightarrow> faultless (oc_fault p) \<and> (\<forall>w. \<exists>t. fst (oc_now p w) = Inr t) \<and> (\<forall>w. fst (oc_close p w) = Inr ())"

lemma now_run:
  assumes "organizerReliable p"
  shows "\<exists>t w. useWorldR (oc_now p) s = (Inr t, s\<lparr>sys_world := w\<rparr>)"
proof -
  obtain t where "fst (oc_now p (sys_world s)) = Inr t" using assms unfolding organizerReliable_def by blast
  then show ?thesis by (cases "oc_now p (sys_world s)") (auto simp: useWorldR_def)
qed

lemma write_run:
  assumes "organizerReliable p"
  shows "\<exists>w. atomicWrite (oc_fault p) q c s = (Inr (), putNode q (NFile 384 c) (s\<lparr>sys_world := w\<rparr>))"
proof -
  obtain r s' where m: "atomicWrite (oc_fault p) q c s = (r, s')" by (cases "atomicWrite (oc_fault p) q c s")
  have "faultless (oc_fault p)" using assms by (simp add: organizerReliable_def)
  from atomicWrite_faultless [OF this m] m show ?thesis by blast
qed

lemma append_run:
  assumes "organizerReliable p" and "nodeAt s q = Some (NFile mode t)"
  shows "\<exists>w. appendFile (oc_fault p) q c s = (Inr (), putNode q (NFile mode (t @ c)) (s\<lparr>sys_world := w\<rparr>))"
proof -
  obtain r s' where m: "appendFile (oc_fault p) q c s = (r, s')" by (cases "appendFile (oc_fault p) q c s")
  have "faultless (oc_fault p)" using assms by (simp add: organizerReliable_def)
  from appendFile_faultless [OF this m] m assms(2) show ?thesis by (auto simp: fileMode_def fileText_def)
qed

lemma spread_other: "k \<notin> fst ` set b \<Longrightarrow> fld (JObj (spread a b)) k = fld (JObj a) k"
  by (induction a b rule: spread.induct) (simp_all add: fld_def)

lemma record_run:
  assumes p: "organizerReliable p" and j: "organizerJournal a types run s"
    and details: "''type'' \<notin> fst ` set details" "''sequence'' \<notin> fst ` set details"
  shows "\<exists>s'. recordOrganizer p a type details s = (Inr (), s') \<and> organizerJournal a (types @ [type]) run s'"
proof -
  define s0 where "s0 = s\<lparr>oc_sequence := Suc (oc_sequence s)\<rparr>"
  obtain time w1 where now: "useWorldR (oc_now p) s0 = (Inr time, s0\<lparr>sys_world := w1\<rparr>)" using now_run [OF p] by blast
  define event where "event = JObj (spread [(''version'', num 1), (''sequence'', num (int (Suc (oc_sequence s)))),
    (''timestamp'', JStr time), (''runId'', ca_runId a), (''type'', JStr type)] details)"
  define s1 where "s1 = s0\<lparr>sys_world := w1, oc_events := oc_events s @ [event]\<rparr>"
  have events: "nodeAt s1 (ocEventsPath a) = Some (NFile 384 (concat (map (\<lambda>e. stringify e @ newline) (oc_events s))))"
    using j by (simp add: s1_def s0_def organizerJournal_def)
  obtain w2 where append: "appendFile (oc_fault p) (ocEventsPath a) (stringify event @ newline) s1 =
      (Inr (), putNode (ocEventsPath a) (NFile 384 (concat (map (\<lambda>e. stringify e @ newline) (oc_events s)) @ stringify event @ newline))
        (s1\<lparr>sys_world := w2\<rparr>))" (is "_ = (_, ?s2)")
    using append_run [OF p events] by blast
  obtain w3 where log: "atomicWrite (oc_fault p) (pathJoin (ocRunDir a) ''CHANGELOG.md'') (organizerChangelog (oc_events s @ [event])) ?s2 =
      (Inr (), putNode (pathJoin (ocRunDir a) ''CHANGELOG.md'') (NFile 384 (organizerChangelog (oc_events s @ [event]))) (?s2\<lparr>sys_world := w3\<rparr>))"
    (is "_ = (_, ?s3)")
    using write_run [OF p] by blast
  have run: "recordOrganizer p a type details s = (Inr (), ?s3)"
    using now append log by (simp add: recordOrganizer_def io_defs s0_def s1_def event_def Let_def putNode_def)
  have "fld event ''type'' = JStr type" "fld event ''sequence'' = num (int (Suc (oc_sequence s)))"
    unfolding event_def spread_other [OF details(1)] spread_other [OF details(2)] by (simp_all add: fld_def)
  moreover have "length (oc_events s) = length types"
    using j unfolding organizerJournal_def by (metis length_map)
  ultimately have "organizerJournal a (types @ [type]) run ?s3"
    using j by (auto simp: organizerJournal_def s1_def s0_def putNode_def lookup_update' nth_append less_Suc_eq)
  then show ?thesis using run by blast
qed

lemma writeOrganizerRun_run:
  assumes "organizerReliable p" and "organizerJournal a types run s"
  shows "\<exists>s'. writeOrganizerRun p a run' s = (Inr (), s') \<and> organizerJournal a types run' s'"
  using write_run [OF assms(1), of "ocRunPath a" "stringifyIndent (JObj run') @ newline" s] assms(2)
  by (auto simp: writeOrganizerRun_def organizerJournal_def putNode_def lookup_update')

lemma record_triple:
  assumes "organizerReliable p" "''type'' \<notin> fst ` set details" "''sequence'' \<notin> fst ` set details" "types' = types @ [type]"
  shows "triple (organizerJournal a types run) (recordOrganizer p a type details) E (\<lambda>_. organizerJournal a types' run)"
  unfolding assms(4) by (rule triple_returns) (rule record_run [OF assms(1) _ assms(2,3)])

lemma write_triple:
  assumes "organizerReliable p"
  shows "triple (organizerJournal a types run) (writeOrganizerRun p a run') E (\<lambda>_. organizerJournal a types run')"
  by (rule triple_returns) (rule writeOrganizerRun_run [OF assms])

section \<open>The body of a run\<close>

abbreviation completedRun :: "ocArgs \<Rightarrow> string \<Rightarrow> nat \<Rightarrow> string \<Rightarrow> string \<Rightarrow> jsval \<Rightarrow> jsobj" where
  "completedRun a prompt agents startedAt finishedAt response \<equiv>
     ocRecord a ''completed'' (sha256 prompt) agents startedAt (JStr finishedAt) @ [(''result'', response)]"

abbreviation failedRun :: "ocArgs \<Rightarrow> string \<Rightarrow> nat \<Rightarrow> string \<Rightarrow> string \<Rightarrow> err \<Rightarrow> jsobj" where
  "failedRun a prompt agents startedAt finishedAt e \<equiv>
     ocRecord a ''failed'' (sha256 prompt) agents startedAt (JStr finishedAt) @ [(''reason'', JStr (controllerReason e))]"

lemma now_triple:
  assumes p: "organizerReliable p" and P: "\<And>s w. P s \<Longrightarrow> P (s\<lparr>sys_world := w\<rparr>)"
  shows "triple P (useWorldR (oc_now p)) E (\<lambda>_. P)"
proof (rule tripleI)
  fix s assume s: "P s"
  obtain t w where "useWorldR (oc_now p) s = (Inr t, s\<lparr>sys_world := w\<rparr>)" using now_run [OF p] by blast
  with P [OF s] show "case useWorldR (oc_now p) s of (Inl e, s') \<Rightarrow> E e s' | (Inr x, s') \<Rightarrow> P s'" by simp
qed

lemma body_triple:
  assumes p: "organizerReliable p"
  shows "triple (organizerJournal a [] run) (organizerBody p a prompt agents catalog deadlineAt startedAt)
    (\<lambda>_ s. \<exists>types. types \<in> {[], [''run.started'']} \<and> organizerJournal a types run s)
    (\<lambda>response s. \<exists>finishedAt. organizerJournal a [''run.started'', ''run.completed'']
        (completedRun a prompt agents startedAt finishedAt response) s)"
    (is "triple _ _ ?E ?Q")
proof -
  have E: "organizerJournal a [] run s \<Longrightarrow> ?E e s" "organizerJournal a [''run.started''] run s \<Longrightarrow> ?E e s" for e s by blast+
  note first = triple_keeps [where E = ?E, OF _ E(1)] and later = triple_keeps [where E = ?E, OF _ E(2)]
  show ?thesis
    unfolding organizerBody_def Let_def
    by (rule triple_bind [OF first], rule journal_useWorld, assumption,
        rule triple_then [OF record_triple [OF p, where types = "[]" and types' = "[''run.started'']"]], simp, simp, simp,
        rule triple_then [OF later], rule journal_useWorld, assumption,
        rule triple_then [OF later], rule journal_interrupted, assumption,
        rule triple_bind [OF later], rule journal_vote, assumption,
        rule triple_then [OF later], rule journal_interrupted, assumption,
        rule triple_bind [OF now_triple [OF p]], simp,
        rule triple_then [OF record_triple [OF p, where types = "[''run.started'']" and types' = "[''run.started'', ''run.completed'']"]],
        simp, simp, simp, rule triple_then [OF write_triple [OF p]], rule triple_basic(1), blast)
qed

lemma quiet_triple: "triple P m (\<lambda>_ _. False) (\<lambda>_. Q) \<Longrightarrow> triple P (ocQuiet m) E (\<lambda>_. Q)"
  unfolding ocQuiet_def by (rule triple_catch) (auto simp: triple_def)

lemma fail_triple:
  assumes p: "organizerReliable p"
  shows "triple (organizerJournal a types run) (failOrganizer p a (sha256 prompt) agents startedAt e)
    (\<lambda>e' s. e' = e \<and> (\<exists>finishedAt. organizerJournal a (types @ [''run.failed'']) (failedRun a prompt agents startedAt finishedAt e) s)) Q"
  unfolding failOrganizer_def Let_def ocQuiet_def
  by (rule triple_then [OF triple_catch [OF triple_keeps [OF journal_useWorld(1)] triple_basic(1)]], assumption, assumption,
      rule triple_bind [OF now_triple [OF p]], simp,
      rule triple_then [OF quiet_triple [OF record_triple [OF p]], unfolded ocQuiet_def], simp, simp, simp,
      rule triple_then [OF quiet_triple [OF write_triple [OF p]], unfolded ocQuiet_def],
      rule triple_basic(2), blast)

section \<open>Preparing and cleaning up\<close>

definition organizerRoots :: "ocArgs \<Rightarrow> bool" where
  "organizerRoots a \<longleftrightarrow> absDir (ca_stateRoot a) \<and> absDir (ca_worktreesRoot a) \<and>
     \<not> underPath (ca_stateRoot a) (ca_worktreesRoot a) \<and> \<not> underPath (ca_worktreesRoot a) (ca_stateRoot a)"

lemma journal_outside:
  assumes a: "organizerRoots a" and r: "properName (strOf (ca_runId a))" and n: "properName n"
  shows "\<not> underPath (ocWorkspaces a) (pathJoin (ocRunDir a) n)"
proof
  let ?S = "ca_stateRoot a" and ?R = "ca_worktreesRoot a" and ?id = "strOf (ca_runId a)"
  assume under: "underPath (ocWorkspaces a) (pathJoin (ocRunDir a) n)"
  have S: "absDir ?S" and R: "absDir ?R" using a by (simp_all add: organizerRoots_def)
  have "pathJoin (ocRunDir a) n = (?S @ ''/'') @ ?id @ ''/'' @ n"
    using pathJoin_abs [OF S r] pathJoin_abs [OF absDir_join [OF S r] n] by (simp add: ocRunDir_def)
  moreover have "ocWorkspaces a = (?R @ ''/'') @ ?id"
    using pathJoin_abs [OF R r] by (simp add: ocWorkspaces_def)
  ultimately have "prefix (?R @ ''/'') (pathJoin (ocRunDir a) n)" "prefix (?S @ ''/'') (pathJoin (ocRunDir a) n)"
    using under by (auto simp: underPath_def prefix_def)
  then have "prefix (?R @ ''/'') (?S @ ''/'') \<or> prefix (?S @ ''/'') (?R @ ''/'')"
    using prefix_same_cases by blast
  then show False
    using a by (auto simp: organizerRoots_def underPath_def)
qed

lemma removeTree_run:
  assumes "organizerReliable p"
  shows "\<exists>w. removeTree (oc_fault p) path s =
    (Inr (), s\<lparr>sys_world := w, sys_fs := Mapping.filter (\<lambda>k _. \<not> underPath path k) (sys_fs s)\<rparr>)"
  using assms by (intro removeTree_faultless) (simp add: organizerReliable_def)

lemma close_triple:
  assumes p: "organizerReliable p" and a: "organizerRoots a" and r: "properName (strOf (ca_runId a))"
  shows "triple (organizerJournal a types run) (closeOrganizer p a) E
    (\<lambda>_ s. organizerJournal a types run s \<and> (\<forall>q. underPath (ocWorkspaces a) q \<longrightarrow> nodeAt s q = None))"
proof (rule triple_returns)
  fix s :: "'a ocState" assume j: "organizerJournal a types run s"
  have names: "properName ''events.jsonl''" "properName ''CHANGELOG.md''" "properName ''run.json''"
    by (simp_all add: properName_def badSegment_def)
  note outside = journal_outside [OF a r names(1), folded ocEventsPath_def] journal_outside [OF a r names(2)]
    journal_outside [OF a r names(3), folded ocRunPath_def]
  obtain w where w: "useWorldR (oc_close p) s = (Inr (), s\<lparr>sys_world := w\<rparr>)"
    using p by (cases "oc_close p (sys_world s)") (auto simp: useWorldR_def organizerReliable_def, metis fst_conv)
  obtain v where v: "removeTree (oc_fault p) (ocWorkspaces a) (s\<lparr>sys_world := w\<rparr>) =
      (Inr (), s\<lparr>sys_world := v, sys_fs := Mapping.filter (\<lambda>k _. \<not> underPath (ocWorkspaces a) k) (sys_fs s)\<rparr>)" (is "_ = (_, ?s)")
    using removeTree_run [OF p, of _ "s\<lparr>sys_world := w\<rparr>"] by auto
  have "closeOrganizer p a s = (Inr (), ?s)"
    using w v by (simp add: closeOrganizer_def ocQuiet_def io_defs)
  moreover have "organizerJournal a types run ?s"
    using j outside by (simp add: organizerJournal_def lookup_filter_key)
  ultimately show "\<exists>s'. closeOrganizer p a s = (Inr (), s') \<and>
      organizerJournal a types run s' \<and> (\<forall>q. underPath (ocWorkspaces a) q \<longrightarrow> nodeAt s' q = None)"
    by (simp add: lookup_filter_key)
qed

abbreviation noRun :: "ocArgs \<Rightarrow> 'w ocState \<Rightarrow> bool" where
  "noRun a s \<equiv> nodeAt s (ocRunDir a) = None"

lemma noRun_keeps [keeps_rules]:
  "keeps (noRun a) (faultPoint f)" "keeps (noRun a) (removeTree f q)"
  by (auto simp: keeps_def faultPoint_def removeTree_def io_defs lookup_filter_key split: prod.splits option.splits)

lemma createRunFiles_triple:
  "triple (\<lambda>_. True) (createRunFiles p a agents) (\<lambda>_ _. True) (\<lambda>_ s. nodeAt s (ocEventsPath a) = Some (NFile 384 []))"
proof -
  have any: "triple (\<lambda>_. True) m (\<lambda>_ _. True) (\<lambda>_ _. True)" for m :: "('w ocState, unit) io"
    by (auto simp: triple_def split: prod.splits sum.splits)
  have events: "triple (\<lambda>_. True) (createNew (oc_fault p) (ocEventsPath a) (NFile 384 [])) (\<lambda>_ _. True)
      (\<lambda>_ s. nodeAt s (ocEventsPath a) = Some (NFile 384 []))"
    by (auto simp: triple_def createNew_def io_defs split: prod.splits sum.splits if_splits)
  have latest: "triple (\<lambda>s. nodeAt s (ocEventsPath a) = Some (NFile 384 [])) (atomicWrite (oc_fault p) (pathJoin d ''latest'') t)
      (\<lambda>_ _. True) (\<lambda>_ s. nodeAt s (ocEventsPath a) = Some (NFile 384 []))" for d t
    by (auto simp: triple_def atomicWrite_def faultPoint_def io_defs split: prod.splits sum.splits option.splits)
  show ?thesis
    unfolding createRunFiles_def
    by (rule triple_then [OF any], rule triple_then [OF any], rule triple_then [OF events], rule latest)
qed

lemma prepare_triple:
  assumes p: "organizerReliable p"
  shows "triple (noRun a) (prepareOrganizerRun p a promptSha256 agents) (\<lambda>_. noRun a)
    (\<lambda>startedAt s. isString (ca_runId a) \<and> organizerJournal a [] (ocRecord a ''running'' promptSha256 agents startedAt JNull) s)"
proof -
  have priv: "keeps (noRun a) (privateDirectory p q)" for q
    unfolding privateDirectory_def by (intro keeps_rules)
  have dir: "triple (noRun a) (createNew (oc_fault p) (ocRunDir a) n) (\<lambda>_. noRun a) (\<lambda>_ _. True)" for n
    by (auto simp: triple_def createNew_def faultPoint_def io_defs split: prod.splits sum.splits option.splits)
  have undo: "triple (\<lambda>_. True) (thenE (ocQuiet (removeTree (oc_fault p) (ocRunDir a)))
      (thenE (ocQuiet (removeTree (oc_fault p) (ocWorkspaces a))) (throwE e))) (\<lambda>_. noRun a) Q" for e Q
  proof -
    have "triple (\<lambda>_. True) (removeTree (oc_fault p) (ocRunDir a)) (\<lambda>_ _. False) (\<lambda>_. noRun a)"
      by (rule triple_returns) (use removeTree_run [OF p] in \<open>fastforce simp: lookup_filter_key underPath_def\<close>)
    moreover have "keeps (noRun a) (ocQuiet (removeTree (oc_fault p) (ocWorkspaces a)))"
      unfolding ocQuiet_def by (intro keeps_rules)
    ultimately show ?thesis
      by (intro triple_then [OF quiet_triple] triple_then [OF triple_keeps] triple_basic(2))
  qed
  have fresh: "triple (\<lambda>s. nodeAt s (ocEventsPath a) = Some (NFile 384 [])) (modS (\<lambda>s. s\<lparr>oc_events := [], oc_sequence := 0\<rparr>))
      E (\<lambda>_ s. nodeAt s (ocEventsPath a) = Some (NFile 384 []) \<and> oc_events s = [] \<and> oc_sequence s = 0)" for E
    by (rule triple_modS) simp
  have written: "triple (\<lambda>s. nodeAt s (ocEventsPath a) = Some (NFile 384 []) \<and> oc_events s = [] \<and> oc_sequence s = 0)
      (writeOrganizerRun p a run) E (\<lambda>_. organizerJournal a [] run)" for run E
    by (rule triple_returns, use write_run [OF p] in \<open>fastforce simp: writeOrganizerRun_def organizerJournal_def putNode_def lookup_update'\<close>)
  show ?thesis
    unfolding prepareOrganizerRun_def
    by (rule triple_bind [OF triple_keeps [OF priv]], assumption, rule triple_bind [OF triple_keeps [OF priv]], assumption,
        rule triple_then [OF triple_basic(4) [where Q = "\<lambda>_ s. isString (ca_runId a) \<and> noRun a s"]], assumption,
        simp add: res_simps, rule triple_pure, rule triple_then [OF dir],
        rule triple_then [OF triple_catch [OF createRunFiles_triple undo]], rule triple_bind [OF now_triple [OF p]], simp,
        rule triple_then [OF fresh], rule triple_then [OF written], rule triple_basic(1), simp)
qed

section \<open>The whole run\<close>

text \<open>How the run directory tells the end of a run.\<close>

definition toldCompleted :: "ocArgs \<Rightarrow> string \<Rightarrow> nat \<Rightarrow> jsval \<Rightarrow> 'w ocState \<Rightarrow> bool" where
  "toldCompleted a prompt agents response s \<longleftrightarrow>
     (\<exists>startedAt finishedAt. organizerJournal a [''run.started'', ''run.completed''] (completedRun a prompt agents startedAt finishedAt response) s)"

definition toldFailed :: "ocArgs \<Rightarrow> string \<Rightarrow> nat \<Rightarrow> err \<Rightarrow> 'w ocState \<Rightarrow> bool" where
  "toldFailed a prompt agents e s \<longleftrightarrow>
     (\<exists>startedAt finishedAt types. types \<in> {[''run.failed''], [''run.started'', ''run.failed'']} \<and>
        organizerJournal a types (failedRun a prompt agents startedAt finishedAt e) s)"

definition workspacesGone :: "ocArgs \<Rightarrow> 'w ocState \<Rightarrow> bool" where
  "workspacesGone a s \<longleftrightarrow> (\<forall>q. underPath (ocWorkspaces a) q \<longrightarrow> nodeAt s q = None)"

lemma toldFailedI:
  assumes "organizerJournal a (types @ [''run.failed'']) (failedRun a prompt agents startedAt finishedAt e) s"
    and "types \<in> {[], [''run.started'']}"
  shows "toldFailed a prompt agents e s"
  unfolding toldFailed_def
  by (rule exI [of _ startedAt], rule exI [of _ finishedAt], rule exI [of _ "types @ [''run.failed'']"]) (use assms in auto)

lemma told_triple:
  assumes p: "organizerReliable p"
  shows "triple (organizerJournal a [] run)
    (catchE (organizerBody p a prompt agents catalog deadlineAt startedAt) (failOrganizer p a (sha256 prompt) agents startedAt))
    (toldFailed a prompt agents) (toldCompleted a prompt agents)"
proof (rule triple_catch)
  show "triple (organizerJournal a [] run) (organizerBody p a prompt agents catalog deadlineAt startedAt)
      (\<lambda>_ s. \<exists>types. types \<in> {[], [''run.started'']} \<and> organizerJournal a types run s) (toldCompleted a prompt agents)"
    by (rule triple_weaken [OF body_triple [OF p]]) (auto simp: toldCompleted_def)
next
  fix e
  have "triple (organizerJournal a types run) (failOrganizer p a (sha256 prompt) agents startedAt e)
      (toldFailed a prompt agents) (toldCompleted a prompt agents)" if "types \<in> {[], [''run.started'']}" for types
    by (rule triple_weaken [OF fail_triple [OF p]]) (use that in \<open>blast intro: toldFailedI\<close>)+
  then show "triple (\<lambda>s. \<exists>types. types \<in> {[], [''run.started'']} \<and> organizerJournal a types run s)
      (failOrganizer p a (sha256 prompt) agents startedAt e) (toldFailed a prompt agents) (toldCompleted a prompt agents)"
    by (intro triple_all triple_pure)
qed

lemma close_told:
  assumes "organizerReliable p" and "organizerRoots a" and "properName (strOf (ca_runId a))"
  shows "triple (toldCompleted a prompt agents x) (closeOrganizer p a) E (\<lambda>_ s. toldCompleted a prompt agents x s \<and> workspacesGone a s)"
    and "triple (toldFailed a prompt agents e) (closeOrganizer p a) E (\<lambda>_ s. toldFailed a prompt agents e s \<and> workspacesGone a s)"
proof -
  show "triple (toldCompleted a prompt agents x) (closeOrganizer p a) E (\<lambda>_ s. toldCompleted a prompt agents x s \<and> workspacesGone a s)"
    unfolding toldCompleted_def workspacesGone_def
    by (intro triple_all, rule triple_weaken [OF close_triple [OF assms]]) blast+
  show "triple (toldFailed a prompt agents e) (closeOrganizer p a) E (\<lambda>_ s. toldFailed a prompt agents e s \<and> workspacesGone a s)"
    unfolding toldFailed_def workspacesGone_def
    by (intro triple_all triple_pure, rule triple_weaken [OF close_triple [OF assms]]) blast+
qed

lemma told_closed:
  assumes "triple P m (toldFailed a prompt agents) (toldCompleted a prompt agents)"
    and "organizerReliable p" and "organizerRoots a" and "properName (strOf (ca_runId a))"
  shows "triple P (bindE (catchE (bindE m (\<lambda>x. ret (Inr x))) (\<lambda>e. ret (Inl e))) (\<lambda>r. thenE (closeOrganizer p a) (liftR r)))
    (\<lambda>e s. toldFailed a prompt agents e s \<and> workspacesGone a s) (\<lambda>x s. toldCompleted a prompt agents x s \<and> workspacesGone a s)"
proof (rule triple_bind)
  let ?mid = "\<lambda>r. case r of Inl e \<Rightarrow> toldFailed a prompt agents e | Inr x \<Rightarrow> toldCompleted a prompt agents x"
  show "triple P (catchE (bindE m (\<lambda>x. ret (Inr x))) (\<lambda>e. ret (Inl e))) E ?mid" for E
    by (rule triple_catch, rule triple_bind [OF assms(1)]) (auto intro: triple_basic(1))
  show "triple (?mid r) (thenE (closeOrganizer p a) (liftR r)) (\<lambda>e s. toldFailed a prompt agents e s \<and> workspacesGone a s)
      (\<lambda>x s. toldCompleted a prompt agents x s \<and> workspacesGone a s)" for r
    by (cases r) (auto intro!: triple_then [OF close_told(1) [OF assms(2-4)]] triple_then [OF close_told(2) [OF assms(2-4)]] triple_basic(4))
qed

lemma checkOcArgs_name: "checkOcArgs a = Inr () \<Longrightarrow> isString (ca_runId a) \<Longrightarrow> properName (strOf (ca_runId a))"
  by (cases "ca_runId a") (simp_all add: checkOcArgs_def res_simps properName_runId)

lemma prepared_triple:
  assumes p: "organizerReliable p" and a: "organizerRoots a" and check: "checkOcArgs a = Inr ()"
  shows "triple (noRun a) (bindE (prepareOrganizerRun p a (sha256 prompt) agents) (\<lambda>startedAt.
       bindE (catchE (bindE (catchE (organizerBody p a prompt agents catalog deadlineAt startedAt)
                (failOrganizer p a (sha256 prompt) agents startedAt)) (\<lambda>x. ret (Inr x))) (\<lambda>e. ret (Inl e))) (\<lambda>r.
       thenE (closeOrganizer p a) (liftR r))))
    (\<lambda>e s. noRun a s \<or> toldFailed a prompt agents e s \<and> workspacesGone a s)
    (\<lambda>x s. toldCompleted a prompt agents x s \<and> workspacesGone a s)"
proof (rule triple_bind)
  show "triple (noRun a) (prepareOrganizerRun p a (sha256 prompt) agents)
      (\<lambda>e s. noRun a s \<or> toldFailed a prompt agents e s \<and> workspacesGone a s)
      (\<lambda>startedAt s. isString (ca_runId a) \<and> organizerJournal a [] (ocRecord a ''running'' (sha256 prompt) agents startedAt JNull) s)"
    by (rule triple_weaken [OF prepare_triple [OF p]]) simp_all
qed (rule triple_pure, rule triple_weaken [OF told_closed [OF told_triple [OF p] p a checkOcArgs_name [OF check]]], simp_all)


definition demoOc :: "unit ocPorts" where
  "demoOc = \<lparr>oc_clock = (\<lambda>w. (num 0, w)), oc_now = (\<lambda>w. (Inr ''2026-01-02T03:04:05.006Z'', w)), oc_fault = (\<lambda>w. (None, w)),
     oc_interrupted = (\<lambda>w. (False, w)), oc_imageDigest = (\<lambda>_ w. (Inr ''sha256:0'', w)), oc_start = (\<lambda>_ w. (Inr (), w)),
     oc_executions = (\<lambda>_ _ w. (demoEnds, w)), oc_abort = (\<lambda>_ w. w), oc_cancel = (\<lambda>w. (Inr (), w)), oc_close = (\<lambda>w. (Inr (), w)),
     oc_localeLe = (\<lambda>_ _. True)\<rparr>"

definition demoOcArgs :: ocArgs where
  "demoOcArgs = \<lparr>ca_prompt = JStr ''x'', ca_agents = num 3, ca_catalog = JArr [demoEntry ''pod'', demoEntry ''solo''],
     ca_baseInstructions = JStr ''b'', ca_model = JStr ''m'', ca_agentRuntime = JStr ''unspecified'', ca_stateRoot = ''/state'',
     ca_worktreesRoot = ''/worktrees'', ca_runId = JStr ''o''\<rparr>"

definition demoOcState :: "unit ocState" where
  "demoOcState = \<lparr>sys_fs = Mapping.of_alist [(''/state'', NDir 448 1), (''/worktrees'', NDir 448 2)], sys_world = (), oc_events = [], oc_sequence = 0\<rparr>"

lemma demo_oc:
  "organizerReliable demoOc" "organizerRoots demoOcArgs" "nodeAt demoOcState (ocRunDir demoOcArgs) = None"
proof -
  show "organizerReliable demoOc" by (simp add: organizerReliable_def demoOc_def faultless_def)
  have "absDir ''/state''" "absDir ''/worktrees''"
    unfolding absDir_def
    by (rule exI [of _ "[''state'']"], simp add: properName_def badSegment_def,
        rule exI [of _ "[''worktrees'']"], simp add: properName_def badSegment_def)
  then show "organizerRoots demoOcArgs" by (simp add: organizerRoots_def demoOcArgs_def underPath_def prefix_def)
  show "nodeAt demoOcState (ocRunDir demoOcArgs) = None" by code_simp
qed


end
