(* ===== verification/Deployment_Target.thy ===== *)
theory Deployment_Target
  imports Paths
begin

text \<open>
  Deployment targets, \<^verbatim>\<open>src/src/deployment-target.mjs\<close>: which machine a deployment runs on, the command
  line that reaches it and the directory that holds the deployment there.  The home directory of the user and
  \<^verbatim>\<open>realpathSync.native\<close> are arguments.
\<close>

section \<open>Model\<close>

text \<open>\<^verbatim>\<open>/^(?:[a-z_][a-z0-9_-]*@)?[A-Za-z0-9](?:[A-Za-z0-9.-]{0,251}[A-Za-z0-9])?$/\<close>: an optional user name and
  a host name.\<close>

definition userChar :: "char \<Rightarrow> bool" where
  "userChar c = (isLower c \<or> isDigit c \<or> c = CHR ''_'' \<or> c = CHR ''-'')"

definition hostChar :: "char \<Rightarrow> bool" where
  "hostChar c = (isAlnum c \<or> c = CHR ''.'' \<or> c = CHR ''-'')"

fun reUser :: "string \<Rightarrow> bool" where
  "reUser [] = False"
| "reUser (c # cs) = ((isLower c \<or> c = CHR ''_'') \<and> list_all userChar cs)"

definition reHost :: "string \<Rightarrow> bool" where
  "reHost s = (s \<noteq> [] \<and> length s \<le> 253 \<and> list_all hostChar s \<and> isAlnum (hd s) \<and> isAlnum (last s))"

definition reSshTarget :: "string \<Rightarrow> bool" where
  "reSshTarget s =
     (case splitOn (CHR ''@'') s of
        [host] \<Rightarrow> reHost host
      | [user, host] \<Rightarrow> reUser user \<and> reHost host
      | _ \<Rightarrow> False)"

text \<open>\<^verbatim>\<open>/^\d{1,9}$/\<close>\<close>

definition reVmid :: "string \<Rightarrow> bool" where
  "reVmid s = (1 \<le> length s \<and> length s \<le> 9 \<and> list_all isDigit s)"

definition targetKinds :: "string list" where
  "targetKinds = [''local'', ''ssh'', ''proxmox-lxc'']"

definition remoteRoot :: string where
  "remoteRoot = ''/var/lib/bimo/deployments''"

definition localRootParts :: "string list" where
  "localRootParts = [''.local'', ''share'', ''bimo'', ''deployments'']"

text \<open>\<^verbatim>\<open>value ?? ""\<close> as the subject of a regular expression.\<close>

definition subjectOf :: "jsval \<Rightarrow> string" where
  "subjectOf v = (if v = JUndef \<or> v = JNull then [] else toStr v)"

definition validateSshTarget :: "jsval \<Rightarrow> jsval res" where
  "validateSshTarget v =
     bindR (require (reSshTarget (subjectOf v)) ''SSH target contains unsupported characters'') (\<lambda>_. Inr v)"

definition lineBreak :: "char \<Rightarrow> bool" where
  "lineBreak c = (c = CHR 0x00 \<or> c = CHR 0x0D \<or> c = CHR 0x0A)"

definition canonicalPath :: "jsval \<Rightarrow> bool" where
  "canonicalPath v =
     (isString v \<and> u16len (strOf v) \<le> 4096 \<and> isAbsolutePath (strOf v) \<and> posixNormalize (strOf v) = strOf v \<and>
      \<not> list_ex lineBreak (strOf v))"

definition validateLocalHome :: "jsval \<Rightarrow> string res" where
  "validateLocalHome home =
     bindR (require (canonicalPath home) ''local home directory must be canonical and absolute'') (\<lambda>_. Inr (strOf home))"

definition resolveLocalHome :: "(string \<Rightarrow> string option) \<Rightarrow> jsval \<Rightarrow> string res" where
  "resolveLocalHome realpath home =
     bindR (validateLocalHome home) (\<lambda>validated.
     case realpath validated of
       None \<Rightarrow> Inl ''local home directory must exist''
     | Some resolved \<Rightarrow> bindR (require (resolved = validated) ''local home directory must not be a symlink'') (\<lambda>_. Inr validated))"

definition resolveDeploymentTarget :: "(string \<Rightarrow> string option) \<Rightarrow> jsval \<Rightarrow> jsval \<Rightarrow> jsval res" where
  "resolveDeploymentTarget realpath options home =
     (let requested = fld options ''target''; hasHost = hasOwn options ''host''; hasProxmox = hasOwn options ''proxmox'';
          hasVmid = hasOwn options ''vmid'';
          kind = (if requested = JUndef \<or> requested = JNull
                  then (if hasHost then ''ssh'' else if hasProxmox then ''proxmox-lxc'' else ''local'') else strOf requested) in
      bindR (checks
        [require (requested = JUndef \<or> requested \<in> JStr ` set targetKinds) ''--target must be local, ssh, or proxmox-lxc'',
         require (truthy requested \<or> \<not> (hasHost \<and> hasProxmox)) ''use only one target'']) (\<lambda>_.
      if kind = ''local'' then
        bindR (checks
          [require (\<not> hasHost) ''--host is not valid with --target local'',
           require (\<not> hasProxmox) ''--proxmox is not valid with --target local'',
           require (\<not> hasVmid) ''--vmid is only valid with --target proxmox-lxc'']) (\<lambda>_.
        bindR (resolveLocalHome realpath home) (\<lambda>h.
        Inr (JObj [(''kind'', JStr kind), (''runtime'', JStr ''docker''), (''home'', JStr h)])))
      else if kind = ''ssh'' then
        bindR (checks
          [require (hasHost \<and> truthy (fld options ''host'')) ''--host is required with --target ssh'',
           require (\<not> hasProxmox) ''--proxmox is only valid with --target proxmox-lxc'',
           require (\<not> hasVmid) ''--vmid is only valid with --target proxmox-lxc'']) (\<lambda>_.
        bindR (validateSshTarget (fld options ''host'')) (\<lambda>host.
        Inr (JObj [(''kind'', JStr kind), (''runtime'', JStr ''docker''), (''sshTarget'', host)])))
      else
        bindR (checks
          [require (\<not> hasHost) ''--host is only valid with --target ssh'',
           require (hasProxmox \<and> truthy (fld options ''proxmox'')) ''--proxmox is required with --target proxmox-lxc'']) (\<lambda>_.
        bindR (validateSshTarget (fld options ''proxmox'')) (\<lambda>host.
        bindR (require (reVmid (subjectOf (fld options ''vmid''))) ''--vmid must be numeric with --proxmox'') (\<lambda>_.
        Inr (JObj [(''kind'', JStr kind), (''runtime'', JStr ''docker''), (''sshTarget'', host), (''vmid'', fld options ''vmid'')]))))))"

definition knownTarget :: "jsval \<Rightarrow> bool" where
  "knownTarget target = (truthy target \<and> fld target ''kind'' \<in> JStr ` set targetKinds)"

definition commandForTarget :: "jsval \<Rightarrow> jsval \<Rightarrow> (jsval \<times> jsval list) res" where
  "commandForTarget target command =
     bindR (require (knownTarget target \<and> isArray command \<and> elems command \<noteq> [] \<and>
              list_all (\<lambda>v. isString v \<and> strOf v \<noteq> []) (elems command)) ''invalid deployment target command'') (\<lambda>_.
     if fld target ''kind'' = JStr ''local'' then Inr (hd (elems command), tl (elems command))
     else
       let pct = (if fld target ''kind'' = JStr ''proxmox-lxc''
                  then [JStr ''pct'', JStr ''exec'', fld target ''vmid'', JStr ''--''] else []) in
       Inr (JStr ''ssh'', map JStr [''-o'', ''BatchMode=yes'', ''-o'', ''StrictHostKeyChecking=yes''] @
              [fld target ''sshTarget''] @ pct @ elems command))"

definition pathJoinAll :: "string list \<Rightarrow> string" where
  "pathJoinAll parts = posixNormalize (joinWith ''/'' (filter (\<lambda>s. s \<noteq> []) parts))"

definition homeOf :: "jsval \<Rightarrow> jsval \<Rightarrow> jsval" where
  "homeOf homedir target = (let h = fld target ''home'' in if h = JUndef \<or> h = JNull then homedir else h)"

definition deploymentRootForTarget :: "jsval \<Rightarrow> jsval \<Rightarrow> jsval \<Rightarrow> string res" where
  "deploymentRootForTarget homedir target deployment =
     bindR (require (knownTarget target \<and> reName (subjectOf deployment)) ''invalid deployment target root'') (\<lambda>_.
     if fld target ''kind'' \<noteq> JStr ''local'' then Inr (remoteRoot @ ''/'' @ toStr deployment)
     else bindR (validateLocalHome (homeOf homedir target)) (\<lambda>home. Inr (pathJoinAll (home # localRootParts @ [toStr deployment]))))"

definition deploymentsRootForTarget :: "jsval \<Rightarrow> jsval \<Rightarrow> string res" where
  "deploymentsRootForTarget homedir target =
     bindR (require (knownTarget target) ''invalid deployment target root'') (\<lambda>_.
     if fld target ''kind'' \<noteq> JStr ''local'' then Inr remoteRoot
     else bindR (validateLocalHome (homeOf homedir target)) (\<lambda>home. Inr (pathJoinAll (home # localRootParts))))"

definition isDeploymentHostRoot :: "jsval \<Rightarrow> jsval \<Rightarrow> jsval \<Rightarrow> jsval \<Rightarrow> bool" where
  "isDeploymentHostRoot homedir hostRoot deployment localHome =
     (canonicalPath hostRoot \<and> reName (subjectOf deployment) \<and>
      (strOf hostRoot = remoteRoot @ ''/'' @ toStr deployment \<or>
       localHome \<noteq> JUndef \<and>
       deploymentRootForTarget homedir (JObj [(''kind'', JStr ''local''), (''home'', localHome)]) deployment = Inr (strOf hostRoot)))"

definition builtInTargetCatalog :: "jsval list" where
  "builtInTargetCatalog =
     map (\<lambda>(kind, how). JObj [(''kind'', JStr kind), (''runtime'', JStr ''docker''), (''configuration'', JStr how)])
       [(''local'', ''automatic''), (''ssh'', ''--host HOST''), (''proxmox-lxc'', ''--proxmox HOST --vmid ID'')]"

section \<open>Commands\<close>

lemma targetKinds_iff: "v \<in> JStr ` set targetKinds \<longleftrightarrow> v = JStr ''local'' \<or> v = JStr ''ssh'' \<or> v = JStr ''proxmox-lxc''"
  by (auto simp: targetKinds_def)

lemma reSshTarget_chars:
  assumes "reSshTarget s"
  shows "s \<noteq> [] \<and> hd s \<noteq> CHR ''-'' \<and> (\<forall>c \<in> set s. isAlnum c \<or> c \<in> {CHR ''@'', CHR ''.'', CHR ''_'', CHR ''-''})"
proof -
  have dash: "\<not> isAlnum (CHR ''-'')" "\<not> isLower (CHR ''-'')" by code_simp+
  have host: "h \<noteq> [] \<and> hd h \<noteq> CHR ''-'' \<and> (\<forall>c \<in> set h. isAlnum c \<or> c \<in> {CHR ''@'', CHR ''.'', CHR ''_'', CHR ''-''})" if "reHost h" for h
    using that dash by (auto simp: reHost_def hostChar_def list_all_iff)
  have user: "u \<noteq> [] \<and> hd u \<noteq> CHR ''-'' \<and> (\<forall>c \<in> set u. isAlnum c \<or> c \<in> {CHR ''@'', CHR ''.'', CHR ''_'', CHR ''-''})" if "reUser u" for u
    using that dash by (cases u) (auto simp: userChar_def list_all_iff isAlnum_def)
  have join: "s = joinWith ''@'' (splitOn (CHR ''@'') s)" by (simp add: joinWith_splitOn)
  consider (only) h where "splitOn (CHR ''@'') s = [h]" "reHost h"
    | (both) u h where "splitOn (CHR ''@'') s = [u, h]" "reUser u" "reHost h"
    using assms by (auto simp: reSshTarget_def split: list.splits)
  then show ?thesis
  proof cases
    case (only h)
    then show ?thesis using join host [of h] by auto
  next
    case (both u h)
    then show ?thesis using join user [of u] host [of h] by auto
  qed
qed

lemma resolve_remote:
  assumes "resolveDeploymentTarget rp options home = Inr target"
  shows "(\<exists>h. target = JObj [(''kind'', JStr ''local''), (''runtime'', JStr ''docker''), (''home'', JStr h)]) \<or>
    (\<exists>host. target = JObj [(''kind'', JStr ''ssh''), (''runtime'', JStr ''docker''), (''sshTarget'', host)] \<and> reSshTarget (toStr host)) \<or>
    (\<exists>host vmid. target = JObj [(''kind'', JStr ''proxmox-lxc''), (''runtime'', JStr ''docker''), (''sshTarget'', host), (''vmid'', vmid)] \<and>
       reSshTarget (toStr host) \<and> reVmid (toStr vmid))"
proof -
  have subject: "truthy v \<Longrightarrow> subjectOf v = toStr v" "reVmid (subjectOf v) \<Longrightarrow> subjectOf v = toStr v" for v
    by (cases v; simp add: subjectOf_def reVmid_def)+
  define kind where "kind = (if fld options ''target'' = JUndef \<or> fld options ''target'' = JNull
     then (if hasOwn options ''host'' then ''ssh'' else if hasOwn options ''proxmox'' then ''proxmox-lxc'' else ''local'')
     else strOf (fld options ''target''))"
  have asked: "fld options ''target'' = JUndef \<or> fld options ''target'' \<in> JStr ` set targetKinds"
    using assms by (auto simp: resolveDeploymentTarget_def Let_def res_simps)
  then have kind: "kind = ''local'' \<or> kind = ''ssh'' \<or> kind = ''proxmox-lxc''"
    by (auto simp: kind_def targetKinds_iff)
  show ?thesis
    using assms kind subject
    unfolding resolveDeploymentTarget_def Let_def kind_def [symmetric] validateSshTarget_def
    by (elim disjE) (auto simp: res_simps)
qed

text \<open>C32: the command line for a resolved target is the command itself on the local machine, and else an
  \<^verbatim>\<open>ssh\<close> call with batch mode and strict host-key checking whose destination cannot be read as an option and
  holds no blank or shell character, followed, for a container, by \<^verbatim>\<open>pct exec\<close> with a numeric container ID, and then by the
  command as given.\<close>
theorem target_command_line:
  assumes "resolveDeploymentTarget rp options home = Inr target"
    and "commandForTarget target (JArr command) = Inr (prog, args)"
  shows "fld target ''kind'' = JStr ''local'' \<and> prog # args = command \<or>
    prog = JStr ''ssh'' \<and> (\<exists>host pct.
      args = map JStr [''-o'', ''BatchMode=yes'', ''-o'', ''StrictHostKeyChecking=yes''] @ [host] @ pct @ command \<and>
      toStr host \<noteq> [] \<and> hd (toStr host) \<noteq> CHR ''-'' \<and>
      (\<forall>c \<in> set (toStr host). isAlnum c \<or> c \<in> {CHR ''@'', CHR ''.'', CHR ''_'', CHR ''-''}) \<and>
      (fld target ''kind'' = JStr ''ssh'' \<and> pct = [] \<or>
       fld target ''kind'' = JStr ''proxmox-lxc'' \<and>
         (\<exists>vmid. pct = [JStr ''pct'', JStr ''exec'', vmid, JStr ''--''] \<and> toStr vmid \<noteq> [] \<and> list_all isDigit (toStr vmid))))"
proof -
  have command: "command \<noteq> []" using assms(2) by (auto simp: commandForTarget_def res_simps)
  consider (here) h where "target = JObj [(''kind'', JStr ''local''), (''runtime'', JStr ''docker''), (''home'', JStr h)]"
    | (ssh) host where "target = JObj [(''kind'', JStr ''ssh''), (''runtime'', JStr ''docker''), (''sshTarget'', host)]" "reSshTarget (toStr host)"
    | (lxc) host vmid where "target = JObj [(''kind'', JStr ''proxmox-lxc''), (''runtime'', JStr ''docker''), (''sshTarget'', host), (''vmid'', vmid)]"
        "reSshTarget (toStr host)" "reVmid (toStr vmid)"
    using resolve_remote [OF assms(1)] by blast
  then show ?thesis
  proof cases
    case here
    then show ?thesis using assms(2) command by (auto simp: commandForTarget_def res_simps)
  next
    case (ssh host)
    have "prog = JStr ''ssh''" "args = map JStr [''-o'', ''BatchMode=yes'', ''-o'', ''StrictHostKeyChecking=yes''] @ [host] @ [] @ command"
      using assms(2) unfolding ssh(1) by (auto simp: commandForTarget_def res_simps)
    then show ?thesis using reSshTarget_chars [OF ssh(2)] unfolding ssh(1) by auto
  next
    case (lxc host vmid)
    have "prog = JStr ''ssh''" "args = map JStr [''-o'', ''BatchMode=yes'', ''-o'', ''StrictHostKeyChecking=yes''] @ [host] @
       [JStr ''pct'', JStr ''exec'', vmid, JStr ''--''] @ command"
      using assms(2) unfolding lxc(1) by (auto simp: commandForTarget_def res_simps)
    then show ?thesis using reSshTarget_chars [OF lxc(2)] lxc(3) unfolding lxc(1) by (auto simp: reVmid_def)
  qed
qed

section \<open>Deployment directories\<close>

lemma splitOn_home:
  assumes "isAbsolutePath home"
  shows "splitOn (CHR ''/'') (home @ ''/'' @ rest) = splitOn (CHR ''/'') home @ splitOn (CHR ''/'') rest"
  by (simp add: splitOn_middle)

lemma suffix_last: "suffix [c] s \<longleftrightarrow> s \<noteq> [] \<and> last s = c"
  by (cases s rule: rev_cases) (simp_all add: suffix_def)

lemma pathJoinAll_abs:
  assumes "isAbsolutePath home" and "parts \<noteq> []" and "\<forall>s \<in> set parts. properName s"
  shows "pathJoinAll (home # parts) = concat (map ((#) (CHR ''/'')) (normSegments False [] (splitOn (CHR ''/'') home) @ parts))"
    and "absDir (pathJoinAll (home # parts))"
proof -
  let ?path = "home @ ''/'' @ joinWith ''/'' parts"
  let ?segs = "normSegments False [] (splitOn (CHR ''/'') home) @ parts"
  have nonempty: "home \<noteq> []" "\<forall>s \<in> set parts. s \<noteq> []"
    using assms(1,3) unfolding isAbsolutePath_def properName_def badSegment_def by fastforce+
  then have joined: "joinWith ''/'' (filter (\<lambda>s. s \<noteq> []) (home # parts)) = ?path"
    using assms(2) by (simp add: filter_id_conv [THEN iffD2] joinWith_Cons)
  have proper: "\<forall>s \<in> set ?segs. properName s"
    using normSegments_abs [of "[]" "splitOn (CHR ''/'') home"] splitOn_no_sep assms(3) by fastforce
  have norm: "normSegments False [] (splitOn (CHR ''/'') ?path) = ?segs"
    using assms(2,3) unfolding splitOn_home [OF assms(1)]
    by (subst splitOn_joinWith) (simp_all add: normSegments_append, simp add: properName_def)
  obtain xs b where xs: "parts = xs @ [b]" using assms(2) by (cases parts rule: rev_cases) auto
  then have b: "b \<noteq> []" "CHR ''/'' \<notin> set b" using assms(3) by (auto simp: properName_def badSegment_def)
  then have "last ?path = last b" unfolding xs by (cases "xs = []") (simp_all add: joinWith_snoc)
  then have "\<not> suffix ''/'' ?path" using b last_in_set [OF b(1)] unfolding suffix_last by metis
  moreover have "isAbsolutePath ?path" using assms(1) by (cases home) (auto simp: isAbsolutePath_def)
  moreover have "joinWith ''/'' ?segs \<noteq> []" using b unfolding xs by (cases "normSegments False [] (splitOn (CHR ''/'') home) @ xs = []")
      (simp_all add: joinWith_snoc flip: append_assoc)
  ultimately show eq: "pathJoinAll (home # parts) = concat (map ((#) (CHR ''/'')) ?segs)"
    unfolding pathJoinAll_def joined posixNormalize_def Let_def
    using norm nonempty(1) assms(2) concat_slashes [of ?segs "CHR ''/''"] by simp
  show "absDir (pathJoinAll (home # parts))"
    unfolding eq absDir_def using proper assms(2) by (intro exI [of _ ?segs]) simp
qed

lemma properName_name:
  assumes "reName d"
  shows "properName d"
proof -
  have "\<not> nameChar (CHR ''/'')" "\<not> isLower (CHR ''/'')" "\<not> isLower (CHR ''.'')" by code_simp+
  with assms show ?thesis by (cases d) (auto simp: properName_def badSegment_def list_all_iff)
qed

lemma properName_parts: "\<forall>s \<in> set localRootParts. properName s" "localRootParts \<noteq> []"
  by (auto simp: localRootParts_def properName_def badSegment_def)

lemma name_subject: "reName (subjectOf d) \<Longrightarrow> subjectOf d = toStr d"
  by (auto simp: subjectOf_def split: if_splits)

lemma root_layout:
  assumes "deploymentRootForTarget homedir target deployment = Inr root"
  shows "\<exists>base. deploymentsRootForTarget homedir target = Inr base \<and> root = base @ ''/'' @ toStr deployment \<and> absDir base \<and>
    properName (toStr deployment)"
proof -
  have known: "knownTarget target" and name: "properName (toStr deployment)"
    using assms name_subject [of deployment] properName_name by (auto simp: deploymentRootForTarget_def res_simps)
  show ?thesis
  proof (cases "fld target ''kind'' = JStr ''local''")
    case False
    have "absDir remoteRoot"
      unfolding absDir_def by (rule exI [of _ "[''var'', ''lib'', ''bimo'', ''deployments'']"])
        (simp add: remoteRoot_def properName_def badSegment_def)
    then show ?thesis using assms known name False by (auto simp: deploymentRootForTarget_def deploymentsRootForTarget_def res_simps)
  next
    case True
    then obtain home where home: "validateLocalHome (homeOf homedir target) = Inr home"
      and root: "root = pathJoinAll (home # localRootParts @ [toStr deployment])"
      using assms by (auto simp: deploymentRootForTarget_def res_simps)
    have abs: "isAbsolutePath home" using home by (auto simp: validateLocalHome_def canonicalPath_def res_simps)
    have "deploymentsRootForTarget homedir target = Inr (pathJoinAll (home # localRootParts))"
      using True known home by (simp add: deploymentsRootForTarget_def require_def)
    moreover have "root = pathJoinAll (home # localRootParts) @ ''/'' @ toStr deployment"
      unfolding root using pathJoinAll_abs(1) [OF abs properName_parts(2,1)]
        pathJoinAll_abs(1) [OF abs, of "localRootParts @ [toStr deployment]"] properName_parts name by simp
    moreover have "absDir (pathJoinAll (home # localRootParts))"
      by (rule pathJoinAll_abs(2) [OF abs properName_parts(2,1)])
    ultimately show ?thesis using name by blast
  qed
qed

text \<open>C35: the directory of a deployment lies directly in the deployments directory of its target, under the
  deployment's own name, so different deployments of one target have different directories.\<close>
theorem deployment_root_layout:
  assumes "deploymentRootForTarget homedir target deployment = Inr root"
  shows "\<exists>base. deploymentsRootForTarget homedir target = Inr base \<and> root = base @ ''/'' @ toStr deployment \<and> absDir base \<and>
    properName (toStr deployment)"
  using assms by (rule root_layout)

lemma name_unbroken:
  assumes "reName name"
  shows "\<not> list_ex lineBreak name"
proof -
  have "\<not> nameChar c \<and> \<not> isLower c" if "lineBreak c" for c
    using that by (auto simp: lineBreak_def nameChar_def char_classes)
  then show ?thesis using assms by (cases name) (auto simp: list_ex_iff list_all_iff)
qed

lemma localRoot_unbroken:
  assumes "isAbsolutePath home" and "\<not> list_ex lineBreak home" and "properName name" and "\<not> list_ex lineBreak name"
  shows "\<not> list_ex lineBreak (pathJoinAll (home # localRootParts @ [name]))"
proof -
  let ?segs = "normSegments False [] (splitOn (CHR ''/'') home) @ localRootParts @ [name]"
  have joined: "pathJoinAll (home # localRootParts @ [name]) = concat (map ((#) (CHR ''/'')) ?segs)"
    using pathJoinAll_abs(1) [OF assms(1), of "localRootParts @ [name]"] properName_parts assms(3) by simp
  have "\<not> list_ex lineBreak part" if "part \<in> set localRootParts" for part
    using that by (auto simp: localRootParts_def lineBreak_def)
  moreover have "\<not> list_ex lineBreak h" if "h \<in> set (normSegments False [] (splitOn (CHR ''/'') home))" for h
    using that normSegments_set [of "[]" "splitOn (CHR ''/'') home"] splitOn_set [of h "CHR ''/''" home] assms(2)
    by (auto simp: list_ex_iff)
  ultimately have segs: "\<forall>seg \<in> set ?segs. \<not> list_ex lineBreak seg" using assms(4) by auto
  have "\<not> list_ex lineBreak (concat (map ((#) (CHR ''/'')) segs))" if "\<forall>seg \<in> set segs. \<not> list_ex lineBreak seg" for segs
    using that by (auto simp: list_ex_iff lineBreak_def)
  from this [OF segs] show ?thesis unfolding joined .
qed

text \<open>C36: the directory that a deployment gets is recognised as its directory, as long as its path is not longer
  than the 4096 characters the check admits.\<close>
theorem deployment_root_recognised:
  assumes "deploymentRootForTarget homedir target deployment = Inr root" and "u16len root \<le> 4096"
  shows "isDeploymentHostRoot homedir (JStr root) deployment (homeOf homedir target)"
proof -
  obtain base where base: "root = base @ ''/'' @ toStr deployment" "absDir base" "properName (toStr deployment)"
    using root_layout [OF assms(1)] by blast
  have "absDir root" using absDir_join [OF base(2,3)] base(1) by simp
  then have normal: "posixNormalize root = root" "isAbsolutePath root" by (rule absDir_normal)+
  have name: "reName (subjectOf deployment)" "reName (toStr deployment)" and known: "knownTarget target"
    using assms(1) name_subject [of deployment] by (auto simp: deploymentRootForTarget_def res_simps)
  have clean_name: "\<not> list_ex lineBreak (toStr deployment)" using name(2) by (rule name_unbroken)
  show ?thesis
  proof (cases "fld target ''kind'' = JStr ''local''")
    case False
    then have root: "root = remoteRoot @ ''/'' @ toStr deployment"
      using assms(1) by (auto simp: deploymentRootForTarget_def res_simps)
    have "\<not> list_ex lineBreak remoteRoot" by code_simp
    then have "\<not> list_ex lineBreak root" using clean_name unfolding root by (simp add: lineBreak_def)
    then show ?thesis using normal name(1) assms(2) root by (simp add: isDeploymentHostRoot_def canonicalPath_def)
  next
    case True
    then obtain home where home: "validateLocalHome (homeOf homedir target) = Inr home"
      and root: "root = pathJoinAll (home # localRootParts @ [toStr deployment])"
      using assms(1) by (auto simp: deploymentRootForTarget_def res_simps)
    have canonical: "homeOf homedir target = JStr home" "isAbsolutePath home" "\<not> list_ex lineBreak home"
      using home by (auto simp: validateLocalHome_def canonicalPath_def res_simps isString_iff)
    have "\<not> list_ex lineBreak root"
      unfolding root using canonical(2,3) base(3) clean_name by (rule localRoot_unbroken)
    moreover have "deploymentRootForTarget homedir (JObj [(''kind'', JStr ''local''), (''home'', JStr home)]) deployment = Inr root"
    proof -
      have "knownTarget (JObj [(''kind'', JStr ''local''), (''home'', JStr home)])" by (simp add: knownTarget_def targetKinds_iff)
      moreover have "homeOf homedir (JObj [(''kind'', JStr ''local''), (''home'', JStr home)]) = JStr home" by (simp add: homeOf_def)
      ultimately show ?thesis
        using home canonical(1) name(1) unfolding deploymentRootForTarget_def root by (simp add: require_def)
    qed
    ultimately show ?thesis
      using normal name(1) assms(2) canonical(1) by (simp add: isDeploymentHostRoot_def canonicalPath_def)
  qed
qed

section \<open>Witnesses\<close>

definition demoLxc :: jsval where
  "demoLxc = JObj [(''kind'', JStr ''proxmox-lxc''), (''runtime'', JStr ''docker''), (''sshTarget'', JStr ''root@pve.lan''), (''vmid'', JStr ''101'')]"

definition demoHome :: jsval where
  "demoHome = JObj [(''kind'', JStr ''local''), (''runtime'', JStr ''docker''), (''home'', JStr ''/home/u'')]"

lemma demo_targets:
  "resolveDeploymentTarget (\<lambda>_. None) (JObj [(''proxmox'', JStr ''root@pve.lan''), (''vmid'', JStr ''101'')]) JUndef = Inr demoLxc"
  "commandForTarget demoLxc (JArr [JStr ''docker'', JStr ''ps'']) = Inr (JStr ''ssh'',
     map JStr [''-o'', ''BatchMode=yes'', ''-o'', ''StrictHostKeyChecking=yes'', ''root@pve.lan'', ''pct'', ''exec'', ''101'', ''--'', ''docker'', ''ps''])"
  "resolveDeploymentTarget Some (JObj []) (JStr ''/home/u'') = Inr demoHome"
  "deploymentRootForTarget JUndef demoHome (JStr ''web'') = Inr ''/home/u/.local/share/bimo/deployments/web''"
  "u16len ''/home/u/.local/share/bimo/deployments/web'' \<le> 4096"
  "homeOf JUndef demoHome = JStr ''/home/u''"
  by code_simp+

theorem target_command_line_witness:
  "\<exists>args. commandForTarget demoLxc (JArr [JStr ''docker'', JStr ''ps'']) = Inr (JStr ''ssh'', args) \<and>
     (\<exists>host pct. args = map JStr [''-o'', ''BatchMode=yes'', ''-o'', ''StrictHostKeyChecking=yes''] @ [host] @ pct @ [JStr ''docker'', JStr ''ps''] \<and>
        toStr host \<noteq> [] \<and> hd (toStr host) \<noteq> CHR ''-'')"
proof -
  have "fld demoLxc ''kind'' \<noteq> JStr ''local''" by (simp add: demoLxc_def)
  then show ?thesis using target_command_line [OF demo_targets(1,2)] demo_targets(2) by blast
qed

theorem deployment_root_layout_witness:
  "\<exists>base. deploymentsRootForTarget JUndef demoHome = Inr base \<and> ''/home/u/.local/share/bimo/deployments/web'' = base @ ''/web''"
  using deployment_root_layout [OF demo_targets(4)] by auto

theorem deployment_root_recognised_witness:
  "isDeploymentHostRoot JUndef (JStr ''/home/u/.local/share/bimo/deployments/web'') (JStr ''web'') (JStr ''/home/u'')"
  using deployment_root_recognised [OF demo_targets(4,5)] by (simp only: demo_targets(6))

end
