(* ===== verification/Deployment_Contract.thy ===== *)
theory Deployment_Contract
  imports Deployment_Target Json Sha256
begin

text \<open>
  Deployment manifests: the validator and the plan, \<^verbatim>\<open>src/src/deployment-contract.mjs\<close>, and the reader of
  manifest files, \<^verbatim>\<open>src/src/deployment-plan.mjs\<close>.  The open file, its successive reads and the read deadline
  come from a port.
\<close>

section \<open>Manifests\<close>

text \<open>\<^verbatim>\<open>/^[a-z0-9](?:[a-z0-9-]{0,61}[a-z0-9])?$/u\<close>, \<^verbatim>\<open>/^[a-z0-9-]{1,63}\/[a-z0-9._-]{1,63}$/u\<close> and
  \<^verbatim>\<open>/^op:\/\/[^/\u0000-\u001f\u007f]{1,255}\/...\/...$/u\<close>, which has three such segments.\<close>

definition reEngineTarget :: "string \<Rightarrow> bool" where
  "reEngineTarget s =
     (s \<noteq> [] \<and> length s \<le> 63 \<and> list_all nameChar s \<and> hd s \<noteq> CHR ''-'' \<and> last s \<noteq> CHR ''-'')"

definition reEngineHandle :: "string \<Rightarrow> bool" where
  "reEngineHandle s =
     (case splitOn (CHR ''/'') s of
        [tenant, name] \<Rightarrow> 1 \<le> length tenant \<and> length tenant \<le> 63 \<and> list_all nameChar tenant \<and>
          1 \<le> length name \<and> length name \<le> 63 \<and>
          list_all (\<lambda>c. nameChar c \<or> c = CHR ''.'' \<or> c = CHR ''_'') name
      | _ \<Rightarrow> False)"

definition controlChar :: "char \<Rightarrow> bool" where
  "controlChar c = (inRange 0 31 c \<or> (of_char c :: nat) = 127)"

definition secretSegment :: "string \<Rightarrow> bool" where
  "secretSegment s = (1 \<le> length (chars s) \<and> length (chars s) \<le> 255 \<and> \<not> list_ex controlChar s)"

definition reSecretRef :: "string \<Rightarrow> bool" where
  "reSecretRef s =
     (prefix ''op://'' s \<and> (case splitOn (CHR ''/'') (drop 5 s) of
        [vault, item, field] \<Rightarrow> secretSegment vault \<and> secretSegment item \<and> secretSegment field
      | _ \<Rightarrow> False))"

definition manifestFields :: "string list" where
  "manifestFields = [''schemaVersion'', ''clientId'', ''agentId'', ''lifecycle'', ''runtime'', ''target'', ''workload'', ''model'', ''secretRefs'', ''limits'']"

definition jobTemplates :: "string list" where
  "jobTemplates = [''react-solo'', ''react-app'', ''parallel-engineering-pod'', ''pi-palantir-pod'']"

definition ownFields :: "jsval \<Rightarrow> string list \<Rightarrow> string \<Rightarrow> unit res" where
  "ownFields v wanted label =
     checks
       [require (isPlainObject v) (label @ '' must be a plain object''),
        require (length (jsKeys v) = length wanted \<and> list_all (\<lambda>k. k \<in> set wanted) (jsKeys v)) (label @ '' has an invalid field set''),
        require (list_all (hasOwn v) wanted) (label @ '' must contain only enumerable data fields'')]"

definition validateIdentity :: "jsval \<Rightarrow> string \<Rightarrow> jsval res" where
  "validateIdentity v label = bindR (require (isString v \<and> reName (strOf v)) (label @ '' is invalid'')) (\<lambda>_. Inr v)"

definition validateTarget :: "(string \<Rightarrow> string option) \<Rightarrow> jsval \<Rightarrow> jsval res" where
  "validateTarget realpath target =
     (let kind = fld target ''kind'' in
      if kind = JStr ''local'' then bindR (ownFields target [''kind''] ''target'') (\<lambda>_. Inr (JObj [(''kind'', kind)]))
      else if kind = JStr ''ssh'' then
        let host = fld target ''host'' in
        bindR (ownFields target [''kind'', ''host''] ''target'') (\<lambda>_.
        bindR (require (isString host \<and> u16len (strOf host) \<le> 300) ''target host is invalid'') (\<lambda>_.
        bindR (resolveDeploymentTarget realpath (JObj [(''target'', kind), (''host'', host)]) (JStr ''/'')) (\<lambda>_.
        Inr (JObj [(''kind'', kind), (''host'', host)]))))
      else if kind = JStr ''proxmox-lxc'' then
        let proxmox = fld target ''proxmox''; vmid = fld target ''vmid'' in
        bindR (ownFields target [''kind'', ''proxmox'', ''vmid''] ''target'') (\<lambda>_.
        bindR (require (isString proxmox \<and> u16len (strOf proxmox) \<le> 300 \<and> isString vmid \<and> reVmid (strOf vmid))
          ''target Proxmox configuration is invalid'') (\<lambda>_.
        bindR (resolveDeploymentTarget realpath (JObj [(''target'', kind), (''proxmox'', proxmox), (''vmid'', vmid)]) (JStr ''/'')) (\<lambda>_.
        Inr (JObj [(''kind'', kind), (''proxmox'', proxmox), (''vmid'', vmid)]))))
      else if kind = JStr ''engine'' then
        let name = fld target ''name'' in
        bindR (ownFields target [''kind'', ''name''] ''target'') (\<lambda>_.
        bindR (require (isString name \<and> reEngineTarget (strOf name)) ''engine target name is invalid'') (\<lambda>_.
        Inr (JObj [(''kind'', kind), (''name'', name)])))
      else Inl ''target kind is unsupported'')"

definition configPath :: "jsval \<Rightarrow> bool" where
  "configPath v =
     (isString v \<and> 1 \<le> u16len (strOf v) \<and> u16len (strOf v) \<le> 1024 \<and> \<not> list_ex controlChar (strOf v) \<and>
      \<not> prefix ''/'' (strOf v) \<and> CHR 0x5C \<notin> set (strOf v))"

definition validateEngineConfigPath :: "jsval \<Rightarrow> jsval res" where
  "validateEngineConfigPath v = bindR (require (configPath v) ''engine workload config must be a relative directory path'') (\<lambda>_. Inr v)"

definition validateWorkload :: "jsval \<Rightarrow> jsval \<Rightarrow> jsval \<Rightarrow> jsval \<Rightarrow> jsval res" where
  "validateWorkload lifecycle runtime workload target =
     (if fld target ''kind'' = JStr ''engine'' then
        bindR (require (lifecycle = JStr ''service'' \<and> runtime = JStr ''hermes'') ''engine targets run Hermes services only'') (\<lambda>_.
        bindR (ownFields workload [''config''] ''workload'') (\<lambda>_.
        bindR (validateEngineConfigPath (fld workload ''config'')) (\<lambda>config. Inr (JObj [(''config'', config)]))))
      else if lifecycle = JStr ''job'' \<and> (runtime = JStr ''opencode'' \<or> runtime = JStr ''pi'') then
        bindR (ownFields workload [''template''] ''workload'') (\<lambda>_.
        bindR (require (fld workload ''template'' \<in> JStr ` set jobTemplates) ''job template is unsupported'') (\<lambda>_.
        Inr (JObj [(''template'', fld workload ''template'')])))
      else if lifecycle = JStr ''service'' \<and> runtime = JStr ''hermes'' then
        bindR (ownFields workload [''service''] ''workload'') (\<lambda>_.
        bindR (require (fld workload ''service'' = JStr ''aurum'') ''service workload is unsupported'') (\<lambda>_.
        Inr (JObj [(''service'', fld workload ''service'')])))
      else Inl ''runtime and lifecycle combination is unsupported'')"

definition validateModel :: "jsval \<Rightarrow> jsval \<Rightarrow> jsval \<Rightarrow> jsval res" where
  "validateModel model secretRefs target =
     (let provider = fld model ''provider''; secret = fld secretRefs ''model'' in
      bindR (checks
        [ownFields model [''provider'', ''fallback''] ''model'',
         ownFields secretRefs [''model''] ''secretRefs'',
         require ((provider = JStr ''openrouter'' \<or> provider = JStr ''local'') \<and> fld model ''fallback'' = JStr ''disabled'')
           ''model policy is unsupported'',
         (if fld target ''kind'' = JStr ''engine'' then checks
            [require (provider = JStr ''openrouter'') ''engine targets support the openrouter model provider only'',
             require (isString secret \<and> reEngineHandle (strOf secret)) ''engine model secret must be a TENANT/NAME handle'']
          else if provider = JStr ''openrouter'' then
            require (isString secret \<and> reSecretRef (strOf secret)) ''model secret must be a 1Password reference''
          else require (secret = JNull) ''local model secret reference must be null'')]) (\<lambda>_.
      Inr (JObj [(''provider'', provider), (''fallback'', fld model ''fallback'')])))"

definition boundedInteger :: "jsval \<Rightarrow> int \<Rightarrow> int \<Rightarrow> string \<Rightarrow> jsval res" where
  "boundedInteger v minimum maximum label =
     bindR (require (isInteger v \<and> minimum \<le> intOf v \<and> intOf v \<le> maximum) (label @ '' is invalid'')) (\<lambda>_. Inr v)"

fun cpuLimit :: "jsval \<Rightarrow> bool" where
  "cpuLimit (JNum (NInt i)) = (1 \<le> 4 * i \<and> i \<le> 64)"
| "cpuLimit (JNum (NFrac n d _)) = (d \<le> 4 * n \<and> n \<le> 64 * d)"
| "cpuLimit _ = False"

definition limitFields :: "string list" where
  "limitFields = [''memoryMiB'', ''cpus'', ''maxConcurrentRuns'', ''runTimeoutSeconds'']"

definition validateLimits :: "jsval \<Rightarrow> jsval res" where
  "validateLimits limits =
     bindR (ownFields limits limitFields ''limits'') (\<lambda>_.
     bindR (require (cpuLimit (fld limits ''cpus'')) ''CPU limit is invalid'') (\<lambda>_.
     bindR (boundedInteger (fld limits ''memoryMiB'') 128 65536 ''memory limit'') (\<lambda>memory.
     bindR (boundedInteger (fld limits ''maxConcurrentRuns'') 1 8 ''concurrency limit'') (\<lambda>runs.
     bindR (boundedInteger (fld limits ''runTimeoutSeconds'') 1 7200 ''run timeout'') (\<lambda>seconds.
     Inr (JObj [(''memoryMiB'', memory), (''cpus'', fld limits ''cpus''), (''maxConcurrentRuns'', runs), (''runTimeoutSeconds'', seconds)]))))))"

definition validateDeploymentManifest :: "(string \<Rightarrow> string option) \<Rightarrow> jsval \<Rightarrow> jsval res" where
  "validateDeploymentManifest realpath input =
     bindR (ownFields input manifestFields ''deployment manifest'') (\<lambda>_.
     bindR (require (fld input ''schemaVersion'' = num 1) ''deployment manifest schemaVersion must be 1'') (\<lambda>_.
     bindR (validateIdentity (fld input ''clientId'') ''client ID'') (\<lambda>clientId.
     bindR (validateIdentity (fld input ''agentId'') ''agent ID'') (\<lambda>agentId.
     bindR (validateTarget realpath (fld input ''target'')) (\<lambda>target.
     bindR (validateWorkload (fld input ''lifecycle'') (fld input ''runtime'') (fld input ''workload'') target) (\<lambda>workload.
     bindR (validateModel (fld input ''model'') (fld input ''secretRefs'') target) (\<lambda>model.
     bindR (validateLimits (fld input ''limits'')) (\<lambda>limits.
     Inr (JObj
       [(''schemaVersion'', num 1), (''clientId'', clientId), (''agentId'', agentId), (''lifecycle'', fld input ''lifecycle''),
        (''runtime'', fld input ''runtime''), (''target'', target), (''workload'', workload), (''model'', model),
        (''secretRefs'', JObj [(''model'', fld (fld input ''secretRefs'') ''model'')]), (''limits'', limits)])))))))))"

section \<open>Plans\<close>

definition identityOf :: "jsval \<Rightarrow> string" where
  "identityOf manifest = strOf (fld manifest ''clientId'') @ ''/'' @ strOf (fld manifest ''agentId'')"

definition planObject :: "jsval \<Rightarrow> bool \<Rightarrow> string list \<Rightarrow> jsobj" where
  "planObject manifest supported limitations =
     [(''schemaVersion'', num 1), (''planOnly'', JBool True), (''executionSupported'', JBool supported),
      (''identity'', JStr (identityOf manifest)), (''manifest'', manifest), (''limitations'', JArr (map JStr limitations))]"

definition engineLimitations :: "string list" where
  "engineLimitations =
     [''Plan only: no deployment or durable identity has been created.'',
      ''Execute with bimo agent apply on this manifest; the Bimo engine places the agent on the named target.'',
      ''The engine sizes guests from the target configuration; the manifest'' @ [CHR 0x27] @ ''s limits are not applied.'',
      ''The secret handle, the target and the configuration directory are checked by bimo agent validate, not by this command.'']"

definition planLimitations :: "jsval \<Rightarrow> string list" where
  "planLimitations manifest =
     [''Plan only: no deployment or durable identity has been created.'',
      ''Resource limits, credential bindings and client isolation have not been applied or enforced.''] @
     (if fld manifest ''lifecycle'' = JStr ''service'' then [''The Hermes service executor is not implemented.''] else []) @
     (if fld (fld manifest ''model'') ''provider'' = JStr ''local'' then [''The local model provider is not implemented.''] else [])"

definition planDeployment :: "(string \<Rightarrow> string option) \<Rightarrow> jsval \<Rightarrow> jsobj res" where
  "planDeployment realpath input =
     bindR (validateDeploymentManifest realpath input) (\<lambda>manifest.
     if fld (fld manifest ''target'') ''kind'' = JStr ''engine'' then Inr (planObject manifest True engineLimitations)
     else Inr (planObject manifest False (planLimitations manifest)))"

section \<open>Reading a manifest\<close>

definition maxManifestBytes :: nat where
  "maxManifestBytes = 64 * 1024"

record openFile =
  of_isFile :: bool
  of_size :: nat
  of_reads :: "string list"
  of_deadline :: bool
  of_closed :: bool

fun readLoop :: "string \<Rightarrow> string list \<Rightarrow> string" where
  "readLoop buffer [] = buffer"
| "readLoop buffer (c # cs) =
     (if maxManifestBytes + 1 \<le> length buffer then buffer
      else let bytesRead = take (maxManifestBytes + 1 - length buffer) c in
        if bytesRead = [] then buffer else readLoop (buffer @ bytesRead) cs)"

definition manifestTooLarge :: err where
  "manifestTooLarge = ''manifest must be a regular file of at most 65536 bytes''"

definition readManifestBytes :: "openFile \<Rightarrow> string res" where
  "readManifestBytes f =
     bindR (require (of_isFile f \<and> of_size f \<le> maxManifestBytes) manifestTooLarge) (\<lambda>_.
     let bytes = readLoop [] (of_reads f) in
     bindR (require (length bytes \<le> maxManifestBytes) manifestTooLarge) (\<lambda>_. Inr bytes))"

text \<open>Every failure to read, a passed deadline and a failing close end in the same message.\<close>

definition readBoundedManifest :: "(string \<Rightarrow> openFile option) \<Rightarrow> jsval \<Rightarrow> string res" where
  "readBoundedManifest openAt file =
     bindR (require (isString file \<and> 1 \<le> u16len (strOf file) \<and> u16len (strOf file) \<le> 4096 \<and> \<not> list_ex controlChar (strOf file))
       ''manifest path is invalid'') (\<lambda>_.
     let failed = Inl ''cannot read manifest: use a regular non-symlink file of at most 65536 bytes'' in
     case openAt (strOf file) of
       None \<Rightarrow> failed
     | Some f \<Rightarrow> (case readManifestBytes f of
         Inl _ \<Rightarrow> failed
       | Inr bytes \<Rightarrow> if of_deadline f \<or> \<not> of_closed f then failed else Inr bytes))"

definition loadDeploymentPlan :: "(string \<Rightarrow> string option) \<Rightarrow> (string \<Rightarrow> openFile option) \<Rightarrow> jsval \<Rightarrow> jsval res" where
  "loadDeploymentPlan realpath openAt file =
     bindR (readBoundedManifest openAt file) (\<lambda>bytes.
     case Option.bind (utf8Decode bytes) jsonParse of
       None \<Rightarrow> Inl ''manifest must contain valid UTF-8 JSON''
     | Some input \<Rightarrow> bindR (planDeployment realpath input) (\<lambda>plan.
         Inr (JObj (plan @ [(''sourceDigest'', JStr (''sha256:'' @ sha256 bytes))]))))"

definition formatDeploymentPlan :: "jsval \<Rightarrow> string" where
  "formatDeploymentPlan plan =
     (let manifest = fld plan ''manifest'' in
      joinWith newline (
        [''Valid deployment intent: '' @ toStr (fld plan ''identity''),
         ''Lifecycle: '' @ toStr (fld manifest ''lifecycle'') @ ''; runtime: '' @ toStr (fld manifest ''runtime'') @ ''; target: '' @
           toStr (fld (fld manifest ''target'') ''kind''),
         ''Source digest: '' @ toStr (fld plan ''sourceDigest''),
         (if truthy (fld plan ''executionSupported'') then ''Plan only. Execute it with bimo agent apply on this manifest.''
          else ''Plan only. Execution is not supported through this command.'')] @
        map (\<lambda>v. ''- '' @ toStr v) (elems (fld plan ''limitations'')) @ [[]]))"

end
