(* ===== verification/Deployment_Manifest.thy ===== *)
theory Deployment_Manifest
  imports Deployment_Contract
begin

text \<open>
  What an accepted deployment manifest looks like, and what a plan made from it says.
\<close>

section \<open>The shape of accepted manifests\<close>

lemma ownFields_Inr:
  "ownFields v wanted l = Inr () \<longleftrightarrow>
     isPlainObject v \<and> length (jsKeys v) = length wanted \<and> set (jsKeys v) = set wanted"
  by (auto simp: ownFields_def res_simps list_all_iff hasOwn_def)

definition targetType :: "jsval \<Rightarrow> bool" where
  "targetType t \<longleftrightarrow>
     t = JObj [(''kind'', JStr ''local'')] \<or>
     (\<exists>h. t = JObj [(''kind'', JStr ''ssh''), (''host'', JStr h)] \<and> reSshTarget h \<and> u16len h \<le> 300) \<or>
     (\<exists>h v. t = JObj [(''kind'', JStr ''proxmox-lxc''), (''proxmox'', JStr h), (''vmid'', JStr v)] \<and> reSshTarget h \<and> u16len h \<le> 300 \<and> reVmid v) \<or>
     (\<exists>n. t = JObj [(''kind'', JStr ''engine''), (''name'', JStr n)] \<and> reEngineTarget n)"

definition onEngine :: "jsval \<Rightarrow> bool" where
  "onEngine target \<longleftrightarrow> fld target ''kind'' = JStr ''engine''"

definition workloadType :: "jsval \<Rightarrow> jsval \<Rightarrow> jsval \<Rightarrow> jsval \<Rightarrow> bool" where
  "workloadType target lifecycle runtime workload \<longleftrightarrow>
     (if onEngine target
      then lifecycle = JStr ''service'' \<and> runtime = JStr ''hermes'' \<and> (\<exists>c. workload = JObj [(''config'', JStr c)] \<and> configPath (JStr c))
      else lifecycle = JStr ''job'' \<and> (runtime = JStr ''opencode'' \<or> runtime = JStr ''pi'') \<and>
             (\<exists>t \<in> set jobTemplates. workload = JObj [(''template'', JStr t)]) \<or>
           lifecycle = JStr ''service'' \<and> runtime = JStr ''hermes'' \<and> workload = JObj [(''service'', JStr ''aurum'')])"

definition modelType :: "jsval \<Rightarrow> jsval \<Rightarrow> jsval \<Rightarrow> bool" where
  "modelType target model secret \<longleftrightarrow>
     (\<exists>p. model = JObj [(''provider'', JStr p), (''fallback'', JStr ''disabled'')] \<and>
       (if onEngine target then p = ''openrouter'' \<and> (\<exists>h. secret = JStr h \<and> reEngineHandle h)
        else p = ''openrouter'' \<and> (\<exists>r. secret = JStr r \<and> reSecretRef r) \<or> p = ''local'' \<and> secret = JNull))"

definition limitsType :: "jsval \<Rightarrow> bool" where
  "limitsType limits \<longleftrightarrow>
     (\<exists>memory cpus runs seconds. limits = JObj [(''memoryMiB'', num memory), (''cpus'', cpus), (''maxConcurrentRuns'', num runs),
        (''runTimeoutSeconds'', num seconds)] \<and> 128 \<le> memory \<and> memory \<le> 65536 \<and> cpuLimit cpus \<and> 1 \<le> runs \<and> runs \<le> 8 \<and>
        1 \<le> seconds \<and> seconds \<le> 7200)"

definition manifestType :: "jsval \<Rightarrow> bool" where
  "manifestType m \<longleftrightarrow>
     (\<exists>client agent lifecycle runtime target workload model secret limits.
        m = JObj [(''schemaVersion'', num 1), (''clientId'', JStr client), (''agentId'', JStr agent), (''lifecycle'', lifecycle),
              (''runtime'', runtime), (''target'', target), (''workload'', workload), (''model'', model),
              (''secretRefs'', JObj [(''model'', secret)]), (''limits'', limits)] \<and>
        reName client \<and> reName agent \<and> targetType target \<and> workloadType target lifecycle runtime workload \<and>
        modelType target model secret \<and> limitsType limits)"

lemma resolve_manifest_target:
  "succeeds (resolveDeploymentTarget rp (JObj [(''target'', JStr ''ssh''), (''host'', JStr h)]) d) \<longleftrightarrow> reSshTarget h"
  "succeeds (resolveDeploymentTarget rp (JObj [(''target'', JStr ''proxmox-lxc''), (''proxmox'', JStr h), (''vmid'', JStr v)]) d)
     \<longleftrightarrow> reSshTarget h \<and> reVmid v"
proof -
  have "\<not> reSshTarget []" by code_simp
  then have "h \<noteq> []" if "reSshTarget h" for h using that by auto
  then show "succeeds (resolveDeploymentTarget rp (JObj [(''target'', JStr ''ssh''), (''host'', JStr h)]) d) \<longleftrightarrow> reSshTarget h"
    "succeeds (resolveDeploymentTarget rp (JObj [(''target'', JStr ''proxmox-lxc''), (''proxmox'', JStr h), (''vmid'', JStr v)]) d)
     \<longleftrightarrow> reSshTarget h \<and> reVmid v"
    by (auto simp: resolveDeploymentTarget_def Let_def hasOwn_def jsKeys_def require_def checks.simps targetKinds_iff validateSshTarget_def
        subjectOf_def succeeds_def split: if_splits)
qed

lemma succeeds_iff: "succeeds r \<longleftrightarrow> (\<exists>x. r = Inr x)"
  by (cases r) simp_all

lemma validateTarget_type:
  assumes "validateTarget rp t = Inr t'"
  shows "targetType t'"
proof -
  consider "fld t ''kind'' = JStr ''local''" | "fld t ''kind'' = JStr ''ssh''" | "fld t ''kind'' = JStr ''proxmox-lxc''"
    | "fld t ''kind'' = JStr ''engine''"
    using assms unfolding validateTarget_def Let_def by (metis Inl_Inr_False)
  then show ?thesis
  proof cases
    case 2
    then obtain h where h: "fld t ''host'' = JStr h" "u16len h \<le> 300" and "t' = JObj [(''kind'', JStr ''ssh''), (''host'', JStr h)]"
      "succeeds (resolveDeploymentTarget rp (JObj [(''target'', JStr ''ssh''), (''host'', JStr h)]) (JStr ''/''))"
      using assms by (auto simp: validateTarget_def Let_def res_simps isString_iff succeeds_iff)
    then show ?thesis unfolding resolve_manifest_target by (simp add: targetType_def)
  next
    case 3
    then obtain h v where h: "u16len h \<le> 300" and "t' = JObj [(''kind'', JStr ''proxmox-lxc''), (''proxmox'', JStr h), (''vmid'', JStr v)]"
      "succeeds (resolveDeploymentTarget rp (JObj [(''target'', JStr ''proxmox-lxc''), (''proxmox'', JStr h), (''vmid'', JStr v)]) (JStr ''/''))"
      using assms by (auto simp: validateTarget_def Let_def res_simps isString_iff succeeds_iff)
    then show ?thesis unfolding resolve_manifest_target by (simp add: targetType_def)
  qed (use assms in \<open>auto simp: validateTarget_def Let_def res_simps isString_iff targetType_def\<close>)
qed

lemma validateTarget_accepts:
  assumes "targetType t"
  shows "validateTarget rp t = Inr t"
proof -
  have run: "\<exists>x. resolveDeploymentTarget rp (JObj [(''target'', JStr ''ssh''), (''host'', JStr h)]) d = Inr x"
    "\<exists>x. reVmid v \<longrightarrow> resolveDeploymentTarget rp (JObj [(''target'', JStr ''proxmox-lxc''), (''proxmox'', JStr h), (''vmid'', JStr v)]) d = Inr x"
    if "reSshTarget h" for h v d
    using resolve_manifest_target(1) [of rp h d] resolve_manifest_target(2) [of rp h v d] that unfolding succeeds_iff by blast+
  have own: "ownFields (JObj [(k, v)]) [k] l = Inr ()" "ownFields (JObj [(k, v), (k', v')]) [k, k'] l = Inr ()"
    "ownFields (JObj [(k, v), (k', v'), (k'', v'')]) [k, k', k''] l = Inr ()" for k k' k'' v v' v'' l
    by (simp_all add: ownFields_Inr jsKeys_def)
  consider (here) "t = JObj [(''kind'', JStr ''local'')]"
    | (ssh) h where "t = JObj [(''kind'', JStr ''ssh''), (''host'', JStr h)]" "reSshTarget h" "u16len h \<le> 300"
    | (lxc) h v where "t = JObj [(''kind'', JStr ''proxmox-lxc''), (''proxmox'', JStr h), (''vmid'', JStr v)]" "reSshTarget h" "u16len h \<le> 300" "reVmid v"
    | (engine) n where "t = JObj [(''kind'', JStr ''engine''), (''name'', JStr n)]" "reEngineTarget n"
    using assms unfolding targetType_def by blast
  then show ?thesis
  proof cases
    case (ssh h)
    then show ?thesis using run(1) [OF ssh(2), of "JStr ''/''"] own(2) by (auto simp: validateTarget_def Let_def require_def)
  next
    case (lxc h v)
    then show ?thesis using run(2) [OF lxc(2), of v "JStr ''/''"] own(3) by (auto simp: validateTarget_def Let_def require_def)
  qed (simp_all add: validateTarget_def Let_def require_def own)
qed

lemma own_constructed:
  "ownFields (JObj [(k, v)]) [k] l = Inr ()" "ownFields (JObj [(k, v), (k', v')]) [k, k'] l = Inr ()"
  "ownFields (JObj [(k, v), (k', v'), (k'', v'')]) [k, k', k''] l = Inr ()"
  "ownFields (JObj [(k, v), (k', v'), (k'', v''), (k3, v3)]) [k, k', k'', k3] l = Inr ()"
  by (simp_all add: ownFields_Inr jsKeys_def)

lemma validateWorkload_type:
  assumes "validateWorkload lifecycle runtime workload target = Inr w"
  shows "workloadType target lifecycle runtime w"
proof (cases "onEngine target")
  case True
  then have "lifecycle = JStr ''service''" "runtime = JStr ''hermes''" "configPath (fld workload ''config'')"
    "w = JObj [(''config'', fld workload ''config'')]"
    using assms unfolding validateWorkload_def onEngine_def validateEngineConfigPath_def by (auto simp: bindR_Inr require_Inr)
  moreover then obtain c where "fld workload ''config'' = JStr c" unfolding configPath_def isString_iff by blast
  ultimately show ?thesis using True unfolding workloadType_def by simp
next
  case False
  then have kind: "fld target ''kind'' \<noteq> JStr ''engine''" by (simp add: onEngine_def)
  consider (job) "lifecycle = JStr ''job''" "runtime = JStr ''opencode'' \<or> runtime = JStr ''pi''"
    | (service) "\<not> (lifecycle = JStr ''job'' \<and> (runtime = JStr ''opencode'' \<or> runtime = JStr ''pi''))" "lifecycle = JStr ''service''" "runtime = JStr ''hermes''"
    using assms kind unfolding validateWorkload_def by (metis Inl_Inr_False)
  then show ?thesis
  proof cases
    case job
    then have "fld workload ''template'' \<in> JStr ` set jobTemplates" "w = JObj [(''template'', fld workload ''template'')]"
      using assms kind unfolding validateWorkload_def by (auto simp: bindR_Inr require_Inr)
    then show ?thesis using job False unfolding workloadType_def by auto
  next
    case service
    then show ?thesis using assms kind False unfolding validateWorkload_def workloadType_def by (auto simp: bindR_Inr require_Inr)
  qed
qed

lemma validateWorkload_accepts:
  assumes "workloadType target lifecycle runtime w"
  shows "validateWorkload lifecycle runtime w target = Inr w"
proof (cases "onEngine target")
  case True
  then show ?thesis
    using assms unfolding workloadType_def validateWorkload_def onEngine_def validateEngineConfigPath_def
    by (auto simp: own_constructed require_def)
next
  case False
  then show ?thesis
    using assms unfolding workloadType_def validateWorkload_def onEngine_def by (auto simp: own_constructed require_def)
qed

lemma validateModel_type:
  assumes "validateModel model secretRefs target = Inr m"
  shows "modelType target m (fld secretRefs ''model'')"
proof -
  let ?p = "fld model ''provider''" and ?s = "fld secretRefs ''model''"
  have m: "m = JObj [(''provider'', ?p), (''fallback'', JStr ''disabled'')]" and p: "?p = JStr ''openrouter'' \<or> ?p = JStr ''local''"
    and s: "if onEngine target then ?p = JStr ''openrouter'' \<and> isString ?s \<and> reEngineHandle (strOf ?s)
      else if ?p = JStr ''openrouter'' then isString ?s \<and> reSecretRef (strOf ?s) else ?s = JNull"
    using assms unfolding validateModel_def Let_def onEngine_def
    by (auto simp: bindR_unit require_Inr checks_Cons checks_Nil split: if_splits)
  then show ?thesis
    unfolding modelType_def m isString_iff by (cases "onEngine target") auto
qed

lemma validateModel_accepts:
  "modelType target m secret \<Longrightarrow> validateModel m (JObj [(''model'', secret)]) target = Inr m"
  unfolding modelType_def validateModel_def Let_def onEngine_def
  by (auto simp: own_constructed checks.simps require_def split: if_splits)

lemma boundedInteger_Inr: "boundedInteger v lo hi l = Inr w \<longleftrightarrow> w = v \<and> (\<exists>i. v = num i \<and> lo \<le> i \<and> i \<le> hi)"
  by (auto simp: boundedInteger_def bindR_unit require_Inr isInteger_iff num_def)

lemma validateLimits_type: "validateLimits v = Inr l \<Longrightarrow> limitsType l"
  unfolding validateLimits_def limitsType_def by (auto simp: bindR_Inr require_Inr boundedInteger_Inr)

lemma validateLimits_accepts: "limitsType l \<Longrightarrow> validateLimits l = Inr l"
  unfolding limitsType_def validateLimits_def limitFields_def
  by (auto simp: own_constructed require_def boundedInteger_def num_def)

lemma validateIdentity_Inr: "validateIdentity v l = Inr w \<longleftrightarrow> w = v \<and> (\<exists>s. v = JStr s \<and> reName s)"
  by (auto simp: validateIdentity_def bindR_unit require_Inr isString_iff)

lemma manifest_type:
  assumes "validateDeploymentManifest rp input = Inr m"
  shows "manifestType m"
proof -
  obtain client agent target workload model limits where
    parts: "reName client" "reName agent"
      "validateTarget rp (fld input ''target'') = Inr target"
      "validateWorkload (fld input ''lifecycle'') (fld input ''runtime'') (fld input ''workload'') target = Inr workload"
      "validateModel (fld input ''model'') (fld input ''secretRefs'') target = Inr model" "validateLimits (fld input ''limits'') = Inr limits"
    and m: "m = JObj [(''schemaVersion'', num 1), (''clientId'', JStr client), (''agentId'', JStr agent), (''lifecycle'', fld input ''lifecycle''),
        (''runtime'', fld input ''runtime''), (''target'', target), (''workload'', workload), (''model'', model),
        (''secretRefs'', JObj [(''model'', fld (fld input ''secretRefs'') ''model'')]), (''limits'', limits)]"
    using assms unfolding validateDeploymentManifest_def bindR_unit bindR_Inr validateIdentity_Inr by blast
  note types = validateTarget_type [OF parts(3)] validateWorkload_type [OF parts(4)] validateModel_type [OF parts(5)] validateLimits_type [OF parts(6)]
  show ?thesis
    unfolding manifestType_def by (intro exI conjI, rule m) (rule parts types)+
qed

lemma manifest_accepted:
  assumes "manifestType m"
  shows "validateDeploymentManifest rp m = Inr m"
proof -
  obtain client agent lifecycle runtime target workload model secret limits where
    m: "m = JObj [(''schemaVersion'', num 1), (''clientId'', JStr client), (''agentId'', JStr agent), (''lifecycle'', lifecycle),
              (''runtime'', runtime), (''target'', target), (''workload'', workload), (''model'', model),
              (''secretRefs'', JObj [(''model'', secret)]), (''limits'', limits)]"
    and ok: "reName client" "reName agent" "targetType target" "workloadType target lifecycle runtime workload"
      "modelType target model secret" "limitsType limits"
    using assms unfolding manifestType_def by blast
  have own: "ownFields m manifestFields l = Inr ()" for l
    unfolding m by (simp add: ownFields_Inr jsKeys_def manifestFields_def)
  have fields: "fld m ''schemaVersion'' = num 1" "fld m ''clientId'' = JStr client" "fld m ''agentId'' = JStr agent" "fld m ''lifecycle'' = lifecycle"
    "fld m ''runtime'' = runtime" "fld m ''target'' = target" "fld m ''workload'' = workload" "fld m ''model'' = model"
    "fld m ''secretRefs'' = JObj [(''model'', secret)]" "fld m ''limits'' = limits"
    unfolding m by simp_all
  show ?thesis
    unfolding validateDeploymentManifest_def own fields validateIdentity_def
    using ok by (simp add: require_def validateTarget_accepts validateWorkload_accepts validateModel_accepts validateLimits_accepts m)
qed


section \<open>Plans\<close>

lemma name_no_slash: "reName s \<Longrightarrow> CHR ''/'' \<notin> set s"
  using properName_name by (simp add: properName_def)

lemma manifest_identity:
  assumes "manifestType m"
  shows "splitOn (CHR ''/'') (identityOf m) = [strOf (fld m ''clientId''), strOf (fld m ''agentId'')]"
proof -
  obtain client agent where "strOf (fld m ''clientId'') = client" "strOf (fld m ''agentId'') = agent" "reName client" "reName agent"
    using assms unfolding manifestType_def by fastforce
  then show ?thesis
    using name_no_slash by (simp add: identityOf_def splitOn_append splitOn_eq_single)
qed

lemma manifest_engine:
  assumes "manifestType m" and "onEngine (fld m ''target'')"
  shows "fld m ''lifecycle'' = JStr ''service'' \<and> fld m ''runtime'' = JStr ''hermes'' \<and> fld (fld m ''model'') ''provider'' = JStr ''openrouter'' \<and>
    reEngineHandle (strOf (fld (fld m ''secretRefs'') ''model''))"
  using assms unfolding manifestType_def workloadType_def modelType_def by (elim exE conjE) auto

text \<open>C33: a deployment plan is always marked as a plan only; it claims that execution is supported exactly for
  engine targets, which then run a Hermes service with the openrouter provider and a tenant handle as secret; it
  carries the validated manifest, and its identity names exactly one client and one agent.\<close>
theorem deployment_plan_honest:
  assumes "planDeployment rp input = Inr plan"
  shows "\<exists>m. validateDeploymentManifest rp input = Inr m \<and> fld (JObj plan) ''manifest'' = m \<and> fld (JObj plan) ''planOnly'' = JBool True \<and>
    splitOn (CHR ''/'') (strOf (fld (JObj plan) ''identity'')) = [strOf (fld m ''clientId''), strOf (fld m ''agentId'')] \<and>
    (if onEngine (fld m ''target'')
     then fld (JObj plan) ''executionSupported'' = JBool True \<and> fld m ''lifecycle'' = JStr ''service'' \<and> fld m ''runtime'' = JStr ''hermes'' \<and>
       fld (fld m ''model'') ''provider'' = JStr ''openrouter'' \<and> reEngineHandle (strOf (fld (fld m ''secretRefs'') ''model''))
     else fld (JObj plan) ''executionSupported'' = JBool False)"
proof -
  obtain m where m: "validateDeploymentManifest rp input = Inr m"
    and plan: "plan = (if onEngine (fld m ''target'') then planObject m True engineLimitations else planObject m False (planLimitations m))"
    using assms by (auto simp: planDeployment_def bindR_Inr onEngine_def split: if_splits)
  note type = manifest_type [OF m]
  have fields: "fld (JObj (planObject m b ls)) ''manifest'' = m" "fld (JObj (planObject m b ls)) ''planOnly'' = JBool True"
    "fld (JObj (planObject m b ls)) ''executionSupported'' = JBool b" "strOf (fld (JObj (planObject m b ls)) ''identity'') = identityOf m" for b ls
    by (simp_all add: planObject_def)
  show ?thesis
  proof (intro exI conjI)
    show "validateDeploymentManifest rp input = Inr m" by (rule m)
    show "if onEngine (fld m ''target'')
     then fld (JObj plan) ''executionSupported'' = JBool True \<and> fld m ''lifecycle'' = JStr ''service'' \<and> fld m ''runtime'' = JStr ''hermes'' \<and>
       fld (fld m ''model'') ''provider'' = JStr ''openrouter'' \<and> reEngineHandle (strOf (fld (fld m ''secretRefs'') ''model''))
     else fld (JObj plan) ''executionSupported'' = JBool False"
      using manifest_engine [OF type] fields(3) unfolding plan by simp
  qed (simp_all only: plan fields manifest_identity [OF type] if_distrib [of "\<lambda>p. fld (JObj p) _"] if_distrib [of strOf] if_cancel)
qed

section \<open>Reading\<close>

lemma readLoop_take:
  "length buffer \<le> maxManifestBytes + 1 \<Longrightarrow>
   readLoop buffer cs = take (maxManifestBytes + 1) (buffer @ concat (takeWhile (\<lambda>c. c \<noteq> []) cs))"
proof (induction cs arbitrary: buffer)
  case (Cons c cs)
  let ?cap = "maxManifestBytes + 1"
  consider "length buffer = ?cap" | "length buffer < ?cap" "c = []" | "length buffer < ?cap" "c \<noteq> []"
    using Cons.prems by linarith
  then show ?case
  proof cases
    case 3
    let ?r = "take (?cap - length buffer) c"
    have r: "?r \<noteq> []" "length (buffer @ ?r) \<le> ?cap" using 3 by auto
    have "take ?cap (buffer @ ?r @ rest) = take ?cap (buffer @ c @ rest)" for rest
      using 3(1) by (cases "length c \<le> ?cap - length buffer") simp_all
    then show ?thesis using 3 r Cons.IH [OF r(2)] by (simp add: Let_def)
  qed simp_all
qed simp

text \<open>C34: a loaded plan was made from the whole content of a regular file of at most 65536 bytes, read within the deadline;
  the content is well-formed UTF-8 and JSON, and the digest in the plan is that of exactly these bytes.\<close>
theorem manifest_read_bounded:
  assumes "loadDeploymentPlan rp openAt path = Inr v"
  shows "\<exists>f bytes decoded input plan. openAt (strOf path) = Some f \<and> of_isFile f \<and> \<not> of_deadline f \<and>
    bytes = concat (takeWhile (\<lambda>c. c \<noteq> []) (of_reads f)) \<and> length bytes \<le> 65536 \<and>
    utf8Decode bytes = Some decoded \<and> jsonParse decoded = Some input \<and> planDeployment rp input = Inr plan \<and>
    v = JObj (plan @ [(''sourceDigest'', JStr (''sha256:'' @ sha256 bytes))])"
proof -
  obtain bytes where read: "readBoundedManifest openAt path = Inr bytes"
    and rest: "(case Option.bind (utf8Decode bytes) jsonParse of
       None \<Rightarrow> Inl ''manifest must contain valid UTF-8 JSON''
     | Some input \<Rightarrow> bindR (planDeployment rp input) (\<lambda>plan. Inr (JObj (plan @ [(''sourceDigest'', JStr (''sha256:'' @ sha256 bytes))])))) = Inr v"
    using assms unfolding loadDeploymentPlan_def bindR_Inr by blast
  obtain f where f: "openAt (strOf path) = Some f" "readManifestBytes f = Inr bytes" "\<not> of_deadline f"
    using read by (auto simp: readBoundedManifest_def Let_def bindR_unit split: option.splits sum.splits if_splits)
  have bytes: "of_isFile f" "bytes = readLoop [] (of_reads f)" "length bytes \<le> maxManifestBytes"
    using f(2) by (auto simp: readManifestBytes_def Let_def bindR_unit require_Inr)
  let ?all = "concat (takeWhile (\<lambda>c. c \<noteq> []) (of_reads f))"
  have "bytes = take (maxManifestBytes + 1) ?all" using bytes(2) readLoop_take [of "[]" "of_reads f"] by simp
  then have whole: "bytes = ?all" using bytes(3) by (cases "length ?all \<le> maxManifestBytes + 1") simp_all
  obtain decoded input where d: "utf8Decode bytes = Some decoded" "jsonParse decoded = Some input"
    and "bindR (planDeployment rp input) (\<lambda>plan. Inr (JObj (plan @ [(''sourceDigest'', JStr (''sha256:'' @ sha256 bytes))]))) = Inr v"
    using rest by (cases "utf8Decode bytes"; cases "jsonParse (the (utf8Decode bytes))") auto
  then obtain plan where "planDeployment rp input = Inr plan" "v = JObj (plan @ [(''sourceDigest'', JStr (''sha256:'' @ sha256 bytes))])"
    unfolding bindR_Inr by blast
  moreover have "length bytes \<le> 65536" using bytes(3) by (simp add: maxManifestBytes_def)
  ultimately show ?thesis using f bytes(1) whole d by blast
qed

section \<open>Witnesses\<close>

definition demoManifest :: jsval where
  "demoManifest = JObj
     [(''schemaVersion'', num 1), (''clientId'', JStr ''acme''), (''agentId'', JStr ''ops''), (''lifecycle'', JStr ''service''), (''runtime'', JStr ''hermes''),
      (''target'', JObj [(''kind'', JStr ''engine''), (''name'', JStr ''pve'')]), (''workload'', JObj [(''config'', JStr ''hermes'')]),
      (''model'', JObj [(''provider'', JStr ''openrouter''), (''fallback'', JStr ''disabled'')]),
      (''secretRefs'', JObj [(''model'', JStr ''acme/key'')]),
      (''limits'', JObj [(''memoryMiB'', num 512), (''cpus'', num 2), (''maxConcurrentRuns'', num 1), (''runTimeoutSeconds'', num 60)])]"

definition demoBytes :: string where
  "demoBytes = stringify demoManifest"

definition demoFile :: openFile where
  "demoFile = \<lparr>of_isFile = True, of_size = 400, of_reads = [take 100 demoBytes, drop 100 demoBytes], of_deadline = False, of_closed = True\<rparr>"

lemma demo_manifest:
  "validateDeploymentManifest (\<lambda>_. None) demoManifest = Inr demoManifest"
  "jsonable demoManifest" "length demoBytes \<le> 65536" "100 < length demoBytes" "utf8Decode demoBytes = Some demoBytes"
  "onEngine (fld demoManifest ''target'') \<longleftrightarrow> True"
     apply (code_simp, code_simp, code_simp, code_simp)
   apply code_simp
  apply (unfold onEngine_def, code_simp)
  done

lemma demo_plan: "planDeployment (\<lambda>_. None) demoManifest = Inr (planObject demoManifest True engineLimitations)"
  using demo_manifest(1,6) by (simp add: planDeployment_def onEngine_def)


theorem deployment_plan_honest_witness:
  "\<exists>plan. planDeployment (\<lambda>_. None) demoManifest = Inr plan \<and> fld (JObj plan) ''planOnly'' = JBool True \<and>
     splitOn (CHR ''/'') (strOf (fld (JObj plan) ''identity'')) = [''acme'', ''ops'']"
proof -
  have ids: "strOf (fld demoManifest ''clientId'') = ''acme''" "strOf (fld demoManifest ''agentId'') = ''ops''" by (simp_all add: demoManifest_def)
  obtain m where m: "validateDeploymentManifest (\<lambda>_. None) demoManifest = Inr m"
    "fld (JObj (planObject demoManifest True engineLimitations)) ''planOnly'' = JBool True"
    "splitOn (CHR ''/'') (strOf (fld (JObj (planObject demoManifest True engineLimitations)) ''identity'')) =
       [strOf (fld m ''clientId''), strOf (fld m ''agentId'')]"
    using deployment_plan_honest [OF demo_plan] by blast
  then have "m = demoManifest" using demo_manifest(1) by simp
  with m ids show ?thesis using demo_plan by (intro exI conjI) (assumption, simp_all only:)
qed

theorem manifest_read_bounded_witness:
  "\<exists>v. loadDeploymentPlan (\<lambda>_. None) (\<lambda>_. Some demoFile) (JStr ''m.json'') = Inr v \<and>
     (\<exists>bytes. bytes = concat (takeWhile (\<lambda>c. c \<noteq> []) (of_reads demoFile)) \<and> length bytes \<le> 65536)"
proof -
  have whole: "concat (takeWhile (\<lambda>c. c \<noteq> []) (of_reads demoFile)) = demoBytes"
    using demo_manifest(4) by (auto simp: demoFile_def)
  then have "readLoop [] (of_reads demoFile) = demoBytes"
    using readLoop_take [of "[]" "of_reads demoFile"] demo_manifest(3) by (simp add: maxManifestBytes_def)
  then have "readManifestBytes demoFile = Inr demoBytes"
    using demo_manifest(3) by (simp add: readManifestBytes_def require_def maxManifestBytes_def) (simp add: demoFile_def)
  moreover have "1 \<le> u16len ''m.json'' \<and> u16len ''m.json'' \<le> 4096 \<and> \<not> list_ex controlChar ''m.json''" by code_simp
  ultimately have "readBoundedManifest (\<lambda>_. Some demoFile) (JStr ''m.json'') = Inr demoBytes"
    by (simp add: readBoundedManifest_def require_def Let_def) (simp add: demoFile_def)
  moreover have "jsonParse demoBytes = Some demoManifest"
    using jsonParse_stringify(1) [OF demo_manifest(2), of "[]"] by (simp add: demoBytes_def)
  ultimately have "loadDeploymentPlan (\<lambda>_. None) (\<lambda>_. Some demoFile) (JStr ''m.json'') =
      Inr (JObj (planObject demoManifest True engineLimitations @ [(''sourceDigest'', JStr (''sha256:'' @ sha256 demoBytes))]))"
    using demo_manifest(5) demo_plan by (simp add: loadDeploymentPlan_def)
  from this manifest_read_bounded [OF this] show ?thesis by auto
qed

end
