(* ===== verification/GitHub_Publisher.thy ===== *)
theory GitHub_Publisher
  imports Pod_Store
begin

text \<open>
  The draft pull request publisher, \<^verbatim>\<open>src/src/github-publisher.mjs\<close>.

  The network, the clock and the deadline timer are ports over the world; \<^verbatim>\<open>new URL\<close> and \<^verbatim>\<open>toLowerCase\<close> are functions
  of the platform and parameters too.  A response carries what the code reads of it: its status, its headers, whether it was
  redirected, and its body as the chunks that the reader hands out and how the body ends.  \<open>gh_expired\<close> tells whether the
  deadline timer of a request fired before the request settled; a body that never ends is one where it fired.  Every request
  is logged with its outcome.
\<close>

section \<open>Ports and state\<close>

datatype bodyEnd = BodyDone | BodyThrows | BodyInvalid

record httpResponse =
  hr_status :: jsval
  hr_headers :: "(string \<Rightarrow> string option) option"
  hr_redirected :: jsval
  hr_body :: "(string list \<times> bodyEnd) option"

record urlParts =
  up_protocol :: string
  up_hostname :: string
  up_port :: string
  up_username :: string
  up_password :: string
  up_search :: string
  up_hash :: string
  up_pathname :: string
  up_origin :: string

record fetchInput =
  fi_url :: string
  fi_method :: string
  fi_headers :: "(string \<times> string) list"
  fi_body :: "string option"
  fi_redirect :: string

datatype pubCall =
    PFetch fetchInput "jsval res"
  | PGit "string list" "jsval res"
  | PStore storeOp "jsval res"

record 'w ghPorts =
  gh_now :: "'w \<Rightarrow> int \<times> 'w"
  gh_fetch :: "fetchInput \<Rightarrow> 'w \<Rightarrow> httpResponse option \<times> 'w"
  gh_expired :: "int \<Rightarrow> 'w \<Rightarrow> bool \<times> 'w"
  gh_url :: "string \<Rightarrow> urlParts option"
  gh_lower :: "string \<Rightarrow> string"

record 'w pubState =
  pb_store :: "'w podStore"
  pb_calls :: "pubCall list"

type_synonym ('w, 'a) pub = "('w pubState, 'a) io"

definition usePub :: "('w \<Rightarrow> 'a \<times> 'w) \<Rightarrow> ('w, 'a) pub" where
  "usePub f s =
     (case f (sys_world (pb_store s)) of (x, w) \<Rightarrow> (Inr x, s\<lparr>pb_store := (pb_store s)\<lparr>sys_world := w\<rparr>\<rparr>))"

definition logPub :: "pubCall \<Rightarrow> ('w, unit) pub" where
  "logPub c = modS (\<lambda>s. s\<lparr>pb_calls := pb_calls s @ [c]\<rparr>)"

section \<open>Validation\<close>

definition maxResponseBytes :: nat where "maxResponseBytes = 256 * 1024"
definition maxTokenBytes :: nat where "maxTokenBytes = 4096"
definition maxTitleBytes :: nat where "maxTitleBytes = 256"
definition maxBodyBytes :: nat where "maxBodyBytes = 65536"
definition maxBranchBytes :: nat where "maxBranchBytes = 255"
definition reconciliationWindowMs :: int where "reconciliationWindowMs = 2000"

definition githubApiOrigin :: string where "githubApiOrigin = ''https://api.github.com''"
definition githubWebOrigin :: string where "githubWebOrigin = ''https://github.com''"
definition githubApiVersion :: string where "githubApiVersion = ''2022-11-28''"

definition deadlineExceeded :: err where "deadlineExceeded = ''GitHub publisher deadline exceeded''"
definition requestFailed :: err where "requestFailed = ''GitHub request failed''"
definition redirectRejected :: err where "redirectRejected = ''GitHub redirect response rejected''"
definition responseTooLarge :: err where "responseTooLarge = ''GitHub response too large''"
definition unexpectedResponse :: err where "unexpectedResponse = ''unexpected GitHub response''"
definition existingPullConflict :: err where "existingPullConflict = ''existing pull request conflicts with publication contract''"

definition unexpectedStatus :: "int \<Rightarrow> err" where
  "unexpectedStatus status = ''GitHub request returned unexpected status '' @ decInt status"

definition reOwner :: "string \<Rightarrow> bool" where
  "reOwner s = (s \<noteq> [] \<and> length s \<le> 39 \<and> isAlnum (hd s) \<and> isAlnum (last s) \<and> list_all (\<lambda>c. isAlnum c \<or> c = CHR ''-'') s)"

definition reRepo :: "string \<Rightarrow> bool" where
  "reRepo s = (1 \<le> length s \<and> length s \<le> 100 \<and> list_all portableChar s)"

definition reSha1 :: "string \<Rightarrow> bool" where
  "reSha1 s = (length s = 40 \<and> list_all isHexLower s)"

definition plainUrl :: "urlParts \<Rightarrow> bool" where
  "plainUrl u = (up_username u = [] \<and> up_password u = [] \<and> up_search u = [] \<and> up_hash u = [])"

definition withoutGit :: "string \<Rightarrow> string" where
  "withoutGit repo = (if suffix ''.git'' repo then take (length repo - 4) repo else repo)"

definition parseGitHubRepository :: "('w, 'z) ghPorts_scheme \<Rightarrow> jsval \<Rightarrow> (string \<times> string) res" where
  "parseGitHubRepository p repository =
     (let invalid = Inl ''invalid GitHub repository''; s = strOf repository in
      if \<not> (isString repository \<and> s \<noteq> [] \<and> u16len s \<le> 512 \<and> s = trim s) then invalid
      else case gh_url p s of
        None \<Rightarrow> invalid
      | Some url \<Rightarrow>
          if \<not> (up_protocol url = ''https:'' \<and> up_hostname url = ''github.com'' \<and> up_port url = [] \<and> plainUrl url \<and>
                 CHR ''%'' \<notin> set (up_pathname url)) then invalid
          else (case splitOn (CHR ''/'') (up_pathname url) of
              [root, owner, name] \<Rightarrow>
                (let repo = withoutGit name in
                 if root = [] \<and> owner \<noteq> [] \<and> name \<noteq> [] \<and> reOwner owner \<and> reRepo repo \<and> repo \<noteq> ''.'' \<and> repo \<noteq> ''..''
                 then Inr (owner, repo) else invalid)
            | _ \<Rightarrow> invalid))"

definition branchChar :: "char \<Rightarrow> bool" where
  "branchChar c = (portableChar c \<or> c = CHR ''/'')"

definition branchName :: "string \<Rightarrow> bool" where
  "branchName s =
     (s \<noteq> [] \<and> isAlnum (hd s) \<and> list_all branchChar s \<and> s \<noteq> ''HEAD'' \<and> \<not> prefix ''refs/'' s \<and> \<not> sublist ''..'' s \<and>
      \<not> sublist ''//'' s \<and> \<not> sublist [CHR ''@'', CHR 0x7B] s \<and> \<not> suffix ''/'' s \<and> \<not> suffix ''.'' s \<and>
      list_all (\<lambda>c. c \<noteq> [] \<and> \<not> prefix ''.'' c \<and> \<not> suffix ''.lock'' c) (splitOn (CHR ''/'') s))"

definition validateBranch :: "jsval \<Rightarrow> string \<Rightarrow> string res" where
  "validateBranch v label =
     bindR (require (isString v \<and> byteLength (strOf v) \<le> maxBranchBytes \<and> branchName (strOf v)) (''invalid '' @ label))
       (\<lambda>_. Inr (strOf v))"

definition tokenText :: "string \<Rightarrow> bool" where
  "tokenText s = (s \<noteq> [] \<and> list_all (inRange 33 126) s)"

definition validateToken :: "jsval \<Rightarrow> string res" where
  "validateToken v =
     bindR (require (isString v \<and> byteLength (strOf v) \<le> maxTokenBytes \<and> tokenText (strOf v)) ''invalid token'') (\<lambda>_. Inr (strOf v))"

definition validateSha :: "jsval \<Rightarrow> string \<Rightarrow> string res" where
  "validateSha v label = bindR (require (isString v \<and> reSha1 (strOf v)) (''invalid '' @ label)) (\<lambda>_. Inr (strOf v))"

definition validateTitle :: "jsval \<Rightarrow> string \<Rightarrow> string res" where
  "validateTitle v token =
     bindR (require (isString v \<and> trim (strOf v) \<noteq> [] \<and> byteLength (strOf v) \<le> maxTitleBytes \<and>
        list_all (\<lambda>c. \<not> (inRange 0 31 c \<or> (of_char c :: nat) = 127)) (strOf v) \<and> \<not> sublist token (strOf v)) ''invalid title'')
       (\<lambda>_. Inr (strOf v))"

definition validateBody :: "jsval \<Rightarrow> string \<Rightarrow> string res" where
  "validateBody v token =
     bindR (require (isString v \<and> byteLength (strOf v) \<le> maxBodyBytes \<and> list_all (\<lambda>c. \<not> unsafeControl c) (strOf v) \<and>
        \<not> sublist token (strOf v)) ''invalid body'')
       (\<lambda>_. Inr (strOf v))"

definition validateDeadline :: "('w, 'z) ghPorts_scheme \<Rightarrow> jsval \<Rightarrow> ('w, int) pub" where
  "validateDeadline p deadlineAt =
     bindE (usePub (gh_now p)) (\<lambda>now.
     thenE (liftR (require (isSafeInteger deadlineAt \<and> now < intOf deadlineAt) ''deadlineAt must be a future safe integer''))
       (ret (intOf deadlineAt)))"

section \<open>One request\<close>

definition tryPub :: "('w, 'a) pub \<Rightarrow> ('w, 'a res) pub" where
  "tryPub m = catchE (bindE m (\<lambda>x. ret (Inr x))) (\<lambda>e. ret (Inl e))"

definition withinDeadline :: "('w, 'z) ghPorts_scheme \<Rightarrow> int \<Rightarrow> ('w, 'a) pub \<Rightarrow> ('w, 'a) pub" where
  "withinDeadline p deadlineAt operation =
     bindE (usePub (gh_now p)) (\<lambda>now.
     thenE (liftR (require (now < deadlineAt) deadlineExceeded))
     (bindE (tryPub operation) (\<lambda>result.
      bindE (usePub (gh_expired p deadlineAt)) (\<lambda>expired.
      bindE (usePub (gh_now p)) (\<lambda>settled.
      liftR (if expired \<or> deadlineAt \<le> settled then Inl deadlineExceeded else result))))))"

definition requireResponseShape :: "httpResponse \<Rightarrow> unit res" where
  "requireResponseShape r =
     require (isInteger (hr_status r) \<and> 100 \<le> intOf (hr_status r) \<and> intOf (hr_status r) \<le> 599 \<and> hr_headers r \<noteq> None \<and>
       (hr_redirected r = JUndef \<or> isBoolean (hr_redirected r))) unexpectedResponse"

fun digitsValue :: "string \<Rightarrow> nat" where
  "digitsValue s = foldl (\<lambda>n c. 10 * n + (of_char c - 48)) 0 s"

definition digitText :: "string \<Rightarrow> bool" where
  "digitText s = (s \<noteq> [] \<and> list_all isDigit s)"

definition declaredResponseLength :: "(string \<Rightarrow> string option) \<Rightarrow> nat option res" where
  "declaredResponseLength headers =
     (case headers ''content-length'' of
        None \<Rightarrow> Inr None
      | Some s \<Rightarrow>
          bindR (require (digitText s \<and> int (digitsValue s) \<le> maxSafeInteger) unexpectedResponse) (\<lambda>_. Inr (Some (digitsValue s))))"

fun readChunks :: "nat \<Rightarrow> string list \<Rightarrow> bodyEnd \<Rightarrow> string \<Rightarrow> string res" where
  "readChunks seen [] BodyDone acc = Inr acc"
| "readChunks seen [] BodyThrows acc = Inl requestFailed"
| "readChunks seen [] BodyInvalid acc = Inl unexpectedResponse"
| "readChunks seen (chunk # chunks) e acc =
     (let seen' = seen + length chunk in
      if maxResponseBytes < seen' then Inl responseTooLarge else readChunks seen' chunks e (acc @ chunk))"

definition readBoundedResponse :: "(string \<Rightarrow> string option) \<Rightarrow> string list \<times> bodyEnd \<Rightarrow> string res" where
  "readBoundedResponse headers body =
     bindR (declaredResponseLength headers) (\<lambda>declared.
     bindR (require (case declared of None \<Rightarrow> True | Some n \<Rightarrow> n \<le> maxResponseBytes) responseTooLarge) (\<lambda>_.
     readChunks 0 (fst body) (snd body) []))"

definition decodeJson :: "string \<Rightarrow> jsval res" where
  "decodeJson bytes =
     (case Option.bind (utf8Decode bytes) jsonParse of None \<Rightarrow> Inl unexpectedResponse | Some v \<Rightarrow> Inr v)"

definition hasJsonContentType :: "('w, 'z) ghPorts_scheme \<Rightarrow> (string \<Rightarrow> string option) \<Rightarrow> bool" where
  "hasJsonContentType p headers =
     (case headers ''content-type'' of
        None \<Rightarrow> False
      | Some value \<Rightarrow> gh_lower p (trim (hd (splitOn (CHR '';'') value))) \<in> {''application/json'', ''application/vnd.github+json''})"

definition readResponse :: "('w, 'z) ghPorts_scheme \<Rightarrow> int \<Rightarrow> httpResponse \<Rightarrow> jsval res" where
  "readResponse p expectedStatus r =
     (let status = intOf (hr_status r); headers = the (hr_headers r) in
      bindR (requireResponseShape r) (\<lambda>_.
      bindR (require (\<not> (hr_redirected r = JBool True \<or> 300 \<le> status \<and> status < 400)) redirectRejected) (\<lambda>_.
      case hr_body r of
        None \<Rightarrow> Inl unexpectedResponse
      | Some body \<Rightarrow>
          bindR (readBoundedResponse headers body) (\<lambda>bytes.
          bindR (require (status = expectedStatus) (unexpectedStatus status)) (\<lambda>_.
          bindR (require (hasJsonContentType p headers) unexpectedResponse) (\<lambda>_.
          decodeJson bytes))))))"

definition requestHeaders :: "string \<Rightarrow> bool \<Rightarrow> (string \<times> string) list" where
  "requestHeaders token hasBody =
     [(''accept'', ''application/vnd.github+json''), (''authorization'', ''Bearer '' @ token), (''user-agent'', ''bimo''),
      (''x-github-api-version'', githubApiVersion)] @ (if hasBody then [(''content-type'', ''application/json'')] else [])"

definition requestInput :: "string \<Rightarrow> string \<Rightarrow> string \<Rightarrow> jsval option \<Rightarrow> fetchInput" where
  "requestInput token path method body =
     \<lparr>fi_url = githubApiOrigin @ path, fi_method = method, fi_headers = requestHeaders token (body \<noteq> None),
      fi_body = map_option stringify body, fi_redirect = ''error''\<rparr>"

definition requestJson ::
  "('w, 'z) ghPorts_scheme \<Rightarrow> string \<Rightarrow> string \<Rightarrow> int \<Rightarrow> string \<Rightarrow> jsval option \<Rightarrow> int \<Rightarrow> ('w, jsval) pub" where
  "requestJson p token path deadlineAt method body expectedStatus =
     withinDeadline p deadlineAt
       (let input = requestInput token path method body in
        bindE (usePub (gh_fetch p input)) (\<lambda>response.
        let outcome = (case response of None \<Rightarrow> Inl requestFailed | Some r \<Rightarrow> readResponse p expectedStatus r) in
        thenE (logPub (PFetch input outcome)) (liftR outcome)))"

section \<open>Pull requests\<close>

record ghContext =
  gc_owner :: string
  gc_repo :: string
  gc_headBranch :: string
  gc_headSha :: string
  gc_targetBranch :: string
  gc_baseSha :: string

definition upperHex :: "nat \<Rightarrow> char" where
  "upperHex n = ''0123456789ABCDEF'' ! (n mod 16)"

definition percentByte :: "char \<Rightarrow> string" where
  "percentByte c = (let n = of_char c in [CHR ''%'', upperHex (n div 16), upperHex n])"

definition encodeURIComponent :: "string \<Rightarrow> string" where
  "encodeURIComponent s =
     concat (map (\<lambda>c. if isAlnum c \<or> c \<in> set ''-_.!~*()'' \<or> c = CHR 0x27 then [c] else percentByte c) s)"

text \<open>\<^verbatim>\<open>URLSearchParams\<close> prints a value in the form encoding.\<close>

definition formEncode :: "string \<Rightarrow> string" where
  "formEncode s =
     concat (map (\<lambda>c. if isAlnum c \<or> c \<in> set ''*-._'' then [c] else if c = CHR '' '' then ''+'' else percentByte c) s)"

definition repositoryPath :: "string \<Rightarrow> string \<Rightarrow> string" where
  "repositoryPath owner repo = ''/repos/'' @ encodeURIComponent owner @ ''/'' @ encodeURIComponent repo"

definition repositoryMatches :: "('w, 'z) ghPorts_scheme \<Rightarrow> jsval \<Rightarrow> ghContext \<Rightarrow> bool" where
  "repositoryMatches p fullName c =
     (isString fullName \<and> gh_lower p (strOf fullName) = gh_lower p (gc_owner c @ ''/'' @ gc_repo c))"

definition pullPath :: "string \<Rightarrow> string \<Rightarrow> int \<Rightarrow> string" where
  "pullPath owner repo number = ''/'' @ owner @ ''/'' @ repo @ ''/pull/'' @ decInt number"

definition validatePullUrl :: "('w, 'z) ghPorts_scheme \<Rightarrow> jsval \<Rightarrow> ghContext \<Rightarrow> int \<Rightarrow> bool" where
  "validatePullUrl p v c number =
     (isString v \<and> CHR ''%'' \<notin> set (strOf v) \<and>
      (case gh_url p (strOf v) of
         None \<Rightarrow> False
       | Some u \<Rightarrow> up_origin u = githubWebOrigin \<and> plainUrl u \<and>
           gh_lower p (up_pathname u) = gh_lower p (pullPath (gc_owner c) (gc_repo c) number)))"

definition pullSide :: "jsval \<Rightarrow> bool" where
  "pullSide side =
     (isPlainObject side \<and> isString (fld side ''ref'') \<and> isString (fld side ''sha'') \<and> reSha1 (strOf (fld side ''sha'')) \<and>
      isPlainObject (fld side ''repo'') \<and> isString (fld (fld side ''repo'') ''full_name''))"

definition validatePull :: "('w, 'z) ghPorts_scheme \<Rightarrow> ghContext \<Rightarrow> jsval \<Rightarrow> jsval res" where
  "validatePull p c pull =
     (let number = fld pull ''number'' in
      bindR (require
        (isPlainObject pull \<and> isSafeInteger number \<and> 0 < intOf number \<and>
         fld pull ''state'' \<in> {JStr ''open'', JStr ''closed''} \<and> isBoolean (fld pull ''draft'') \<and>
         validatePullUrl p (fld pull ''html_url'') c (intOf number) \<and>
         pullSide (fld pull ''head'') \<and> fld (fld pull ''head'') ''ref'' = JStr (gc_headBranch c) \<and> pullSide (fld pull ''base''))
        unexpectedResponse) (\<lambda>_. Inr pull))"

definition pullMatchesContract :: "('w, 'z) ghPorts_scheme \<Rightarrow> ghContext \<Rightarrow> jsval \<Rightarrow> bool" where
  "pullMatchesContract p c pull =
     (let head = fld pull ''head''; base = fld pull ''base'' in
      fld pull ''state'' = JStr ''open'' \<and> fld pull ''draft'' = JBool True \<and> fld head ''sha'' = JStr (gc_headSha c) \<and>
      repositoryMatches p (fld (fld head ''repo'') ''full_name'') c \<and> fld base ''ref'' = JStr (gc_targetBranch c) \<and>
      fld base ''sha'' = JStr (gc_baseSha c) \<and> repositoryMatches p (fld (fld base ''repo'') ''full_name'') c)"

definition normalizePull :: "jsval \<Rightarrow> ghContext \<Rightarrow> bool \<Rightarrow> bool \<Rightarrow> jsval" where
  "normalizePull pull c created reconciled =
     JObj ([(''number'', fld pull ''number''), (''url'', fld pull ''html_url''), (''headBranch'', JStr (gc_headBranch c)),
            (''headSha'', JStr (gc_headSha c)), (''targetBranch'', JStr (gc_targetBranch c)), (''baseSha'', JStr (gc_baseSha c)),
            (''draft'', JBool True), (''created'', JBool created)] @ (if reconciled then [(''reconciled'', JBool True)] else []))"

definition remoteRef :: "string \<Rightarrow> jsval \<Rightarrow> string res" where
  "remoteRef branch payload =
     (let object = fld payload ''object'' in
      bindR (require
        (isPlainObject payload \<and> fld payload ''ref'' = JStr (''refs/heads/'' @ branch) \<and> isPlainObject object \<and>
         fld object ''type'' = JStr ''commit'' \<and> isString (fld object ''sha'') \<and> reSha1 (strOf (fld object ''sha'')))
        unexpectedResponse) (\<lambda>_. Inr (strOf (fld object ''sha''))))"

definition readRemoteRef :: "('w, 'z) ghPorts_scheme \<Rightarrow> string \<Rightarrow> ghContext \<Rightarrow> string \<Rightarrow> int \<Rightarrow> ('w, string) pub" where
  "readRemoteRef p token c branch deadlineAt =
     bindE (requestJson p token (repositoryPath (gc_owner c) (gc_repo c) @ ''/git/ref/heads/'' @ encodeURIComponent branch)
       deadlineAt ''GET'' None 200) (\<lambda>payload. liftR (remoteRef branch payload))"

definition pullsPath :: "ghContext \<Rightarrow> string" where
  "pullsPath c = repositoryPath (gc_owner c) (gc_repo c) @ ''/pulls''"

definition pullsQuery :: "ghContext \<Rightarrow> string" where
  "pullsQuery c = ''?state=all&head='' @ formEncode (gc_owner c @ '':'' @ gc_headBranch c) @ ''&per_page=100''"

definition existingPull :: "('w, 'z) ghPorts_scheme \<Rightarrow> ghContext \<Rightarrow> jsval \<Rightarrow> jsval option res" where
  "existingPull p c payload =
     bindR (require (isArray payload \<and> length (elems payload) \<le> 100) unexpectedResponse) (\<lambda>_.
     bindR (mapR (\<lambda>_. validatePull p c) 0 (elems payload)) (\<lambda>pulls.
     case pulls of
       [] \<Rightarrow> Inr None
     | pull # rest \<Rightarrow> bindR (require (rest = [] \<and> pullMatchesContract p c pull) existingPullConflict) (\<lambda>_. Inr (Some pull))))"

definition findExistingPull :: "('w, 'z) ghPorts_scheme \<Rightarrow> string \<Rightarrow> ghContext \<Rightarrow> int \<Rightarrow> ('w, jsval option) pub" where
  "findExistingPull p token c deadlineAt =
     bindE (requestJson p token (pullsPath c @ pullsQuery c) deadlineAt ''GET'' None 200) (\<lambda>payload. liftR (existingPull p c payload))"

section \<open>Publishing\<close>

record ghPublisher =
  gp_owner :: string
  gp_repo :: string
  gp_targetBranch :: string
  gp_token :: string

definition createGitHubPublisher :: "('w, 'z) ghPorts_scheme \<Rightarrow> jsval \<Rightarrow> jsval \<Rightarrow> jsval \<Rightarrow> ghPublisher res" where
  "createGitHubPublisher p repository targetBranch token =
     bindR (parseGitHubRepository p repository) (\<lambda>(owner, repo).
     bindR (validateBranch targetBranch ''targetBranch'') (\<lambda>target.
     bindR (validateToken token) (\<lambda>credential.
     Inr \<lparr>gp_owner = owner, gp_repo = repo, gp_targetBranch = target, gp_token = credential\<rparr>)))"

definition pullRequestBody :: "ghContext \<Rightarrow> string \<Rightarrow> string \<Rightarrow> jsval" where
  "pullRequestBody c title body =
     JObj [(''title'', JStr title), (''body'', JStr body), (''head'', JStr (gc_headBranch c)), (''base'', JStr (gc_targetBranch c)),
           (''draft'', JBool True)]"

definition createPull :: "('w, 'z) ghPorts_scheme \<Rightarrow> string \<Rightarrow> ghContext \<Rightarrow> string \<Rightarrow> string \<Rightarrow> int \<Rightarrow> ('w, jsval) pub" where
  "createPull p token c title body deadlineAt =
     bindE (requestJson p token (pullsPath c) deadlineAt ''POST'' (Some (pullRequestBody c title body)) 201) (\<lambda>payload.
     bindE (liftR (validatePull p c payload)) (\<lambda>created.
     thenE (liftR (require (pullMatchesContract p c created) unexpectedResponse))
       (ret (normalizePull created c True False))))"

definition reconcilePull :: "('w, 'z) ghPorts_scheme \<Rightarrow> string \<Rightarrow> ghContext \<Rightarrow> ('w, jsval option) pub" where
  "reconcilePull p token c =
     bindE (usePub (gh_now p)) (\<lambda>now.
     let deadlineAt = now + reconciliationWindowMs in
     catchE
       (bindE (readRemoteRef p token c (gc_targetBranch c) deadlineAt) (\<lambda>base.
        thenE (liftR (require (base = gc_baseSha c) ''remote base changed during reconciliation''))
        (bindE (findExistingPull p token c deadlineAt) (\<lambda>found.
         ret (map_option (\<lambda>pull. normalizePull pull c True True) found)))))
       (\<lambda>_. ret None))"

definition publishInContext ::
  "('w, 'z) ghPorts_scheme \<Rightarrow> string \<Rightarrow> ghContext \<Rightarrow> string \<Rightarrow> string \<Rightarrow> int \<Rightarrow> ('w, jsval) pub" where
  "publishInContext p token c title body deadlineAt =
     bindE (readRemoteRef p token c (gc_targetBranch c) deadlineAt) (\<lambda>remoteBase.
     thenE (liftR (require (remoteBase = gc_baseSha c) ''remote base does not match baseSha''))
     (bindE (readRemoteRef p token c (gc_headBranch c) deadlineAt) (\<lambda>remoteHead.
      thenE (liftR (require (remoteHead = gc_headSha c) ''remote head does not match headSha''))
      (bindE (findExistingPull p token c deadlineAt) (\<lambda>existing.
       case existing of
         Some pull \<Rightarrow> ret (normalizePull pull c False False)
       | None \<Rightarrow>
           bindE (tryPub (createPull p token c title body deadlineAt)) (\<lambda>created.
           case created of
             Inr receipt \<Rightarrow> ret receipt
           | Inl _ \<Rightarrow>
               bindE (reconcilePull p token c) (\<lambda>reconciled.
               case reconciled of
                 Some receipt \<Rightarrow> ret receipt
               | None \<Rightarrow> throwE ''GitHub pull request creation failed'')))))))"

definition publish :: "('w, 'z) ghPorts_scheme \<Rightarrow> ghPublisher \<Rightarrow> jsval \<Rightarrow> ('w, jsval) pub" where
  "publish p g input =
     thenE (liftR (require (isPlainObject input) ''publish input must be an object''))
     (bindE (liftR (validateBranch (fld input ''headBranch'') ''headBranch'')) (\<lambda>headBranch.
      thenE (liftR (require (headBranch \<noteq> gp_targetBranch g) ''headBranch must differ from targetBranch''))
      (bindE (liftR (validateSha (fld input ''headSha'') ''headSha'')) (\<lambda>headSha.
       bindE (liftR (validateSha (fld input ''baseSha'') ''baseSha'')) (\<lambda>baseSha.
       thenE (liftR (require (fld input ''draft'' = JBool True) ''draft must be true''))
       (bindE (liftR (validateTitle (fld input ''title'') (gp_token g))) (\<lambda>title.
        bindE (liftR (validateBody (fld input ''body'') (gp_token g))) (\<lambda>body.
        bindE (validateDeadline p (fld input ''deadlineAt'')) (\<lambda>deadlineAt.
        publishInContext p (gp_token g)
          \<lparr>gc_owner = gp_owner g, gc_repo = gp_repo g, gc_headBranch = headBranch, gc_headSha = headSha,
           gc_targetBranch = gp_targetBranch g, gc_baseSha = baseSha\<rparr> title body deadlineAt)))))))))"

end
