(* ===== verification/Publish_Run.thy ===== *)
theory Publish_Run
  imports GitHub_Publisher "HOL-Library.Char_ord" "HOL-Library.List_Lexorder"
begin

text \<open>
  The isolated publication of a ready pod run, \<^verbatim>\<open>src/src/publish-run.mjs\<close>: it reopens the run's store, pushes the exact
  candidate with a short-lived credential, has the draft pull request published and finishes the run.

  Git is a port that gets the argument list and answers with what the runner returned; \<open>pb_gitExpired\<close> tells whether the
  deadline timer fired before it settled, \<open>pb_cleanupLate\<close> whether the timer of the source clean-up fired first.
  \<open>pb_mkdtemp\<close> gives the random name of a temporary directory.
\<close>

section \<open>Ports\<close>

type_synonym gitEnv = "(string \<times> string) list"

record 'w pubPorts = "'w ghPorts" +
  pb_storePorts :: "'w storePorts"
  pb_git :: "string list \<Rightarrow> gitEnv \<Rightarrow> int \<Rightarrow> 'w \<Rightarrow> jsval res \<times> 'w"
  pb_gitExpired :: "int \<Rightarrow> 'w \<Rightarrow> bool \<times> 'w"
  pb_mkdtemp :: "string \<Rightarrow> 'w \<Rightarrow> string \<times> 'w"
  pb_cleanupLate :: "'w \<Rightarrow> bool \<times> 'w"
  pb_path :: string
  pb_tmpdir :: string
  pb_askpassProgram :: string
  pb_askpassRoot :: string

definition inStore :: "('w, 'a) store \<Rightarrow> ('w, 'a) pub" where
  "inStore m s = (case m (pb_store s) of (r, t) \<Rightarrow> (r, s\<lparr>pb_store := t\<rparr>))"

definition pubFault :: "'w pubPorts \<Rightarrow> 'w fault" where
  "pubFault p = sp_fault (pb_storePorts p)"

definition statPub :: "'w pubPorts \<Rightarrow> string \<Rightarrow> ('w, node option) pub" where
  "statPub p path = inStore (lstatOrNull (pubFault p) path)"

definition storePub :: "'w pubPorts \<Rightarrow> storeArgs \<Rightarrow> storeOp \<Rightarrow> ('w, jsval) pub" where
  "storePub p a op =
     bindE (tryPub (inStore (performOp (pb_storePorts p) a op))) (\<lambda>r. thenE (logPub (PStore op r)) (liftR r))"

section \<open>The input\<close>

definition inputFields :: "string list" where
  "inputFields = [''baseSha'', ''candidateSha'', ''deadlineAt'', ''headBranch'', ''repository'', ''runId'', ''sourceGitDir'', ''stateRoot'',
     ''targetBranch'', ''token'']"

definition safePath :: "jsval \<Rightarrow> string \<Rightarrow> unit res" where
  "safePath v label =
     require (isString v \<and> strOf v \<noteq> [] \<and> u16len (strOf v) \<le> 4096 \<and> CHR 0x00 \<notin> set (strOf v) \<and> resolvedPath (strOf v))
       (label @ '' must be an absolute canonical path'')"

definition safeBranch :: "jsval \<Rightarrow> string \<Rightarrow> unit res" where
  "safeBranch v label = require (isString v \<and> length (strOf v) \<le> 255 \<and> branchName (strOf v)) (''invalid '' @ label)"

text \<open>\<^verbatim>\<open>path.relative\<close> of two canonical absolute paths does not climb exactly when the second lies under the first.\<close>

definition containsPath :: "string \<Rightarrow> string \<Rightarrow> bool" where
  "containsPath parent candidate = (parent = ''/'' \<or> underPath parent candidate)"

definition strictInput :: "'w pubPorts \<Rightarrow> jsval \<Rightarrow> ('w, unit) pub" where
  "strictInput p input =
     (let get = fld input in
      thenE (liftR (checks
        [plainObject input ''publish input'',
         require (joinWith '','' (sort (map fst (props input))) = joinWith '','' inputFields)
           (''publish input must contain exactly '' @ joinWith '', '' inputFields),
         require (reRunId (toStr (get ''runId''))) ''invalid run ID'',
         safePath (get ''stateRoot'') ''stateRoot'',
         safePath (get ''sourceGitDir'') ''sourceGitDir'',
         require (\<not> containsPath (strOf (get ''stateRoot'')) (strOf (get ''sourceGitDir'')) \<and>
                  \<not> containsPath (strOf (get ''sourceGitDir'')) (strOf (get ''stateRoot''))) ''sourceGitDir must not overlap stateRoot'',
         bindR (parseGitHubRepository p (get ''repository'')) (\<lambda>_. Inr ()),
         safeBranch (get ''targetBranch'') ''targetBranch'',
         safeBranch (get ''headBranch'') ''headBranch'',
         require (get ''targetBranch'' \<noteq> get ''headBranch'') ''headBranch must differ from targetBranch'',
         require (reSha1 (toStr (get ''baseSha''))) ''invalid baseSha'',
         require (reSha1 (toStr (get ''candidateSha''))) ''invalid candidateSha'',
         require (isString (get ''token'') \<and> byteLength (strOf (get ''token'')) \<le> 4096 \<and> tokenText (strOf (get ''token''))) ''invalid token'']))
      (bindE (usePub (gh_now p)) (\<lambda>now.
       liftR (require (isSafeInteger (get ''deadlineAt'') \<and> now < intOf (get ''deadlineAt'')) ''deadlineAt must be a future safe integer''))))"

definition bindingFields :: "string list" where
  "bindingFields = [''repository'', ''targetBranch'', ''baseSha'', ''candidateSha'', ''headBranch'']"

definition readyMatches :: "jsval \<Rightarrow> jsval \<Rightarrow> bool" where
  "readyMatches ready input = list_all (\<lambda>f. fld ready f = fld input f) bindingFields"

section \<open>Git\<close>

definition fixedGitArgs :: "string \<Rightarrow> string list \<Rightarrow> string list" where
  "fixedGitArgs sourceGitDir args =
     [''-c'', ''core.hooksPath=/dev/null'', ''-c'', ''credential.helper='', ''-c'', ''credential.useHttpPath=true'',
      ''-c'', ''protocol.file.allow=never'', ''--git-dir='' @ sourceGitDir] @ args"

definition baseGitEnvironment :: "'w pubPorts \<Rightarrow> string \<Rightarrow> gitEnv" where
  "baseGitEnvironment p home =
     [(''PATH'', pb_path p), (''HOME'', home), (''XDG_CONFIG_HOME'', home), (''LANG'', ''C.UTF-8''), (''GIT_CONFIG_NOSYSTEM'', ''1''),
      (''GIT_CONFIG_SYSTEM'', ''/dev/null''), (''GIT_CONFIG_GLOBAL'', ''/dev/null''), (''GIT_TERMINAL_PROMPT'', ''0'')]"

definition maxGitOutputBytes :: nat where "maxGitOutputBytes = 64 * 1024"

definition commandResult :: "jsval \<Rightarrow> jsval res" where
  "commandResult v =
     (let code = fld v ''code''; out = fld v ''stdout''; err = fld v ''stderr'' in
      bindR (require (isPlainObject v \<and> isInteger code \<and> 0 \<le> intOf code \<and> intOf code \<le> 255 \<and> isString out \<and> isString err \<and>
        byteLength (strOf out) + byteLength (strOf err) \<le> maxGitOutputBytes) ''Git runner returned an invalid result'') (\<lambda>_. Inr v))"

definition publicationDeadline :: err where "publicationDeadline = ''publication deadline exceeded''"

definition runGit :: "'w pubPorts \<Rightarrow> string list \<Rightarrow> gitEnv \<Rightarrow> int \<Rightarrow> ('w, jsval) pub" where
  "runGit p args env deadlineAt =
     bindE (usePub (gh_now p)) (\<lambda>now.
     thenE (liftR (require (now < deadlineAt) publicationDeadline))
     (bindE (usePub (pb_git p args env deadlineAt)) (\<lambda>raw.
      let result = bindR raw commandResult in
      thenE (logPub (PGit args result))
      (bindE (usePub (pb_gitExpired p deadlineAt)) (\<lambda>expired.
       bindE (usePub (gh_now p)) (\<lambda>settled.
       liftR (if expired \<or> deadlineAt \<le> settled then Inl publicationDeadline else result)))))))"

definition codeOk :: "jsval \<Rightarrow> bool" where
  "codeOk result = (intOf (fld result ''code'') = 0)"

definition ensurePrivateDirectory :: "'w pubPorts \<Rightarrow> string \<Rightarrow> string \<Rightarrow> ('w, node option) pub" where
  "ensurePrivateDirectory p target label =
     bindE (statPub p target) (\<lambda>stat.
     thenE (liftR (require (isDirNode stat \<and> nodeMode stat = 448) (label @ '' must be a private regular directory''))) (ret stat))"

fun inodeOf :: "node option \<Rightarrow> nat" where
  "inodeOf (Some (NDir _ ino)) = ino"
| "inodeOf _ = 0"

definition quietPub :: "('w, unit) pub \<Rightarrow> ('w, unit) pub" where
  "quietPub m = catchE m (\<lambda>_. ret ())"

definition cleanupPrivateSourceGitDir :: "'w pubPorts \<Rightarrow> string \<Rightarrow> node option \<Rightarrow> ('w, unit) pub" where
  "cleanupPrivateSourceGitDir p target expected =
     bindE (usePub (pb_cleanupLate p)) (\<lambda>late.
     if late then ret ()
     else
       bindE (statPub p target) (\<lambda>current.
       if \<not> (isDirNode current \<and> nodeMode current = 448 \<and> (expected = None \<or> inodeOf current = inodeOf expected)) then ret ()
       else quietPub (inStore (removeTree (pubFault p) target))))"

section \<open>The credential\<close>

record askpass =
  ak_directory :: string
  ak_home :: string
  ak_tokenFile :: string
  ak_freshRoot :: bool

definition executable :: "node option \<Rightarrow> bool" where
  "executable stat = (isFileNode stat \<and> nodeMode stat div 64 mod 2 = 1 \<and> nodeMode stat div 16 mod 2 = 0 \<and> nodeMode stat div 2 mod 2 = 0)"

definition faultPub :: "'w pubPorts \<Rightarrow> ('w, unit) pub" where
  "faultPub p = inStore (faultPoint (pubFault p))"

definition createAskpass :: "'w pubPorts \<Rightarrow> string \<Rightarrow> ('w, askpass) pub" where
  "createAskpass p token =
     (let root = pb_askpassRoot p; create = (\<lambda>path n. inStore (createNew (pubFault p) path n)) in
      bindE (statPub p (pb_askpassProgram p)) (\<lambda>program.
      thenE (liftR (require (executable program) ''baked askpass program is invalid''))
      (bindE (statPub p root) (\<lambda>priorRoot.
       thenE (if priorRoot = None then create root (NDir 448 0) else ret ())
       (thenE (ensurePrivateDirectory p root ''askpassRoot'')
       (bindE (usePub (pb_mkdtemp p (pathJoin root ''credential-''))) (\<lambda>directory.
        let home = pathJoin directory ''home''; tokenFile = pathJoin directory ''token'' in
        thenE (create directory (NDir 448 0))
        (thenE (faultPub p)
        (thenE (create home (NDir 448 0))
        (thenE (create tokenFile (NFile 384 (token @ newline)))
        (thenE (faultPub p)
        (ret \<lparr>ak_directory = directory, ak_home = home, ak_tokenFile = tokenFile, ak_freshRoot = (priorRoot = None)\<rparr>))))))))))))"

definition askpassEnv :: "'w pubPorts \<Rightarrow> askpass \<Rightarrow> gitEnv" where
  "askpassEnv p k =
     baseGitEnvironment p (ak_home k) @
     [(''GIT_ASKPASS'', pb_askpassProgram p), (''GIT_ASKPASS_REQUIRE'', ''force''), (''BIMO_GIT_TOKEN_FILE'', ak_tokenFile k)]"

text \<open>\<^verbatim>\<open>try { a } finally { b }\<close>\<close>

definition finallyPub :: "('w, 'a) pub \<Rightarrow> ('w, unit) pub \<Rightarrow> ('w, 'a) pub" where
  "finallyPub m k = bindE (tryPub m) (\<lambda>r. thenE k (liftR r))"

text \<open>\<^verbatim>\<open>rmdir\<close> removes an empty directory only.\<close>

definition rmdirEmpty :: "'w fault \<Rightarrow> string \<Rightarrow> ('w, unit) store" where
  "rmdirEmpty fault path =
     thenE (faultPoint fault)
       (\<lambda>s. if isDirNode (nodeAt s path) \<and> Mapping.keys (Mapping.filter (\<lambda>k _. underPath path k) (sys_fs s)) = {path}
            then (Inr (), s\<lparr>sys_fs := Mapping.delete path (sys_fs s)\<rparr>) else (Inl ''ENOTEMPTY: directory not empty'', s))"

definition wipeToken :: "'w pubPorts \<Rightarrow> string \<Rightarrow> askpass \<Rightarrow> ('w, unit) pub" where
  "wipeToken p token k =
     bindE (statPub p (ak_tokenFile k)) (\<lambda>stat.
     if stat = None then ret ()
     else inStore (thenE (faultPoint (pubFault p))
       (modS (\<lambda>s. putNode (ak_tokenFile k)
          (NFile (fileMode 384 (nodeAt s (ak_tokenFile k))) (replicate (length (token @ newline)) (CHR 0x00))) s))))"

definition cleanupAskpass :: "'w pubPorts \<Rightarrow> string \<Rightarrow> askpass \<Rightarrow> ('w, unit) pub" where
  "cleanupAskpass p token k =
     finallyPub (wipeToken p token k)
       (thenE (inStore (removeTree (pubFault p) (ak_tokenFile k)))
       (thenE (inStore (removeTree (pubFault p) (ak_home k)))
       (thenE (inStore (removeTree (pubFault p) (ak_directory k)))
       (if ak_freshRoot k then quietPub (inStore (rmdirEmpty (pubFault p) (pb_askpassRoot p))) else ret ()))))"

section \<open>Remote refs and receipts\<close>

definition headRef :: "string \<Rightarrow> string" where
  "headRef branch = ''refs/heads/'' @ branch"

text \<open>\<^verbatim>\<open>/^([a-f0-9]{40})\t(refs\/heads\/.+)$/u\<close> on one line; a dot matches no line terminator.\<close>

definition lineTerminator :: "string \<Rightarrow> bool" where
  "lineTerminator s = list_ex (\<lambda>ch. ch \<in> {[CHR 0x0A], [CHR 0x0D], [CHR 0xE2, CHR 0x80, CHR 0xA8], [CHR 0xE2, CHR 0x80, CHR 0xA9]}) (chars s)"

definition refLine :: "string \<Rightarrow> (string \<times> string) option" where
  "refLine line =
     (let sha = take 40 line; ref = drop 41 line in
      if 41 < length line \<and> reSha1 sha \<and> line ! 40 = CHR 0x09 \<and> prefix ''refs/heads/'' ref \<and> length ref > 11 \<and> \<not> lineTerminator (drop 11 ref)
      then Some (sha, ref) else None)"

fun remoteRefsLoop :: "string \<Rightarrow> string \<Rightarrow> string list \<Rightarrow> (string \<times> string) list \<Rightarrow> (string \<times> string) list res" where
  "remoteRefsLoop targetBranch headBranch [] refs = Inr refs"
| "remoteRefsLoop targetBranch headBranch (line # lines) refs =
     (case refLine line of
        None \<Rightarrow> Inl ''remote ref inspection returned invalid output''
      | Some (sha, ref) \<Rightarrow>
          bindR (checks
            [require (map_of refs ref = None) ''remote ref inspection returned invalid output'',
             require (ref = headRef targetBranch \<or> ref = headRef headBranch) ''remote ref inspection returned an unexpected ref'']) (\<lambda>_.
          remoteRefsLoop targetBranch headBranch lines ((ref, sha) # refs)))"

definition parseRemoteRefs :: "string \<Rightarrow> string \<Rightarrow> string \<Rightarrow> (string \<times> string) list res" where
  "parseRemoteRefs stdout targetBranch headBranch =
     remoteRefsLoop targetBranch headBranch (if stdout = [] then [] else splitOn (CHR 0x0A) (trimEndStr stdout)) []"

definition receiptKeys :: "string list" where
  "receiptKeys = [''baseSha'', ''created'', ''draft'', ''headBranch'', ''headSha'', ''number'', ''reconciled'', ''targetBranch'', ''url'']"

definition receiptBound :: "jsval \<Rightarrow> jsval \<Rightarrow> bool" where
  "receiptBound v input =
     (list_all (\<lambda>(k, _). k \<in> set receiptKeys) (props v) \<and> isSafeInteger (fld v ''number'') \<and> 1 \<le> intOf (fld v ''number'') \<and>
      fld v ''headBranch'' = fld input ''headBranch'' \<and> fld v ''headSha'' = fld input ''candidateSha'' \<and>
      fld v ''targetBranch'' = fld input ''targetBranch'' \<and> fld v ''baseSha'' = fld input ''baseSha'' \<and> fld v ''draft'' = JBool True \<and>
      isBoolean (fld v ''created'') \<and> fld v ''reconciled'' \<in> {JUndef, JBool True})"

definition publicationReceipt :: "'w pubPorts \<Rightarrow> jsval \<Rightarrow> jsval \<Rightarrow> jsval res" where
  "publicationReceipt p v input =
     (let invalid = Inl ''GitHub publisher returned an invalid draft pull request receipt'' in
      bindR (plainObject v ''publication receipt'') (\<lambda>_.
      if \<not> receiptBound v input then invalid
      else bindR (parseGitHubRepository p (fld input ''repository'')) (\<lambda>(owner, repo).
        case gh_url p (toStr (fld v ''url'')) of
          None \<Rightarrow> invalid
        | Some u \<Rightarrow>
            if up_protocol u = ''https:'' \<and> up_hostname u = ''github.com'' \<and> up_port u = [] \<and> plainUrl u \<and>
               gh_lower p (up_pathname u) = gh_lower p (pullPath owner repo (intOf (fld v ''number''))) \<and>
               \<not> sublist (strOf (fld input ''token'')) (stringify v)
            then Inr v else invalid)))"

definition bindingOf :: "jsval \<Rightarrow> jsval \<Rightarrow> jsobj" where
  "bindingOf input publication = map (\<lambda>f. (f, fld input f)) bindingFields @ [(''publication'', publication)]"

definition publishedResult :: "jsval \<Rightarrow> jsval \<Rightarrow> jsval" where
  "publishedResult input publication =
     JObj ([(''status'', JStr ''completed''), (''runId'', fld input ''runId'')] @ bindingOf input publication)"

definition completedResult :: "'w pubPorts \<Rightarrow> jsval \<Rightarrow> jsval \<Rightarrow> jsval res" where
  "completedResult p rec input =
     bindR (plainObject rec ''completed publication record'') (\<lambda>_.
     bindR (require (readyMatches rec input) ''completed publication does not match publication input'') (\<lambda>_.
     bindR (publicationReceipt p (fld rec ''publication'') input) (\<lambda>receipt.
     Inr (publishedResult input receipt))))"

section \<open>Publishing a run\<close>

definition eventsOf :: "string \<Rightarrow> jsval list \<Rightarrow> jsval list" where
  "eventsOf type events = filter (\<lambda>e. fld e ''type'' = JStr type) events"

definition finishDetails :: "jsval \<Rightarrow> jsval \<Rightarrow> jsval" where
  "finishDetails input publication = JObj ((''phase'', JStr ''published'') # bindingOf input publication)"

text \<open>A run that has been published already: its record and its event must agree.\<close>

definition alreadyPublished :: "'w pubPorts \<Rightarrow> jsval \<Rightarrow> jsval \<Rightarrow> jsval list \<Rightarrow> ('w, jsval) pub" where
  "alreadyPublished p input run events =
     (let finishedRecords = eventsOf ''publication.finished'' events; source = strOf (fld input ''sourceGitDir'') in
      thenE (liftR (checks
        [require (fld run ''phase'' = JStr ''published'') ''completed publication has an invalid phase'',
         require (length finishedRecords = 1) ''completed publication has invalid durable evidence'']))
      (bindE (liftR (completedResult p run input)) (\<lambda>fromRun.
       bindE (liftR (completedResult p (hd finishedRecords) input)) (\<lambda>fromEvent.
       thenE (liftR (require (stringify fromRun = stringify fromEvent) ''completed publication has conflicting durable evidence''))
       (bindE (statPub p source) (\<lambda>remaining.
        thenE (if isDirNode remaining \<and> nodeMode remaining = 448 then cleanupPrivateSourceGitDir p source remaining else ret ())
          (ret fromRun)))))))"

text \<open>A publication that was recorded but not finished: only the run record is completed.\<close>

definition resumePublication :: "'w pubPorts \<Rightarrow> storeArgs \<Rightarrow> jsval \<Rightarrow> jsval list \<Rightarrow> jsval \<Rightarrow> ('w, jsval) pub" where
  "resumePublication p a input events interruptedEvent =
     thenE (liftR (require (last events = interruptedEvent) ''active run has events after publication evidence''))
     (bindE (liftR (completedResult p interruptedEvent input)) (\<lambda>result.
      thenE (storePub p a (Finish ''completed'' (finishDetails input (fld result ''publication''))))
      (thenE (cleanupPrivateSourceGitDir p (strOf (fld input ''sourceGitDir'')) None) (ret result))))"

definition candidateCommit :: "string \<Rightarrow> string" where
  "candidateCommit sha = sha @ ''^{commit}''"

definition checkLocal :: "'w pubPorts \<Rightarrow> jsval \<Rightarrow> ('w, unit) pub" where
  "checkLocal p input =
     (let candidateSha = strOf (fld input ''candidateSha'') in
      bindE (runGit p (fixedGitArgs (strOf (fld input ''sourceGitDir''))
          [''rev-parse'', ''--verify'', ''--end-of-options'', candidateCommit candidateSha])
        (baseGitEnvironment p (pb_tmpdir p)) (intOf (fld input ''deadlineAt''))) (\<lambda>local.
      let out = strOf (fld local ''stdout'') in
      liftR (require (codeOk local \<and> (reSha1 out \<or> suffix newline out \<and> reSha1 (butlast out)) \<and> trimEndStr out = candidateSha)
        ''local candidate does not match candidateSha'')))"

definition pushCandidate :: "'w pubPorts \<Rightarrow> jsval \<Rightarrow> gitEnv \<Rightarrow> ('w, unit) pub" where
  "pushCandidate p input env =
     (let get = (\<lambda>f. strOf (fld input f)); deadlineAt = intOf (fld input ''deadlineAt'');
          git = (\<lambda>args. runGit p (fixedGitArgs (get ''sourceGitDir'') args) env deadlineAt) in
      bindE (git [''ls-remote'', ''--heads'', get ''repository'', headRef (get ''targetBranch''), headRef (get ''headBranch'')]) (\<lambda>remote.
      thenE (liftR (require (codeOk remote) ''remote ref inspection failed''))
      (bindE (liftR (parseRemoteRefs (strOf (fld remote ''stdout'')) (get ''targetBranch'') (get ''headBranch''))) (\<lambda>refs.
       thenE (liftR (require (map_of refs (headRef (get ''targetBranch'')) = Some (get ''baseSha''))
         ''remote target branch does not match baseSha''))
       (case map_of refs (headRef (get ''headBranch'')) of
          Some sha \<Rightarrow> liftR (require (sha = get ''candidateSha'') ''remote head branch already exists at another SHA'')
        | None \<Rightarrow>
            bindE (git [''push'', ''--porcelain'', ''--no-verify'', get ''repository'', get ''candidateSha'' @ '':'' @ headRef (get ''headBranch'')])
              (\<lambda>pushed. liftR (require (codeOk pushed) ''exact candidate push failed'')))))))"

definition pullInput :: "jsval \<Rightarrow> jsval" where
  "pullInput input =
     (let runId = toStr (fld input ''runId'') in
      JObj [(''headBranch'', fld input ''headBranch''), (''headSha'', fld input ''candidateSha''), (''baseSha'', fld input ''baseSha''),
            (''title'', JStr (''Bimo run '' @ runId)), (''body'', JStr (''Automated draft pull request for Bimo run '' @ runId @ ''.'')),
            (''deadlineAt'', fld input ''deadlineAt''), (''draft'', JBool True)])"

definition recordPublication :: "'w pubPorts \<Rightarrow> storeArgs \<Rightarrow> jsval \<Rightarrow> node option \<Rightarrow> jsval \<Rightarrow> ('w, jsval) pub" where
  "recordPublication p a input sourceGitDirectory publication =
     thenE (storePub p a (AppendEvent ''publication.finished'' (JObj (bindingOf input publication))))
     (thenE (storePub p a (Finish ''completed'' (finishDetails input publication)))
     (thenE (cleanupPrivateSourceGitDir p (strOf (fld input ''sourceGitDir'')) sourceGitDirectory)
       (ret (publishedResult input publication))))"

definition publishPushed :: "'w pubPorts \<Rightarrow> storeArgs \<Rightarrow> jsval \<Rightarrow> node option \<Rightarrow> ('w, jsval) pub" where
  "publishPushed p a input sourceGitDirectory =
     bindE (liftR (createGitHubPublisher p (fld input ''repository'') (fld input ''targetBranch'') (fld input ''token''))) (\<lambda>publisher.
     bindE (publish p publisher (pullInput input)) (\<lambda>raw.
     bindE (liftR (publicationReceipt p raw input)) (\<lambda>publication.
     recordPublication p a input sourceGitDirectory publication)))"

definition publishFresh :: "'w pubPorts \<Rightarrow> storeArgs \<Rightarrow> jsval \<Rightarrow> ('w, jsval) pub" where
  "publishFresh p a input =
     (let token = strOf (fld input ''token'') in
      bindE (ensurePrivateDirectory p (strOf (fld input ''sourceGitDir'')) ''sourceGitDir'') (\<lambda>sourceGitDirectory.
      thenE (checkLocal p input)
      (bindE (createAskpass p token) (\<lambda>askpass.
       thenE (finallyPub (pushCandidate p input (askpassEnv p askpass)) (cleanupAskpass p token askpass))
         (publishPushed p a input sourceGitDirectory)))))"

definition publishRunInternal :: "'w pubPorts \<Rightarrow> jsval \<Rightarrow> ('w, jsval) pub" where
  "publishRunInternal p input =
     (let a = \<lparr>sa_root = strOf (fld input ''stateRoot''), sa_runId = strOf (fld input ''runId'')\<rparr> in
      thenE (strictInput p input)
      (thenE (liftR (checks
        [safePath (JStr (pb_askpassRoot p)) ''askpassRoot'', require (isString (fld input ''runId'')) ''TypeError'']))
      (bindE (inStore (openPodRunStore (pb_storePorts p) a)) (\<lambda>(run, events).
       let readyRecords = eventsOf ''publication.ready'' events; published = eventsOf ''publication.finished'' events in
       thenE (liftR (require (length readyRecords = 1 \<and> readyMatches (hd readyRecords) input)
         ''publication.ready does not match publication input''))
       (if fld run ''status'' = JStr ''completed'' then alreadyPublished p input run events
        else
          thenE (liftR (checks
            [require (fld run ''status'' = JStr ''running'') ''run is not publication-ready'',
             require (length published \<le> 1) ''active run has conflicting publication evidence'']))
          (case published of
             e # _ \<Rightarrow> resumePublication p a input events e
           | [] \<Rightarrow> publishFresh p a input))))))"

text \<open>\<^verbatim>\<open>message.split(token).join("[REDACTED]")\<close>\<close>

function redact :: "string \<Rightarrow> string \<Rightarrow> string" where
  "redact token message =
     (if token = [] \<or> message = [] then message
      else if prefix token message then ''[REDACTED]'' @ redact token (drop (length token) message)
      else hd message # redact token (tl message))"
  by pat_completeness auto

termination by (relation "measure (\<lambda>(_, message). length message)") (auto simp: length_greater_0_conv [symmetric] simp del: length_greater_0_conv)

declare redact.simps [simp del]

definition safeMessage :: "string \<Rightarrow> err \<Rightarrow> err" where
  "safeMessage token e =
     (let message = redact token e in
      if message = [] \<or> 4096 < byteLength message \<or> list_ex unsafeControl message then ''publication finalization failed'' else message)"

definition publishRun :: "'w pubPorts \<Rightarrow> jsval \<Rightarrow> ('w, jsval) pub" where
  "publishRun p input =
     (let token = (if isPlainObject input \<and> isString (fld input ''token'') then strOf (fld input ''token'') else []) in
      catchE (publishRunInternal p input) (\<lambda>e. throwE (safeMessage token e)))"

end
