(* ===== verification/Call_Outcomes.thy ===== *)
theory Call_Outcomes
  imports Call_Log
begin

text \<open>
  The calls a computation makes together with its outcome: \<open>logs tr m R\<close> says that the computation only extends its log,
  and that \<open>R\<close> relates its outcome, a thrown error included, and the calls it has made.  The calls of a sequence are the
  calls of its parts one after the other, so that the order in which a program makes its calls can be read off.
\<close>

definition logs :: "('s \<Rightarrow> 'c list) \<Rightarrow> ('s, 'a) io \<Rightarrow> ('a res \<Rightarrow> 'c list \<Rightarrow> bool) \<Rightarrow> bool" where
  "logs tr m R \<longleftrightarrow> (\<forall>s r s'. m s = (r, s') \<longrightarrow> (\<exists>cs. tr s' = tr s @ cs \<and> R r cs))"

lemma logsI: "(\<And>s r s'. m s = (r, s') \<Longrightarrow> \<exists>cs. tr s' = tr s @ cs \<and> R r cs) \<Longrightarrow> logs tr m R"
  by (simp add: logs_def)

lemma logsD: "logs tr m R \<Longrightarrow> m s = (r, s') \<Longrightarrow> \<exists>cs. tr s' = tr s @ cs \<and> R r cs"
  by (simp add: logs_def)

lemma logs_weaken: "logs tr m Q \<Longrightarrow> (\<And>r cs. Q r cs \<Longrightarrow> R r cs) \<Longrightarrow> logs tr m R"
  unfolding logs_def by blast

lemma logs_seq:
  assumes "\<exists>cs. ys = xs @ cs \<and> Q cs" and "\<And>cs. Q cs \<Longrightarrow> \<exists>ds. zs = ys @ ds \<and> R (cs @ ds)"
  shows "\<exists>cs. zs = xs @ cs \<and> R cs"
proof -
  from assms obtain cs ds where "ys = xs @ cs" "zs = ys @ ds" "R (cs @ ds)" by blast
  then show ?thesis by (intro exI [of _ "cs @ ds"]) simp
qed

lemma logs_bind:
  assumes "logs tr m Q" and "\<And>e cs. Q (Inl e) cs \<Longrightarrow> R (Inl e) cs"
    and "\<And>x cs. Q (Inr x) cs \<Longrightarrow> logs tr (f x) (\<lambda>r ds. R r (cs @ ds))"
  shows "logs tr (bindE m f) R"
proof (rule logsI)
  fix s r s' assume "bindE m f s = (r, s')"
  then show "\<exists>cs. tr s' = tr s @ cs \<and> R r cs"
  proof (cases rule: bindE_elim)
    case (throw e)
    then show ?thesis using logsD [OF assms(1)] assms(2) by blast
  next
    case (continue x t)
    show ?thesis
      by (rule logs_seq [OF logsD [OF assms(1) continue(1)]]) (rule logsD [OF assms(3) continue(2)])
  qed
qed

lemma logs_then:
  assumes "logs tr m Q" and "\<And>e cs. Q (Inl e) cs \<Longrightarrow> R (Inl e) cs"
    and "\<And>x cs. Q (Inr x) cs \<Longrightarrow> logs tr k (\<lambda>r ds. R r (cs @ ds))"
  shows "logs tr (thenE m k) R"
  using assms unfolding thenE_def by (rule logs_bind)

lemma logs_catch:
  assumes "logs tr m Q" and "\<And>x cs. Q (Inr x) cs \<Longrightarrow> R (Inr x) cs"
    and "\<And>e cs. Q (Inl e) cs \<Longrightarrow> logs tr (h e) (\<lambda>r ds. R r (cs @ ds))"
  shows "logs tr (catchE m h) R"
proof (rule logsI)
  fix s r s' assume "catchE m h s = (r, s')"
  then show "\<exists>cs. tr s' = tr s @ cs \<and> R r cs"
  proof (cases rule: catchE_elim)
    case (return x)
    then show ?thesis using logsD [OF assms(1)] assms(2) by blast
  next
    case (handle e t)
    show ?thesis
      by (rule logs_seq [OF logsD [OF assms(1) handle(1)]]) (rule logsD [OF assms(3) handle(2)])
  qed
qed

lemma logs_basic:
  "R (Inr x) [] \<Longrightarrow> logs tr (ret x) R"
  "R (Inl e) [] \<Longrightarrow> logs tr (throwE e) R"
  "R r [] \<Longrightarrow> logs tr (liftR r) R"
  by (simp_all add: logs_def)

text \<open>A step that makes no calls, and a check before the rest.\<close>

definition silent :: "('s \<Rightarrow> 'c list) \<Rightarrow> ('s, 'a) io \<Rightarrow> bool" where
  "silent tr m \<longleftrightarrow> (\<forall>s. tr (snd (m s)) = tr s)"

named_theorems silent_rules \<open>computations that make no logged call\<close>

lemma silentD: "silent tr m \<Longrightarrow> m s = (r, s') \<Longrightarrow> tr s' = tr s"
  by (metis silent_def snd_conv)

lemma silentI: "(\<And>s r s'. m s = (r, s') \<Longrightarrow> tr s' = tr s) \<Longrightarrow> silent tr m"
  by (metis silent_def surjective_pairing)

lemma silent_logs: "silent tr m \<Longrightarrow> logs tr m (\<lambda>_ cs. cs = [])"
  by (rule logsI) (auto dest: silentD)

lemma silent_bind [silent_rules]: "silent tr m \<Longrightarrow> (\<And>x. silent tr (f x)) \<Longrightarrow> silent tr (bindE m f)"
  by (rule silentI) (erule bindE_elim, metis silentD, metis silentD)

lemma silent_then [silent_rules]: "silent tr m \<Longrightarrow> silent tr k \<Longrightarrow> silent tr (thenE m k)"
  unfolding thenE_def by (rule silent_bind)

lemma silent_catch [silent_rules]: "silent tr m \<Longrightarrow> (\<And>e. silent tr (h e)) \<Longrightarrow> silent tr (catchE m h)"
  by (rule silentI) (erule catchE_elim, metis silentD, metis silentD)

lemma silent_basic [silent_rules]:
  "silent tr (ret x)" "silent tr (throwE e)" "silent tr (liftR r)" "silent tr (getS f)"
  by (simp_all add: silent_def io_defs split: sum.split)

lemma silent_if [silent_rules]: "silent tr m \<Longrightarrow> silent tr n \<Longrightarrow> silent tr (if b then m else n)"
  by simp

lemma logs_step:
  "silent tr m \<Longrightarrow> (\<And>e. R (Inl e) []) \<Longrightarrow> (\<And>x. logs tr (f x) R) \<Longrightarrow> logs tr (bindE m f) R"
  by (rule logs_bind [OF silent_logs]) auto

lemma logs_then_step:
  "silent tr m \<Longrightarrow> (\<And>e. R (Inl e) []) \<Longrightarrow> logs tr k R \<Longrightarrow> logs tr (thenE m k) R"
  unfolding thenE_def by (rule logs_step)

lemma logs_bind_res:
  "(\<And>e. r = Inl e \<Longrightarrow> R (Inl e) []) \<Longrightarrow> (\<And>x. r = Inr x \<Longrightarrow> logs tr (f x) R) \<Longrightarrow> logs tr (bindE (liftR r) f) R"
  by (cases r) (auto simp: logs_def io_defs)

lemma logs_require:
  "(\<And>e. R (Inl e) []) \<Longrightarrow> (b \<Longrightarrow> logs tr k R) \<Longrightarrow> logs tr (thenE (liftR (require b msg)) k) R"
  unfolding thenE_def by (rule logs_bind_res) (auto simp: require_def split: if_splits)

end
