(* ===== verification/GitHub_Publisher_Safety.thy ===== *)
theory GitHub_Publisher_Safety
  imports GitHub_Publisher Call_Outcomes
begin

text \<open>
  The requests of the draft pull request publisher: which requests it makes, in which order, what they were answered before
  the one request that writes, and what the receipt is made from.
\<close>

section \<open>Calls of the building blocks\<close>

lemma silent_usePub [silent_rules]: "silent pb_calls (usePub f)"
  by (rule silentI) (auto simp: usePub_def split: prod.splits)

lemma logs_logPub: "logs pb_calls (logPub c) (\<lambda>r cs. r = Inr () \<and> cs = [c])"
  by (auto simp: logs_def logPub_def)

lemma logs_try:
  assumes "logs pb_calls m R"
  shows "logs pb_calls (tryPub m) (\<lambda>r cs. \<exists>x. r = Inr x \<and> R x cs)"
proof -
  have "logs pb_calls (bindE m (\<lambda>x. ret (Inr x)))
      (\<lambda>r cs. case r of Inl e \<Rightarrow> R (Inl e) cs | Inr y \<Rightarrow> \<exists>x. y = Inr x \<and> R (Inr x) cs)"
    by (rule logs_bind [OF assms]) (auto intro!: logs_basic)
  then show ?thesis unfolding tryPub_def by (rule logs_catch) (auto intro!: logs_basic)
qed

text \<open>A request is made once, or not at all when its deadline has passed; its answer is what was logged.\<close>

definition asked :: "fetchInput \<Rightarrow> jsval res \<Rightarrow> pubCall list \<Rightarrow> bool" where
  "asked rq r cs \<longleftrightarrow>
     (case r of Inl _ \<Rightarrow> cs = [] \<or> (\<exists>out. cs = [PFetch rq out]) | Inr v \<Rightarrow> cs = [PFetch rq (Inr v)])"

lemma logs_request:
  "logs pb_calls
     (bindE (usePub (gh_fetch p rq)) (\<lambda>response.
      let outcome = f response in thenE (logPub (PFetch rq outcome)) (liftR outcome)))
     (asked rq)"
  unfolding Let_def
  by (intro logs_step silent_rules logs_then [OF logs_logPub] logs_basic) (auto simp: asked_def split: sum.splits)

lemma logs_deadline:
  assumes "logs pb_calls m (asked rq)"
  shows "logs pb_calls (withinDeadline p d m) (asked rq)"
proof -
  have settle: "logs pb_calls (bindE (usePub (gh_expired p d)) (\<lambda>expired. bindE (usePub (gh_now p)) (\<lambda>settled.
      liftR (if expired \<or> d \<le> settled then Inl deadlineExceeded else result)))) (\<lambda>r ds. asked rq r (cs @ ds))"
    if "asked rq result cs" for result cs
    using that by (intro logs_step silent_usePub logs_basic) (auto simp: asked_def split: sum.splits)
  have "logs pb_calls (bindE (tryPub m) (\<lambda>result. bindE (usePub (gh_expired p d)) (\<lambda>expired. bindE (usePub (gh_now p)) (\<lambda>settled.
      liftR (if expired \<or> d \<le> settled then Inl deadlineExceeded else result))))) (asked rq)"
    by (rule logs_bind [OF logs_try [OF assms]]) (auto intro: settle)
  then show ?thesis
    unfolding withinDeadline_def by (intro logs_step [OF silent_usePub] logs_require) (auto simp: asked_def)
qed

lemma logs_requestJson: "logs pb_calls (requestJson p token path d m b st) (asked (requestInput token path m b))"
  unfolding requestJson_def by (subst Let_def) (rule logs_deadline [OF logs_request])

definition answeredBy :: "fetchInput \<Rightarrow> (jsval \<Rightarrow> 'a res) \<Rightarrow> 'a res \<Rightarrow> pubCall list \<Rightarrow> bool" where
  "answeredBy rq f r cs \<longleftrightarrow>
     (case r of Inl _ \<Rightarrow> cs = [] \<or> (\<exists>out. cs = [PFetch rq out]) | Inr x \<Rightarrow> \<exists>v. cs = [PFetch rq (Inr v)] \<and> f v = Inr x)"

lemma logs_answer:
  "logs pb_calls (bindE (requestJson p token path d m b st) (\<lambda>v. liftR (f v))) (answeredBy (requestInput token path m b) f)"
  by (rule logs_bind [OF logs_requestJson]) (auto simp: asked_def answeredBy_def intro!: logs_basic split: sum.splits)

section \<open>The protocol\<close>

definition refRequest :: "string \<Rightarrow> ghContext \<Rightarrow> string \<Rightarrow> fetchInput" where
  "refRequest token c branch =
     requestInput token (repositoryPath (gc_owner c) (gc_repo c) @ ''/git/ref/heads/'' @ encodeURIComponent branch) ''GET'' None"

definition listRequest :: "string \<Rightarrow> ghContext \<Rightarrow> fetchInput" where
  "listRequest token c = requestInput token (pullsPath c @ pullsQuery c) ''GET'' None"

definition draftRequest :: "string \<Rightarrow> ghContext \<Rightarrow> string \<Rightarrow> string \<Rightarrow> fetchInput" where
  "draftRequest token c title body = requestInput token (pullsPath c) ''POST'' (Some (pullRequestBody c title body))"

fun isRead :: "pubCall \<Rightarrow> bool" where
  "isRead (PFetch rq _) = (fi_method rq = ''GET'')"
| "isRead _ = False"

text \<open>Every request goes to the API of the repository and follows no redirect, so the token is sent nowhere else.\<close>

fun toRepository :: "ghContext \<Rightarrow> pubCall \<Rightarrow> bool" where
  "toRepository c (PFetch rq _) =
     (prefix (githubApiOrigin @ repositoryPath (gc_owner c) (gc_repo c) @ ''/'') (fi_url rq) \<and> fi_redirect rq = ''error'')"
| "toRepository c _ = False"

definition draftProtocol :: "string \<Rightarrow> ghContext \<Rightarrow> string \<Rightarrow> string \<Rightarrow> pubCall list \<Rightarrow> bool" where
  "draftProtocol token c title body cs \<longleftrightarrow>
     list_all isRead cs \<or>
     (\<exists>v w out rest.
        cs = [PFetch (refRequest token c (gc_targetBranch c)) (Inr v), PFetch (refRequest token c (gc_headBranch c)) (Inr w),
              PFetch (listRequest token c) (Inr (JArr [])), PFetch (draftRequest token c title body) out] @ rest \<and>
        remoteRef (gc_targetBranch c) v = Inr (gc_baseSha c) \<and> remoteRef (gc_headBranch c) w = Inr (gc_headSha c) \<and>
        list_all isRead rest)"

text \<open>The last answer is the pull request, alone or as the only entry of a list, and it matches the contract.\<close>

definition confirmed :: "('w, 'z) ghPorts_scheme \<Rightarrow> ghContext \<Rightarrow> pubCall list \<Rightarrow> jsval \<Rightarrow> bool" where
  "confirmed p c cs pull \<longleftrightarrow>
     (\<exists>rq v. cs \<noteq> [] \<and> last cs = PFetch rq (Inr v) \<and> (v = pull \<or> v = JArr [pull])) \<and>
     validatePull p c pull = Inr pull \<and> pullMatchesContract p c pull"

definition drafted ::
  "('w, 'z) ghPorts_scheme \<Rightarrow> string \<Rightarrow> ghContext \<Rightarrow> string \<Rightarrow> string \<Rightarrow> jsval res \<Rightarrow> pubCall list \<Rightarrow> bool" where
  "drafted p token c title body r cs \<longleftrightarrow>
     draftProtocol token c title body cs \<and> list_all (toRepository c) cs \<and>
     (\<forall>receipt. r = Inr receipt \<longrightarrow>
        (\<exists>pull created reconciled. confirmed p c cs pull \<and> receipt = normalizePull pull c created reconciled \<and>
           (if created then reconciled \<or> \<not> list_all isRead cs else \<not> reconciled \<and> list_all isRead cs)))"

lemma request_kinds [simp]:
  "isRead (PFetch (refRequest token c branch) out)" "isRead (PFetch (listRequest token c) out)"
  "\<not> isRead (PFetch (draftRequest token c title body) out)"
  "toRepository c (PFetch (refRequest token c branch) out)" "toRepository c (PFetch (listRequest token c) out)"
  "toRepository c (PFetch (draftRequest token c title body) out)"
  by (simp_all add: refRequest_def listRequest_def draftRequest_def requestInput_def pullsPath_def)

declare isRead.simps(1) [simp del] toRepository.simps(1) [simp del]

lemma existingPull_None: "existingPull p c v = Inr None \<longleftrightarrow> v = JArr []"
  unfolding existingPull_def
  by (cases v) (auto simp: res_simps require_def bindR_def split: list.splits sum.splits if_splits dest: mapR_length)

lemma validatePull_same: "validatePull p c v = Inr pull \<Longrightarrow> pull = v"
  by (auto simp: validatePull_def Let_def res_simps)

lemma mapR_single: "mapR f i vs = Inr [x] \<Longrightarrow> \<exists>v. vs = [v] \<and> f i v = Inr x"
  using mapR_length [of f i vs "[x]"] mapR_nth [of f i vs "[x]" 0] by (cases vs) auto

lemma existingPull_Some:
  assumes "existingPull p c v = Inr (Some pull)"
  shows "v = JArr [pull] \<and> validatePull p c pull = Inr pull \<and> pullMatchesContract p c pull"
proof -
  from assms obtain pulls where array: "isArray v" and found: "mapR (\<lambda>_. validatePull p c) 0 (elems v) = Inr pulls"
    and sole: "(case pulls of [] \<Rightarrow> Inr None
      | u # rest \<Rightarrow> bindR (require (rest = [] \<and> pullMatchesContract p c u) existingPullConflict) (\<lambda>_. Inr (Some u))) = Inr (Some pull)"
    by (auto simp: existingPull_def res_simps)
  from sole have pulls: "mapR (\<lambda>_. validatePull p c) 0 (elems v) = Inr [pull]" and match: "pullMatchesContract p c pull"
    using found by (cases pulls; simp add: res_simps; blast)+
  from array obtain vs where v: "v = JArr vs" by (cases v) auto
  with pulls mapR_single obtain u where "vs = [u]" "validatePull p c u = Inr pull" by fastforce
  with v match show ?thesis using validatePull_same by blast
qed

definition draftOf :: "('w, 'z) ghPorts_scheme \<Rightarrow> ghContext \<Rightarrow> jsval \<Rightarrow> jsval res" where
  "draftOf p c payload =
     bindR (validatePull p c payload) (\<lambda>created.
     bindR (require (pullMatchesContract p c created) unexpectedResponse) (\<lambda>_. Inr (normalizePull created c True False)))"

lemma draftOf_Inr:
  "draftOf p c v = Inr receipt \<Longrightarrow>
     validatePull p c v = Inr v \<and> pullMatchesContract p c v \<and> receipt = normalizePull v c True False"
  by (auto simp: draftOf_def res_simps dest: validatePull_same)

lemma logs_readRemoteRef:
  "logs pb_calls (readRemoteRef p token c branch d) (answeredBy (refRequest token c branch) (remoteRef branch))"
  unfolding readRemoteRef_def refRequest_def by (rule logs_answer)

lemma logs_findExistingPull:
  "logs pb_calls (findExistingPull p token c d) (answeredBy (listRequest token c) (existingPull p c))"
  unfolding findExistingPull_def listRequest_def by (rule logs_answer)

lemma createPull_draft:
  "createPull p token c title body d =
     bindE (requestJson p token (pullsPath c) d ''POST'' (Some (pullRequestBody c title body)) 201) (\<lambda>v. liftR (draftOf p c v))"
  unfolding createPull_def draftOf_def
  by (intro arg_cong [of _ _ "bindE _"] ext) (auto simp: io_defs bindR_def require_def split: sum.splits)

lemma logs_createPull:
  "logs pb_calls (createPull p token c title body d) (answeredBy (draftRequest token c title body) (draftOf p c))"
  unfolding createPull_draft draftRequest_def by (rule logs_answer)

lemmas answered_simps = answeredBy_def existingPull_None

text \<open>A reconciliation only reads, never throws, and returns a receipt only for a confirmed pull request.\<close>

definition reconciledBy :: "('w, 'z) ghPorts_scheme \<Rightarrow> string \<Rightarrow> ghContext \<Rightarrow> jsval option res \<Rightarrow> pubCall list \<Rightarrow> bool" where
  "reconciledBy p token c r cs \<longleftrightarrow>
     list_all isRead cs \<and> list_all (toRepository c) cs \<and>
     (\<forall>receipt. r = Inr (Some receipt) \<longrightarrow> (\<exists>pull. confirmed p c cs pull \<and> receipt = normalizePull pull c True True))"

lemma logs_reconcile: "logs pb_calls (reconcilePull p token c) (reconciledBy p token c)"
proof -
  have quiet: "logs pb_calls (catchE m (\<lambda>_. ret None)) (reconciledBy p token c)"
    if "logs pb_calls m (reconciledBy p token c)" for m :: "('a, jsval option) pub"
    by (rule logs_catch [OF that]) (auto simp: reconciledBy_def intro!: logs_basic)
  have look: "logs pb_calls (bindE (findExistingPull p token c d) (\<lambda>found. ret (map_option (\<lambda>pull. normalizePull pull c True True) found)))
      (\<lambda>r ds. reconciledBy p token c r ([PFetch (refRequest token c (gc_targetBranch c)) (Inr v)] @ ds))" for d v
    by (rule logs_bind [OF logs_findExistingPull])
       (auto intro!: logs_basic simp: reconciledBy_def answeredBy_def confirmed_def dest!: existingPull_Some)
  have "logs pb_calls
      (bindE (readRemoteRef p token c (gc_targetBranch c) d) (\<lambda>base.
        thenE (liftR (require (base = gc_baseSha c) ''remote base changed during reconciliation''))
        (bindE (findExistingPull p token c d) (\<lambda>found. ret (map_option (\<lambda>pull. normalizePull pull c True True) found)))))
      (reconciledBy p token c)" for d
    by (rule logs_bind [OF logs_readRemoteRef])
       (auto simp: answeredBy_def reconciledBy_def [of p token c "Inl _"] intro!: logs_require look)
  then show ?thesis
    unfolding reconcilePull_def Let_def
    by (intro logs_step [OF silent_usePub] quiet) (simp_all add: reconciledBy_def)
qed

text \<open>The request that writes and what may follow it, after the three checks.\<close>

lemma drafted_checks:
  assumes "length cs \<le> 3" and "list_all isRead cs" and "list_all (toRepository c) cs"
  shows "drafted p token c title body (Inl e) cs"
  using assms by (simp add: drafted_def draftProtocol_def)

lemma drafted_receipt:
  assumes "draftProtocol token c title body cs" and "list_all (toRepository c) cs" and "confirmed p c cs pull"
    and "receipt = normalizePull pull c created reconciled"
    and "if created then reconciled \<or> \<not> list_all isRead cs else \<not> reconciled \<and> list_all isRead cs"
  shows "drafted p token c title body (Inr receipt) cs"
  using assms unfolding drafted_def by blast

lemma logs_draft:
  assumes "pre = [PFetch (refRequest token c (gc_targetBranch c)) (Inr v), PFetch (refRequest token c (gc_headBranch c)) (Inr w),
      PFetch (listRequest token c) (Inr (JArr []))]"
    and "remoteRef (gc_targetBranch c) v = Inr (gc_baseSha c)" and "remoteRef (gc_headBranch c) w = Inr (gc_headSha c)"
  shows "logs pb_calls
    (bindE (tryPub (createPull p token c title body d)) (\<lambda>created.
       case created of Inr receipt \<Rightarrow> ret receipt
       | Inl _ \<Rightarrow> bindE (reconcilePull p token c) (\<lambda>reconciled.
           case reconciled of Some receipt \<Rightarrow> ret receipt | None \<Rightarrow> throwE ''GitHub pull request creation failed'')))
    (\<lambda>r cs. drafted p token c title body r (pre @ cs))"
proof -
  have outcome: "drafted p token c title body r (pre @ cs @ rest)"
    if "cs = [] \<or> (\<exists>out. cs = [PFetch (draftRequest token c title body) out])" "reconciledBy p token c r' rest"
      "\<And>receipt. r = Inr receipt \<Longrightarrow> r' = Inr (Some receipt)" for r r' cs rest
    using that assms
    by (cases r) (auto simp: drafted_def draftProtocol_def reconciledBy_def confirmed_def intro!: exI [of _ True])
  have retry: "logs pb_calls (bindE (reconcilePull p token c) (\<lambda>reconciled.
        case reconciled of Some receipt \<Rightarrow> ret receipt | None \<Rightarrow> throwE ''GitHub pull request creation failed''))
      (\<lambda>r ds. drafted p token c title body r (pre @ cs @ ds))"
    if "cs = [] \<or> (\<exists>out. cs = [PFetch (draftRequest token c title body) out])" for cs
    by (rule logs_bind [OF logs_reconcile]) (auto intro!: logs_basic intro: outcome [OF that] split: option.splits)
  have created: "drafted p token c title body (Inr receipt) (pre @ cs)"
    if "answeredBy (draftRequest token c title body) (draftOf p c) (Inr receipt) cs" for receipt cs
    using that assms
    by (auto simp: draftProtocol_def answeredBy_def confirmed_def dest!: draftOf_Inr intro!: drafted_receipt [where created = True])
  show ?thesis
    by (rule logs_bind [OF logs_try [OF logs_createPull]])
       (auto intro!: logs_basic created retry simp: answeredBy_def [of _ _ "Inl _"] split: sum.splits)
qed

lemma logs_existing:
  assumes "pre = [PFetch (refRequest token c (gc_targetBranch c)) (Inr v), PFetch (refRequest token c (gc_headBranch c)) (Inr w)]"
    and "remoteRef (gc_targetBranch c) v = Inr (gc_baseSha c)" and "remoteRef (gc_headBranch c) w = Inr (gc_headSha c)"
    and draft: "\<And>pre. pre = [PFetch (refRequest token c (gc_targetBranch c)) (Inr v), PFetch (refRequest token c (gc_headBranch c)) (Inr w),
      PFetch (listRequest token c) (Inr (JArr []))] \<Longrightarrow> logs pb_calls k (\<lambda>r cs. drafted p token c title body r (pre @ cs))"
  shows "logs pb_calls
    (bindE (findExistingPull p token c d) (\<lambda>existing. case existing of Some pull \<Rightarrow> ret (normalizePull pull c False False) | None \<Rightarrow> k))
    (\<lambda>r cs. drafted p token c title body r (pre @ cs))"
proof (rule logs_bind [OF logs_findExistingPull])
  fix e cs assume "answeredBy (listRequest token c) (existingPull p c) (Inl e) cs"
  then show "drafted p token c title body (Inl e) (pre @ cs)"
    using assms(1) by (auto simp: answeredBy_def intro!: drafted_checks)
next
  fix found cs assume found: "answeredBy (listRequest token c) (existingPull p c) (Inr found) cs"
  show "logs pb_calls (case found of Some pull \<Rightarrow> ret (normalizePull pull c False False) | None \<Rightarrow> k)
      (\<lambda>r ds. drafted p token c title body r (pre @ cs @ ds))"
  proof (cases found)
    case None
    with found assms(1) show ?thesis using draft [OF refl] by (auto simp: answeredBy_def existingPull_None)
  next
    case (Some pull)
    with found assms(1) show ?thesis
      by (auto simp: answeredBy_def draftProtocol_def confirmed_def dest!: existingPull_Some
          intro!: logs_basic drafted_receipt [where created = False])
  qed
qed

lemma logs_publishInContext:
  "logs pb_calls (publishInContext p token c title body d) (drafted p token c title body)"
  unfolding publishInContext_def
  by (rule logs_bind [OF logs_readRemoteRef])
     (auto simp: answeredBy_def
        intro!: drafted_checks logs_require logs_bind [OF logs_readRemoteRef] logs_existing [OF refl, simplified] logs_draft [OF refl, simplified])

section \<open>Publishing\<close>

definition publishContext :: "ghPublisher \<Rightarrow> jsval \<Rightarrow> ghContext" where
  "publishContext g input =
     \<lparr>gc_owner = gp_owner g, gc_repo = gp_repo g, gc_headBranch = strOf (fld input ''headBranch''), gc_headSha = strOf (fld input ''headSha''),
      gc_targetBranch = gp_targetBranch g, gc_baseSha = strOf (fld input ''baseSha'')\<rparr>"

lemma logs_publish:
  "logs pb_calls (publish p g input)
     (drafted p (gp_token g) (publishContext g input) (strOf (fld input ''title'')) (strOf (fld input ''body'')))"
proof -
  let ?R = "drafted p (gp_token g) (publishContext g input) (strOf (fld input ''title'')) (strOf (fld input ''body''))"
  have none: "?R (Inl e) []" for e by (rule drafted_checks) simp_all
  have inside: "logs pb_calls (publishInContext p (gp_token g) (publishContext g input) (strOf (fld input ''title'')) (strOf (fld input ''body'')) d) ?R"
    for d by (rule logs_publishInContext)
  have deadline: "silent pb_calls (validateDeadline p v)" for v
    unfolding validateDeadline_def by (intro silent_rules)
  show ?thesis
    unfolding publish_def
    by (intro logs_require logs_bind_res none)
       (auto simp: validateBranch_def validateSha_def validateTitle_def validateBody_def res_simps publishContext_def [symmetric]
         intro!: logs_step [OF deadline] none inside)
qed

text \<open>C15: Whatever GitHub, the clock and the deadline timer do, and whether a publication succeeds or fails: its requests go to the API
  of the one repository and follow no redirect; it writes at most once, and only after GitHub answered that the target branch is
  at \<^verbatim>\<open>baseSha\<close>, that the head branch is at \<^verbatim>\<open>headSha\<close> and that the head branch has no pull request; what it writes is a draft from
  the head branch into the target branch.  A receipt is made only from a pull request that GitHub returned in its last answer
  and that is an open draft from exactly that head commit onto exactly that base commit, and it says
  \<^verbatim>\<open>created: false\<close> only when nothing was written.\<close>

theorem publish_drafts_once:
  assumes "publish p g input s = (r, s')"
  shows "\<exists>cs. pb_calls s' = pb_calls s @ cs \<and>
    draftProtocol (gp_token g) (publishContext g input) (strOf (fld input ''title'')) (strOf (fld input ''body'')) cs \<and>
    list_all (toRepository (publishContext g input)) cs \<and>
    (\<forall>receipt. r = Inr receipt \<longrightarrow>
       (\<exists>pull created reconciled rq v. receipt = normalizePull pull (publishContext g input) created reconciled \<and>
          cs \<noteq> [] \<and> last cs = PFetch rq (Inr v) \<and> (v = pull \<or> v = JArr [pull]) \<and>
          fld pull ''state'' = JStr ''open'' \<and> fld pull ''draft'' = JBool True \<and>
          fld (fld pull ''head'') ''ref'' = JStr (strOf (fld input ''headBranch'')) \<and>
          fld (fld pull ''head'') ''sha'' = JStr (strOf (fld input ''headSha'')) \<and>
          fld (fld pull ''base'') ''ref'' = JStr (gp_targetBranch g) \<and>
          fld (fld pull ''base'') ''sha'' = JStr (strOf (fld input ''baseSha'')) \<and>
          (if created then reconciled \<or> \<not> list_all isRead cs else \<not> reconciled \<and> list_all isRead cs)))"
proof -
  let ?c = "publishContext g input"
  obtain cs where cs: "pb_calls s' = pb_calls s @ cs"
    and drafted: "drafted p (gp_token g) ?c (strOf (fld input ''title'')) (strOf (fld input ''body'')) r cs"
    using logsD [OF logs_publish assms] by blast
  have fields: "fld pull ''state'' = JStr ''open'' \<and> fld pull ''draft'' = JBool True \<and>
      fld (fld pull ''head'') ''ref'' = JStr (strOf (fld input ''headBranch'')) \<and>
      fld (fld pull ''head'') ''sha'' = JStr (strOf (fld input ''headSha'')) \<and>
      fld (fld pull ''base'') ''ref'' = JStr (gp_targetBranch g) \<and>
      fld (fld pull ''base'') ''sha'' = JStr (strOf (fld input ''baseSha''))" if "confirmed p ?c cs pull" for pull
    using that
    by (auto simp: confirmed_def pullMatchesContract_def validatePull_def Let_def res_simps publishContext_def)
  have "\<exists>pull created reconciled rq v. receipt = normalizePull pull ?c created reconciled \<and>
      cs \<noteq> [] \<and> last cs = PFetch rq (Inr v) \<and> (v = pull \<or> v = JArr [pull]) \<and> confirmed p ?c cs pull \<and>
      (if created then reconciled \<or> \<not> list_all isRead cs else \<not> reconciled \<and> list_all isRead cs)"
    if "r = Inr receipt" for receipt
    using drafted that unfolding drafted_def confirmed_def by metis
  with fields cs drafted show ?thesis
    unfolding drafted_def by (intro exI [of _ cs] conjI allI impI) (assumption | simp | metis)+
qed

section \<open>A publication\<close>

definition demoPull :: jsval where
  "demoPull =
     (let side = (\<lambda>branch sha. JObj [(''ref'', JStr branch), (''sha'', JStr (replicate 40 sha)), (''repo'', JObj [(''full_name'', JStr ''o/r'')])]) in
      JObj [(''number'', num 7), (''state'', JStr ''open''), (''draft'', JBool True), (''html_url'', JStr ''https://github.com/o/r/pull/7''),
            (''head'', side ''bimo/x'' (CHR ''a'')), (''base'', side ''main'' (CHR ''b''))])"

definition demoRef :: "string \<Rightarrow> char \<Rightarrow> jsval" where
  "demoRef branch sha = JObj [(''ref'', JStr (''refs/heads/'' @ branch)), (''object'', JObj [(''type'', JStr ''commit''), (''sha'', JStr (replicate 40 sha))])]"

definition demoResponse :: "int \<Rightarrow> jsval \<Rightarrow> httpResponse option" where
  "demoResponse status v = Some \<lparr>hr_status = num status, hr_headers = Some [''content-type'' \<mapsto> ''application/json''], hr_redirected = JBool False,
     hr_body = Some ([stringify v], BodyDone)\<rparr>"

definition demoFetch :: "fetchInput \<Rightarrow> 'w \<Rightarrow> httpResponse option \<times> 'w" where
  "demoFetch rq w =
     (if fi_method rq = ''POST'' then demoResponse 201 demoPull
      else if suffix ''/heads/main'' (fi_url rq) then demoResponse 200 (demoRef ''main'' (CHR ''b''))
      else if suffix ''/heads/bimo%2Fx'' (fi_url rq) then demoResponse 200 (demoRef ''bimo/x'' (CHR ''a''))
      else demoResponse 200 (JArr []), w)"

definition demoUrl :: "string \<Rightarrow> urlParts option" where
  "demoUrl s = (if prefix ''https://github.com/'' s then
     Some \<lparr>up_protocol = ''https:'', up_hostname = ''github.com'', up_port = [], up_username = [], up_password = [], up_search = [], up_hash = [],
       up_pathname = drop 18 s, up_origin = ''https://github.com''\<rparr> else None)"

definition demoGh :: "'w ghPorts" where
  "demoGh = \<lparr>gh_now = (\<lambda>w. (1, w)), gh_fetch = demoFetch, gh_expired = (\<lambda>_ w. (False, w)), gh_url = demoUrl, gh_lower = id\<rparr>"

definition demoPublisher :: ghPublisher where
  "demoPublisher = \<lparr>gp_owner = ''o'', gp_repo = ''r'', gp_targetBranch = ''main'', gp_token = ''ghp_1''\<rparr>"

definition demoPublish :: "string \<Rightarrow> string \<Rightarrow> jsval" where
  "demoPublish title body =
     JObj [(''headBranch'', JStr ''bimo/x''), (''headSha'', JStr (replicate 40 (CHR ''a''))), (''baseSha'', JStr (replicate 40 (CHR ''b''))),
       (''title'', JStr title), (''body'', JStr body), (''deadlineAt'', num 9), (''draft'', JBool True)]"

definition demoPub :: "unit pubState" where
  "demoPub = \<lparr>pb_store = \<lparr>sys_fs = Mapping.empty, sys_world = (), ps_run = [], ps_sequence = 0, ps_inbox = Mapping.empty,
     ps_work = Mapping.empty, ps_gate = Mapping.empty, ps_finished = False\<rparr>, pb_calls = []\<rparr>"

definition likeDemo :: "('w, 'z) ghPorts_scheme \<Rightarrow> bool" where
  "likeDemo p \<longleftrightarrow> gh_now p = (\<lambda>w. (1, w)) \<and> gh_fetch p = demoFetch \<and> gh_expired p = (\<lambda>_ w. (False, w)) \<and> gh_url p = demoUrl \<and> gh_lower p = id"

definition plainJson :: "jsval \<Rightarrow> bool" where
  "plainJson v \<longleftrightarrow> utf8Decode (stringify v) = Some (stringify v) \<and> jsonParse (stringify v) = Some v \<and> length (stringify v) < 1000"

lemma demo_read:
  assumes "likeDemo p" and "status = 200 \<or> status = 201" and "plainJson v"
  shows "readResponse p status (the (demoResponse status v)) = Inr v"
proof -
  have "trim ''application/json'' = ''application/json''" by code_simp
  then have "hasJsonContentType p [''content-type'' \<mapsto> ''application/json'']"
    using assms(1) by (simp add: hasJsonContentType_def likeDemo_def)
  then show ?thesis
    using assms(2,3)
    by (auto simp: readResponse_def demoResponse_def requireResponseShape_def readBoundedResponse_def declaredResponseLength_def
        decodeJson_def require_def bindR_def maxResponseBytes_def plainJson_def num_def)
qed

lemma demo_ask:
  assumes "likeDemo p" and "status = 200 \<or> status = 201" and "plainJson v" and "1 < d"
    and "\<And>w :: 'w. demoFetch (requestInput token path m b) w = (demoResponse status v, w)"
  shows "requestJson p token path d m b status (s :: 'w pubState)
    = (Inr v, s\<lparr>pb_calls := pb_calls s @ [PFetch (requestInput token path m b) (Inr v)]\<rparr>)"
proof -
  obtain r where "demoResponse status v = Some r" by (simp add: demoResponse_def)
  then show ?thesis
    using assms demo_read [OF assms(1-3)]
    by (simp add: requestJson_def withinDeadline_def usePub_def logPub_def tryPub_def io_defs Let_def likeDemo_def require_def)
qed

lemma demo_plain: "plainJson demoPull" "plainJson (demoRef ''main'' (CHR ''b''))" "plainJson (demoRef ''bimo/x'' (CHR ''a''))" "plainJson (JArr [])"
  by code_simp+

definition demoContext :: ghContext where
  "demoContext = \<lparr>gc_owner = ''o'', gc_repo = ''r'', gc_headBranch = ''bimo/x'', gc_headSha = replicate 40 (CHR ''a''),
     gc_targetBranch = ''main'', gc_baseSha = replicate 40 (CHR ''b'')\<rparr>"

lemma demo_urls:
  "fi_url (refRequest token demoContext ''main'') = ''https://api.github.com/repos/o/r/git/ref/heads/main''"
  "fi_url (refRequest token demoContext ''bimo/x'') = ''https://api.github.com/repos/o/r/git/ref/heads/bimo%2Fx''"
  "fi_url (listRequest token demoContext) = ''https://api.github.com/repos/o/r/pulls?state=all&head=o%3Abimo%2Fx&per_page=100''"
  by code_simp+

lemma demo_fetches:
  "demoFetch (refRequest token demoContext ''main'') w = (demoResponse 200 (demoRef ''main'' (CHR ''b'')), w)"
  "demoFetch (refRequest token demoContext ''bimo/x'') w = (demoResponse 200 (demoRef ''bimo/x'' (CHR ''a'')), w)"
  "demoFetch (listRequest token demoContext) w = (demoResponse 200 (JArr []), w)"
  "demoFetch (draftRequest token demoContext title body) w = (demoResponse 201 demoPull, w)"
  by (simp_all add: demoFetch_def demo_urls suffix_def)
     (simp_all add: refRequest_def listRequest_def draftRequest_def requestInput_def)

lemma demo_pull:
  assumes "likeDemo p"
  shows "draftOf p demoContext demoPull = Inr (normalizePull demoPull demoContext True False)"
proof -
  have ports: "gh_url p = gh_url (demoGh :: unit ghPorts)" "gh_lower p = gh_lower (demoGh :: unit ghPorts)"
    using assms by (simp_all add: likeDemo_def demoGh_def)
  then have "draftOf p demoContext demoPull = draftOf (demoGh :: unit ghPorts) demoContext demoPull"
    by (simp only: draftOf_def validatePull_def validatePullUrl_def pullMatchesContract_def repositoryMatches_def)
  also have "\<dots> = Inr (normalizePull demoPull demoContext True False)" by code_simp
  finally show ?thesis .
qed

lemma demo_answer:
  assumes "likeDemo p" and "1 < d" and "status = 200 \<or> status = 201" and "plainJson v"
    and "\<And>w :: 'w. demoFetch (requestInput token path m b) w = (demoResponse status v, w)"
  shows "bindE (requestJson p token path d m b status) (\<lambda>v. liftR (f v)) (s :: 'w pubState)
    = (f v, s\<lparr>pb_calls := pb_calls s @ [PFetch (requestInput token path m b) (Inr v)]\<rparr>)"
  using demo_ask [OF assms(1,3,4,2,5)] by (simp add: bindE_def)

lemma demo_refs:
  "remoteRef ''main'' (demoRef ''main'' (CHR ''b'')) = Inr (gc_baseSha demoContext)"
  "remoteRef ''bimo/x'' (demoRef ''bimo/x'' (CHR ''a'')) = Inr (gc_headSha demoContext)"
  by code_simp+

lemma demo_branches: "gc_targetBranch demoContext = ''main''" "gc_headBranch demoContext = ''bimo/x''"
  by (simp_all add: demoContext_def)

lemma demo_steps:
  assumes "likeDemo p" and "1 < d"
  shows "readRemoteRef p token demoContext ''main'' d s
      = (Inr (gc_baseSha demoContext), s\<lparr>pb_calls := pb_calls s @ [PFetch (refRequest token demoContext ''main'') (Inr (demoRef ''main'' (CHR ''b'')))]\<rparr>)"
    and "readRemoteRef p token demoContext ''bimo/x'' d s
      = (Inr (gc_headSha demoContext), s\<lparr>pb_calls := pb_calls s @ [PFetch (refRequest token demoContext ''bimo/x'') (Inr (demoRef ''bimo/x'' (CHR ''a'')))]\<rparr>)"
    and "findExistingPull p token demoContext d s
      = (Inr None, s\<lparr>pb_calls := pb_calls s @ [PFetch (listRequest token demoContext) (Inr (JArr []))]\<rparr>)"
    and "createPull p token demoContext title body d s
      = (Inr (normalizePull demoPull demoContext True False),
         s\<lparr>pb_calls := pb_calls s @ [PFetch (draftRequest token demoContext title body) (Inr demoPull)]\<rparr>)"
proof -
  show "readRemoteRef p token demoContext ''main'' d s
      = (Inr (gc_baseSha demoContext), s\<lparr>pb_calls := pb_calls s @ [PFetch (refRequest token demoContext ''main'') (Inr (demoRef ''main'' (CHR ''b'')))]\<rparr>)"
    unfolding readRemoteRef_def refRequest_def
    by (subst demo_answer [OF assms _ demo_plain(2) demo_fetches(1) [unfolded refRequest_def]]) (simp_all add: demo_refs)
  show "readRemoteRef p token demoContext ''bimo/x'' d s
      = (Inr (gc_headSha demoContext), s\<lparr>pb_calls := pb_calls s @ [PFetch (refRequest token demoContext ''bimo/x'') (Inr (demoRef ''bimo/x'' (CHR ''a'')))]\<rparr>)"
    unfolding readRemoteRef_def refRequest_def
    by (subst demo_answer [OF assms _ demo_plain(3) demo_fetches(2) [unfolded refRequest_def]]) (simp_all add: demo_refs)
  show "findExistingPull p token demoContext d s
      = (Inr None, s\<lparr>pb_calls := pb_calls s @ [PFetch (listRequest token demoContext) (Inr (JArr []))]\<rparr>)"
    unfolding findExistingPull_def listRequest_def
    by (subst demo_answer [OF assms _ demo_plain(4) demo_fetches(3) [unfolded listRequest_def]]) (simp_all add: existingPull_None)
  show "createPull p token demoContext title body d s
      = (Inr (normalizePull demoPull demoContext True False),
         s\<lparr>pb_calls := pb_calls s @ [PFetch (draftRequest token demoContext title body) (Inr demoPull)]\<rparr>)"
    unfolding createPull_draft draftRequest_def
    by (subst demo_answer [OF assms _ demo_plain(1) demo_fetches(4) [unfolded draftRequest_def]]) (simp_all add: demo_pull [OF assms(1)])
qed

lemma demo_inContext:
  assumes "likeDemo p" and "1 < d"
  shows "\<exists>s'. publishInContext p token demoContext title body d s = (Inr (normalizePull demoPull demoContext True False), s') \<and>
    pb_store s' = pb_store s"
  using demo_steps [OF assms]
  by (simp add: publishInContext_def demo_branches tryPub_def io_defs require_def)

lemma demo_publish:
  assumes "likeDemo p" and "validateTitle (JStr title) ''ghp_1'' = Inr title" and "validateBody (JStr body) ''ghp_1'' = Inr body"
  shows "\<exists>s'. publish p demoPublisher (demoPublish title body) s
    = (Inr (normalizePull demoPull demoContext True False), s') \<and> pb_store s' = pb_store s"
proof -
  have head: "validateBranch (JStr ''bimo/x'') ''headBranch'' = Inr ''bimo/x''" by code_simp
  have shas: "reSha1 (replicate 40 (CHR ''a''))" "reSha1 (replicate 40 (CHR ''b''))" by code_simp+
  have deadline: "validateDeadline p (num 9) s = (Inr 9, s)"
  proof -
    have "isSafeInteger (num 9)" "intOf (num 9) = 9" by code_simp+
    then show ?thesis using assms(1) by (simp add: validateDeadline_def usePub_def likeDemo_def io_defs require_def)
  qed
  obtain s' where run: "publishInContext p ''ghp_1'' demoContext title body 9 s = (Inr (normalizePull demoPull demoContext True False), s')"
    "pb_store s' = pb_store s" using demo_inContext [OF assms(1), of 9] by fastforce
  show ?thesis
    using run deadline assms(2,3)
    by (simp add: publish_def demoPublish_def head shas validateSha_def demoPublisher_def demoContext_def io_defs require_def bindR_def)
qed

theorem publish_drafts_once_witness:
  "\<exists>s' cs. publish demoGh demoPublisher (demoPublish ''Bimo run'' ''Draft.'') demoPub = (Inr (normalizePull demoPull demoContext True False), s') \<and>
     pb_calls s' = cs \<and> draftProtocol ''ghp_1'' (publishContext demoPublisher (demoPublish ''Bimo run'' ''Draft.'')) ''Bimo run'' ''Draft.'' cs \<and>
     cs \<noteq> []"
proof -
  have texts: "validateTitle (JStr ''Bimo run'') ''ghp_1'' = Inr ''Bimo run''" "validateBody (JStr ''Draft.'') ''ghp_1'' = Inr ''Draft.''"
    by (code_simp, simp add: validateBody_def maxBodyBytes_def, code_simp)
  have "likeDemo (demoGh :: unit ghPorts)" by (simp add: likeDemo_def demoGh_def)
  then obtain s' where run: "publish demoGh demoPublisher (demoPublish ''Bimo run'' ''Draft.'') demoPub
      = (Inr (normalizePull demoPull demoContext True False), s')"
    using demo_publish [OF _ texts] by blast
  then show ?thesis
    using publish_drafts_once [OF run] by (auto simp: demoPublish_def demoPublisher_def demoPub_def)
qed

end
