(* ===== verification/Publish_Safety.thy ===== *)
theory Publish_Safety
  imports Publish_Run GitHub_Publisher_Safety
begin

text \<open>
  What a publication does to the outside, in which order, and what it lets out: the calls of git, of GitHub and of the store in
  the order they are made, the credential on disk, and the redacted error messages.
\<close>

section \<open>Calls of the building blocks\<close>

lemma silent_inStore [silent_rules]: "silent pb_calls (inStore m)"
  by (rule silentI) (auto simp: inStore_def split: prod.splits)

lemma silent_try [silent_rules]: "silent pb_calls m \<Longrightarrow> silent pb_calls (tryPub m)"
  unfolding tryPub_def by (intro silent_rules)

lemma silent_files [silent_rules]:
  "silent pb_calls (statPub p path)" "silent pb_calls (faultPub p)" "silent pb_calls (ensurePrivateDirectory p target label)"
  unfolding statPub_def faultPub_def ensurePrivateDirectory_def by (intro silent_rules)+

lemma silent_quiet [silent_rules]: "silent pb_calls m \<Longrightarrow> silent pb_calls (quietPub m)"
  unfolding quietPub_def by (intro silent_rules)

lemma silent_finally: "silent pb_calls m \<Longrightarrow> silent pb_calls k \<Longrightarrow> silent pb_calls (finallyPub m k)"
  unfolding finallyPub_def by (intro silent_rules)

lemma silent_cleanup [silent_rules]:
  "silent pb_calls (cleanupPrivateSourceGitDir p target expected)" "silent pb_calls (cleanupAskpass p token k)"
  "silent pb_calls (createAskpass p token)"
  unfolding cleanupPrivateSourceGitDir_def cleanupAskpass_def createAskpass_def wipeToken_def Let_def
  by (intro silent_rules silent_finally)+

lemma logs_finally:
  assumes "logs pb_calls m R" and "silent pb_calls k" and "\<And>r e cs. R r cs \<Longrightarrow> R (Inl e) cs"
  shows "logs pb_calls (finallyPub m k) R"
proof -
  have k: "logs pb_calls (thenE k (liftR r)) (\<lambda>r' ds. R r' (cs @ ds))" if "R r cs" for r cs
    using that assms(3) by (intro logs_then_step assms(2) logs_basic) auto
  show ?thesis
    unfolding finallyPub_def by (rule logs_bind [OF logs_try [OF assms(1)]]) (auto intro: k)
qed

lemma logs_storePub: "logs pb_calls (storePub p a op) (\<lambda>r cs. cs = [PStore op r])"
proof -
  have quiet: "logs pb_calls (tryPub m) (\<lambda>r cs. cs = [] \<and> (\<exists>x. r = Inr x))" if "silent pb_calls m" for m :: "('a, jsval) pub"
    by (rule logs_weaken [OF logs_try [OF silent_logs [OF that]]]) auto
  show ?thesis
    unfolding storePub_def
    by (rule logs_bind [OF quiet [OF silent_inStore]])
       (auto intro!: logs_then [OF logs_logPub] logs_basic)
qed

definition gitAnswered :: "string list \<Rightarrow> jsval res \<Rightarrow> pubCall list \<Rightarrow> bool" where
  "gitAnswered args r cs \<longleftrightarrow>
     (case r of Inl _ \<Rightarrow> cs = [] \<or> (\<exists>out. cs = [PGit args out]) | Inr v \<Rightarrow> cs = [PGit args (Inr v)])"

lemma logs_runGit: "logs pb_calls (runGit p args env d) (gitAnswered args)"
  unfolding runGit_def Let_def
  by (intro logs_step [OF silent_usePub] logs_require logs_then [OF logs_logPub])
     (auto simp: gitAnswered_def intro!: logs_basic split: sum.splits)

section \<open>The protocol of a publication\<close>

definition revParseArgs :: "jsval \<Rightarrow> string list" where
  "revParseArgs input = fixedGitArgs (strOf (fld input ''sourceGitDir''))
     [''rev-parse'', ''--verify'', ''--end-of-options'', strOf (fld input ''candidateSha'') @ ''^{commit}'']"

definition lsRemoteArgs :: "jsval \<Rightarrow> string list" where
  "lsRemoteArgs input = fixedGitArgs (strOf (fld input ''sourceGitDir''))
     [''ls-remote'', ''--heads'', strOf (fld input ''repository''), headRef (strOf (fld input ''targetBranch'')), headRef (strOf (fld input ''headBranch''))]"

definition pushArgs :: "jsval \<Rightarrow> string list" where
  "pushArgs input = fixedGitArgs (strOf (fld input ''sourceGitDir''))
     [''push'', ''--porcelain'', ''--no-verify'', strOf (fld input ''repository''),
      strOf (fld input ''candidateSha'') @ '':'' @ headRef (strOf (fld input ''headBranch''))]"

text \<open>What the local repository and the remote answered: the candidate exists, the target branch is at the base, and where the
  head branch is.\<close>

definition localHas :: "jsval \<Rightarrow> jsval \<Rightarrow> bool" where
  "localHas input v \<longleftrightarrow> codeOk v \<and> trimEndStr (strOf (fld v ''stdout'')) = strOf (fld input ''candidateSha'')"

definition remoteAt :: "jsval \<Rightarrow> jsval \<Rightarrow> string option \<Rightarrow> bool" where
  "remoteAt input v head \<longleftrightarrow>
     codeOk v \<and> (\<exists>refs. parseRemoteRefs (strOf (fld v ''stdout'')) (strOf (fld input ''targetBranch'')) (strOf (fld input ''headBranch'')) = Inr refs \<and>
       map_of refs (headRef (strOf (fld input ''targetBranch''))) = Some (strOf (fld input ''baseSha'')) \<and>
       map_of refs (headRef (strOf (fld input ''headBranch''))) = head)"

text \<open>The git calls so far, and the git calls after which the candidate is on the head branch.\<close>

definition gitCalls :: "jsval \<Rightarrow> pubCall list \<Rightarrow> bool" where
  "gitCalls input gs \<longleftrightarrow>
     gs = [] \<or> (\<exists>out. gs = [PGit (revParseArgs input) out]) \<or>
     (\<exists>v out. gs = [PGit (revParseArgs input) (Inr v), PGit (lsRemoteArgs input) out] \<and> localHas input v) \<or>
     (\<exists>v w out. gs = [PGit (revParseArgs input) (Inr v), PGit (lsRemoteArgs input) (Inr w), PGit (pushArgs input) out] \<and>
        localHas input v \<and> remoteAt input w None)"

definition candidateThere :: "jsval \<Rightarrow> pubCall list \<Rightarrow> bool" where
  "candidateThere input gs \<longleftrightarrow>
     (\<exists>v w. localHas input v \<and>
        (gs = [PGit (revParseArgs input) (Inr v), PGit (lsRemoteArgs input) (Inr w)] \<and>
           remoteAt input w (Some (strOf (fld input ''candidateSha''))) \<or>
         (\<exists>x. gs = [PGit (revParseArgs input) (Inr v), PGit (lsRemoteArgs input) (Inr w), PGit (pushArgs input) (Inr x)] \<and>
            remoteAt input w None \<and> codeOk x)))"

lemma candidateThere_calls: "candidateThere input gs \<Longrightarrow> gitCalls input gs"
  unfolding candidateThere_def gitCalls_def by blast

lemma logs_checkLocal:
  "logs pb_calls (checkLocal p input) (\<lambda>r cs. case r of
     Inl _ \<Rightarrow> cs = [] \<or> (\<exists>out. cs = [PGit (revParseArgs input) out])
   | Inr _ \<Rightarrow> \<exists>v. cs = [PGit (revParseArgs input) (Inr v)] \<and> localHas input v)"
  unfolding checkLocal_def Let_def candidateCommit_def revParseArgs_def [symmetric]
  by (rule logs_bind [OF logs_runGit])
     (auto simp: gitAnswered_def localHas_def require_def intro!: logs_basic split: sum.splits)

definition pushOutcome :: "jsval \<Rightarrow> pubCall list \<Rightarrow> unit res \<Rightarrow> pubCall list \<Rightarrow> bool" where
  "pushOutcome input pre r cs \<longleftrightarrow> gitCalls input (pre @ cs) \<and> (\<forall>x. r = Inr x \<longrightarrow> candidateThere input (pre @ cs))"

lemma logs_push:
  assumes "localHas input v" and "remoteAt input w None"
  shows "logs pb_calls (bindE (runGit p (pushArgs input) env d) (\<lambda>pushed. liftR (require (codeOk pushed) msg)))
    (pushOutcome input [PGit (revParseArgs input) (Inr v), PGit (lsRemoteArgs input) (Inr w)])"
  by (rule logs_bind [OF logs_runGit])
     (use assms in \<open>auto simp: gitAnswered_def pushOutcome_def gitCalls_def candidateThere_def require_def intro!: logs_basic
        split: sum.splits\<close>)

lemma logs_pushCandidate:
  assumes "localHas input v"
  shows "logs pb_calls (pushCandidate p input env) (pushOutcome input [PGit (revParseArgs input) (Inr v)])"
proof -
  let ?pre = "[PGit (revParseArgs input) (Inr v)]"
  have failed: "pushOutcome input ?pre (Inl e) cs" if "cs = [] \<or> (\<exists>out. cs = [PGit (lsRemoteArgs input) out])" for e cs
    using that assms by (auto simp: pushOutcome_def gitCalls_def)
  have there: "pushOutcome input ?pre r [PGit (lsRemoteArgs input) (Inr w)]"
    if "remoteAt input w (Some (strOf (fld input ''candidateSha'')))" for r w
    using that assms by (auto simp: pushOutcome_def gitCalls_def candidateThere_def)
  have push: "logs pb_calls (bindE (runGit p (pushArgs input) env d) (\<lambda>pushed. liftR (require (codeOk pushed) msg)))
      (\<lambda>r ds. pushOutcome input ?pre r (PGit (lsRemoteArgs input) (Inr w) # ds))" if "remoteAt input w None" for d msg w
    by (rule logs_weaken [OF logs_push [OF assms that]]) (simp add: pushOutcome_def)
  have head: "logs pb_calls (liftR (require (sha = strOf (fld input ''candidateSha'')) msg))
      (\<lambda>r ds. pushOutcome input ?pre r (PGit (lsRemoteArgs input) (Inr w) # ds))" if "remoteAt input w (Some sha)" for sha msg w
    using that there [of w] failed by (intro logs_basic) (auto simp: require_def)
  show ?thesis
    unfolding pushCandidate_def Let_def lsRemoteArgs_def [symmetric] pushArgs_def [symmetric]
    by (rule logs_bind [OF logs_runGit])
       (auto simp: gitAnswered_def remoteAt_def split: option.splits intro!: failed logs_require logs_bind_res push head)
qed

text \<open>The requests to GitHub, and the two operations on the store that record the publication.\<close>

definition requested :: "'w pubPorts \<Rightarrow> jsval \<Rightarrow> pubCall list \<Rightarrow> bool" where
  "requested p input fs \<longleftrightarrow>
     (\<exists>g. createGitHubPublisher p (fld input ''repository'') (fld input ''targetBranch'') (fld input ''token'') = Inr g \<and>
        draftProtocol (gp_token g) (publishContext g (pullInput input))
          (''Bimo run '' @ toStr (fld input ''runId'')) (''Automated draft pull request for Bimo run '' @ toStr (fld input ''runId'') @ ''.'') fs \<and>
        list_all (toRepository (publishContext g (pullInput input))) fs)"

definition finishCall :: "jsval \<Rightarrow> jsval \<Rightarrow> jsval res \<Rightarrow> pubCall" where
  "finishCall input publication out = PStore (Finish ''completed'' (finishDetails input publication)) out"

definition recordCall :: "jsval \<Rightarrow> jsval \<Rightarrow> jsval res \<Rightarrow> pubCall" where
  "recordCall input publication out = PStore (AppendEvent ''publication.finished'' (JObj (bindingOf input publication))) out"

definition recorded :: "jsval \<Rightarrow> jsval \<Rightarrow> pubCall list \<Rightarrow> bool" where
  "recorded input publication ss \<longleftrightarrow>
     (\<exists>x. ss = [recordCall input publication x]) \<or>
     (\<exists>v y. ss = [recordCall input publication (Inr v), finishCall input publication y])"

definition freshCalls :: "'w pubPorts \<Rightarrow> jsval \<Rightarrow> pubCall list \<Rightarrow> bool" where
  "freshCalls p input cs \<longleftrightarrow>
     (\<exists>gs fs ss. cs = gs @ fs @ ss \<and> gitCalls input gs \<and>
        (fs \<noteq> [] \<longrightarrow> candidateThere input gs \<and> requested p input fs) \<and>
        (ss \<noteq> [] \<longrightarrow> fs \<noteq> [] \<and> (\<exists>publication. publicationReceipt p publication input = Inr publication \<and> recorded input publication ss)))"

definition finishedWith :: "'w pubPorts \<Rightarrow> jsval \<Rightarrow> pubCall list \<Rightarrow> jsval \<Rightarrow> bool" where
  "finishedWith p input cs result \<longleftrightarrow>
     (\<exists>publication. result = publishedResult input publication \<and> publicationReceipt p publication input = Inr publication \<and>
        (cs = [] \<or> (\<exists>v. last cs = finishCall input publication (Inr v))))"

definition publicationOutcome :: "'w pubPorts \<Rightarrow> jsval \<Rightarrow> jsval res \<Rightarrow> pubCall list \<Rightarrow> bool" where
  "publicationOutcome p input r cs \<longleftrightarrow>
     (freshCalls p input cs \<or>
      (\<exists>publication y. cs = [finishCall input publication y] \<and> publicationReceipt p publication input = Inr publication)) \<and>
     (\<forall>result. r = Inr result \<longrightarrow> finishedWith p input cs result)"

lemma publicationReceipt_same: "publicationReceipt p v input = Inr w \<Longrightarrow> w = v"
  unfolding publicationReceipt_def Let_def bindR_def by (auto split: sum.splits if_splits option.splits prod.splits)

lemma fresh_git: "gitCalls input gs \<Longrightarrow> publicationOutcome p input (Inl e) gs"
  unfolding publicationOutcome_def freshCalls_def by (rule conjI, rule disjI1, rule exI [of _ gs]) simp_all

lemma fresh_requests:
  "candidateThere input gs \<Longrightarrow> requested p input fs \<Longrightarrow> publicationOutcome p input (Inl e) (gs @ fs)"
  unfolding publicationOutcome_def freshCalls_def
  by (rule conjI, rule disjI1, rule exI [of _ gs], rule exI [of _ fs], rule exI [of _ "[]"]) (simp_all add: candidateThere_calls)

lemma fresh_records:
  assumes "candidateThere input gs" and "requested p input fs" and "fs \<noteq> []"
    and "publicationReceipt p publication input = Inr publication" and "recorded input publication ss"
  shows "freshCalls p input (gs @ fs @ ss)"
  unfolding freshCalls_def
  by (intro exI [of _ gs] exI [of _ fs] exI [of _ ss]) (use assms candidateThere_calls in blast)

lemma logs_recording:
  assumes "candidateThere input gs" and "requested p input fs" and "fs \<noteq> []"
    and "publicationReceipt p publication input = Inr publication"
  shows "logs pb_calls (recordPublication p a input dir publication) (\<lambda>r ss. publicationOutcome p input r (gs @ fs @ ss))"
proof -
  have calls: "publicationOutcome p input (Inl e) (gs @ fs @ ss)" if "recorded input publication ss" for e ss
    using fresh_records [OF assms that] by (simp add: publicationOutcome_def)
  have finished: "publicationOutcome p input (Inr (publishedResult input publication))
      (gs @ fs @ [recordCall input publication (Inr v), finishCall input publication (Inr w)])" for v w
    using fresh_records [OF assms, of "[recordCall input publication (Inr v), finishCall input publication (Inr w)]"] assms(4)
    by (auto simp: publicationOutcome_def recorded_def finishedWith_def)
  have finish: "logs pb_calls
      (thenE (storePub p a (Finish ''completed'' (finishDetails input publication)))
        (thenE (cleanupPrivateSourceGitDir p source dir) (ret (publishedResult input publication))))
      (\<lambda>r ds. publicationOutcome p input r (gs @ fs @ [recordCall input publication (Inr v)] @ ds))" for v source
  proof (rule logs_then [OF logs_storePub])
    fix e cs assume "cs = [PStore (Finish ''completed'' (finishDetails input publication)) (Inl e)]"
    then show "publicationOutcome p input (Inl e) (gs @ fs @ [recordCall input publication (Inr v)] @ cs)"
      by (intro calls) (auto simp: recorded_def finishCall_def)
  next
    fix x cs assume "cs = [PStore (Finish ''completed'' (finishDetails input publication)) (Inr x)]"
    then show "logs pb_calls (thenE (cleanupPrivateSourceGitDir p source dir) (ret (publishedResult input publication)))
        (\<lambda>r ds. publicationOutcome p input r (gs @ fs @ [recordCall input publication (Inr v)] @ cs @ ds))"
      using finished [of v x]
      by (intro logs_then_step silent_cleanup logs_basic calls) (auto simp: recorded_def finishCall_def)
  qed
  show ?thesis
    unfolding recordPublication_def
    by (rule logs_then [OF logs_storePub])
       (use calls finish in \<open>auto simp: recorded_def recordCall_def [symmetric]\<close>)
qed

lemma logs_publishPushed:
  assumes "candidateThere input gs"
  shows "logs pb_calls (publishPushed p a input dir) (\<lambda>r fs. publicationOutcome p input r (gs @ fs))"
  unfolding publishPushed_def
proof (rule logs_bind_res)
  fix e show "publicationOutcome p input (Inl e) (gs @ [])"
    using fresh_git [OF candidateThere_calls [OF assms]] by simp
next
  fix g assume g: "createGitHubPublisher p (fld input ''repository'') (fld input ''targetBranch'') (fld input ''token'') = Inr g"
  let ?D = "drafted p (gp_token g) (publishContext g (pullInput input)) (strOf (fld (pullInput input) ''title'')) (strOf (fld (pullInput input) ''body''))"
  have texts: "strOf (fld (pullInput input) ''title'') = ''Bimo run '' @ toStr (fld input ''runId'')"
    "strOf (fld (pullInput input) ''body'') = ''Automated draft pull request for Bimo run '' @ toStr (fld input ''runId'') @ ''.''"
    by (simp_all add: pullInput_def Let_def)
  have requested: "requested p input fs" if "?D r fs" for r fs
    using that g unfolding requested_def drafted_def texts by blast
  show "logs pb_calls (bindE (publish p g (pullInput input)) (\<lambda>raw. bindE (liftR (publicationReceipt p raw input)) (recordPublication p a input dir)))
    (\<lambda>r fs. publicationOutcome p input r (gs @ fs))"
  proof (rule logs_bind [OF logs_publish])
    fix e fs assume "?D (Inl e) fs"
    then show "publicationOutcome p input (Inl e) (gs @ fs)" by (intro fresh_requests assms requested)
  next
    fix raw fs assume drafted: "?D (Inr raw) fs"
    then have "fs \<noteq> []" by (auto simp: drafted_def confirmed_def)
    with requested [OF drafted] show "logs pb_calls (bindE (liftR (publicationReceipt p raw input)) (recordPublication p a input dir))
        (\<lambda>r ss. publicationOutcome p input r (gs @ fs @ ss))"
      by (intro logs_bind_res logs_recording assms)
         (auto intro: fresh_requests [OF assms] dest: publicationReceipt_same)
  qed
qed

lemma no_calls: "publicationOutcome p input (Inl e) []"
  by (rule fresh_git) (simp add: gitCalls_def)

lemma logs_pushing:
  assumes "localHas input v"
  shows "logs pb_calls
    (thenE (finallyPub (pushCandidate p input env) (cleanupAskpass p token k)) (publishPushed p a input dir))
    (\<lambda>r cs. publicationOutcome p input r (PGit (revParseArgs input) (Inr v) # cs))"
proof (rule logs_then [OF logs_finally [OF logs_pushCandidate [OF assms] silent_cleanup(2)]])
  fix x cs assume "pushOutcome input [PGit (revParseArgs input) (Inr v)] (Inr x) cs"
  then have "candidateThere input (PGit (revParseArgs input) (Inr v) # cs)" by (simp add: pushOutcome_def)
  from logs_publishPushed [OF this] show "logs pb_calls (publishPushed p a input dir)
      (\<lambda>r ds. publicationOutcome p input r (PGit (revParseArgs input) (Inr v) # cs @ ds))" by simp
qed (auto simp: pushOutcome_def intro: fresh_git)

lemma logs_publishFresh: "logs pb_calls (publishFresh p a input) (publicationOutcome p input)"
  unfolding publishFresh_def Let_def
proof (intro logs_step [OF silent_files(3)] no_calls)
  fix dir
  show "logs pb_calls (thenE (checkLocal p input) (bindE (createAskpass p (strOf (fld input ''token''))) (\<lambda>askpass.
      thenE (finallyPub (pushCandidate p input (askpassEnv p askpass)) (cleanupAskpass p (strOf (fld input ''token'')) askpass))
        (publishPushed p a input dir)))) (publicationOutcome p input)"
    by (rule logs_then [OF logs_checkLocal])
       (auto intro!: logs_step [OF silent_cleanup(3)] logs_pushing fresh_git simp: gitCalls_def)
qed

section \<open>The whole publication\<close>

lemma completedResult_bound:
  assumes "completedResult p v input = Inr result"
  shows "\<exists>publication. result = publishedResult input publication \<and> publicationReceipt p publication input = Inr publication"
proof -
  from assms obtain receipt where "publicationReceipt p (fld v ''publication'') input = Inr receipt" "result = publishedResult input receipt"
    by (auto simp: completedResult_def res_simps)
  then show ?thesis using publicationReceipt_same by metis
qed

lemma logs_alreadyPublished: "logs pb_calls (alreadyPublished p input run events) (publicationOutcome p input)"
proof -
  have completed: "publicationOutcome p input (Inr fromRun) []" if "completedResult p run input = Inr fromRun" for fromRun
    using no_calls [of p input "[]"] completedResult_bound [OF that] by (auto simp: publicationOutcome_def finishedWith_def)
  show ?thesis
    unfolding alreadyPublished_def Let_def
    by (intro logs_then_step logs_bind_res logs_step silent_rules no_calls logs_basic completed)
qed

lemma logs_resume: "logs pb_calls (resumePublication p a input events e) (publicationOutcome p input)"
proof -
  have finish: "logs pb_calls
      (thenE (storePub p a (Finish ''completed'' (finishDetails input publication))) (thenE (cleanupPrivateSourceGitDir p source None) (ret result)))
      (publicationOutcome p input)"
    if "result = publishedResult input publication" "publicationReceipt p publication input = Inr publication" for result publication source
    by (rule logs_then [OF logs_storePub])
       (use that in \<open>auto intro!: logs_then_step silent_rules logs_basic simp: publicationOutcome_def finishedWith_def finishCall_def\<close>)
  have field: "fld (publishedResult input publication) ''publication'' = publication" for publication
    by (simp add: publishedResult_def bindingOf_def bindingFields_def)
  show ?thesis
    unfolding resumePublication_def
    by (intro logs_require logs_bind_res no_calls) (use finish completedResult_bound field in fastforce)
qed

lemma logs_publishRunInternal: "logs pb_calls (publishRunInternal p input) (publicationOutcome p input)"
proof -
  have "silent pb_calls (strictInput p input)"
    unfolding strictInput_def Let_def by (intro silent_rules)
  then show ?thesis
    unfolding publishRunInternal_def Let_def
    by (intro logs_then_step logs_step silent_rules no_calls)
       (auto intro!: logs_then_step logs_alreadyPublished logs_resume logs_publishFresh silent_rules no_calls split: list.splits)
qed


end
