(* ===== verification/Publish_Secrets.thy ===== *)
theory Publish_Secrets
  imports Publish_Safety Pod_Store_Prune
begin

text \<open>
  What becomes of the token of a publication: the temporary credential on disk is gone when git has run, however git ended,
  and no error message of a publication carries it.
\<close>

section \<open>Redaction\<close>

text \<open>The three ways the text goes on.\<close>

lemma redact_cases:
  assumes "token \<noteq> []"
  obtains (ends) "message = []" "redact token message = []"
    | (found) rest where "message = token @ rest" "redact token message = ''[REDACTED]'' @ redact token rest"
    | (other) c rest where "message = c # rest" "\<not> prefix token message" "redact token message = c # redact token rest"
proof (cases "message = []")
  case True
  then show thesis by (intro ends) (simp_all add: redact.simps [of token "[]"])
next
  case False
  note unfolded = redact.simps [of token message] assms False
  show thesis
  proof (cases "prefix token message")
    case True
    then obtain rest where "message = token @ rest" by (auto simp: prefix_def)
    with unfolded True show thesis by (intro found) simp_all
  next
    case no: False
    obtain c rest where "message = c # rest" using False by (cases message) auto
    with unfolded no show thesis by (intro other) simp_all
  qed
qed

lemma redact_prefix:
  assumes "token \<noteq> []"
  shows "CHR ''['' \<notin> set xs \<Longrightarrow> prefix xs (redact token message) \<Longrightarrow> prefix xs message"
proof (induction "length message" arbitrary: message xs rule: less_induct)
  case less
  show ?case using assms
  proof (cases rule: redact_cases [of token message])
    case (other c rest)
    with less show ?thesis by (cases xs) auto
  qed (use less in \<open>auto simp: prefix_Cons\<close>)
qed

text \<open>An occurrence that would reach into the replacement would contain one of its brackets.\<close>

lemma sublist_straddle:
  assumes "sublist xs (ys @ zs)" and "ys \<noteq> []" and "last ys \<notin> set xs"
  shows "sublist xs ys \<or> sublist xs zs"
proof -
  consider "sublist xs ys" | "sublist xs zs" | us vs where "xs = us @ vs" "suffix us ys" "prefix vs zs"
    using assms(1) unfolding sublist_append by blast
  then show ?thesis
  proof cases
    case 3
    then have "us = []"
      using assms(2,3) by (cases us rule: rev_cases) (auto simp: suffix_def)
    with 3 show ?thesis using prefix_imp_sublist by auto
  qed auto
qed

lemma sublist_inside:
  assumes "sublist xs (a # ys @ [z])" and "a \<notin> set xs" and "z \<notin> set xs"
  shows "sublist xs ys"
proof (cases "xs = []")
  case False
  obtain us vs where eq: "a # ys @ [z] = us @ xs @ vs" using assms(1) by (auto simp: sublist_def)
  have "us \<noteq> []" using eq False assms(2) by (cases us; cases xs) auto
  then obtain us' where us: "us = a # us'" using eq by (cases us) auto
  have "vs \<noteq> []" using eq False assms(3) us by (cases xs rule: rev_cases) auto
  then obtain vs' where "vs = vs' @ [z]" using eq us by (cases vs rule: rev_cases) auto
  with eq us show ?thesis by (auto simp: sublist_def)
qed simp

lemma redacted_no_bracket:
  "sublist xs ''[REDACTED]'' \<Longrightarrow> CHR ''['' \<notin> set xs \<Longrightarrow> CHR '']'' \<notin> set xs \<Longrightarrow> sublist xs ''REDACTED''"
  using sublist_inside [of xs "CHR ''[''" "''REDACTED''" "CHR '']''"] by simp

lemma redact_free:
  assumes "token \<noteq> []" and "CHR ''['' \<notin> set token" and "CHR '']'' \<notin> set token" and "\<not> sublist token ''REDACTED''"
  shows "\<not> sublist token (redact token message)"
proof (induction "length message" arbitrary: message rule: less_induct)
  case less
  show ?case using assms(1)
  proof (cases rule: redact_cases [of token message])
    case ends
    then show ?thesis using assms(1) by simp
  next
    case (found rest)
    then have "\<not> sublist token (redact token rest)" using less assms(1) by simp
    then show ?thesis
      using sublist_straddle [of token "''[REDACTED]''" "redact token rest"] redacted_no_bracket [OF _ assms(2,3)] assms(3,4) found
      by auto
  next
    case (other c rest)
    then have "\<not> sublist token (redact token rest)" using less by simp
    moreover have "\<not> prefix token (redact token message)" using redact_prefix [OF assms(1,2)] other by blast
    ultimately show ?thesis using other by (simp add: sublist_Cons_right)
  qed
qed

lemma receipt_hides_token:
  "publicationReceipt p v input = Inr w \<Longrightarrow> \<not> sublist (strOf (fld input ''token'')) (stringify w)"
  unfolding publicationReceipt_def Let_def bindR_def by (auto split: sum.splits if_splits option.splits prod.splits)


section \<open>The credential on disk\<close>

definition fsOf :: "'w pubState \<Rightarrow> string \<Rightarrow> node option" where
  "fsOf s = Mapping.lookup (sys_fs (pb_store s))"

definition hasFs :: "(string \<Rightarrow> node option) \<Rightarrow> 'w pubState \<Rightarrow> bool" where
  "hasFs F s \<longleftrightarrow> fsOf s = F"

definition without :: "string \<Rightarrow> (string \<Rightarrow> node option) \<Rightarrow> string \<Rightarrow> node option" where
  "without path F q = (if underPath path q then None else F q)"

lemma hasFs_keeps [keeps_rules]: "keeps (hasFs F) (usePub f)" "keeps (hasFs F) (logPub c)"
  by (rule keepsI, auto simp: usePub_def logPub_def hasFs_def fsOf_def split: prod.splits)+

lemma keeps_runGit [keeps_rules]: "keeps (hasFs F) (runGit p args env d)"
  unfolding runGit_def Let_def by (intro keeps_rules)

lemma keeps_pushCandidate: "keeps (hasFs F) (pushCandidate p input env)"
  unfolding pushCandidate_def Let_def by (intro keeps_rules keeps_option)

text \<open>The steps on a disk that does not fail.\<close>

lemma faultless_point: "faultless f \<Longrightarrow> \<exists>w. faultPoint f s = (Inr (), s\<lparr>sys_world := w\<rparr>)"
  using faultPoint_faultless [of f s] by (cases "faultPoint f s") auto

lemma stat_triple:
  fixes p :: "'w pubPorts"
  assumes "faultless (pubFault p)"
  shows "triple (hasFs F) (statPub p path) E (\<lambda>x s. x = F path \<and> hasFs F s)"
proof (rule tripleI)
  fix s :: "'w pubState" assume F: "hasFs F s"
  obtain w where "faultPoint (pubFault p) (pb_store s) = (Inr (), (pb_store s)\<lparr>sys_world := w\<rparr>)"
    using faultless_point [OF assms] by blast
  then show "case statPub p path s of (Inl e, s') \<Rightarrow> E e s' | (Inr x, s') \<Rightarrow> x = F path \<and> hasFs F s'"
    using F by (auto simp: statPub_def inStore_def lstatOrNull_def io_defs hasFs_def fsOf_def)
qed

lemma fault_triple:
  fixes p :: "'w pubPorts"
  assumes "faultless (pubFault p)"
  shows "triple (hasFs F) (faultPub p) E (\<lambda>_. hasFs F)"
proof (rule tripleI)
  fix s :: "'w pubState" assume F: "hasFs F s"
  obtain w where "faultPoint (pubFault p) (pb_store s) = (Inr (), (pb_store s)\<lparr>sys_world := w\<rparr>)"
    using faultless_point [OF assms] by blast
  then show "case faultPub p s of (Inl e, s') \<Rightarrow> E e s' | (Inr x, s') \<Rightarrow> hasFs F s'"
    using F by (auto simp: faultPub_def inStore_def hasFs_def fsOf_def)
qed

lemma create_triple:
  fixes p :: "'w pubPorts"
  assumes "faultless (pubFault p)" and "F path = None"
  shows "triple (hasFs F) (inStore (createNew (pubFault p) path n)) E (\<lambda>_. hasFs (F(path \<mapsto> n)))"
proof (rule tripleI)
  fix s :: "'w pubState" assume F: "hasFs F s"
  obtain w where "faultPoint (pubFault p) (pb_store s) = (Inr (), (pb_store s)\<lparr>sys_world := w\<rparr>)"
    using faultless_point [OF assms(1)] by blast
  then show "case inStore (createNew (pubFault p) path n) s of (Inl e, s') \<Rightarrow> E e s' | (Inr x, s') \<Rightarrow> hasFs (F(path \<mapsto> n)) s'"
    using F assms(2) by (auto simp: createNew_def inStore_def io_defs hasFs_def fsOf_def putNode_def lookup_update' intro!: ext)
qed

lemma remove_triple:
  fixes p :: "'w pubPorts"
  assumes "faultless (pubFault p)"
  shows "triple (hasFs F) (inStore (removeTree (pubFault p) path)) E (\<lambda>_. hasFs (without path F))"
proof (rule tripleI)
  fix s :: "'w pubState" assume F: "hasFs F s"
  obtain w where "removeTree (pubFault p) path (pb_store s) =
      (Inr (), (pb_store s)\<lparr>sys_world := w, sys_fs := Mapping.filter (\<lambda>k _. \<not> underPath path k) (sys_fs (pb_store s))\<rparr>)"
    using removeTree_faultless [OF assms] by blast
  then show "case inStore (removeTree (pubFault p) path) s of (Inl e, s') \<Rightarrow> E e s' | (Inr x, s') \<Rightarrow> hasFs (without path F) s'"
    using F by (auto simp: inStore_def hasFs_def fsOf_def without_def lookup_filter_key intro!: ext)
qed

lemma wipe_triple:
  fixes p :: "'w pubPorts"
  assumes "faultless (pubFault p)"
  shows "triple (hasFs F) (wipeToken p token k) E (\<lambda>_ s. \<exists>n. hasFs (F(ak_tokenFile k := n)) s)"
proof -
  have overwrite: "triple (hasFs F) (inStore (thenE (faultPoint (pubFault p)) (modS (\<lambda>s. putNode (ak_tokenFile k) (g s) s)))) E
      (\<lambda>_ s. \<exists>n. hasFs (F(ak_tokenFile k := n)) s)" for g
  proof (rule tripleI)
    fix s :: "'w pubState" assume F: "hasFs F s"
    obtain w where "faultPoint (pubFault p) (pb_store s) = (Inr (), (pb_store s)\<lparr>sys_world := w\<rparr>)"
      using faultless_point [OF assms] by blast
    then show "case inStore (thenE (faultPoint (pubFault p)) (modS (\<lambda>s. putNode (ak_tokenFile k) (g s) s))) s of
        (Inl e, s') \<Rightarrow> E e s' | (Inr x, s') \<Rightarrow> \<exists>n. hasFs (F(ak_tokenFile k := n)) s'"
      using F by (auto simp: inStore_def io_defs hasFs_def fsOf_def putNode_def lookup_update' fun_upd_def intro!: ext)
  qed
  have same: "F(ak_tokenFile k := F (ak_tokenFile k)) = F" by simp
  show ?thesis
    unfolding wipeToken_def
    by (rule triple_bind [OF stat_triple [OF assms]])
       (auto intro!: triple_pure overwrite triple_basic simp del: fun_upd_apply, metis same)
qed

definition emptied :: "string \<Rightarrow> (string \<Rightarrow> node option) \<Rightarrow> string \<Rightarrow> node option" where
  "emptied root F = (if isDirNode (F root) \<and> {q. underPath root q \<and> F q \<noteq> None} = {root} then F(root := None) else F)"

lemma rmdir_triple:
  fixes p :: "'w pubPorts"
  assumes "faultless (pubFault p)"
  shows "triple (hasFs F) (quietPub (inStore (rmdirEmpty (pubFault p) root))) E (\<lambda>_. hasFs (emptied root F))"
proof (rule tripleI)
  fix s :: "'w pubState" assume F: "hasFs F s"
  obtain w where "faultPoint (pubFault p) (pb_store s) = (Inr (), (pb_store s)\<lparr>sys_world := w\<rparr>)"
    using faultless_point [OF assms] by blast
  moreover have "Mapping.keys (Mapping.filter (\<lambda>k _. underPath root k) (sys_fs (pb_store s))) = {q. underPath root q \<and> F q \<noteq> None}"
    using F by (auto simp: keys_dom_lookup dom_def lookup_filter_key hasFs_def fsOf_def split: if_splits)
  ultimately show "case quietPub (inStore (rmdirEmpty (pubFault p) root)) s of (Inl e, s') \<Rightarrow> E e s' | (Inr x, s') \<Rightarrow> hasFs (emptied root F) s'"
    using F by (auto simp: quietPub_def inStore_def rmdirEmpty_def io_defs hasFs_def fsOf_def emptied_def lookup_delete fun_upd_def intro!: ext)
qed

lemma underPath_trans: "underPath a b \<Longrightarrow> underPath b c \<Longrightarrow> underPath a c"
  by (auto simp: underPath_def prefix_def)

lemma triple_finally:
  assumes "triple P m A B" and "\<And>e. triple (A e) k E (\<lambda>_. E e)" and "\<And>x. triple (B x) k E (\<lambda>_. Q x)"
  shows "triple P (finallyPub m k) E Q"
proof -
  have "triple P (tryPub m) E (\<lambda>r s. case r of Inl e \<Rightarrow> A e s | Inr x \<Rightarrow> B x s)"
    unfolding tryPub_def
    by (rule triple_catch [where F = A], rule triple_bind [OF assms(1)]) (auto intro: triple_basic)
  then show ?thesis
    unfolding finallyPub_def
  proof (rule triple_bind)
    fix r show "triple (\<lambda>s. case r of Inl e \<Rightarrow> A e s | Inr x \<Rightarrow> B x s) (thenE k (liftR r)) E Q"
      using assms(2,3) by (cases r) (auto intro!: triple_then triple_basic)
  qed
qed

lemma cleanup_triple:
  fixes p :: "'w pubPorts"
  assumes "faultless (pubFault p)" and "underPath (ak_directory k) (ak_home k)" and "underPath (ak_directory k) (ak_tokenFile k)"
  shows "triple (hasFs F) (cleanupAskpass p token k) E
    (\<lambda>_. hasFs (if ak_freshRoot k then emptied (pb_askpassRoot p) (without (ak_directory k) F) else without (ak_directory k) F))"
proof -
  have removed: "without (ak_directory k) (without (ak_home k) (without (ak_tokenFile k) (F(ak_tokenFile k := n)))) = without (ak_directory k) F"
    for n using assms(2,3) underPath_trans by (auto simp: without_def fun_eq_iff)
  have tidy: "triple (\<lambda>s. \<exists>n. hasFs (F(ak_tokenFile k := n)) s)
     (thenE (inStore (removeTree (pubFault p) (ak_tokenFile k)))
     (thenE (inStore (removeTree (pubFault p) (ak_home k)))
     (thenE (inStore (removeTree (pubFault p) (ak_directory k)))
     (if ak_freshRoot k then quietPub (inStore (rmdirEmpty (pubFault p) (pb_askpassRoot p))) else ret ())))) E
     (\<lambda>_. hasFs (if ak_freshRoot k then emptied (pb_askpassRoot p) (without (ak_directory k) F) else without (ak_directory k) F))"
    by (intro triple_all triple_then [OF remove_triple [OF assms(1)]])
       (auto simp: removed intro!: rmdir_triple [OF assms(1)] triple_basic)
  show ?thesis
    unfolding cleanupAskpass_def
    by (rule triple_finally [OF wipe_triple [OF assms(1), where E = "\<lambda>_ _. False"]]) (simp_all add: triple_def [of "\<lambda>_. False"] tidy)
qed

text \<open>The directory of a new credential: a name of its own in the credential root, with nothing there yet.\<close>

definition freshTemp :: "'w pubPorts \<Rightarrow> (string \<Rightarrow> node option) \<Rightarrow> bool" where
  "freshTemp p F \<longleftrightarrow>
     (\<forall>w. \<exists>name. properName name \<and> fst (pb_mkdtemp p (pathJoin (pb_askpassRoot p) ''credential-'') w) = pb_askpassRoot p @ ''/'' @ name \<and>
        (\<forall>q. underPath (pb_askpassRoot p @ ''/'' @ name) q \<longrightarrow> F q = None))"

definition heldFs :: "'w pubPorts \<Rightarrow> (string \<Rightarrow> node option) \<Rightarrow> askpass \<Rightarrow> (string \<Rightarrow> node option) \<Rightarrow> bool" where
  "heldFs p F k G \<longleftrightarrow>
     (let root = pb_askpassRoot p; d = ak_directory k in
      (\<exists>name. properName name \<and> d = root @ ''/'' @ name) \<and> ak_home k = d @ ''/home'' \<and> ak_tokenFile k = d @ ''/token'' \<and>
      ak_freshRoot k = (F root = None) \<and> (\<forall>q. underPath d q \<longrightarrow> F q = None) \<and>
      (\<forall>q. \<not> underPath d q \<longrightarrow> G q = (if q = root \<and> F root = None then Some (NDir 448 0) else F q)))"

definition holds :: "'w pubPorts \<Rightarrow> (string \<Rightarrow> node option) \<Rightarrow> askpass \<Rightarrow> 'w pubState \<Rightarrow> bool" where
  "holds p F k s \<longleftrightarrow> heldFs p F k (fsOf s)"

lemma not_under_child: "\<not> underPath (d @ CHR ''/'' # x) d"
  by (auto simp: underPath_def prefix_def)

lemma created_triple:
  fixes p :: "'w pubPorts"
  assumes ok: "faultless (pubFault p)" and root: "absDir (pb_askpassRoot p)" and fresh: "freshTemp p F"
    and G: "G = (if F (pb_askpassRoot p) = None then F(pb_askpassRoot p \<mapsto> NDir 448 0) else F)"
    and d: "directory = fst (pb_mkdtemp p (pathJoin (pb_askpassRoot p) ''credential-'') w)"
  shows "triple (hasFs G)
     (let home = pathJoin directory ''home''; tokenFile = pathJoin directory ''token'' in
        thenE (inStore (createNew (pubFault p) directory (NDir 448 0)))
        (thenE (faultPub p)
        (thenE (inStore (createNew (pubFault p) home (NDir 448 0)))
        (thenE (inStore (createNew (pubFault p) tokenFile (NFile 384 content)))
        (thenE (faultPub p)
        (ret \<lparr>ak_directory = directory, ak_home = home, ak_tokenFile = tokenFile, ak_freshRoot = (F (pb_askpassRoot p) = None)\<rparr>))))))
     E (holds p F)"
proof -
  obtain name where name: "properName name" "directory = pb_askpassRoot p @ ''/'' @ name" "\<And>q. underPath directory q \<Longrightarrow> F q = None"
    using fresh unfolding freshTemp_def d by metis
  have abs: "absDir directory" using absDir_join [OF root name(1)] name(2) by simp
  have proper: "properName ''home''" "properName ''token''" by (simp_all add: properName_def badSegment_def)
  have paths: "pathJoin directory ''home'' = directory @ ''/home''" "pathJoin directory ''token'' = directory @ ''/token''"
    using pathJoin_abs [OF abs] proper by simp_all
  have under: "underPath directory directory" "underPath directory (directory @ ''/home'')" "underPath directory (directory @ ''/token'')"
    by (simp_all add: underPath_def)
  have above: "\<not> underPath directory (pb_askpassRoot p)" using not_under_child name(2) by simp
  have free: "G q = None" if "underPath directory q" for q
    using name(3) [OF that] above that G by auto
  have held: "holds p F \<lparr>ak_directory = directory, ak_home = directory @ ''/home'', ak_tokenFile = directory @ ''/token'', ak_freshRoot = (F (pb_askpassRoot p) = None)\<rparr> s"
    if "hasFs (G(directory \<mapsto> NDir 448 0, directory @ ''/home'' \<mapsto> NDir 448 0, directory @ ''/token'' \<mapsto> NFile 384 content)) s" for s
    using that name under G by (auto simp: holds_def heldFs_def Let_def hasFs_def)
  show ?thesis
    unfolding Let_def paths
    by (intro triple_then [OF create_triple [OF ok]] triple_then [OF fault_triple [OF ok]] triple_basic held)
       (use free under in simp_all)
qed

lemma use_triple: "triple (hasFs F) (usePub f) E (\<lambda>x s. (\<exists>w. x = fst (f w)) \<and> hasFs F s)"
  by (rule tripleI) (auto simp: usePub_def hasFs_def fsOf_def split: prod.splits, metis fst_conv)

lemma private_triple:
  assumes "faultless (pubFault p)"
  shows "triple (hasFs G) (ensurePrivateDirectory p target label) (\<lambda>_ s. hasFs G s \<and> \<not> (isDirNode (G target) \<and> nodeMode (G target) = 448))
    (\<lambda>_. hasFs G)"
  unfolding ensurePrivateDirectory_def
  by (rule triple_bind [OF stat_triple [OF assms]])
     (auto intro!: triple_pure triple_then [where R = "hasFs G"] triple_basic simp: require_def split: if_splits)

lemma askpass_triple:
  fixes p :: "'w pubPorts"
  assumes ok: "faultless (pubFault p)" and root: "absDir (pb_askpassRoot p)" and fresh: "freshTemp p F"
  shows "triple (hasFs F) (createAskpass p token) (\<lambda>_. hasFs F) (holds p F)"
proof -
  let ?root = "pb_askpassRoot p"
  define G where "G = (if F ?root = None then F(?root \<mapsto> NDir 448 0) else F)"
  have secured: "triple (hasFs G) (ensurePrivateDirectory p ?root label) (\<lambda>_. hasFs F) (\<lambda>_. hasFs G)" for label
    by (rule triple_weaken [OF private_triple [OF ok]]) (auto simp: G_def split: if_splits)
  have made: "triple (hasFs F) (if F ?root = None then inStore (createNew (pubFault p) ?root (NDir 448 0)) else ret ()) (\<lambda>_. hasFs F) (\<lambda>_. hasFs G)"
    using create_triple [OF ok, of F ?root "NDir 448 0"] by (auto simp: G_def intro: triple_basic)
  note temp = created_triple [OF ok root fresh G_def, where content = "token @ newline" and E = "\<lambda>_. hasFs F", unfolded Let_def]
  show ?thesis
    unfolding createAskpass_def Let_def
    apply (rule triple_bind [OF stat_triple [OF ok]], rule triple_pure)
    apply (rule triple_then [where R = "hasFs F"])
     apply (auto intro!: triple_basic)[1]
    apply (rule triple_bind [OF stat_triple [OF ok]], rule triple_pure, simp only:)
    apply (rule triple_then [OF made], rule triple_then [OF secured])
    apply (rule triple_bind [OF use_triple], rule triple_pure, erule exE)
    apply (rule temp, assumption)
    done
qed

text \<open>The disk without the directory of the credential, and without the credential root if it was made for it.\<close>

lemma holds_restored:
  assumes "holds p F k s" and "F (pb_askpassRoot p) = None \<longrightarrow> (\<forall>q. underPath (pb_askpassRoot p) q \<longrightarrow> F q = None)"
  shows "\<exists>G. hasFs G s \<and> (if ak_freshRoot k then emptied (pb_askpassRoot p) (without (ak_directory k) G) else without (ak_directory k) G) = F"
proof -
  let ?root = "pb_askpassRoot p" and ?d = "ak_directory k"
  define G where "G = fsOf s"
  have G: "hasFs G s" "\<And>q. \<not> underPath ?d q \<Longrightarrow> G q = (if q = ?root \<and> F ?root = None then Some (NDir 448 0) else F q)"
    and none: "\<And>q. underPath ?d q \<Longrightarrow> F q = None" and d: "\<exists>name. ?d = ?root @ CHR ''/'' # name" and new: "ak_freshRoot k = (F ?root = None)"
    using assms(1) unfolding holds_def heldFs_def Let_def G_def hasFs_def by auto
  have above: "\<not> underPath ?d ?root" using d not_under_child by metis
  have left: "without ?d G = (if F ?root = None then F(?root \<mapsto> NDir 448 0) else F)"
    using G(2) none above by (auto simp: without_def fun_eq_iff)
  have "emptied ?root (F(?root \<mapsto> NDir 448 0)) = F" if root: "F ?root = None"
  proof -
    have "{q. underPath ?root q \<and> (F(?root \<mapsto> NDir 448 0)) q \<noteq> None} = {?root}"
      using assms(2) root by (auto simp: underPath_def)
    with root show ?thesis by (auto simp: emptied_def fun_eq_iff)
  qed
  with G(1) left new show ?thesis by (intro exI [of _ G]) auto
qed

lemma keeps_fs:
  assumes "\<And>G. keeps (hasFs G) m"
  shows "keeps (\<lambda>s. H (fsOf s)) m"
proof (rule keepsI)
  fix s x s' assume H: "H (fsOf s)" and run: "m s = (x, s')"
  have "hasFs (fsOf s) s'" by (rule keepsD [OF assms run]) (simp add: hasFs_def)
  with H show "H (fsOf s')" by (simp add: hasFs_def)
qed

lemma credential_triple:
  fixes p :: "'w pubPorts"
  assumes ok: "faultless (pubFault p)" and root: "absDir (pb_askpassRoot p)" and fresh: "freshTemp p F"
    and orphans: "F (pb_askpassRoot p) = None \<longrightarrow> (\<forall>q. underPath (pb_askpassRoot p) q \<longrightarrow> F q = None)"
  shows "triple (hasFs F) (bindE (createAskpass p token) (\<lambda>k. finallyPub (pushCandidate p input (env k)) (cleanupAskpass p token k)))
    (\<lambda>_. hasFs F) (\<lambda>_. hasFs F)"
proof (rule triple_bind [OF askpass_triple [OF ok root fresh]])
  fix k
  have push: "triple (holds p F k) (pushCandidate p input (env k)) (\<lambda>_. holds p F k) (\<lambda>_. holds p F k)"
    unfolding holds_def by (intro triple_keeps keeps_fs keeps_pushCandidate)
  have cleanup: "triple (holds p F k) (cleanupAskpass p token k) (\<lambda>_. hasFs F) (\<lambda>_. hasFs F)"
  proof (rule tripleI)
    fix s :: "'w pubState" assume held: "holds p F k s"
    then have "underPath (ak_directory k) (ak_home k)" "underPath (ak_directory k) (ak_tokenFile k)"
      by (simp_all add: holds_def heldFs_def Let_def underPath_def)
    moreover obtain G where "hasFs G s"
      "(if ak_freshRoot k then emptied (pb_askpassRoot p) (without (ak_directory k) G) else without (ak_directory k) G) = F"
      using holds_restored [OF held orphans] by blast
    ultimately show "case cleanupAskpass p token k s of (Inl e, s') \<Rightarrow> hasFs F s' | (Inr x, s') \<Rightarrow> hasFs F s'"
      using cleanup_triple [OF ok, of k G token "\<lambda>_. hasFs F"] by (simp add: triple_def)
  qed
  show "triple (holds p F k) (finallyPub (pushCandidate p input (env k)) (cleanupAskpass p token k)) (\<lambda>_. hasFs F) (\<lambda>_. hasFs F)"
    by (rule triple_finally [OF push cleanup cleanup])
qed

section \<open>The credential root during a publication\<close>

definition agree :: "string \<Rightarrow> (string \<Rightarrow> node option) \<Rightarrow> 'w pubState \<Rightarrow> bool" where
  "agree d F s \<longleftrightarrow> (\<forall>q. underPath d q \<longrightarrow> fsOf s q = F q)"

definition agreeS :: "string \<Rightarrow> (string \<Rightarrow> node option) \<Rightarrow> 'w podStore \<Rightarrow> bool" where
  "agreeS d F t \<longleftrightarrow> (\<forall>q. underPath d q \<longrightarrow> nodeAt t q = F q)"

definition apart :: "string \<Rightarrow> string \<Rightarrow> bool" where
  "apart a b \<longleftrightarrow> \<not> underPath a b \<and> \<not> underPath b a"

lemma apart_under: "apart a b \<Longrightarrow> underPath b q \<Longrightarrow> \<not> underPath a q"
proof
  assume ab: "apart a b" and q: "underPath b q" "underPath a q"
  then have "prefix (a @ ''/'') q" "prefix (b @ ''/'') q" by (auto simp: apart_def underPath_def)
  then have "prefix (a @ ''/'') (b @ ''/'') \<or> prefix (b @ ''/'') (a @ ''/'')" using prefix_same_cases by blast
  with ab show False by (auto simp: apart_def underPath_def)
qed

lemma agree_keeps [keeps_rules]: "keeps (agree d F) (usePub f)" "keeps (agree d F) (logPub c)" "keeps (agree d F) (runGit p args env t)"
  unfolding agree_def by (intro keeps_fs [of _ "\<lambda>G. \<forall>q. underPath d q \<longrightarrow> G q = F q"] keeps_rules)+

lemma agree_inStore: "keeps (agreeS d F) m \<Longrightarrow> keeps (agree d F) (inStore m)"
  by (rule keepsI) (auto simp: inStore_def agree_def agreeS_def fsOf_def split: prod.splits dest: keepsD)

lemma agreeS_same:
  assumes "\<And>fs. keeps (\<lambda>s. sys_fs s = fs) m"
  shows "keeps (agreeS d F) m"
proof (rule keepsI)
  fix s x s' assume "agreeS d F s" and run: "m s = (x, s')"
  moreover have "sys_fs s' = sys_fs s" by (rule keepsD [OF assms run]) (rule refl)
  ultimately show "agreeS d F s'" by (simp add: agreeS_def)
qed

lemma agreeS_point [keeps_rules]: "keeps (agreeS d F) (faultPoint f)"
  by (rule agreeS_same) (rule keeps_rules)

lemma agreeS_files:
  assumes "\<not> underPath d path"
  shows "keeps (agreeS d F) (appendFile f path c)" "keeps (agreeS d F) (atomicWrite f path c)"
  unfolding appendFile_def atomicWrite_def using assms by (intro keeps_rules; auto simp: agreeS_def)+

lemma agreeS_fields [keeps_rules]:
  "keeps (agreeS d F) (useWorldR g)" "keeps (agreeS d F) (timestamp sp)" "keeps (agreeS d F) ensureOpen"
  by (auto simp: keeps_def agreeS_def timestamp_def useWorldR_def ensureOpen_def io_defs split: prod.splits sum.splits if_splits)

lemma agreeS_store:
  assumes "\<not> underPath d (storeEventsPath a)" and "\<not> underPath d (runRecordPath a)"
  shows "keeps (agreeS d F) (appendEvent sp a t details)" "keeps (agreeS d F) (finish sp a status details)"
  unfolding appendEvent_def finish_def Let_def
  by (intro keeps_rules agreeS_files assms; simp add: agreeS_def)+

lemma agree_try [keeps_rules]: "keeps (agree d F) m \<Longrightarrow> keeps (agree d F) (tryPub m)"
  unfolding tryPub_def by (intro keeps_rules)

lemma agree_requestJson [keeps_rules]: "keeps (agree d F) (requestJson p token path t m b st)"
  unfolding requestJson_def withinDeadline_def Let_def by (intro keeps_rules)

lemma agree_publish [keeps_rules]: "keeps (agree d F) (publish p g input)"
  unfolding publish_def publishInContext_def validateDeadline_def readRemoteRef_def findExistingPull_def createPull_def reconcilePull_def Let_def
  by (intro keeps_rules keeps_option)

lemma agree_stat [keeps_rules]: "keeps (agree d F) (statPub p path)" "keeps (agree d F) (ensurePrivateDirectory p path label)"
proof -
  show stat: "keeps (agree d F) (statPub p path)"
    unfolding statPub_def by (intro agree_inStore agreeS_same keeps_rules)
  show "keeps (agree d F) (ensurePrivateDirectory p path label)"
    unfolding ensurePrivateDirectory_def by (intro keeps_rules stat)
qed

lemma agree_source:
  assumes "apart d target"
  shows "keeps (agree d F) (cleanupPrivateSourceGitDir p target expected)"
proof -
  have "keeps (agreeS d F) (removeTree f target)" for f
    unfolding removeTree_def using apart_under [of target d] assms
    by (intro keeps_rules) (auto simp: agreeS_def lookup_filter_key apart_def)
  then show ?thesis
    unfolding cleanupPrivateSourceGitDir_def quietPub_def by (intro keeps_rules agree_inStore)
qed

lemma agree_storePub:
  assumes "rooted a" and "apart d (sa_root a)"
  shows "keeps (agree d F) (storePub p a (AppendEvent t details))" "keeps (agree d F) (storePub p a (Finish status details))"
proof -
  have "underPath (sa_root a) (storeEventsPath a)" "underPath (sa_root a) (runRecordPath a)"
    using layout [OF assms(1)] by (simp_all add: underPath_def)
  then have "\<not> underPath d (storeEventsPath a)" "\<not> underPath d (runRecordPath a)" using apart_under [OF assms(2)] by blast+
  note ops = agreeS_store [OF this]
  show "keeps (agree d F) (storePub p a (AppendEvent t details))" "keeps (agree d F) (storePub p a (Finish status details))"
    unfolding storePub_def by (intro keeps_rules agree_inStore; simp add: ops)+
qed

lemma keeps_triple: "triple P m (\<lambda>_. P) (\<lambda>_. P) \<Longrightarrow> keeps P m"
  by (rule keepsI) (auto dest!: tripleD split: sum.splits)

lemma bind_then_assoc: "bindE m (\<lambda>k. thenE (f k) r) = thenE (bindE m f) r"
  by (auto simp: io_defs fun_eq_iff split: prod.splits sum.splits)

definition credentialRoot :: "'w pubPorts \<Rightarrow> (string \<Rightarrow> node option) \<Rightarrow> bool" where
  "credentialRoot p F \<longleftrightarrow>
     absDir (pb_askpassRoot p) \<and> freshTemp p F \<and>
     (F (pb_askpassRoot p) = None \<longrightarrow> (\<forall>q. underPath (pb_askpassRoot p) q \<longrightarrow> F q = None))"

lemma agree_credential:
  assumes ok: "faultless (pubFault p)" and root: "credentialRoot p F"
  shows "keeps (agree (pb_askpassRoot p) F)
    (bindE (createAskpass p token) (\<lambda>k. finallyPub (pushCandidate p input (env k)) (cleanupAskpass p token k)))"
proof (rule keepsI)
  fix s x s' assume F: "agree (pb_askpassRoot p) F s"
    and run: "bindE (createAskpass p token) (\<lambda>k. finallyPub (pushCandidate p input (env k)) (cleanupAskpass p token k)) s = (x, s')"
  have inside: "underPath (pb_askpassRoot p) q" if "underPath (pb_askpassRoot p @ ''/'' @ name) q" for q name
    using underPath_trans [OF _ that] by (simp add: underPath_def)
  have self: "underPath (pb_askpassRoot p) (pb_askpassRoot p)" by (simp add: underPath_def)
  have fresh: "freshTemp p (fsOf s)"
    using root F inside unfolding credentialRoot_def freshTemp_def agree_def by metis
  have orphans: "fsOf s (pb_askpassRoot p) = None \<longrightarrow> (\<forall>q. underPath (pb_askpassRoot p) q \<longrightarrow> fsOf s q = None)"
    using root F self unfolding credentialRoot_def agree_def by simp
  have "hasFs (fsOf s) s'"
    using tripleD [OF credential_triple [OF ok _ fresh orphans] _ run] root by (auto simp: hasFs_def credentialRoot_def split: sum.splits)
  with F show "agree (pb_askpassRoot p) F s'" by (simp add: agree_def hasFs_def)
qed

lemma agree_publishRun:
  assumes ok: "faultless (pubFault p)" and root: "credentialRoot p F"
    and store: "rooted \<lparr>sa_root = strOf (fld input ''stateRoot''), sa_runId = strOf (fld input ''runId'')\<rparr>"
    and apart: "apart (pb_askpassRoot p) (strOf (fld input ''stateRoot''))" "apart (pb_askpassRoot p) (strOf (fld input ''sourceGitDir''))"
  shows "keeps (agree (pb_askpassRoot p) F) (publishRun p input)"
proof -
  let ?a = "\<lparr>sa_root = strOf (fld input ''stateRoot''), sa_runId = strOf (fld input ''runId'')\<rparr>"
  note source = agree_source [OF apart(2)]
  have ops: "keeps (agree (pb_askpassRoot p) F) (storePub p ?a (AppendEvent t details))"
    "keeps (agree (pb_askpassRoot p) F) (storePub p ?a (Finish status details))" for t status details
    using agree_storePub [OF store] apart(1) by simp_all
  have fresh: "keeps (agree (pb_askpassRoot p) F) (publishFresh p ?a input)"
    unfolding publishFresh_def Let_def bind_then_assoc publishPushed_def recordPublication_def checkLocal_def
    by (intro keeps_rules agree_credential [OF ok root] source ops)
  have opened: "keeps (agree (pb_askpassRoot p) F) (inStore (openPodRunStore sp a))" for sp a
    by (intro agree_inStore agreeS_same open_sameFs)
  have rest: "keeps (agree (pb_askpassRoot p) F) (alreadyPublished p input run events)"
    "keeps (agree (pb_askpassRoot p) F) (resumePublication p ?a input events e)" for run events e
    unfolding alreadyPublished_def resumePublication_def Let_def by (intro keeps_rules source ops)+
  show ?thesis
    unfolding publishRun_def publishRunInternal_def strictInput_def Let_def
    by (intro keeps_rules opened) (auto intro!: keeps_rules fresh rest split: list.splits)
qed

text \<open>C9: On a disk that does not fail, a publication leaves the credential root as it found it, whether it succeeds or fails and
  however git ends: the directory with the token is gone, and the root itself too if the publication had to make it.  The
  temporary name is new, and the credential root, the state root and the source repository do not contain each other.\<close>

theorem publishRun_credential_gone:
  assumes "publishRun p input s = (r, s')" and "faultless (pubFault p)" and "credentialRoot p (fsOf s)"
    and "rooted \<lparr>sa_root = strOf (fld input ''stateRoot''), sa_runId = strOf (fld input ''runId'')\<rparr>"
    and "apart (pb_askpassRoot p) (strOf (fld input ''stateRoot''))" and "apart (pb_askpassRoot p) (strOf (fld input ''sourceGitDir''))"
  shows "\<forall>q. underPath (pb_askpassRoot p) q \<longrightarrow> fsOf s' q = fsOf s q"
  using keepsD [OF agree_publishRun [OF assms(2-6)] assms(1)] by (simp add: agree_def)

end
