(* ===== verification/Publish_Demo.thy ===== *)
theory Publish_Demo
  imports Publish_Secrets
begin

text \<open>
  A publication that succeeds, on concrete ports and a concrete disk: the witness that the theorems about publications
  speak of publications that exist.
\<close>

definition demoSha :: "char \<Rightarrow> string" where
  "demoSha c = replicate 40 c"

definition demoGit :: "string list \<Rightarrow> gitEnv \<Rightarrow> int \<Rightarrow> unit \<Rightarrow> jsval res \<times> unit" where
  "demoGit args env d w =
     (Inr (JObj [(''code'', num 0),
        (''stdout'', JStr (if ''rev-parse'' \<in> set args then demoSha (CHR ''a'') @ newline
           else if ''ls-remote'' \<in> set args then demoSha (CHR ''b'') @ [CHR 0x09] @ ''refs/heads/main'' @ newline else [])),
        (''stderr'', JStr [])]), w)"

definition demoRunPorts :: "unit pubPorts" where
  "demoRunPorts =
     \<lparr>gh_now = (\<lambda>w. (1, w)), gh_fetch = demoFetch, gh_expired = (\<lambda>_ w. (False, w)), gh_url = demoUrl, gh_lower = id,
      pb_storePorts = \<lparr>sp_now = (\<lambda>w. (Inr ''2026-01-02T03:04:05.006Z'', w)), sp_fault = (\<lambda>w. (None, w))\<rparr>,
      pb_git = demoGit, pb_gitExpired = (\<lambda>_ w. (False, w)), pb_mkdtemp = (\<lambda>_ w. (''/run/bimo-publish/credential-1'', w)),
      pb_cleanupLate = (\<lambda>w. (False, w)), pb_path = ''/bin'', pb_tmpdir = ''/tmp'', pb_askpassProgram = ''/app/askpass'',
      pb_askpassRoot = ''/run/bimo-publish''\<rparr>"

definition demoInput :: jsval where
  "demoInput =
     JObj [(''runId'', JStr ''run-1''), (''stateRoot'', JStr ''/pods''), (''sourceGitDir'', JStr ''/source.git''),
       (''repository'', JStr ''https://github.com/o/r''), (''targetBranch'', JStr ''main''), (''headBranch'', JStr ''bimo/x''),
       (''baseSha'', JStr (demoSha (CHR ''b''))), (''candidateSha'', JStr (demoSha (CHR ''a''))), (''token'', JStr ''ghp_1''), (''deadlineAt'', num 9)]"

definition demoRunArgs :: storeArgs where
  "demoRunArgs = \<lparr>sa_root = ''/pods'', sa_runId = ''run-1''\<rparr>"

definition demoReady :: jsval where
  "demoReady = JObj (map (\<lambda>f. (f, fld demoInput f)) bindingFields @ eventFields demoRunArgs 0 ''2026-01-02T03:04:05.006Z'' ''publication.ready'')"

definition demoRun :: jsobj where
  "demoRun = initialRun ''run-1'' (JObj []) ''2026-01-02T03:04:05.006Z''"

definition demoDisk :: "(string, node) mapping" where
  "demoDisk = Mapping.of_alist
     [(''/pods'', NDir 448 1), (''/pods/run-1'', NDir 448 2), (''/pods/run-1/run.json'', NFile 384 (stringifyIndent (JObj demoRun) @ newline)),
      (''/pods/run-1/events.jsonl'', NFile 384 (eventText demoReady)), (''/source.git'', NDir 448 3), (''/app/askpass'', NFile 493 [])]"

definition demoRunStore :: "unit podStore" where
  "demoRunStore = \<lparr>sys_fs = demoDisk, sys_world = (), ps_run = demoRun, ps_sequence = 1, ps_inbox = Mapping.empty,
     ps_work = Mapping.empty, ps_gate = Mapping.empty, ps_finished = False\<rparr>"

definition demoAt :: "pubCall list \<Rightarrow> unit pubState" where
  "demoAt cs = \<lparr>pb_store = demoRunStore, pb_calls = cs\<rparr>"

lemma demo_ports: "likeDemo demoRunPorts" "faultless (pubFault demoRunPorts)" "faultless (sp_fault (pb_storePorts demoRunPorts))" "rooted demoRunArgs"
proof -
  show "likeDemo demoRunPorts" by (simp add: likeDemo_def demoRunPorts_def)
  show "faultless (pubFault demoRunPorts)" "faultless (sp_fault (pb_storePorts demoRunPorts))"
    by (simp_all add: faultless_def pubFault_def demoRunPorts_def)
  have "absDir ''/pods''"
    unfolding absDir_def by (rule exI [of _ "[''pods'']"]) (auto simp: properName_def badSegment_def)
  moreover have "reRunId ''run-1''" by code_simp
  ultimately show "rooted demoRunArgs" by (simp add: rooted_def demoRunArgs_def)
qed


definition demoGitResult :: "string list \<Rightarrow> jsval" where
  "demoGitResult args =
     JObj [(''code'', num 0),
        (''stdout'', JStr (if ''rev-parse'' \<in> set args then demoSha (CHR ''a'') @ newline
           else if ''ls-remote'' \<in> set args then demoSha (CHR ''b'') @ [CHR 0x09] @ ''refs/heads/main'' @ newline else [])),
        (''stderr'', JStr [])]"

lemma demo_git:
  "runGit demoRunPorts args env 9 s = (Inr (demoGitResult args), s\<lparr>pb_calls := pb_calls s @ [PGit args (Inr (demoGitResult args))]\<rparr>)"
proof -
  have "commandResult (demoGitResult args) = Inr (demoGitResult args)"
    by (simp add: commandResult_def demoGitResult_def num_def maxGitOutputBytes_def byteLength_def demoSha_def newline_def res_simps bindR_def require_def)
  moreover have "demoGit args env 9 w = (Inr (demoGitResult args), w)" for w
    by (simp add: demoGit_def demoGitResult_def)
  ultimately show ?thesis
    by (simp add: runGit_def demoRunPorts_def usePub_def logPub_def io_defs require_def bindR_def Let_def)
qed

lemma demo_fields:
  "fld demoInput ''sourceGitDir'' = JStr ''/source.git''" "fld demoInput ''candidateSha'' = JStr (demoSha (CHR ''a''))"
  "fld demoInput ''baseSha'' = JStr (demoSha (CHR ''b''))" "fld demoInput ''repository'' = JStr ''https://github.com/o/r''"
  "fld demoInput ''targetBranch'' = JStr ''main''" "fld demoInput ''headBranch'' = JStr ''bimo/x''" "fld demoInput ''deadlineAt'' = num 9"
  "fld demoInput ''token'' = JStr ''ghp_1''" "fld demoInput ''runId'' = JStr ''run-1''" "fld demoInput ''stateRoot'' = JStr ''/pods''"
  by (simp_all add: demoInput_def)

lemma demo_results:
  "demoGitResult (fixedGitArgs g (''rev-parse'' # xs)) = JObj [(''code'', num 0), (''stdout'', JStr (demoSha (CHR ''a'') @ newline)), (''stderr'', JStr [])]"
  "''rev-parse'' \<notin> set xs \<Longrightarrow> demoGitResult (fixedGitArgs g (''ls-remote'' # xs))
     = JObj [(''code'', num 0), (''stdout'', JStr (demoSha (CHR ''b'') @ [CHR 0x09] @ ''refs/heads/main'' @ newline)), (''stderr'', JStr [])]"
  "fld (demoGitResult args) ''code'' = num 0"
  by (simp_all add: demoGitResult_def fixedGitArgs_def)

lemma demo_local: "\<exists>cs'. checkLocal demoRunPorts demoInput (demoAt cs) = (Inr (), demoAt cs')"
proof -
  have "reSha1 (butlast (demoSha (CHR ''a'') @ newline))" "suffix newline (demoSha (CHR ''a'') @ newline)"
    "trimEndStr (demoSha (CHR ''a'') @ newline) = demoSha (CHR ''a'')" by code_simp+
  then show ?thesis
    by (simp add: checkLocal_def Let_def io_defs demo_fields demo_git demo_results num_def codeOk_def require_def demoAt_def)
qed

lemma demo_refs_parsed:
  "parseRemoteRefs (demoSha (CHR ''b'') @ [CHR 0x09] @ ''refs/heads/main'' @ newline) ''main'' ''bimo/x'' = Inr [(headRef ''main'', demoSha (CHR ''b''))]"
  by code_simp

lemma demo_push: "\<exists>cs'. pushCandidate demoRunPorts demoInput env s = (Inr (), s\<lparr>pb_calls := cs'\<rparr>)"
  using demo_refs_parsed
  by (simp add: pushCandidate_def Let_def demo_fields io_defs demo_git demo_results num_def codeOk_def require_def headRef_def) (rule exI, rule refl)

text \<open>The steps that touch the disk.\<close>

lemma demo_disk:
  "fsOf (demoAt cs) ''/app/askpass'' = Some (NFile 493 [])" "fsOf (demoAt cs) ''/source.git'' = Some (NDir 448 3)"
  "underPath ''/run/bimo-publish'' q \<Longrightarrow> fsOf (demoAt cs) q = None"
proof -
  let ?keys = "[''/pods'', ''/pods/run-1'', ''/pods/run-1/run.json'', ''/pods/run-1/events.jsonl'', ''/source.git'', ''/app/askpass'']"
  show "fsOf (demoAt cs) ''/app/askpass'' = Some (NFile 493 [])" "fsOf (demoAt cs) ''/source.git'' = Some (NDir 448 3)"
    by (simp_all add: fsOf_def demoAt_def demoRunStore_def demoDisk_def lookup_of_alist)
  have "list_all (\<lambda>k. \<not> underPath ''/run/bimo-publish'' k) ?keys" by code_simp
  moreover have "fsOf (demoAt cs) q = None" if "q \<notin> set ?keys"
    using that by (simp add: fsOf_def demoAt_def demoRunStore_def demoDisk_def lookup_of_alist)
  ultimately show "fsOf (demoAt cs) q = None" if "underPath ''/run/bimo-publish'' q" using that by (auto simp only: list_all_iff)
qed

lemma demo_credential_root: "credentialRoot demoRunPorts (fsOf (demoAt cs))"
proof -
  have root: "absDir ''/run/bimo-publish''"
    unfolding absDir_def by (rule exI [of _ "[''run'', ''bimo-publish'']"]) (auto simp: properName_def badSegment_def)
  have inside: "fsOf (demoAt cs) q = None" if "underPath ''/run/bimo-publish/credential-1'' q" for q
    using that by (intro demo_disk(3)) (auto simp: underPath_def prefix_def)
  show ?thesis
    unfolding credentialRoot_def freshTemp_def using root inside demo_disk(3) [of _ cs]
    by (auto simp: demoRunPorts_def properName_def badSegment_def intro!: exI [of _ "''credential-1''"])
qed

definition sameFields :: "unit podStore \<Rightarrow> bool" where
  "sameFields t \<longleftrightarrow> t\<lparr>sys_fs := Mapping.empty, sys_world := ()\<rparr> = demoRunStore\<lparr>sys_fs := Mapping.empty, sys_world := ()\<rparr>"

definition sameStore :: "unit pubState \<Rightarrow> bool" where
  "sameStore s \<longleftrightarrow> sameFields (pb_store s)"

lemma sameStore_inStore [keeps_rules]: "keeps sameFields m \<Longrightarrow> keeps sameStore (inStore m)"
  by (rule keepsI) (auto simp: sameStore_def inStore_def split: prod.splits dest: keepsD)

lemma sameFields_updates [simp]: "sameFields (t\<lparr>sys_fs := fs\<rparr>) = sameFields t" "sameFields (t\<lparr>sys_world := w\<rparr>) = sameFields t"
  by (simp_all add: sameFields_def)

lemma sameFields_frame [keeps_rules]: "frame sameFields"
  by (simp add: frame_def)

lemma sameStore_keeps [keeps_rules]: "keeps sameStore (usePub f)" "keeps sameStore (logPub c)"
  unfolding logPub_def by (rule keepsI, auto simp: usePub_def sameStore_def split: prod.splits)+

lemma sameFields_ops [keeps_rules]: "keeps sameFields (removeTree f q)" "keeps sameFields (rmdirEmpty f q)" "keeps sameFields (lstatOrNull f q)"
  unfolding removeTree_def rmdirEmpty_def lstatOrNull_def
  by (intro keeps_rules; auto simp: keeps_def io_defs)+

lemma sameStore_block:
  "keeps sameStore (bindE (createAskpass p token) (\<lambda>k. finallyPub (pushCandidate p input (env k)) (cleanupAskpass p token k)))"
  unfolding createAskpass_def pushCandidate_def cleanupAskpass_def wipeToken_def finallyPub_def tryPub_def quietPub_def runGit_def
    statPub_def faultPub_def ensurePrivateDirectory_def Let_def
  by (intro keeps_rules keeps_option) (auto simp: putNode_def)

lemma demo_created: "\<exists>k s. createAskpass demoRunPorts ''ghp_1'' (demoAt cs) = (Inr k, s)"
proof -
  have "case createAskpass demoRunPorts ''ghp_1'' (demoAt cs) of (Inr _, _) \<Rightarrow> True | (Inl _, _) \<Rightarrow> False" by code_simp
  then show ?thesis by (auto split: prod.splits sum.splits)
qed

lemma demo_same:
  assumes "hasFs (fsOf (demoAt cs)) s" and "sameStore s"
  shows "s = demoAt (pb_calls s)"
proof -
  have "sys_fs (pb_store s) = sys_fs demoRunStore"
    using assms(1) by (intro mapping_eqI) (simp add: hasFs_def fsOf_def demoAt_def fun_eq_iff)
  with assms(2) have "pb_store s = demoRunStore"
    by (cases "pb_store s") (simp add: sameStore_def sameFields_def demoRunStore_def)
  then show ?thesis by (cases s) (simp add: demoAt_def)
qed

lemma demo_block:
  "\<exists>cs'. bindE (createAskpass demoRunPorts ''ghp_1'') (\<lambda>k. finallyPub (pushCandidate demoRunPorts demoInput (askpassEnv demoRunPorts k))
     (cleanupAskpass demoRunPorts ''ghp_1'' k)) (demoAt cs) = (Inr (), demoAt cs')"
proof -
  let ?F = "fsOf (demoAt cs)" and ?p = demoRunPorts
  let ?m = "bindE (createAskpass ?p ''ghp_1'') (\<lambda>k. finallyPub (pushCandidate ?p demoInput (askpassEnv ?p k)) (cleanupAskpass ?p ''ghp_1'' k))"
  have root: "absDir (pb_askpassRoot ?p)" "freshTemp ?p ?F" and orphans: "?F (pb_askpassRoot ?p) = None \<longrightarrow> (\<forall>q. underPath (pb_askpassRoot ?p) q \<longrightarrow> ?F q = None)"
    using demo_credential_root [of cs] by (simp_all add: credentialRoot_def)
  have start: "hasFs ?F (demoAt cs)" "sameStore (demoAt cs)" by (simp_all add: hasFs_def sameStore_def sameFields_def demoAt_def)
  obtain k s1 where create: "createAskpass ?p ''ghp_1'' (demoAt cs) = (Inr k, s1)" using demo_created by blast
  have held: "holds ?p ?F k s1" using tripleD [OF askpass_triple [OF demo_ports(2) root] start(1) create] by simp
  obtain cs2 where push: "pushCandidate ?p demoInput (askpassEnv ?p k) s1 = (Inr (), s1\<lparr>pb_calls := cs2\<rparr>)" using demo_push by blast
  have "underPath (ak_directory k) (ak_home k)" "underPath (ak_directory k) (ak_tokenFile k)"
    using held by (simp_all add: holds_def heldFs_def Let_def underPath_def)
  note clean = cleanup_triple [OF demo_ports(2) this, of "fsOf (s1\<lparr>pb_calls := cs2\<rparr>)" "''ghp_1''" "\<lambda>_ _. False"]
  obtain r s3 where cleanup: "cleanupAskpass ?p ''ghp_1'' k (s1\<lparr>pb_calls := cs2\<rparr>) = (r, s3)" by fastforce
  from tripleD [OF clean _ cleanup] have "\<exists>u. r = Inr u" by (cases r) (simp_all add: hasFs_def)
  then have run: "?m (demoAt cs) = (Inr (), s3)"
    using create push cleanup by (auto simp: finallyPub_def tryPub_def io_defs)
  have "hasFs ?F s3" using tripleD [OF credential_triple [OF demo_ports(2) root orphans] start(1) run] by simp
  moreover have "sameStore s3" by (rule keepsD [OF sameStore_block run start(2)])
  ultimately show ?thesis using demo_same run by metis
qed

definition demoReceipt :: jsval where
  "demoReceipt = normalizePull demoPull demoContext True False"

lemma demo_strict: "strictInput demoRunPorts demoInput s = (Inr (), s)"
proof -
  have "reRunId ''run-1''" "resolvedPath ''/pods''" "resolvedPath ''/source.git''" "safeBranch (JStr ''main'') ''targetBranch'' = Inr ()"
    "safeBranch (JStr ''bimo/x'') ''headBranch'' = Inr ()" "reSha1 (demoSha (CHR ''a''))" "reSha1 (demoSha (CHR ''b''))" "tokenText ''ghp_1''"
    "parseGitHubRepository demoRunPorts (JStr ''https://github.com/o/r'') = Inr (''o'', ''r'')" "isSafeInteger (num 9)" "intOf (num 9) = 9"
    "sort (map fst (props demoInput)) = inputFields" "\<not> containsPath ''/pods'' ''/source.git''" "\<not> containsPath ''/source.git'' ''/pods''"
    "u16len ''/pods'' \<le> 4096" "u16len ''/source.git'' \<le> 4096" "byteLength ''ghp_1'' \<le> 4096" "isPlainObject demoInput"
    by code_simp+
  then show ?thesis
    by (simp add: strictInput_def demo_fields io_defs res_simps require_def safePath_def plainObject_def bindR_def usePub_def demoRunPorts_def checks.simps)
qed

lemma demo_inv: "storeInv demoRunArgs [demoReady] demoRunStore"
proof -
  have paths: "storeDir demoRunArgs = ''/pods/run-1''" "storeEventsPath demoRunArgs = ''/pods/run-1/events.jsonl''"
    "runRecordPath demoRunArgs = ''/pods/run-1/run.json''" "sa_root demoRunArgs = ''/pods''"
    by code_simp+
  have small: "length (eventText demoReady) < 1000" "length (stringifyIndent (JObj demoRun) @ newline) < 1000" by code_simp+
  have json: "jsonable demoReady" "jsonable (JObj demoRun)" "isPlainObject demoReady" "validateJson [] 0 demoReady = Inr ()"
    "validateJson [] 0 (JObj demoRun) = Inr ()" by code_simp+
  have stored: "stored demoReady" "stored (JObj demoRun)"
    using json validateJson_label [of "[]" 0] by (simp_all add: stored_def) blast+
  have ok: "eventOk demoRunArgs 0 demoReady" "runRecordOk demoRunArgs (JObj demoRun)" "isPlainObject (fld (JObj demoRun) ''assignment'')"
    "consistentRun (JObj demoRun) [demoReady] = Inr ()" "fld (JObj demoRun) ''status'' = JStr ''running''" by code_simp+
  show ?thesis
    unfolding storeInv_defs paths using small stored ok
    by (simp add: demoRunStore_def demoDisk_def lookup_of_alist maxRecordBytes_def maxEvents_def)
qed

lemma demo_open:
  "inStore (openPodRunStore (pb_storePorts demoRunPorts) demoRunArgs) (demoAt cs) = (Inr (JObj demoRun, [demoReady]), demoAt cs)"
proof -
  obtain w where "openPodRunStore (pb_storePorts demoRunPorts) demoRunArgs demoRunStore = (Inr (JObj (ps_run demoRunStore), [demoReady]),
      demoRunStore\<lparr>sys_world := w, ps_run := ps_run demoRunStore, ps_sequence := length [demoReady], ps_finished := ps_finished demoRunStore\<rparr>)"
    by (rule open_stored [OF demo_ports(4,3) demo_inv refl])
  then show ?thesis by (simp add: inStore_def demoAt_def demoRunStore_def)
qed

lemma store_step: "performOp (pb_storePorts p) a op (pb_store s) = (r, t) \<Longrightarrow> \<exists>s'. storePub p a op s = (r, s') \<and> pb_store s' = t"
  by (cases r) (simp_all add: storePub_def inStore_def tryPub_def logPub_def io_defs)

lemma demo_cleanup: "\<exists>s'. cleanupPrivateSourceGitDir demoRunPorts target expected s = (Inr (), s')"
proof -
  have "\<exists>x s1. statPub demoRunPorts target s0 = (Inr x, s1)" for s0
    by (simp add: statPub_def inStore_def lstatOrNull_def io_defs pubFault_def demoRunPorts_def faultPoint_def)
  then obtain x s1 where stat: "statPub demoRunPorts target s = (Inr x, s1)" by blast
  have quiet: "\<exists>s2. quietPub m s0 = (Inr (), s2)" for m and s0 :: "unit pubState"
    by (cases "m s0") (auto simp: quietPub_def io_defs split: sum.splits)
  have "usePub (pb_cleanupLate demoRunPorts) s = (Inr False, s)" by (simp add: usePub_def demoRunPorts_def)
  with stat quiet [of _ s1] show ?thesis
    unfolding cleanupPrivateSourceGitDir_def by (simp add: bindE_def)
qed

definition smallJson :: "jsval \<Rightarrow> bool" where
  "smallJson v \<longleftrightarrow> jsonable v \<and> validateJson [] 0 v = Inr () \<and> length (stringifyIndent v) < 2000 \<and> length (stringify v) < 2000"

lemma smallJson_clone: "smallJson v \<Longrightarrow> cloneJson v l = Inr v"
  using jsonParse_stringify(1) [of v "[]"] validateJson_label(1) [of "[]" 0 v l] by (simp add: smallJson_def cloneJson_def parseText_def)

lemma smallJson_serialize: "smallJson v \<Longrightarrow> \<exists>c. serializeRecord v l pretty = Inr (v, c)"
  using smallJson_clone [of v l]
  by (auto simp: serializeRecord_def smallJson_def bindR_def require_def byteLength_def maxRecordBytes_def newline_def)

lemma demo_recorded:
  "\<exists>e t f t'. performOp (pb_storePorts demoRunPorts) demoRunArgs (AppendEvent ''publication.finished'' (JObj (bindingOf demoInput demoReceipt))) demoRunStore
       = (Inr e, t) \<and>
     performOp (pb_storePorts demoRunPorts) demoRunArgs (Finish ''completed'' (finishDetails demoInput demoReceipt)) t = (Inr f, t')"
proof -
  let ?time = "''2026-01-02T03:04:05.006Z''" and ?d = "JObj (bindingOf demoInput demoReceipt)" and ?f = "finishDetails demoInput demoReceipt"
  have ports: "sp_now (pb_storePorts demoRunPorts) = (\<lambda>w. (Inr ?time, w))" "sp_fault (pb_storePorts demoRunPorts) = (\<lambda>w. (None, w))"
    by (simp_all add: demoRunPorts_def)
  have json: "smallJson ?d" "smallJson ?f" "smallJson (JObj (spread (props ?d) (eventFields demoRunArgs 1 ?time ''publication.finished'')))"
    "smallJson (JObj (spread (spread (props ?f) [(''status'', JStr ''completed'')]) (eventFields demoRunArgs 2 ?time ''run.finished'')))"
    "smallJson (JObj (terminalRun demoRunArgs demoRun (props ?f) ''completed'' ?time))"
    by code_simp+
  have plain: "isPlainObject ?d" "isPlainObject ?f" "reEventType ''publication.finished''" by code_simp+
  obtain c where event: "serializeRecord (JObj (spread (props ?d) (eventFields demoRunArgs 1 ?time ''publication.finished''))) ''event'' False
      = Inr (JObj (spread (props ?d) (eventFields demoRunArgs 1 ?time ''publication.finished'')), c)" using smallJson_serialize [OF json(3)] by blast
  have "\<exists>e t. appendEvent (pb_storePorts demoRunPorts) demoRunArgs ''publication.finished'' ?d demoRunStore = (Inr e, t) \<and>
      ps_sequence t = 2 \<and> \<not> ps_finished t \<and> ps_run t = demoRun"
    using event smallJson_clone [OF json(1)] plain
    by (simp add: appendEvent_def ensureOpen_def io_defs require_def checks.simps bindR_def plainObject_def demoRunStore_def maxEvents_def timestamp_def
        useWorldR_def ports appendFile_def faultPoint_def putNode_def Let_def del: props.simps)
  then obtain e t where append: "appendEvent (pb_storePorts demoRunPorts) demoRunArgs ''publication.finished'' ?d demoRunStore = (Inr e, t)"
    and t: "ps_sequence t = 2" "\<not> ps_finished t" "ps_run t = demoRun" by blast
  obtain c1 c2 where records: "serializeRecord (JObj (terminalRun demoRunArgs demoRun (props ?f) ''completed'' ?time)) ''run record'' True
      = Inr (JObj (terminalRun demoRunArgs demoRun (props ?f) ''completed'' ?time), c1)"
    "serializeRecord (JObj (spread (spread (props ?f) [(''status'', JStr ''completed'')]) (eventFields demoRunArgs 2 ?time ''run.finished''))) ''event'' False
      = Inr (JObj (spread (spread (props ?f) [(''status'', JStr ''completed'')]) (eventFields demoRunArgs 2 ?time ''run.finished'')), c2)"
    using smallJson_serialize [OF json(5)] smallJson_serialize [OF json(4)] by blast
  have "\<exists>f t'. finish (pb_storePorts demoRunPorts) demoRunArgs ''completed'' ?f t = (Inr f, t')"
    using records smallJson_clone [OF json(2)] plain t
    by (simp add: finish_def ensureOpen_def io_defs require_def checks.simps bindR_def plainObject_def maxEvents_def timestamp_def
        useWorldR_def ports appendFile_def atomicWrite_def faultPoint_def putNode_def Let_def terminalStatuses_def del: props.simps)
  with append show ?thesis by auto
qed

lemma demo_record: "\<exists>s'. recordPublication demoRunPorts demoRunArgs demoInput dir demoReceipt (demoAt cs) = (Inr (publishedResult demoInput demoReceipt), s')"
proof -
  let ?append = "AppendEvent ''publication.finished'' (JObj (bindingOf demoInput demoReceipt))" and ?finish = "Finish ''completed'' (finishDetails demoInput demoReceipt)"
  let ?op = "performOp (pb_storePorts demoRunPorts) demoRunArgs"
  obtain e t f t' where ops: "?op ?append demoRunStore = (Inr e, t)" "?op ?finish t = (Inr f, t')"
    using demo_recorded by blast
  obtain s1 where 1: "storePub demoRunPorts demoRunArgs ?append (demoAt cs) = (Inr e, s1)" "pb_store s1 = t"
    using store_step [of demoRunPorts demoRunArgs ?append "demoAt cs"] ops(1) by (auto simp: demoAt_def)
  obtain s2 where 2: "storePub demoRunPorts demoRunArgs ?finish s1 = (Inr f, s2)"
    using store_step [of demoRunPorts demoRunArgs ?finish s1] ops(2) 1(2) by auto
  obtain s3 where "cleanupPrivateSourceGitDir demoRunPorts (strOf (fld demoInput ''sourceGitDir'')) dir s2 = (Inr (), s3)"
    using demo_cleanup by blast
  with 1(1) 2 show ?thesis by (simp add: recordPublication_def thenE_def bindE_def)
qed

lemma demo_pushed: "\<exists>s'. publishPushed demoRunPorts demoRunArgs demoInput dir (demoAt cs) = (Inr (publishedResult demoInput demoReceipt), s')"
proof -
  let ?title = "''Bimo run run-1''" and ?body = "''Automated draft pull request for Bimo run run-1.''"
  have publisher: "createGitHubPublisher demoRunPorts (fld demoInput ''repository'') (fld demoInput ''targetBranch'') (fld demoInput ''token'') = Inr demoPublisher"
    by code_simp
  have pull: "pullInput demoInput = demoPublish ?title ?body"
    by (simp add: pullInput_def demoPublish_def demo_fields demoSha_def)
  have "validateTitle (JStr ?title) ''ghp_1'' = Inr ?title" "validateBody (JStr ?body) ''ghp_1'' = Inr ?body"
    by (code_simp, simp add: validateBody_def maxBodyBytes_def, code_simp)
  then obtain s1 where published: "publish demoRunPorts demoPublisher (demoPublish ?title ?body) (demoAt cs) = (Inr demoReceipt, s1)"
    and store: "pb_store s1 = demoRunStore"
    using demo_publish [OF demo_ports(1), of ?title ?body "demoAt cs"] by (auto simp: demoReceipt_def demoAt_def)
  have s1: "demoAt (pb_calls s1) = s1" using store by (cases s1) (simp add: demoAt_def)
  obtain s2 where "recordPublication demoRunPorts demoRunArgs demoInput dir demoReceipt s1 = (Inr (publishedResult demoInput demoReceipt), s2)"
    using demo_record [of dir "pb_calls s1"] unfolding s1 by blast
  moreover have "publicationReceipt demoRunPorts demoReceipt demoInput = Inr demoReceipt" by code_simp
  ultimately show ?thesis
    using published publisher by (simp add: publishPushed_def io_defs pull)
qed

lemma demo_publishRun: "\<exists>s'. publishRun demoRunPorts demoInput (demoAt []) = (Inr (publishedResult demoInput demoReceipt), s')"
proof -
  let ?p = demoRunPorts
  obtain c1 where check: "checkLocal ?p demoInput (demoAt []) = (Inr (), demoAt c1)" using demo_local by blast
  obtain c2 where block: "bindE (createAskpass ?p ''ghp_1'') (\<lambda>k. finallyPub (pushCandidate ?p demoInput (askpassEnv ?p k))
      (cleanupAskpass ?p ''ghp_1'' k)) (demoAt c1) = (Inr (), demoAt c2)" using demo_block by blast
  have source: "ensurePrivateDirectory ?p ''/source.git'' label (demoAt []) = (Inr (Some (NDir 448 3)), demoAt [])" for label
    by (simp add: ensurePrivateDirectory_def statPub_def inStore_def lstatOrNull_def io_defs pubFault_def demoRunPorts_def faultPoint_def
        demoAt_def demoRunStore_def demoDisk_def lookup_of_alist require_def)
  obtain s' where "publishPushed ?p demoRunArgs demoInput (Some (NDir 448 3)) (demoAt c2) = (Inr (publishedResult demoInput demoReceipt), s')"
    using demo_pushed by blast
  with check block source have fresh: "publishFresh ?p demoRunArgs demoInput (demoAt []) = (Inr (publishedResult demoInput demoReceipt), s')"
    unfolding publishFresh_def Let_def bind_then_assoc by (simp add: demo_fields thenE_def bindE_def)
  have ready: "eventsOf ''publication.ready'' [demoReady] = [demoReady]" "eventsOf ''publication.finished'' [demoReady] = []"
    "readyMatches demoReady demoInput" "fld (JObj demoRun) ''status'' = JStr ''running''"
    "safePath (JStr (pb_askpassRoot demoRunPorts)) ''askpassRoot'' = Inr ()" "isPlainObject demoInput"
    by code_simp+
  have args: "\<lparr>sa_root = ''/pods'', sa_runId = ''run-1''\<rparr> = demoRunArgs" by (simp add: demoRunArgs_def)
  have "publishRunInternal ?p demoInput (demoAt []) = (Inr (publishedResult demoInput demoReceipt), s')"
    using fresh ready demo_strict demo_open
    by (simp add: publishRunInternal_def demo_fields args io_defs require_def checks.simps bindR_def)
  then show ?thesis by (simp add: publishRun_def catchE_def)
qed



theorem publishRun_credential_gone_witness:
  "\<exists>s'. publishRun demoRunPorts demoInput (demoAt []) = (Inr (publishedResult demoInput demoReceipt), s') \<and>
     fsOf s' ''/run/bimo-publish/credential-1/token'' = None"
proof -
  obtain s' where run: "publishRun demoRunPorts demoInput (demoAt []) = (Inr (publishedResult demoInput demoReceipt), s')"
    using demo_publishRun by blast
  have store: "rooted \<lparr>sa_root = strOf (fld demoInput ''stateRoot''), sa_runId = strOf (fld demoInput ''runId'')\<rparr>"
    using demo_ports(4) by (simp add: demo_fields demoRunArgs_def)
  have apart: "apart (pb_askpassRoot demoRunPorts) (strOf (fld demoInput ''stateRoot''))"
    "apart (pb_askpassRoot demoRunPorts) (strOf (fld demoInput ''sourceGitDir''))" and root: "pb_askpassRoot demoRunPorts = ''/run/bimo-publish''"
    by code_simp+
  have under: "underPath ''/run/bimo-publish'' ''/run/bimo-publish/credential-1/token''" by code_simp
  from publishRun_credential_gone [OF run demo_ports(2) demo_credential_root store apart] under
  have "fsOf s' ''/run/bimo-publish/credential-1/token'' = fsOf (demoAt []) ''/run/bimo-publish/credential-1/token''" unfolding root by blast
  also have "\<dots> = None" by (rule demo_disk(3) [OF under])
  finally show ?thesis using run by blast
qed

end
