(* ===== verification/Credential_Proxy.thy ===== *)
theory Credential_Proxy
  imports GitHub_Publisher Pod_Controller
begin

text \<open>
  The credential proxy, \<^verbatim>\<open>src/src/credential-proxy.mjs\<close>: a small HTTP server that adds the model credential to the requests of an
  agent and forwards them upstream.

  The handler of \<^verbatim>\<open>createCredentialProxy\<close> runs for many requests at once; between two events of the sockets it runs without
  interruption.  So the proxy is a machine over such events: a request arrives, a part of its body arrives, its body ends or
  fails, the upstream answers, and so on, in any order and for any number of requests.  A request has a number of its own; \<open>Flight\<close>
  is what the handler knows of it between two events.  What is sent upstream and what is answered to clients is kept in
  the state in the order it is sent; an answer to a connection that is gone by then is recorded too, though it reaches nobody.  A client
  that goes away ends its request at once, where the code first lets the upstream call fail.  \<^verbatim>\<open>new URL\<close> is a function of the platform and a parameter.
\<close>

section \<open>Validation\<close>

definition chatPath :: string where "chatPath = ''/api/v1/chat/completions''"
definition healthPath :: string where "healthPath = ''/healthz''"
definition maxLifetimeSeconds :: int where "maxLifetimeSeconds = 7200"
definition maxCredentialBytes :: nat where "maxCredentialBytes = 4096"

definition modelRoutingFields :: "string list" where
  "modelRoutingFields = [''fallbacks'', ''models'', ''plugins'', ''provider'', ''route'']"

definition requirePositiveInteger :: "jsval \<Rightarrow> string \<Rightarrow> unit res" where
  "requirePositiveInteger v name = require (isSafeInteger v \<and> 0 < intOf v) (name @ '' must be a positive integer'')"

definition credentialChar :: "char \<Rightarrow> bool" where
  "credentialChar c = (\<not> (inRange 0 32 c \<or> (of_char c :: nat) = 127))"

definition validateCredential :: "jsval \<Rightarrow> nat \<Rightarrow> string res" where
  "validateCredential v maxBytes =
     bindR (require (isString v \<and> strOf v \<noteq> [] \<and> byteLength (strOf v) \<le> maxBytes \<and> list_all credentialChar (strOf v)) ''invalid credential input'')
       (\<lambda>_. Inr (strOf v))"

definition proxyModelChar :: "char \<Rightarrow> bool" where
  "proxyModelChar c = (isAlnum c \<or> c \<in> set ''._~:/-'')"

definition validateProxyModel :: "jsval \<Rightarrow> string res" where
  "validateProxyModel v =
     bindR (require (isString v \<and> strOf v \<noteq> [] \<and> length (strOf v) \<le> 256 \<and> list_all proxyModelChar (strOf v)) ''invalid model'') (\<lambda>_. Inr (strOf v))"

definition validateUpstreamOrigin :: "(string \<Rightarrow> urlParts option) \<Rightarrow> jsval \<Rightarrow> urlParts res" where
  "validateUpstreamOrigin url v =
     (case url (toStr v) of
        None \<Rightarrow> Inl ''Invalid URL''
      | Some u \<Rightarrow>
          bindR (require (up_protocol u \<in> {''http:'', ''https:''} \<and> plainUrl u \<and> up_pathname u = ''/'') ''invalid upstream origin'') (\<lambda>_. Inr u))"

section \<open>The credential on standard input\<close>

definition decodeCredential :: "string \<Rightarrow> nat \<Rightarrow> string res" where
  "decodeCredential bytes maxBytes =
     (case utf8Decode bytes of None \<Rightarrow> Inl ''invalid credential input'' | Some s \<Rightarrow> validateCredential (JStr s) maxBytes)"

definition dropLast :: "char \<Rightarrow> string \<Rightarrow> string" where
  "dropLast c s = (if s \<noteq> [] \<and> last s = c then butlast s else s)"

fun credentialLoop :: "nat \<Rightarrow> string \<Rightarrow> string list \<Rightarrow> string res" where
  "credentialLoop maxBytes buffered [] =
     (case utf8Decode buffered of
        None \<Rightarrow> Inl ''invalid credential input''
      | Some raw \<Rightarrow> validateCredential (JStr (dropLast (CHR 0x0D) (dropLast (CHR 0x0A) raw))) maxBytes)"
| "credentialLoop maxBytes buffered (chunk # chunks) =
     (let buffered' = buffered @ chunk in
      if maxBytes < length buffered' then Inl ''credential input too large''
      else if CHR 0x0A \<in> set buffered' then
        (let line = takeWhile (\<lambda>c. c \<noteq> CHR 0x0A) buffered' in
         if Suc (length line) \<noteq> length buffered' then Inl ''invalid credential input''
         else decodeCredential (dropLast (CHR 0x0D) line) maxBytes)
      else credentialLoop maxBytes buffered' chunks)"

definition readCredentialFromStream :: "string list \<Rightarrow> jsval \<Rightarrow> string res" where
  "readCredentialFromStream chunks maxBytes =
     bindR (requirePositiveInteger maxBytes ''maxBytes'') (\<lambda>_. credentialLoop (nat (intOf maxBytes)) [] chunks)"

section \<open>Requests\<close>

type_synonym headers = "(string \<times> string) list"

record proxyConfig =
  px_credential :: string
  px_model :: string
  px_upstream :: urlParts
  px_maxRequestBodyBytes :: int
  px_maxResponseBytes :: int
  px_maxRequests :: int
  px_timeoutMs :: int
  px_maxConcurrency :: int
  px_maxCompletionTokens :: int
  px_listenScope :: string
  px_resolve :: "string \<Rightarrow> urlParts option"

record proxyArgs =
  xa_credential :: jsval
  xa_model :: jsval
  xa_upstreamOrigin :: jsval
  xa_maxRequestBodyBytes :: jsval
  xa_maxResponseBytes :: jsval
  xa_maxRequests :: jsval
  xa_timeoutMs :: jsval
  xa_maxConcurrency :: jsval
  xa_maxCompletionTokens :: jsval
  xa_listenScope :: jsval

text \<open>The default values of the parameters.\<close>

definition orDefault :: "jsval \<Rightarrow> jsval \<Rightarrow> jsval" where
  "orDefault v d = (if v = JUndef then d else v)"

definition defaultMaxRequestBodyBytes :: int where "defaultMaxRequestBodyBytes = 8 * 1024 * 1024"
definition defaultMaxRequests :: int where "defaultMaxRequests = 100"
definition defaultTimeoutMs :: int where "defaultTimeoutMs = 5 * 60 * 1000"
definition defaultMaxConcurrency :: int where "defaultMaxConcurrency = 1"
definition defaultLifetimeSeconds :: int where "defaultLifetimeSeconds = 3600"

definition proxyDefaults :: "proxyArgs \<Rightarrow> proxyArgs" where
  "proxyDefaults a =
     a\<lparr>xa_upstreamOrigin := orDefault (xa_upstreamOrigin a) (JStr ''https://openrouter.ai''),
       xa_maxRequestBodyBytes := orDefault (xa_maxRequestBodyBytes a) (num defaultMaxRequestBodyBytes),
       xa_maxResponseBytes := orDefault (xa_maxResponseBytes a) (num (16 * 1024 * 1024)),
       xa_maxRequests := orDefault (xa_maxRequests a) (num defaultMaxRequests),
       xa_timeoutMs := orDefault (xa_timeoutMs a) (num defaultTimeoutMs),
       xa_maxConcurrency := orDefault (xa_maxConcurrency a) (num defaultMaxConcurrency),
       xa_maxCompletionTokens := orDefault (xa_maxCompletionTokens a) (num 8192),
       xa_listenScope := orDefault (xa_listenScope a) (JStr ''loopback'')\<rparr>"

definition createCredentialProxy :: "(string \<Rightarrow> urlParts option) \<Rightarrow> (string \<Rightarrow> urlParts option) \<Rightarrow> proxyArgs \<Rightarrow> proxyConfig res" where
  "createCredentialProxy url resolve given =
     (let a = proxyDefaults given in bindR (validateCredential (xa_credential a) maxCredentialBytes) (\<lambda>credential.
     bindR (validateProxyModel (xa_model a)) (\<lambda>model.
     bindR (validateUpstreamOrigin url (xa_upstreamOrigin a)) (\<lambda>upstream.
     bindR (checks
       [requirePositiveInteger (xa_maxRequestBodyBytes a) ''maxRequestBodyBytes'',
        requirePositiveInteger (xa_maxResponseBytes a) ''maxResponseBytes'',
        requirePositiveInteger (xa_maxRequests a) ''maxRequests'',
        requirePositiveInteger (xa_timeoutMs a) ''timeoutMs'',
        requirePositiveInteger (xa_maxConcurrency a) ''maxConcurrency'',
        requirePositiveInteger (xa_maxCompletionTokens a) ''maxCompletionTokens'',
        require (xa_listenScope a \<in> {JStr ''loopback'', JStr ''isolated-network''}) ''invalid listenScope'']) (\<lambda>_.
     Inr \<lparr>px_credential = credential, px_model = model, px_upstream = upstream,
          px_maxRequestBodyBytes = intOf (xa_maxRequestBodyBytes a), px_maxResponseBytes = intOf (xa_maxResponseBytes a),
          px_maxRequests = intOf (xa_maxRequests a), px_timeoutMs = intOf (xa_timeoutMs a), px_maxConcurrency = intOf (xa_maxConcurrency a),
          px_maxCompletionTokens = intOf (xa_maxCompletionTokens a), px_listenScope = strOf (xa_listenScope a), px_resolve = resolve\<rparr>)))))"

record proxyRequest =
  rq_method :: string
  rq_url :: string
  rq_host :: "string option"
  rq_contentType :: "string option"
  rq_contentLength :: "string option"
  rq_transferEncoding :: "string option"
  rq_complete :: bool

definition targetPath :: "(string \<Rightarrow> urlParts option) \<Rightarrow> string \<Rightarrow> string option" where
  "targetPath resolve rawUrl =
     (if \<not> prefix ''/'' rawUrl then None
      else case resolve rawUrl of
        None \<Rightarrow> None
      | Some u \<Rightarrow>
          if up_origin u \<noteq> ''http://credential-proxy.invalid'' \<or> up_search u \<noteq> [] \<or> up_hash u \<noteq> [] then None else Some (up_pathname u))"

definition hasValidOptionalPort :: "string option \<Rightarrow> bool" where
  "hasValidOptionalPort port =
     (case port of
        None \<Rightarrow> True
      | Some s \<Rightarrow> s \<noteq> [] \<and> length s \<le> 5 \<and> list_all isDigit s \<and> hd s \<noteq> CHR ''0'' \<and> digitsValue s \<le> 65535)"

text \<open>\<^verbatim>\<open>/^name(?::([^:]+))?$/u\<close>: whether the value matches, and the port.\<close>

definition hostPort :: "string \<Rightarrow> string \<Rightarrow> string option option" where
  "hostPort name v =
     (let port = drop (Suc (length name)) v in
      if v = name then Some None
      else if prefix (name @ '':'') v \<and> port \<noteq> [] \<and> CHR '':'' \<notin> set port then Some (Some port) else None)"

definition hasAllowedHostHeader :: "string option \<Rightarrow> string \<Rightarrow> bool" where
  "hasAllowedHostHeader host listenScope =
     (case host of
        None \<Rightarrow> False
      | Some v \<Rightarrow>
          if listenScope = ''isolated-network'' then (case hostPort ''gateway'' v of None \<Rightarrow> False | Some port \<Rightarrow> hasValidOptionalPort port)
          else (case hostPort ''127.0.0.1'' v of
              Some port \<Rightarrow> hasValidOptionalPort port
            | None \<Rightarrow> (case hostPort ''[::1]'' v of None \<Rightarrow> False | Some port \<Rightarrow> hasValidOptionalPort port)))"

text \<open>A \<^verbatim>\<open>ClientRequestError\<close> is its status and its code.\<close>

type_synonym clientError = "int \<times> string"

definition contentLength :: "string option \<Rightarrow> clientError + int option" where
  "contentLength header =
     (case header of
        None \<Rightarrow> Inr None
      | Some s \<Rightarrow>
          if digitText s \<and> int (digitsValue s) \<le> maxSafeInteger then Inr (Some (int (digitsValue s))) else Inl (400, ''invalid_content_length''))"

text \<open>\<^verbatim>\<open>/^type(?:;|$)/iu\<close>\<close>

definition mediaType :: "string \<Rightarrow> string \<Rightarrow> bool" where
  "mediaType type v =
     (toLowerCase (take (length type) v) = type \<and> (length v = length type \<or> length type < length v \<and> v ! length type = CHR '';''))"

section \<open>The body of a request\<close>

definition completionCap :: "jsval \<Rightarrow> string \<Rightarrow> clientError + int option" where
  "completionCap payload field =
     (let v = fld payload field in
      if v = JUndef \<or> v = JNull then Inr None
      else if isSafeInteger v \<and> 0 < intOf v then Inr (Some (intOf v)) else Inl (400, ''invalid_completion_token_limit''))"

definition minCap :: "int \<Rightarrow> int option \<Rightarrow> int" where
  "minCap n cap = (case cap of None \<Rightarrow> n | Some c \<Rightarrow> min n c)"

definition applyCompletionTokenCap :: "jsval \<Rightarrow> int \<Rightarrow> clientError + jsval" where
  "applyCompletionTokenCap payload maxCompletionTokens =
     (case completionCap payload ''max_tokens'' of
        Inl e \<Rightarrow> Inl e
      | Inr cap \<Rightarrow>
          (case completionCap payload ''max_completion_tokens'' of
             Inl e \<Rightarrow> Inl e
           | Inr cap' \<Rightarrow>
               Inr (JObj (setProp ''max_completion_tokens'' (num (minCap (minCap maxCompletionTokens cap) cap'))
                 (filter (\<lambda>(k, _). k \<noteq> ''max_tokens'') (props payload))))))"

text \<open>\<^verbatim>\<open>Buffer.toString("utf8")\<close>: a maximal part of an ill-formed sequence becomes one replacement character.\<close>

definition utf8Lead :: "nat \<Rightarrow> nat \<times> nat \<times> nat" where
  "utf8Lead b =
     (if 194 \<le> b \<and> b \<le> 223 then (1, 128, 191) else if b = 224 then (2, 160, 191) else if b = 237 then (2, 128, 159)
      else if 225 \<le> b \<and> b \<le> 239 then (2, 128, 191) else if b = 240 then (3, 144, 191) else if 241 \<le> b \<and> b \<le> 243 then (3, 128, 191)
      else if b = 244 then (3, 128, 143) else (0, 0, 0))"

definition replacement :: "nat list" where "replacement = [239, 191, 189]"

function utf8Lossy :: "nat list \<Rightarrow> nat \<times> nat \<times> nat \<Rightarrow> nat list \<Rightarrow> nat list" where
  "utf8Lossy pending want [] = (if pending = [] then [] else replacement)"
| "utf8Lossy pending want (b # bs) =
     (case want of
        (0, _, _) \<Rightarrow>
          if b < 128 then b # utf8Lossy [] (0, 0, 0) bs
          else if fst (utf8Lead b) = 0 then replacement @ utf8Lossy [] (0, 0, 0) bs
          else utf8Lossy [b] (utf8Lead b) bs
      | (Suc n, lo, hi) \<Rightarrow>
          if lo \<le> b \<and> b \<le> hi then
            (if n = 0 then pending @ [b] @ utf8Lossy [] (0, 0, 0) bs else utf8Lossy (pending @ [b]) (n, 128, 191) bs)
          else replacement @ utf8Lossy [] (0, 0, 0) (b # bs))"
  by pat_completeness auto

termination by (relation "measures [\<lambda>(_, _, bs). length bs, \<lambda>(_, want, _). fst want]") auto

definition bufferToString :: "string \<Rightarrow> string" where
  "bufferToString bytes = map char_of (utf8Lossy [] (0, 0, 0) (map of_char bytes))"

definition forwardedBody :: "proxyConfig \<Rightarrow> string \<Rightarrow> clientError + string" where
  "forwardedBody cfg requestBody =
     (case jsonParse (bufferToString requestBody) of
        None \<Rightarrow> Inl (400, ''invalid_json'')
      | Some payload \<Rightarrow>
          if \<not> isPlainObject payload then Inl (400, ''invalid_request_body'')
          else if fld payload ''model'' \<noteq> JStr (px_model cfg) then Inl (403, ''model_not_allowed'')
          else if list_ex (hasOwn payload) modelRoutingFields then Inl (403, ''model_routing_not_allowed'')
          else (case applyCompletionTokenCap payload (px_maxCompletionTokens cfg) of
              Inl e \<Rightarrow> Inl e
            | Inr capped \<Rightarrow>
                if px_maxRequestBodyBytes cfg < int (byteLength (stringify capped)) then Inl (413, ''request_body_too_large'')
                else Inr (stringify capped)))"

section \<open>The machine\<close>

datatype proxyReply =
    Rejected int string headers
  | Health
  | Relayed int headers string
  | Streamed int headers string bool
  | ClientGone

datatype flight =
    Reading int string
  | Waiting
  | Collecting int headers string
  | Streaming int headers string

record upstreamCall =
  uc_protocol :: string
  uc_hostname :: string
  uc_port :: string
  uc_method :: string
  uc_path :: string
  uc_headers :: headers
  uc_body :: string
  uc_timeoutMs :: int

record proxyState =
  pz_requestCount :: int
  pz_activeRequests :: int
  pz_flights :: "(nat \<times> flight) list"
  pz_upstream :: "(nat \<times> upstreamCall) list"
  pz_replies :: "(nat \<times> proxyReply) list"

definition initialProxy :: proxyState where
  "initialProxy = \<lparr>pz_requestCount = 0, pz_activeRequests = 0, pz_flights = [], pz_upstream = [], pz_replies = []\<rparr>"

datatype proxyEvent =
    Arrives nat proxyRequest int
  | ExpectsContinue nat proxyRequest
  | BodyData nat string bool
  | BodyEnds nat int
  | BodyAborts nat bool
  | BodyErrors nat bool
  | BodyTimesOut nat bool
  | UpstreamAnswers nat jsval "string \<Rightarrow> string option"
  | UpstreamData nat string
  | UpstreamEnds nat
  | UpstreamFails nat
  | UpstreamTimesOut nat
  | ClientCloses nat

definition closeHeader :: "bool \<Rightarrow> headers" where
  "closeHeader complete = (if complete then [] else [(''connection'', ''close'')])"

definition answer :: "nat \<Rightarrow> proxyReply \<Rightarrow> proxyState \<Rightarrow> proxyState" where
  "answer r reply s = s\<lparr>pz_replies := pz_replies s @ [(r, reply)]\<rparr>"

definition rejectRequest :: "nat \<Rightarrow> bool \<Rightarrow> int \<Rightarrow> string \<Rightarrow> headers \<Rightarrow> proxyState \<Rightarrow> proxyState" where
  "rejectRequest r complete status code additional = answer r (Rejected status code (additional @ closeHeader complete))"

text \<open>The message of an answer: its status, headers and body.\<close>

definition sendJson :: "int \<Rightarrow> jsval \<Rightarrow> headers \<Rightarrow> int \<times> headers \<times> string" where
  "sendJson statusCode payload additionalHeaders =
     (let body = stringify payload @ [CHR 0x0A] in
      (statusCode,
       [(''cache-control'', ''no-store''), (''content-length'', decNat (length body)), (''content-type'', ''application/json; charset=utf-8'')] @ additionalHeaders,
       body))"

definition sendError :: "int \<Rightarrow> string \<Rightarrow> headers \<Rightarrow> int \<times> headers \<times> string" where
  "sendError statusCode code additionalHeaders = sendJson statusCode (JObj [(''error'', JStr code)]) additionalHeaders"

fun replyMessage :: "proxyReply \<Rightarrow> (int \<times> headers \<times> string) option" where
  "replyMessage (Rejected status code hs) = Some (sendError status code hs)"
| "replyMessage Health = Some (sendJson 200 (JObj [(''status'', JStr ''ok'')]) [])"
| "replyMessage (Relayed status hs body) = Some (status, hs, body)"
| "replyMessage (Streamed status hs body _) = Some (status, hs, body)"
| "replyMessage ClientGone = None"

text \<open>The \<^verbatim>\<open>finally\<close> of the handler, after the answer.\<close>

definition settle :: "nat \<Rightarrow> proxyReply \<Rightarrow> proxyState \<Rightarrow> proxyState" where
  "settle r reply s =
     (answer r reply s)\<lparr>pz_activeRequests := pz_activeRequests s - 1, pz_flights := filter (\<lambda>(q, _). q \<noteq> r) (pz_flights s)\<rparr>"

definition settleError :: "nat \<Rightarrow> bool \<Rightarrow> clientError \<Rightarrow> proxyState \<Rightarrow> proxyState" where
  "settleError r complete e = settle r (Rejected (fst e) (snd e) (closeHeader complete))"

definition setFlight :: "nat \<Rightarrow> flight \<Rightarrow> proxyState \<Rightarrow> proxyState" where
  "setFlight r f s = s\<lparr>pz_flights := map (\<lambda>(q, g). (q, if q = r then f else g)) (pz_flights s)\<rparr>"

definition startRequest :: "proxyConfig \<Rightarrow> nat \<Rightarrow> proxyRequest \<Rightarrow> int \<Rightarrow> proxyState \<Rightarrow> proxyState" where
  "startRequest cfg r rq now s =
     (let started = s\<lparr>pz_activeRequests := pz_activeRequests s + 1, pz_flights := pz_flights s @ [(r, Reading (now + px_timeoutMs cfg) [])]\<rparr>;
          refuse = (\<lambda>e. settleError r (rq_complete rq) e started) in
      if \<not> (case rq_contentType rq of None \<Rightarrow> False | Some t \<Rightarrow> mediaType ''application/json'' t) then refuse (415, ''unsupported_media_type'')
      else case contentLength (rq_contentLength rq) of
        Inl e \<Rightarrow> refuse e
      | Inr (Some n) \<Rightarrow> if px_maxRequestBodyBytes cfg < n then refuse (413, ''request_body_too_large'') else started
      | Inr None \<Rightarrow> started)"

definition arrives :: "proxyConfig \<Rightarrow> nat \<Rightarrow> proxyRequest \<Rightarrow> int \<Rightarrow> proxyState \<Rightarrow> proxyState" where
  "arrives cfg r rq now s =
     (let reject = rejectRequest r (rq_complete rq); pathname = targetPath (px_resolve cfg) (rq_url rq) in
      if \<not> hasAllowedHostHeader (rq_host rq) (px_listenScope cfg) then reject 400 ''invalid_host'' [] s
      else if pathname = Some healthPath then
        (if rq_method rq \<noteq> ''GET'' then reject 405 ''method_not_allowed'' [(''allow'', ''GET'')] s
         else if rq_contentLength rq \<noteq> None \<or> rq_transferEncoding rq \<noteq> None then reject 400 ''request_body_not_allowed'' [] s
         else answer r Health s)
      else if pathname \<noteq> Some chatPath then reject 404 ''not_found'' [] s
      else if rq_method rq \<noteq> ''POST'' then reject 405 ''method_not_allowed'' [(''allow'', ''POST'')] s
      else if px_maxRequests cfg \<le> pz_requestCount s then reject 429 ''request_limit_reached'' [] s
      else
        (let counted = s\<lparr>pz_requestCount := pz_requestCount s + 1\<rparr> in
         if px_maxConcurrency cfg \<le> pz_activeRequests s then reject 429 ''concurrency_limit_reached'' [(''retry-after'', ''1'')] counted
         else startRequest cfg r rq now counted))"

definition upstreamRequest :: "proxyConfig \<Rightarrow> string \<Rightarrow> int \<Rightarrow> upstreamCall" where
  "upstreamRequest cfg body timeoutMs =
     \<lparr>uc_protocol = up_protocol (px_upstream cfg), uc_hostname = up_hostname (px_upstream cfg), uc_port = up_port (px_upstream cfg),
      uc_method = ''POST'', uc_path = chatPath,
      uc_headers = [(''accept'', ''application/json, text/event-stream''), (''authorization'', ''Bearer '' @ px_credential cfg),
        (''content-length'', decNat (length body)), (''content-type'', ''application/json''), (''user-agent'', ''bimo-credential-proxy/1'')],
      uc_body = body, uc_timeoutMs = timeoutMs\<rparr>"

definition readRequestBody :: "proxyConfig \<Rightarrow> nat \<Rightarrow> string \<Rightarrow> bool \<Rightarrow> int \<Rightarrow> string \<Rightarrow> proxyState \<Rightarrow> proxyState" where
  "readRequestBody cfg r chunk complete deadline collected s =
     (if px_maxRequestBodyBytes cfg < int (length (collected @ chunk)) then settleError r complete (413, ''request_body_too_large'') s
      else setFlight r (Reading deadline (collected @ chunk)) s)"

definition forwardRequest :: "proxyConfig \<Rightarrow> nat \<Rightarrow> int \<Rightarrow> int \<Rightarrow> string \<Rightarrow> proxyState \<Rightarrow> proxyState" where
  "forwardRequest cfg r now deadline requestBody s =
     (case forwardedBody cfg requestBody of
        Inl e \<Rightarrow> settleError r True e s
      | Inr body \<Rightarrow> setFlight r Waiting (s\<lparr>pz_upstream := pz_upstream s @ [(r, upstreamRequest cfg body (max 1 (deadline - now)))]\<rparr>))"

definition responseContentType :: "(string \<Rightarrow> string option) \<Rightarrow> string" where
  "responseContentType headers =
     (case headers ''content-type'' of
        None \<Rightarrow> ''application/octet-stream''
      | Some t \<Rightarrow> if mediaType ''application/json'' t \<or> mediaType ''text/event-stream'' t then t else ''application/octet-stream'')"

definition responseHeaders :: "(string \<Rightarrow> string option) \<Rightarrow> headers" where
  "responseHeaders headers =
     [(''cache-control'', ''no-store''), (''content-type'', responseContentType headers)] @
     (case headers ''retry-after'' of None \<Rightarrow> [] | Some v \<Rightarrow> if digitText v \<and> length v \<le> 6 then [(''retry-after'', v)] else [])"

definition relayStatus :: "jsval \<Rightarrow> int" where
  "relayStatus status = (if isInteger status \<and> 200 \<le> intOf status \<and> intOf status \<le> 599 then intOf status else 502)"

definition isEventStream :: "(string \<Rightarrow> string option) \<Rightarrow> bool" where
  "isEventStream headers = mediaType ''text/event-stream'' (responseContentType headers)"

definition upstreamAnswers :: "nat \<Rightarrow> jsval \<Rightarrow> (string \<Rightarrow> string option) \<Rightarrow> proxyState \<Rightarrow> proxyState" where
  "upstreamAnswers r status headers =
     setFlight r ((if isEventStream headers then Streaming else Collecting) (relayStatus status) (responseHeaders headers) [])"

text \<open>A chunk of the upstream's answer, and the end of the answer: a stream is passed on as it comes, anything else is collected
  first.  When the headers are out already, a failure can only cut the connection.\<close>

definition collectResponse :: "proxyConfig \<Rightarrow> nat \<Rightarrow> string \<Rightarrow> int \<Rightarrow> headers \<Rightarrow> string \<Rightarrow> proxyState \<Rightarrow> proxyState" where
  "collectResponse cfg r chunk status hs body s =
     (if px_maxResponseBytes cfg < int (length (body @ chunk)) then settle r (Rejected 502 ''upstream_response_too_large'' []) s
      else setFlight r (Collecting status hs (body @ chunk)) s)"

definition streamResponse :: "proxyConfig \<Rightarrow> nat \<Rightarrow> string \<Rightarrow> int \<Rightarrow> headers \<Rightarrow> string \<Rightarrow> proxyState \<Rightarrow> proxyState" where
  "streamResponse cfg r chunk status hs body s =
     (if px_maxResponseBytes cfg < int (length (body @ chunk)) then settle r (Streamed status hs body False) s
      else setFlight r (Streaming status hs (body @ chunk)) s)"

definition upstreamData :: "proxyConfig \<Rightarrow> nat \<Rightarrow> string \<Rightarrow> flight \<Rightarrow> proxyState \<Rightarrow> proxyState" where
  "upstreamData cfg r chunk f s =
     (case f of
        Collecting status hs body \<Rightarrow> collectResponse cfg r chunk status hs body s
      | Streaming status hs body \<Rightarrow> streamResponse cfg r chunk status hs body s
      | _ \<Rightarrow> s)"

definition upstreamEnds :: "nat \<Rightarrow> flight \<Rightarrow> proxyState \<Rightarrow> proxyState" where
  "upstreamEnds r f s =
     (case f of
        Collecting status hs body \<Rightarrow> settle r (Relayed status (hs @ [(''content-length'', decNat (length body))]) body) s
      | Streaming status hs body \<Rightarrow> settle r (Streamed status hs body True) s
      | _ \<Rightarrow> s)"

definition forwardFails :: "nat \<Rightarrow> int \<Rightarrow> string \<Rightarrow> flight \<Rightarrow> proxyState \<Rightarrow> proxyState" where
  "forwardFails r status code f s =
     (case f of
        Reading _ _ \<Rightarrow> s
      | Streaming st hs body \<Rightarrow> settle r (Streamed st hs body False) s
      | _ \<Rightarrow> settle r (Rejected status code []) s)"

fun isReading :: "flight \<Rightarrow> bool" where
  "isReading (Reading _ _) = True"
| "isReading _ = False"

definition knownRequest :: "nat \<Rightarrow> proxyState \<Rightarrow> bool" where
  "knownRequest r s = (r \<in> fst ` set (pz_flights s) \<or> r \<in> fst ` set (pz_replies s))"

fun proxyStep :: "proxyConfig \<Rightarrow> proxyEvent \<Rightarrow> proxyState \<Rightarrow> proxyState" where
  "proxyStep cfg (Arrives r rq now) s = (if knownRequest r s then s else arrives cfg r rq now s)"
| "proxyStep cfg (ExpectsContinue r rq) s =
     (if knownRequest r s then s else rejectRequest r (rq_complete rq) 417 ''expectation_failed'' [] s)"
| "proxyStep cfg (BodyData r chunk complete) s =
     (case map_of (pz_flights s) r of Some (Reading deadline collected) \<Rightarrow> readRequestBody cfg r chunk complete deadline collected s | _ \<Rightarrow> s)"
| "proxyStep cfg (BodyEnds r now) s =
     (case map_of (pz_flights s) r of Some (Reading deadline collected) \<Rightarrow> forwardRequest cfg r now deadline collected s | _ \<Rightarrow> s)"
| "proxyStep cfg (BodyAborts r complete) s =
     (case map_of (pz_flights s) r of Some (Reading _ _) \<Rightarrow> settleError r complete (400, ''request_aborted'') s | _ \<Rightarrow> s)"
| "proxyStep cfg (BodyErrors r complete) s =
     (case map_of (pz_flights s) r of Some (Reading _ _) \<Rightarrow> settleError r complete (400, ''request_read_failed'') s | _ \<Rightarrow> s)"
| "proxyStep cfg (BodyTimesOut r complete) s =
     (case map_of (pz_flights s) r of Some (Reading _ _) \<Rightarrow> settleError r complete (408, ''request_timeout'') s | _ \<Rightarrow> s)"
| "proxyStep cfg (UpstreamAnswers r status headers) s =
     (case map_of (pz_flights s) r of Some Waiting \<Rightarrow> upstreamAnswers r status headers s | _ \<Rightarrow> s)"
| "proxyStep cfg (UpstreamData r chunk) s = (case map_of (pz_flights s) r of Some f \<Rightarrow> upstreamData cfg r chunk f s | None \<Rightarrow> s)"
| "proxyStep cfg (UpstreamEnds r) s = (case map_of (pz_flights s) r of Some f \<Rightarrow> upstreamEnds r f s | None \<Rightarrow> s)"
| "proxyStep cfg (UpstreamFails r) s =
     (case map_of (pz_flights s) r of Some f \<Rightarrow> forwardFails r 502 ''upstream_unavailable'' f s | None \<Rightarrow> s)"
| "proxyStep cfg (UpstreamTimesOut r) s =
     (case map_of (pz_flights s) r of Some f \<Rightarrow> forwardFails r 504 ''upstream_timeout'' f s | None \<Rightarrow> s)"
| "proxyStep cfg (ClientCloses r) s =
     (case map_of (pz_flights s) r of Some f \<Rightarrow> if isReading f then s else settle r ClientGone s | None \<Rightarrow> s)"

section \<open>The command line\<close>

definition parseDecimal :: "jsval \<Rightarrow> int option" where
  "parseDecimal v = (if isString v \<and> digitText (strOf v) \<and> int (digitsValue (strOf v)) \<le> maxSafeInteger then Some (int (digitsValue (strOf v))) else None)"

definition parsePort :: "jsval \<Rightarrow> int res" where
  "parsePort v = (case parseDecimal v of None \<Rightarrow> Inl ''invalid port'' | Some n \<Rightarrow> if 1 \<le> n \<and> n \<le> 65535 then Inr n else Inl ''invalid port'')"

definition parsePositiveIntegerOption :: "jsval \<Rightarrow> string \<Rightarrow> int res" where
  "parsePositiveIntegerOption v name =
     (case parseDecimal v of None \<Rightarrow> Inl (''invalid '' @ name) | Some n \<Rightarrow> if 0 < n then Inr n else Inl (''invalid '' @ name))"

definition parseListenScope :: "jsval \<Rightarrow> string res" where
  "parseListenScope v =
     (if v = JUndef then Inr ''loopback'' else if v = JStr ''isolated-network'' then Inr ''isolated-network'' else Inl ''invalid listen scope'')"

definition parseLifetimeSeconds :: "jsval \<Rightarrow> int res" where
  "parseLifetimeSeconds v =
     bindR (parsePositiveIntegerOption v ''lifetime seconds'') (\<lambda>n. if n \<le> maxLifetimeSeconds then Inr n else Inl ''invalid lifetime seconds'')"

text \<open>What \<^verbatim>\<open>main\<close> takes from the options and the environment: the address it listens on, the lifetime and the arguments of
  \<^verbatim>\<open>createCredentialProxy\<close> but for the credential, which is read from standard input afterwards.\<close>

record proxyOptions =
  ov_lifetimeSeconds :: jsval
  ov_listenScope :: jsval
  ov_maxBodyBytes :: jsval
  ov_maxConcurrency :: jsval
  ov_maxRequests :: jsval
  ov_model :: jsval
  ov_port :: jsval
  ov_timeoutSeconds :: jsval
  ov_envHost :: jsval
  ov_envPort :: jsval
  ov_envModel :: jsval

record proxyLaunch =
  la_host :: string
  la_port :: int
  la_lifetimeMs :: int
  la_args :: proxyArgs

definition mainOptions :: "proxyOptions \<Rightarrow> proxyLaunch res" where
  "mainOptions v =
     bindR (require (ov_envHost v = JUndef) ''host environment override is not allowed'') (\<lambda>_.
     bindR (parsePort (orElse (ov_port v) (orElse (ov_envPort v) (JStr ''8787'')))) (\<lambda>port.
     bindR (parseListenScope (ov_listenScope v)) (\<lambda>listenScope.
     bindR (parseLifetimeSeconds (orElse (ov_lifetimeSeconds v) (JStr (decInt defaultLifetimeSeconds)))) (\<lambda>lifetimeSeconds.
     bindR (parsePositiveIntegerOption (orElse (ov_maxBodyBytes v) (JStr (decInt defaultMaxRequestBodyBytes))) ''max body bytes'') (\<lambda>maxRequestBodyBytes.
     bindR (parsePositiveIntegerOption (orElse (ov_maxRequests v) (JStr (decInt defaultMaxRequests))) ''max requests'') (\<lambda>maxRequests.
     bindR (parsePositiveIntegerOption (orElse (ov_maxConcurrency v) (JStr (decInt defaultMaxConcurrency))) ''max concurrency'') (\<lambda>maxConcurrency.
     bindR (parsePositiveIntegerOption (orElse (ov_timeoutSeconds v) (JStr (decInt (defaultTimeoutMs div 1000)))) ''timeout seconds'') (\<lambda>timeoutSeconds.
     bindR (require (timeoutSeconds * 1000 \<le> maxSafeInteger) ''timeoutMs must be a positive integer'') (\<lambda>_.
     bindR (validateProxyModel (orElse (ov_model v) (ov_envModel v))) (\<lambda>model.
     Inr \<lparr>la_host = (if listenScope = ''isolated-network'' then ''0.0.0.0'' else ''127.0.0.1''), la_port = port,
          la_lifetimeMs = lifetimeSeconds * 1000,
          la_args = \<lparr>xa_credential = JUndef, xa_model = JStr model, xa_upstreamOrigin = JUndef,
            xa_maxRequestBodyBytes = num maxRequestBodyBytes, xa_maxResponseBytes = JUndef, xa_maxRequests = num maxRequests,
            xa_timeoutMs = num (timeoutSeconds * 1000), xa_maxConcurrency = num maxConcurrency, xa_maxCompletionTokens = JUndef,
            xa_listenScope = JStr listenScope\<rparr>\<rparr>))))))))))"

text \<open>The proxy that \<^verbatim>\<open>main\<close> starts: the options first, then the credential, then the proxy.\<close>

definition proxyMain :: "(string \<Rightarrow> urlParts option) \<Rightarrow> (string \<Rightarrow> urlParts option) \<Rightarrow> proxyOptions \<Rightarrow> string list \<Rightarrow> (proxyLaunch \<times> proxyConfig) res" where
  "proxyMain url resolve v stdin =
     bindR (mainOptions v) (\<lambda>launch.
     bindR (readCredentialFromStream stdin (num (int maxCredentialBytes))) (\<lambda>credential.
     bindR (createCredentialProxy url resolve ((la_args launch)\<lparr>xa_credential := JStr credential\<rparr>)) (\<lambda>cfg. Inr (launch, cfg))))"

end
