(* ===== verification/Credential_Proxy_Safety.thy ===== *)
theory Credential_Proxy_Safety
  imports Credential_Proxy
begin

text \<open>
  What the credential proxy promises whatever its clients and the upstream do.  The states it can be in are those that
  events lead to from the initial one (\<open>reached\<close>).  Every event makes one of eight moves (\<open>proxyMove\<close>), an abstract
  account of the handler with its guards; the invariants are proved over the moves, once and for all, in the locale
  \<open>move_invariant\<close>, which each of them interprets.
\<close>

section \<open>Reachable states and moves\<close>

inductive reached :: "proxyConfig \<Rightarrow> proxyState \<Rightarrow> bool" for cfg where
  reached_initial: "reached cfg initialProxy"
| reached_step: "reached cfg s \<Longrightarrow> reached cfg (proxyStep cfg e s)"

text \<open>The bytes of an answer that the proxy holds or has sent.\<close>

fun responseBytes :: "flight \<Rightarrow> nat" where
  "responseBytes (Collecting _ _ body) = length body"
| "responseBytes (Streaming _ _ body) = length body"
| "responseBytes _ = 0"

fun requestBytes :: "flight \<Rightarrow> nat" where
  "requestBytes (Reading _ body) = length body"
| "requestBytes _ = 0"

fun replyBytes :: "proxyReply \<Rightarrow> nat" where
  "replyBytes (Relayed _ _ body) = length body"
| "replyBytes (Streamed _ _ body _) = length body"
| "replyBytes _ = 0"

text \<open>The errors a client can be answered with, and the headers that go with them.\<close>

definition rejections :: "(int \<times> string) list" where
  "rejections =
     [(400, ''invalid_host''), (400, ''request_body_not_allowed''), (400, ''invalid_content_length''), (400, ''request_aborted''),
      (400, ''request_read_failed''), (400, ''invalid_json''), (400, ''invalid_request_body''), (400, ''invalid_completion_token_limit''),
      (403, ''model_not_allowed''), (403, ''model_routing_not_allowed''), (404, ''not_found''), (405, ''method_not_allowed''),
      (408, ''request_timeout''), (413, ''request_body_too_large''), (415, ''unsupported_media_type''), (417, ''expectation_failed''),
      (429, ''request_limit_reached''), (429, ''concurrency_limit_reached''), (502, ''upstream_response_too_large''),
      (502, ''upstream_unavailable''), (504, ''upstream_timeout'')]"

definition rejectionHeaders :: headers where
  "rejectionHeaders = [(''allow'', ''GET''), (''allow'', ''POST''), (''retry-after'', ''1''), (''connection'', ''close'')]"

fun documented :: "proxyReply \<Rightarrow> bool" where
  "documented (Rejected status code hs) \<longleftrightarrow> (status, code) \<in> set rejections \<and> set hs \<subseteq> set rejectionHeaders"
| "documented _ \<longleftrightarrow> True"

definition countRequest :: "proxyState \<Rightarrow> proxyState" where
  "countRequest s = s\<lparr>pz_requestCount := pz_requestCount s + 1\<rparr>"

definition openFlight :: "nat \<Rightarrow> int \<Rightarrow> proxyState \<Rightarrow> proxyState" where
  "openFlight r deadline s = s\<lparr>pz_activeRequests := pz_activeRequests s + 1, pz_flights := pz_flights s @ [(r, Reading deadline [])]\<rparr>"

definition callUpstream :: "nat \<Rightarrow> upstreamCall \<Rightarrow> proxyState \<Rightarrow> proxyState" where
  "callUpstream r call s = s\<lparr>pz_upstream := pz_upstream s @ [(r, call)]\<rparr>"

inductive proxyMove :: "proxyConfig \<Rightarrow> proxyState \<Rightarrow> proxyState \<Rightarrow> bool" for cfg s where
  move_stay: "proxyMove cfg s s"
| move_answer: "\<not> knownRequest r s \<Longrightarrow> replyBytes x = 0 \<Longrightarrow> documented x \<Longrightarrow> proxyMove cfg s (answer r x s)"
| move_count: "\<not> knownRequest r s \<Longrightarrow> replyBytes x = 0 \<Longrightarrow> documented x \<Longrightarrow> pz_requestCount s < px_maxRequests cfg \<Longrightarrow> proxyMove cfg s (answer r x (countRequest s))"
| move_open: "\<not> knownRequest r s \<Longrightarrow> pz_requestCount s < px_maxRequests cfg \<Longrightarrow> pz_activeRequests s < px_maxConcurrency cfg \<Longrightarrow>
    proxyMove cfg s (openFlight r deadline (countRequest s))"
| move_read: "map_of (pz_flights s) r = Some f \<Longrightarrow> isReading f \<Longrightarrow> int (length body) \<le> px_maxRequestBodyBytes cfg \<Longrightarrow>
    proxyMove cfg s (setFlight r (Reading deadline body) s)"
| move_forward: "map_of (pz_flights s) r = Some f \<Longrightarrow> isReading f \<Longrightarrow> forwardedBody cfg request = Inr body \<Longrightarrow> 1 \<le> timeout \<Longrightarrow>
    proxyMove cfg s (setFlight r Waiting (callUpstream r (upstreamRequest cfg body timeout) s))"
| move_progress: "map_of (pz_flights s) r = Some f \<Longrightarrow> \<not> isReading f \<Longrightarrow> \<not> isReading g \<Longrightarrow>
    int (responseBytes g) \<le> max (int (responseBytes f)) (px_maxResponseBytes cfg) \<Longrightarrow> proxyMove cfg s (setFlight r g s)"
| move_settle: "map_of (pz_flights s) r = Some f \<Longrightarrow> replyBytes x \<le> responseBytes f \<Longrightarrow> documented x \<Longrightarrow> proxyMove cfg s (settle r x s)"

lemma filter_absent: "r \<notin> fst ` set fs \<Longrightarrow> filter (\<lambda>(q, _). q \<noteq> r) fs = fs"
  by (induction fs) auto

lemma settle_opened:
  "\<not> knownRequest r s \<Longrightarrow> settle r x (openFlight r deadline (countRequest s)) = answer r x (countRequest s)"
  by (cases s) (simp add: settle_def answer_def openFlight_def countRequest_def knownRequest_def filter_absent)

lemma startRequest_unfold:
  "startRequest cfg r rq now (countRequest s) =
     (let opened = openFlight r (now + px_timeoutMs cfg) (countRequest s);
          refuse = (\<lambda>e. settleError r (rq_complete rq) e opened) in
      if \<not> (case rq_contentType rq of None \<Rightarrow> False | Some t \<Rightarrow> mediaType ''application/json'' t) then refuse (415, ''unsupported_media_type'')
      else case contentLength (rq_contentLength rq) of
        Inl e \<Rightarrow> refuse e
      | Inr (Some n) \<Rightarrow> if px_maxRequestBodyBytes cfg < n then refuse (413, ''request_body_too_large'') else opened
      | Inr None \<Rightarrow> opened)"
  by (simp add: startRequest_def openFlight_def Let_def)

lemma closeHeader_documented: "set (closeHeader complete) \<subseteq> set rejectionHeaders"
  by (simp add: closeHeader_def rejectionHeaders_def)

lemma contentLength_error: "contentLength h = Inl e \<Longrightarrow> e \<in> set rejections"
  by (auto simp: contentLength_def rejections_def split: option.splits if_splits)

lemma completionCap_error: "completionCap p k = Inl e \<Longrightarrow> e \<in> set rejections"
  by (auto simp: completionCap_def rejections_def Let_def split: if_splits)

lemma forwardedBody_error:
  assumes "forwardedBody cfg b = Inl e"
  shows "e \<in> set rejections"
proof -
  have "e \<in> set rejections" if "applyCompletionTokenCap p n = Inl e" for p n
    using that by (auto simp: applyCompletionTokenCap_def dest: completionCap_error split: sum.splits)
  moreover have "(400, ''invalid_json'') \<in> set rejections" "(400, ''invalid_request_body'') \<in> set rejections" "(403, ''model_not_allowed'') \<in> set rejections"
      "(403, ''model_routing_not_allowed'') \<in> set rejections" "(413, ''request_body_too_large'') \<in> set rejections"
    by (simp_all add: rejections_def)
  ultimately show ?thesis using assms by (auto simp: forwardedBody_def split: option.splits if_splits sum.splits)
qed

lemma startRequest_move:
  assumes "\<not> knownRequest r s" and "pz_requestCount s < px_maxRequests cfg" and "pz_activeRequests s < px_maxConcurrency cfg"
  shows "proxyMove cfg s (startRequest cfg r rq now (countRequest s))"
proof -
  let ?opened = "openFlight r (now + px_timeoutMs cfg) (countRequest s)"
  have "proxyMove cfg s ?opened" using assms by (rule move_open)
  moreover have "proxyMove cfg s (settleError r complete e ?opened)" if "e \<in> set rejections" for complete e
    unfolding settleError_def settle_opened [OF assms(1)] using assms that closeHeader_documented by (intro move_count) simp_all
  moreover have "(415, ''unsupported_media_type'') \<in> set rejections" "(413, ''request_body_too_large'') \<in> set rejections" by (simp_all add: rejections_def)
  ultimately show ?thesis by (auto simp: startRequest_unfold Let_def dest: contentLength_error split: sum.split option.split)
qed

lemma rejectRequest_move:
  assumes "\<not> knownRequest r s" and "(status, code) \<in> set rejections" and "set hs \<subseteq> set rejectionHeaders"
  shows "proxyMove cfg s (rejectRequest r complete status code hs s)"
    and "pz_requestCount s < px_maxRequests cfg \<Longrightarrow> proxyMove cfg s (rejectRequest r complete status code hs (countRequest s))"
  using assms closeHeader_documented unfolding rejectRequest_def by (auto intro!: move_answer move_count)

lemma arrives_move:
  assumes "\<not> knownRequest r s"
  shows "proxyMove cfg s (arrives cfg r rq now s)"
proof -
  have "proxyMove cfg s (answer r Health s)" using assms by (intro move_answer) simp_all
  moreover note rejectRequest_move [OF assms, of _ _ _ cfg "rq_complete rq"]
  ultimately show ?thesis
    unfolding arrives_def Let_def countRequest_def [symmetric]
    by (simp add: rejections_def rejectionHeaders_def startRequest_move [OF assms] split del: if_split) (simp add: startRequest_move [OF assms])
qed

text \<open>Every event makes a move.\<close>

lemma upstreamData_move: "map_of (pz_flights s) r = Some f \<Longrightarrow> proxyMove cfg s (upstreamData cfg r chunk f s)"
  by (cases f) (auto simp: upstreamData_def collectResponse_def streamResponse_def rejections_def intro!: move_stay move_settle move_progress)

lemma upstreamEnds_move: "map_of (pz_flights s) r = Some f \<Longrightarrow> proxyMove cfg s (upstreamEnds r f s)"
  by (cases f) (auto simp: upstreamEnds_def intro!: move_stay move_settle)

lemma forwardFails_move: "map_of (pz_flights s) r = Some f \<Longrightarrow> (status, code) \<in> set rejections \<Longrightarrow> proxyMove cfg s (forwardFails r status code f s)"
  by (cases f) (auto simp: forwardFails_def intro!: move_stay move_settle)

lemma settleError_move: "map_of (pz_flights s) r = Some f \<Longrightarrow> e \<in> set rejections \<Longrightarrow> proxyMove cfg s (settleError r complete e s)"
  using closeHeader_documented by (auto simp: settleError_def intro!: move_settle)

lemma readRequestBody_move:
  "map_of (pz_flights s) r = Some (Reading d b) \<Longrightarrow> proxyMove cfg s (readRequestBody cfg r chunk complete d b s)"
  unfolding readRequestBody_def by (auto intro!: settleError_move intro: move_read simp: rejections_def)

lemma forwardRequest_move:
  "map_of (pz_flights s) r = Some (Reading d b) \<Longrightarrow> proxyMove cfg s (forwardRequest cfg r now d b s)"
  unfolding forwardRequest_def callUpstream_def [symmetric]
  by (auto intro!: settleError_move forwardedBody_error move_forward split: sum.split)

lemma upstreamAnswers_move:
  "map_of (pz_flights s) r = Some Waiting \<Longrightarrow> proxyMove cfg s (upstreamAnswers r status headers s)"
  unfolding upstreamAnswers_def by (rule move_progress) auto

lemmas handler_moves = arrives_move upstreamData_move upstreamEnds_move forwardFails_move settleError_move readRequestBody_move
  forwardRequest_move upstreamAnswers_move

lemma proxyStep_move: "proxyMove cfg s (proxyStep cfg e s)"
  by (cases e) (auto simp: rejectRequest_def rejections_def closeHeader_def rejectionHeaders_def split: option.split flight.split
      intro!: handler_moves move_settle move_answer intro: move_stay)

section \<open>Invariants\<close>

locale move_invariant =
  fixes cfg :: proxyConfig and inv :: "proxyState \<Rightarrow> bool"
  assumes initially: "inv initialProxy"
    and kept: "proxyMove cfg s t \<Longrightarrow> inv s \<Longrightarrow> inv t"
begin

lemma always: "reached cfg s \<Longrightarrow> inv s"
  by (induction rule: reached.induct) (auto intro: initially kept proxyStep_move)

end

lemmas move_defs = answer_def countRequest_def openFlight_def callUpstream_def setFlight_def settle_def knownRequest_def

definition requestsSeen :: "proxyState \<Rightarrow> nat list" where
  "requestsSeen s = map fst (pz_flights s) @ map fst (pz_replies s)"

definition countsInv :: "proxyConfig \<Rightarrow> proxyState \<Rightarrow> bool" where
  "countsInv cfg s \<longleftrightarrow> distinct (requestsSeen s) \<and> pz_activeRequests s = int (length (pz_flights s)) \<and>
     pz_activeRequests s \<le> max 0 (px_maxConcurrency cfg) \<and> 0 \<le> pz_requestCount s \<and> pz_requestCount s \<le> max 0 (px_maxRequests cfg)"

lemma fst_update [simp]: "fst (case x of (q, g) \<Rightarrow> (q, h q g)) = fst x"
  by (cases x) simp

lemma length_without: "distinct (map fst fs) \<Longrightarrow> (r, f) \<in> set fs \<Longrightarrow> Suc (length (filter (\<lambda>(q, _). q \<noteq> r) fs)) = length fs"
  by (induction fs) (force simp: filter_absent)+

lemma map_fst_without: "map fst (filter (\<lambda>(q, _). q \<noteq> r) fs) = filter (\<lambda>q. q \<noteq> r) (map fst fs)"
  by (induction fs) auto

lemma requestsSeen_moves:
  "requestsSeen (answer r x s) = requestsSeen s @ [r]" "requestsSeen (countRequest s) = requestsSeen s"
  "requestsSeen (openFlight r d s) = map fst (pz_flights s) @ r # map fst (pz_replies s)"
  "requestsSeen (setFlight r f s) = requestsSeen s" "requestsSeen (callUpstream r c s) = requestsSeen s"
  "requestsSeen (settle r x s) = filter (\<lambda>q. q \<noteq> r) (map fst (pz_flights s)) @ map fst (pz_replies s) @ [r]"
  by (simp_all add: requestsSeen_def move_defs map_fst_without)

lemma move_fields:
  "pz_flights (answer r x s) = pz_flights s" "pz_upstream (answer r x s) = pz_upstream s" "pz_requestCount (answer r x s) = pz_requestCount s"
  "pz_flights (countRequest s) = pz_flights s" "pz_upstream (countRequest s) = pz_upstream s" "pz_replies (countRequest s) = pz_replies s"
  "pz_requestCount (countRequest s) = pz_requestCount s + 1"
  "pz_flights (openFlight r d s) = pz_flights s @ [(r, Reading d [])]" "pz_upstream (openFlight r d s) = pz_upstream s"
  "pz_requestCount (openFlight r d s) = pz_requestCount s"
  "pz_flights (setFlight r f s) = map (\<lambda>(q, g). (q, if q = r then f else g)) (pz_flights s)" "pz_upstream (setFlight r f s) = pz_upstream s"
  "pz_requestCount (setFlight r f s) = pz_requestCount s"
  "pz_flights (callUpstream r c s) = pz_flights s" "pz_upstream (callUpstream r c s) = pz_upstream s @ [(r, c)]"
  "pz_requestCount (callUpstream r c s) = pz_requestCount s"
  "pz_flights (settle r x s) = filter (\<lambda>(q, _). q \<noteq> r) (pz_flights s)" "pz_upstream (settle r x s) = pz_upstream s"
  "pz_requestCount (settle r x s) = pz_requestCount s"
  by (simp_all add: move_defs)

lemma knownRequest_seen: "knownRequest r s \<longleftrightarrow> r \<in> set (requestsSeen s)"
  by (simp add: knownRequest_def requestsSeen_def)

lemma flight_seen: "map_of fs r = Some f \<Longrightarrow> r \<in> fst ` set fs"
  by (metis domI dom_map_of_conv_image_fst)

lemma distinct_move: "proxyMove cfg s t \<Longrightarrow> distinct (requestsSeen s) \<Longrightarrow> distinct (requestsSeen t)"
  by (induction rule: proxyMove.induct)
    (auto simp: requestsSeen_moves knownRequest_seen, (force simp: requestsSeen_def countRequest_def dest: map_of_SomeD)+)

lemma countsInv_move:
  assumes "proxyMove cfg s t" and "countsInv cfg s"
  shows "countsInv cfg t"
proof -
  have "distinct (requestsSeen t)" using distinct_move [OF assms(1)] assms(2) by (simp add: countsInv_def)
  moreover have "distinct (map fst (pz_flights s))" using assms(2) by (simp add: countsInv_def requestsSeen_def)
  moreover note assms(2)
  ultimately show ?thesis using assms(1)
    by (elim proxyMove.cases) (auto simp: countsInv_def move_defs dest: length_without)
qed

interpretation counts: move_invariant cfg "countsInv cfg" for cfg
  by unfold_locales (simp add: countsInv_def initialProxy_def requestsSeen_def, rule countsInv_move)

text \<open>How many of the requests are still being read.\<close>

definition readingCount :: "(nat \<times> flight) list \<Rightarrow> nat" where
  "readingCount fs = length (filter (\<lambda>(_, f). isReading f) fs)"

lemma readingCount_simps [simp]:
  "readingCount [] = 0" "readingCount ((q, f) # fs) = (if isReading f then 1 else 0) + readingCount fs"
  "readingCount (fs @ gs) = readingCount fs + readingCount gs"
  by (simp_all add: readingCount_def)

lemma readingCount_update:
  "distinct (map fst fs) \<Longrightarrow> (r, f) \<in> set fs \<Longrightarrow>
     readingCount (map (\<lambda>(q, h). (q, if q = r then g else h)) fs) + (if isReading f then 1 else 0) =
     readingCount fs + (if isReading g then 1 else 0)"
proof (induction fs)
  case (Cons p fs)
  have same: "map (\<lambda>(q, h). (q, if q = r then g else h)) fs = fs" if "r \<notin> fst ` set fs"
    using that by (induction fs) auto
  show ?case using Cons same by (cases p) (auto simp: rev_image_eqI)
qed simp

lemma readingCount_without: "readingCount (filter P fs) \<le> readingCount fs"
  by (induction fs) (auto simp: readingCount_def)

definition callsInv :: "proxyState \<Rightarrow> bool" where
  "callsInv s \<longleftrightarrow> distinct (requestsSeen s) \<and> distinct (map fst (pz_upstream s)) \<and>
     int (length (pz_upstream s)) + int (readingCount (pz_flights s)) \<le> pz_requestCount s \<and>
     (\<forall>r \<in> fst ` set (pz_upstream s). r \<in> set (requestsSeen s) \<and> (\<forall>f. (r, f) \<in> set (pz_flights s) \<longrightarrow> \<not> isReading f))"

definition sizesInv :: "proxyConfig \<Rightarrow> proxyState \<Rightarrow> bool" where
  "sizesInv cfg s \<longleftrightarrow>
     (\<forall>(r, f) \<in> set (pz_flights s). int (requestBytes f) \<le> max 0 (px_maxRequestBodyBytes cfg) \<and> int (responseBytes f) \<le> max 0 (px_maxResponseBytes cfg)) \<and>
     (\<forall>(r, x) \<in> set (pz_replies s). int (replyBytes x) \<le> max 0 (px_maxResponseBytes cfg))"

definition sentInv :: "proxyConfig \<Rightarrow> proxyState \<Rightarrow> bool" where
  "sentInv cfg s \<longleftrightarrow>
     (\<forall>(r, c) \<in> set (pz_upstream s). \<exists>request body timeout. forwardedBody cfg request = Inr body \<and> 1 \<le> timeout \<and> c = upstreamRequest cfg body timeout)"

lemma not_reading_bytes: "\<not> isReading f \<Longrightarrow> requestBytes f = 0" "isReading f \<Longrightarrow> responseBytes f = 0"
  by (cases f; simp)+

interpretation sent: move_invariant cfg "sentInv cfg" for cfg
proof
  show "sentInv cfg t" if "proxyMove cfg s t" "sentInv cfg s" for s t
    using that by (induction rule: proxyMove.induct) (auto simp: sentInv_def move_defs)
qed (simp add: sentInv_def initialProxy_def)

interpretation sizes: move_invariant cfg "sizesInv cfg" for cfg
proof
  show "sizesInv cfg t" if "proxyMove cfg s t" "sizesInv cfg s" for s t
    using that by (induction rule: proxyMove.induct)
      (fastforce simp: sizesInv_def move_defs not_reading_bytes dest: map_of_SomeD split: if_splits)+
qed (simp add: sizesInv_def initialProxy_def)

lemma callsInv_flight:
  assumes "callsInv s" and "map_of (pz_flights s) r = Some f"
  shows "distinct (map fst (pz_flights s))" and "(r, f) \<in> set (pz_flights s)" and "r \<in> set (requestsSeen s)"
  using assms by (auto simp: callsInv_def requestsSeen_def dest: map_of_SomeD intro: rev_image_eqI)

lemma callsInv_forward:
  assumes "callsInv s" and "map_of (pz_flights s) r = Some f" and "isReading f"
  shows "callsInv (setFlight r Waiting (callUpstream r c s))"
proof -
  have "r \<notin> fst ` set (pz_upstream s)" using assms callsInv_flight(2) [OF assms(1,2)] by (auto simp: callsInv_def)
  then show ?thesis
    using assms(1,3) readingCount_update [OF callsInv_flight(1,2) [OF assms(1,2)], of Waiting] callsInv_flight(3) [OF assms(1,2)]
    by (simp add: callsInv_def requestsSeen_moves move_fields) (auto split: if_splits)
qed

lemma callsInv_setFlight:
  assumes "callsInv s" and "map_of (pz_flights s) r = Some f" and "isReading f \<longleftrightarrow> isReading g"
  shows "callsInv (setFlight r g s)"
  using assms(1,3) readingCount_update [OF callsInv_flight(1,2) [OF assms(1,2)], of g] callsInv_flight(2) [OF assms(1,2)]
  by (simp add: callsInv_def requestsSeen_moves move_fields) (auto split: if_splits)

lemma callsInv_settle:
  assumes "callsInv s" and "map_of (pz_flights s) r = Some f"
  shows "callsInv (settle r x s)"
proof -
  have "distinct (requestsSeen (settle r x s))" and "set (requestsSeen s) \<subseteq> set (requestsSeen (settle r x s))"
    using assms by (auto simp: callsInv_def requestsSeen_moves) (force simp: requestsSeen_def dest: map_of_SomeD)+
  then show ?thesis
    using assms(1) readingCount_without [of "\<lambda>(q, _). q \<noteq> r" "pz_flights s"] by (auto simp: callsInv_def move_fields)
qed

lemma callsInv_open:
  "callsInv s \<Longrightarrow> \<not> knownRequest r s \<Longrightarrow> callsInv (openFlight r d (countRequest s))"
  by (simp add: callsInv_def requestsSeen_moves move_fields knownRequest_seen) (auto simp: requestsSeen_def)

lemma callsInv_answer:
  "callsInv s \<Longrightarrow> \<not> knownRequest r s \<Longrightarrow> callsInv (answer r x s)" "callsInv s \<Longrightarrow> callsInv (countRequest s)"
  by (auto simp: callsInv_def requestsSeen_moves move_fields knownRequest_seen)

interpretation calls: move_invariant cfg callsInv for cfg
proof
  show "callsInv t" if "proxyMove cfg s t" "callsInv s" for s t
    using that by (induction rule: proxyMove.induct)
      (auto intro: callsInv_forward callsInv_setFlight callsInv_settle callsInv_open callsInv_answer simp: knownRequest_seen requestsSeen_moves)
qed (simp add: callsInv_def initialProxy_def requestsSeen_def)

definition repliesInv :: "proxyState \<Rightarrow> bool" where
  "repliesInv s \<longleftrightarrow> (\<forall>(r, x) \<in> set (pz_replies s). documented x)"

interpretation replies: move_invariant cfg repliesInv for cfg
proof
  show "repliesInv t" if "proxyMove cfg s t" "repliesInv s" for s t
    using that by (induction rule: proxyMove.induct) (auto simp: repliesInv_def move_defs)
qed (simp add: repliesInv_def initialProxy_def)

section \<open>The limits\<close>

lemma requirePositiveInteger_Inr [res_simps]: "requirePositiveInteger v name = Inr () \<longleftrightarrow> isSafeInteger v \<and> 0 < intOf v"
  by (simp add: requirePositiveInteger_def res_simps)

lemma createCredentialProxy_positive:
  assumes "createCredentialProxy url resolve a = Inr cfg"
  shows "0 < px_maxRequestBodyBytes cfg" "0 < px_maxResponseBytes cfg" "0 < px_maxRequests cfg" "0 < px_maxConcurrency cfg"
    "0 < px_maxCompletionTokens cfg" "0 < px_timeoutMs cfg" "px_maxCompletionTokens cfg \<le> maxSafeInteger"
  using assms by (auto simp: createCredentialProxy_def Let_def res_simps elim!: isSafeInteger.elims)

text \<open>C11: Whatever requests arrive and however their events interleave, the proxy serves at most \<^verbatim>\<open>maxConcurrency\<close> requests
  at a time and counts them correctly, sends at most \<^verbatim>\<open>maxRequests\<close> requests upstream in its life, one for each
  counted request at most, answers no request twice and none that is still in flight, and neither holds nor sends more bytes of a
  request or of a response than its limits allow.\<close>

theorem proxy_limits:
  assumes "createCredentialProxy url resolve a = Inr cfg" and "reached cfg s"
  shows "distinct (map fst (pz_flights s) @ map fst (pz_replies s)) \<and>
    pz_activeRequests s = int (length (pz_flights s)) \<and> pz_activeRequests s \<le> px_maxConcurrency cfg \<and>
    distinct (map fst (pz_upstream s)) \<and> int (length (pz_upstream s)) \<le> pz_requestCount s \<and> pz_requestCount s \<le> px_maxRequests cfg \<and>
    list_all (\<lambda>(r, f). int (requestBytes f) \<le> px_maxRequestBodyBytes cfg \<and> int (responseBytes f) \<le> px_maxResponseBytes cfg) (pz_flights s) \<and>
    list_all (\<lambda>(r, x). int (replyBytes x) \<le> px_maxResponseBytes cfg) (pz_replies s)"
  using counts.always [OF assms(2)] calls.always [OF assms(2)] sizes.always [OF assms(2)] createCredentialProxy_positive [OF assms(1)]
  by (auto simp: countsInv_def callsInv_def sizesInv_def requestsSeen_def list_all_iff)

section \<open>What is sent upstream\<close>

lemma completionCap_Inr: "completionCap p k = Inr cap \<Longrightarrow> cap = None \<or> (\<exists>n. cap = Some n \<and> 0 < n)"
  by (auto simp: completionCap_def Let_def split: if_splits)

lemma minCap_bounds: "0 < n \<Longrightarrow> cap = None \<or> (\<exists>m. cap = Some m \<and> 0 < m) \<Longrightarrow> 0 < minCap n cap \<and> minCap n cap \<le> n"
  by (auto simp: minCap_def)

lemma applyCompletionTokenCap_Inr:
  assumes "applyCompletionTokenCap payload limit = Inr capped" and "0 < limit"
  obtains n where "0 < n" "n \<le> limit" "fld capped ''max_completion_tokens'' = num n" "\<not> hasOwn capped ''max_tokens''" "isPlainObject capped"
    "\<And>k. k \<notin> {''max_tokens'', ''max_completion_tokens''} \<Longrightarrow> fld capped k = fld payload k \<and> hasOwn capped k = hasOwn payload k"
proof -
  obtain cap cap' where caps: "completionCap payload ''max_tokens'' = Inr cap" "completionCap payload ''max_completion_tokens'' = Inr cap'"
    and c: "capped = JObj (setProp ''max_completion_tokens'' (num (minCap (minCap limit cap) cap'))
      (filter (\<lambda>(k, _). k \<noteq> ''max_tokens'') (props payload)))"
    using assms(1) by (auto simp: applyCompletionTokenCap_def split: sum.splits)
  have other: "map_of (filter (\<lambda>(k, _). k \<noteq> j) kvs) k = map_of kvs k" if "k \<noteq> j" for j k :: string and kvs :: jsobj
    using that by (induction kvs) auto
  have bounds: "0 < minCap (minCap limit cap) cap' \<and> minCap (minCap limit cap) cap' \<le> limit"
    using minCap_bounds [OF assms(2) completionCap_Inr [OF caps(1)]] minCap_bounds [OF _ completionCap_Inr [OF caps(2)]] by force
  have own: "hasOwn capped k = hasOwn payload k" if "k \<notin> {''max_tokens'', ''max_completion_tokens''}" for k
    using that by (force simp: c hasOwn_def jsKeys_def)
  have fields: "fld capped k = fld payload k" if "k \<notin> {''max_tokens'', ''max_completion_tokens''}" for k
    using that by (simp add: c fld_def other)
  show ?thesis
  proof (rule that)
    show "0 < minCap (minCap limit cap) cap'" "minCap (minCap limit cap) cap' \<le> limit" using bounds by blast+
    show "fld capped ''max_completion_tokens'' = num (minCap (minCap limit cap) cap')" "isPlainObject capped" by (simp_all add: c fld_def)
    show "\<not> hasOwn capped ''max_tokens''" by (simp add: c hasOwn_def jsKeys_def) auto
    show "fld capped k = fld payload k \<and> hasOwn capped k = hasOwn payload k" if "k \<notin> {''max_tokens'', ''max_completion_tokens''}" for k
      using own [OF that] fields [OF that] by blast
  qed
qed

lemma forwardedBody_Inr:
  assumes "forwardedBody cfg request = Inr body" and "0 < px_maxCompletionTokens cfg"
  obtains payload sent n where "jsonParse (bufferToString request) = Some payload" "isPlainObject payload" "isPlainObject sent"
    "body = stringify sent" "int (length body) \<le> px_maxRequestBodyBytes cfg" "fld sent ''model'' = JStr (px_model cfg)"
    "list_all (\<lambda>k. \<not> hasOwn sent k) (''max_tokens'' # modelRoutingFields)"
    "fld sent ''max_completion_tokens'' = num n" "0 < n" "n \<le> px_maxCompletionTokens cfg"
    "\<And>k. k \<notin> {''max_tokens'', ''max_completion_tokens''} \<Longrightarrow> fld sent k = fld payload k"
proof -
  obtain payload where payload: "jsonParse (bufferToString request) = Some payload" "isPlainObject payload"
      "fld payload ''model'' = JStr (px_model cfg)" "\<not> list_ex (hasOwn payload) modelRoutingFields"
    and cap: "(case applyCompletionTokenCap payload (px_maxCompletionTokens cfg) of Inl e \<Rightarrow> Inl e
      | Inr capped \<Rightarrow> if px_maxRequestBodyBytes cfg < int (byteLength (stringify capped)) then Inl (413, ''request_body_too_large'')
          else Inr (stringify capped)) = (Inr body :: clientError + string)"
    using assms(1) by (auto simp: forwardedBody_def split: option.splits if_splits)
  then obtain sent where sent: "applyCompletionTokenCap payload (px_maxCompletionTokens cfg) = Inr sent" "body = stringify sent"
      "int (length body) \<le> px_maxRequestBodyBytes cfg"
    by (auto simp: byteLength_def split: sum.splits if_splits)
  from sent(1) assms(2) show ?thesis
    by (rule applyCompletionTokenCap_Inr) (rule that [OF payload(1,2) _ sent(2,3)], use payload in \<open>auto simp: modelRoutingFields_def\<close>)
qed

text \<open>C10: Every request the proxy sends upstream goes to the configured origin and to the chat path only, with the credential, an exact
  content length and a positive timeout; its body is a JSON object within the size limit that names the configured model, has none of
  the routing fields and no \<^verbatim>\<open>max_tokens\<close>, and asks for between one and \<^verbatim>\<open>maxCompletionTokens\<close> tokens.\<close>

theorem proxy_forwards_allowed:
  assumes "createCredentialProxy url resolve a = Inr cfg" and "reached cfg s" and "(r, c) \<in> set (pz_upstream s)"
  shows "uc_protocol c = up_protocol (px_upstream cfg) \<and> uc_hostname c = up_hostname (px_upstream cfg) \<and> uc_port c = up_port (px_upstream cfg) \<and>
    uc_method c = ''POST'' \<and> uc_path c = chatPath \<and> 1 \<le> uc_timeoutMs c \<and>
    map_of (uc_headers c) ''authorization'' = Some (''Bearer '' @ px_credential cfg) \<and>
    map_of (uc_headers c) ''content-length'' = Some (decNat (length (uc_body c))) \<and>
    int (length (uc_body c)) \<le> px_maxRequestBodyBytes cfg \<and>
    (\<exists>sent n. isPlainObject sent \<and> uc_body c = stringify sent \<and> fld sent ''model'' = JStr (px_model cfg) \<and>
       list_all (\<lambda>k. \<not> hasOwn sent k) (''max_tokens'' # modelRoutingFields) \<and>
       fld sent ''max_completion_tokens'' = num n \<and> 1 \<le> n \<and> n \<le> px_maxCompletionTokens cfg)"
proof -
  obtain request body timeout where f: "forwardedBody cfg request = Inr body" and "1 \<le> timeout" and c: "c = upstreamRequest cfg body timeout"
    using sent.always [OF assms(2)] assms(3) by (auto simp: sentInv_def)
  moreover obtain sent n where "isPlainObject sent" "body = stringify sent" "int (length body) \<le> px_maxRequestBodyBytes cfg"
      "fld sent ''model'' = JStr (px_model cfg)" "list_all (\<lambda>k. \<not> hasOwn sent k) (''max_tokens'' # modelRoutingFields)"
      "fld sent ''max_completion_tokens'' = num n" "0 < n" "n \<le> px_maxCompletionTokens cfg"
    by (rule forwardedBody_Inr [OF f createCredentialProxy_positive(5) [OF assms(1)]]) blast
  ultimately show ?thesis by (simp add: upstreamRequest_def) (intro exI [of _ sent] exI [of _ n] conjI, simp_all)
qed

section \<open>What clients are told\<close>


end
