(* ===== verification/Credential_Proxy_Relay.thy ===== *)
theory Credential_Proxy_Relay
  imports Credential_Proxy_Safety
begin

text \<open>
  What a well-behaved client gets from the credential proxy: its request is forwarded with the capped body and the
  upstream's answer is relayed byte for byte, however both are cut into chunks and whatever other requests are in flight; and the
  credential is read from standard input as it was written, however the stream is cut.
\<close>

section \<open>An exchange\<close>

text \<open>A request that the handler accepts.\<close>

definition chatRequest :: "proxyConfig \<Rightarrow> proxyRequest \<Rightarrow> bool" where
  "chatRequest cfg rq \<longleftrightarrow>
     hasAllowedHostHeader (rq_host rq) (px_listenScope cfg) \<and> targetPath (px_resolve cfg) (rq_url rq) = Some chatPath \<and> rq_method rq = ''POST'' \<and>
     (\<exists>t. rq_contentType rq = Some t \<and> mediaType ''application/json'' t) \<and>
     (\<exists>n. contentLength (rq_contentLength rq) = Inr n \<and> (\<forall>m. n = Some m \<longrightarrow> m \<le> px_maxRequestBodyBytes cfg))"

definition requestEvents :: "nat \<Rightarrow> proxyRequest \<Rightarrow> int \<Rightarrow> string list \<Rightarrow> int \<Rightarrow> proxyEvent list" where
  "requestEvents r rq now chunks later = Arrives r rq now # map (\<lambda>chunk. BodyData r chunk False) chunks @ [BodyEnds r later]"

definition answerEvents :: "nat \<Rightarrow> jsval \<Rightarrow> (string \<Rightarrow> string option) \<Rightarrow> string list \<Rightarrow> proxyEvent list" where
  "answerEvents r status headers parts = UpstreamAnswers r status headers # map (UpstreamData r) parts @ [UpstreamEnds r]"

definition relayedReply :: "jsval \<Rightarrow> (string \<Rightarrow> string option) \<Rightarrow> string \<Rightarrow> proxyReply" where
  "relayedReply status headers body =
     (if isEventStream headers then Streamed (relayStatus status) (responseHeaders headers) body True
      else Relayed (relayStatus status) (responseHeaders headers @ [(''content-length'', decNat (length body))]) body)"

text \<open>The flight of a request is the last one of the list, as long as no other request arrives.\<close>

definition withFlight :: "nat \<Rightarrow> flight \<Rightarrow> proxyState \<Rightarrow> proxyState" where
  "withFlight r f s = s\<lparr>pz_activeRequests := pz_activeRequests s + 1, pz_flights := pz_flights s @ [(r, f)]\<rparr>"

lemma map_absent: "r \<notin> fst ` set fs \<Longrightarrow> map (\<lambda>(q, g). (q, if q = r then f else g)) fs = fs"
  by (induction fs) auto

lemma withFlight_simps:
  assumes "r \<notin> fst ` set (pz_flights s)"
  shows "map_of (pz_flights (withFlight r f s)) r = Some f" and "setFlight r g (withFlight r f s) = withFlight r g s"
    and "settle r x (withFlight r f s) = answer r x s" and "callUpstream q c (withFlight r f s) = withFlight r f (callUpstream q c s)"
proof -
  have "map_of (pz_flights s) r = None" using assms by (simp add: map_of_eq_None_iff)
  then show "map_of (pz_flights (withFlight r f s)) r = Some f" by (simp add: withFlight_def map_add_def)
qed (use assms in \<open>cases s; simp add: withFlight_def setFlight_def settle_def answer_def callUpstream_def map_absent filter_absent\<close>)+

lemma opened_withFlight: "openFlight r d s = withFlight r (Reading d []) s"
  by (simp add: openFlight_def withFlight_def)

lemma arrives_opens:
  assumes "chatRequest cfg rq" and "pz_requestCount s < px_maxRequests cfg" and "pz_activeRequests s < px_maxConcurrency cfg"
  shows "arrives cfg r rq now s = withFlight r (Reading (now + px_timeoutMs cfg) []) (countRequest s)"
proof -
  have "arrives cfg r rq now s = startRequest cfg r rq now (countRequest s)"
    using assms by (simp add: arrives_def chatRequest_def chatPath_def healthPath_def countRequest_def Let_def)
  then show ?thesis using assms(1) by (auto simp: startRequest_unfold chatRequest_def opened_withFlight Let_def split: option.split)
qed

lemma body_chunks:
  "r \<notin> fst ` set (pz_flights s) \<Longrightarrow> int (length (b @ concat chunks)) \<le> px_maxRequestBodyBytes cfg \<Longrightarrow>
   fold (proxyStep cfg) (map (\<lambda>chunk. BodyData r chunk False) chunks) (withFlight r (Reading d b) s) = withFlight r (Reading d (b @ concat chunks)) s"
proof (induction chunks arbitrary: b)
  case (Cons c cs)
  then show ?case using Cons.IH [of "b @ c"] by (simp add: withFlight_simps readRequestBody_def)
qed simp

lemma response_parts:
  assumes "r \<notin> fst ` set (pz_flights s)" and "k = Collecting \<or> k = Streaming" and "int (length (b @ concat parts)) \<le> px_maxResponseBytes cfg"
  shows "fold (proxyStep cfg) (map (UpstreamData r) parts) (withFlight r (k st hs b) s) = withFlight r (k st hs (b @ concat parts)) s"
  using assms(3)
proof (induction parts arbitrary: b)
  case (Cons c cs)
  then show ?case using Cons.IH [of "b @ c"] assms(1,2) by (auto simp: withFlight_simps upstreamData_def collectResponse_def streamResponse_def)
qed simp


section \<open>The credential\<close>

lemma validateCredential_Inr:
  "validateCredential (JStr c) n = Inr d \<longleftrightarrow> d = c \<and> c \<noteq> [] \<and> length c \<le> n \<and> list_all credentialChar c"
  by (auto simp: validateCredential_def res_simps byteLength_def)

lemma credentialChar_line: "list_all credentialChar c \<Longrightarrow> CHR 0x0A \<notin> set c \<and> CHR 0x0D \<notin> set c"
  by (auto simp: list_all_iff credentialChar_def inRange_def)

lemma dropLast_absent [simp]: "c \<notin> set s \<Longrightarrow> dropLast c s = s" "dropLast c (s @ [c]) = s"
  by (auto simp: dropLast_def)

text \<open>A line feed can only be the end of a text whose other characters are none.\<close>

lemma prefix_line:
  "b @ rest = l @ [x] \<Longrightarrow> x \<notin> set l \<Longrightarrow> x \<in> set b \<Longrightarrow> b = l @ [x]"
  by (cases rest rule: rev_cases) auto

lemma credentialLoop_reads:
  assumes "validateCredential (JStr c) n = Inr c" and "utf8Decode c = Some c" and "e \<in> {[], [CHR 0x0A], [CHR 0x0D, CHR 0x0A]}"
  shows "buffered @ concat chunks = c @ e \<Longrightarrow> CHR 0x0A \<notin> set buffered \<Longrightarrow> length (c @ e) \<le> n \<Longrightarrow> credentialLoop n buffered chunks = Inr c"
proof (induction chunks arbitrary: buffered)
  case Nil
  have "e = []" using Nil(1,2) assms(3) by auto
  then show ?case using Nil assms credentialChar_line [of c] by (auto simp: validateCredential_Inr)
next
  case (Cons chunk chunks)
  let ?b = "buffered @ chunk"
  have c: "CHR 0x0A \<notin> set c" "CHR 0x0D \<notin> set c" using assms(1) credentialChar_line [of c] by (auto simp: validateCredential_Inr)
  have b: "?b @ concat chunks = c @ e" using Cons.prems(1) by simp
  have small: "length ?b \<le> n" using Cons.prems(3) arg_cong [OF b, of length] by simp
  show ?case
  proof (cases "CHR 0x0A \<in> set ?b")
    case True
    then have "CHR 0x0A \<in> set (?b @ concat chunks)" by auto
    then have "e \<noteq> []" using c(1) unfolding b by auto
    then have "e = [CHR 0x0A] \<or> e = [CHR 0x0D, CHR 0x0A]" using assms(3) by auto
    then obtain w where w: "c @ e = (c @ w) @ [CHR 0x0A]" "w = [] \<or> w = [CHR 0x0D]"
      using that [of "[]"] that [of "[CHR 0x0D]"] by (elim disjE) (simp_all only: append_assoc append_Cons append_Nil simp_thms)
    then have l: "CHR 0x0A \<notin> set (c @ w)" using c by auto
    have full: "?b = (c @ w) @ [CHR 0x0A]" using prefix_line [OF trans [OF b w(1)] l True] .
    have line: "takeWhile (\<lambda>x. x \<noteq> CHR 0x0A) ?b = c @ w"
      unfolding full using l by (subst takeWhile_append2) auto
    have "dropLast (CHR 0x0D) (c @ w) = c" using w(2) c by auto
    then show ?thesis using True small line full assms(1,2) by (simp add: Let_def decodeCredential_def)
  next
    case False
    then show ?thesis using Cons.IH [OF b] Cons.prems(3) small by (simp add: Let_def)
  qed
qed



section \<open>The proxy that the command starts\<close>

lemma parsePort_Inr: "parsePort v = Inr n \<Longrightarrow> 1 \<le> n \<and> n \<le> 65535"
  by (auto simp: parsePort_def split: option.splits if_splits)

lemma parsePositiveIntegerOption_Inr: "parsePositiveIntegerOption v name = Inr n \<Longrightarrow> 0 < n"
  by (auto simp: parsePositiveIntegerOption_def split: option.splits if_splits)

lemma parseLifetimeSeconds_Inr: "parseLifetimeSeconds v = Inr n \<Longrightarrow> 0 < n \<and> n \<le> 7200"
  by (auto simp: parseLifetimeSeconds_def maxLifetimeSeconds_def res_simps dest: parsePositiveIntegerOption_Inr split: if_splits)

lemma parseListenScope_Inr: "parseListenScope v = Inr scope \<Longrightarrow> scope = (if v = JUndef then ''loopback'' else ''isolated-network'')"
  by (auto simp: parseListenScope_def split: if_splits)

lemma mainOptions_Inr:
  assumes "mainOptions v = Inr launch"
  shows "1 \<le> la_port launch \<and> la_port launch \<le> 65535" "0 < la_lifetimeMs launch \<and> la_lifetimeMs launch \<le> 7200000"
    "la_host launch = (if ov_listenScope v = JUndef then ''127.0.0.1'' else ''0.0.0.0'')"
    "xa_listenScope (la_args launch) = JStr (if ov_listenScope v = JUndef then ''loopback'' else ''isolated-network'')"
    "xa_upstreamOrigin (la_args launch) = JUndef" "xa_maxCompletionTokens (la_args launch) = JUndef" "ov_envHost v = JUndef"
  using assms
  by (auto simp: mainOptions_def res_simps dest!: parsePort_Inr parseLifetimeSeconds_Inr parseListenScope_Inr)

lemma createCredentialProxy_Inr:
  assumes "createCredentialProxy url resolve a = Inr cfg"
  shows "validateCredential (xa_credential a) maxCredentialBytes = Inr (px_credential cfg)"
    "url (toStr (orDefault (xa_upstreamOrigin a) (JStr ''https://openrouter.ai''))) = Some (px_upstream cfg)"
    "up_protocol (px_upstream cfg) \<in> {''http:'', ''https:''}"
    "px_maxCompletionTokens cfg = intOf (orDefault (xa_maxCompletionTokens a) (num 8192))"
    "JStr (px_listenScope cfg) = orDefault (xa_listenScope a) (JStr ''loopback'')"
  using assms by (auto simp: createCredentialProxy_def proxyDefaults_def validateUpstreamOrigin_def Let_def res_simps split: option.splits)

text \<open>C38: The proxy that the command starts, whatever its options: it listens on a valid port, on the loopback address unless the
  isolated network is asked for and then answers only requests to the host name of that network; it lives two hours at most; it
  forwards only to the OpenRouter origin and asks for 8192 tokens at most; and its credential is the bounded, printable
  text of standard input.\<close>

theorem proxy_launch_bounds:
  assumes "proxyMain url resolve v stdin = Inr (launch, cfg)"
  shows "1 \<le> la_port launch \<and> la_port launch \<le> 65535 \<and> 0 < la_lifetimeMs launch \<and> la_lifetimeMs launch \<le> 2 * 60 * 60 * 1000 \<and>
    (la_host launch, px_listenScope cfg) =
      (if ov_listenScope v = JUndef then (''127.0.0.1'', ''loopback'') else (''0.0.0.0'', ''isolated-network'')) \<and>
    url ''https://openrouter.ai'' = Some (px_upstream cfg) \<and> px_maxCompletionTokens cfg = 8192 \<and> ov_envHost v = JUndef \<and>
    readCredentialFromStream stdin (num 4096) = Inr (px_credential cfg) \<and> px_credential cfg \<noteq> [] \<and> length (px_credential cfg) \<le> 4096 \<and> list_all credentialChar (px_credential cfg)"
proof -
  obtain credential where m: "mainOptions v = Inr launch"
    and r: "readCredentialFromStream stdin (num (int maxCredentialBytes)) = Inr credential"
    and c: "createCredentialProxy url resolve ((la_args launch)\<lparr>xa_credential := JStr credential\<rparr>) = Inr cfg"
    using assms by (auto simp: proxyMain_def res_simps)
  show ?thesis using mainOptions_Inr [OF m] createCredentialProxy_Inr [OF c] r
    by (simp add: orDefault_def validateCredential_Inr maxCredentialBytes_def num_def)
qed

end
