(* ===== verification/Credential_Proxy_Demo.thy ===== *)
theory Credential_Proxy_Demo
  imports Credential_Proxy_Relay
begin

text \<open>
  A proxy with the default limits and one exchange through it: the instances at which the theorems on the credential proxy are
  applied.
\<close>

definition demoOrigin :: "string \<Rightarrow> urlParts" where
  "demoOrigin origin =
     \<lparr>up_protocol = ''https:'', up_hostname = ''openrouter.ai'', up_port = [], up_username = [], up_password = [], up_search = [],
      up_hash = [], up_pathname = ''/'', up_origin = origin\<rparr>"

definition demoOpenRouter :: "string \<Rightarrow> urlParts option" where
  "demoOpenRouter s = (if s = ''https://openrouter.ai'' then Some (demoOrigin s) else None)"

definition demoResolve :: "string \<Rightarrow> urlParts option" where
  "demoResolve path = Some ((demoOrigin ''http://credential-proxy.invalid'')\<lparr>up_pathname := path\<rparr>)"

definition demoProxyArgs :: proxyArgs where
  "demoProxyArgs =
     \<lparr>xa_credential = JStr ''sk-or-key'', xa_model = JStr ''lab/model'', xa_upstreamOrigin = JUndef, xa_maxRequestBodyBytes = JUndef,
      xa_maxResponseBytes = JUndef, xa_maxRequests = JUndef, xa_timeoutMs = JUndef, xa_maxConcurrency = JUndef,
      xa_maxCompletionTokens = JUndef, xa_listenScope = JUndef\<rparr>"

definition demoProxy :: proxyConfig where
  "demoProxy =
     \<lparr>px_credential = ''sk-or-key'', px_model = ''lab/model'', px_upstream = demoOrigin ''https://openrouter.ai'',
      px_maxRequestBodyBytes = 8388608, px_maxResponseBytes = 16777216, px_maxRequests = 100, px_timeoutMs = 300000,
      px_maxConcurrency = 1, px_maxCompletionTokens = 8192, px_listenScope = ''loopback'', px_resolve = demoResolve\<rparr>"

definition demoChat :: proxyRequest where
  "demoChat =
     \<lparr>rq_method = ''POST'', rq_url = chatPath, rq_host = Some ''127.0.0.1:8787'', rq_contentType = Some ''application/json'',
      rq_contentLength = None, rq_transferEncoding = Some ''chunked'', rq_complete = False\<rparr>"

definition demoPayload :: "string list" where
  "demoPayload = [''{\"model\":\"lab/mo'', ''del\",\"max_tokens\":5}'']"

definition demoSent :: string where
  "demoSent = ''{\"model\":\"lab/model\",\"max_completion_tokens\":5}''"

definition demoHeaders :: "string \<Rightarrow> string option" where
  "demoHeaders k = (if k = ''content-type'' then Some ''application/json'' else None)"

definition demoExchange :: "proxyEvent list" where
  "demoExchange = requestEvents 7 demoChat 1000 demoPayload 1500 @ answerEvents 7 (num 200) demoHeaders [''{}'', [CHR 0x0A]]"

lemma demo_parts:
  "validateCredential (JStr ''sk-or-key'') maxCredentialBytes = Inr ''sk-or-key''" "validateProxyModel (JStr ''lab/model'') = Inr ''lab/model''"
  "validateUpstreamOrigin demoOpenRouter (JStr ''https://openrouter.ai'') = Inr (demoOrigin ''https://openrouter.ai'')"
  by code_simp+

lemmas demo_simps = checks.simps demoProxyArgs_def proxyDefaults_def orDefault_def requirePositiveInteger_def require_def num_def maxSafeInteger_def
  defaultMaxRequestBodyBytes_def defaultMaxRequests_def defaultTimeoutMs_def defaultMaxConcurrency_def demoProxy_def

lemma demo_proxy_created: "createCredentialProxy demoOpenRouter demoResolve demoProxyArgs = Inr demoProxy"
  by (simp add: createCredentialProxy_def demo_parts demo_simps)

lemma demo_forwarded: "forwardedBody demoProxy (concat demoPayload) = Inr demoSent"
  by code_simp

lemma demo_chat: "chatRequest demoProxy demoChat"
proof -
  have "hasAllowedHostHeader (rq_host demoChat) (px_listenScope demoProxy)" by code_simp
  moreover have "mediaType ''application/json'' ''application/json''" by code_simp
  ultimately show ?thesis
    by (simp add: chatRequest_def demoChat_def demoProxy_def targetPath_def demoResolve_def demoOrigin_def contentLength_def) (simp add: chatPath_def)
qed

lemma reached_fold: "reached cfg s \<Longrightarrow> reached cfg (fold (proxyStep cfg) es s)"
  by (induction es arbitrary: s) (auto intro: reached_step)

lemma demo_calls: "pz_upstream (fold (proxyStep demoProxy) demoExchange initialProxy) = [(7, upstreamRequest demoProxy demoSent 299500)]"
  by code_simp

abbreviation demoProxyEnd :: proxyState where
  "demoProxyEnd \<equiv> fold (proxyStep demoProxy) demoExchange initialProxy"

theorem proxy_limits_witness:
  "pz_activeRequests demoProxyEnd = int (length (pz_flights demoProxyEnd)) \<and> pz_activeRequests demoProxyEnd \<le> 1 \<and>
   distinct (map fst (pz_flights demoProxyEnd) @ map fst (pz_replies demoProxyEnd)) \<and> pz_requestCount demoProxyEnd \<le> 100 \<and>
   length (pz_upstream demoProxyEnd) = 1"
  using proxy_limits [OF demo_proxy_created reached_fold [OF reached_initial], of demoExchange] demo_calls by (simp add: demoProxy_def)

theorem proxy_forwards_allowed_witness:
  "\<exists>sent n. demoSent = stringify sent \<and> fld sent ''model'' = JStr ''lab/model'' \<and> \<not> hasOwn sent ''max_tokens'' \<and>
     fld sent ''max_completion_tokens'' = num n \<and> 1 \<le> n \<and> n \<le> 8192"
proof -
  have "(7, upstreamRequest demoProxy demoSent 299500) \<in> set (pz_upstream demoProxyEnd)" by (simp add: demo_calls)
  from proxy_forwards_allowed [OF demo_proxy_created reached_fold [OF reached_initial] this]
  have "\<exists>sent n. isPlainObject sent \<and> demoSent = stringify sent \<and> fld sent ''model'' = JStr ''lab/model'' \<and>
      list_all (\<lambda>k. \<not> hasOwn sent k) (''max_tokens'' # modelRoutingFields) \<and> fld sent ''max_completion_tokens'' = num n \<and> 1 \<le> n \<and> n \<le> 8192"
    by (simp add: upstreamRequest_def demoProxy_def)
  then show ?thesis by (elim exE conjE, intro exI conjI) (assumption | simp)+
qed


definition demoOptions :: proxyOptions where
  "demoOptions =
     \<lparr>ov_lifetimeSeconds = JStr ''7200'', ov_listenScope = JUndef, ov_maxBodyBytes = JUndef, ov_maxConcurrency = JUndef, ov_maxRequests = JUndef,
      ov_model = JStr ''lab/model'', ov_port = JUndef, ov_timeoutSeconds = JStr ''60'', ov_envHost = JUndef, ov_envPort = JUndef, ov_envModel = JUndef\<rparr>"

lemma demo_credential: "readCredentialFromStream [''sk-or-key'', [CHR 0x0A]] (num (int maxCredentialBytes)) = Inr ''sk-or-key''"
  by code_simp

lemma demo_options: "mainOptions demoOptions = Inr
  \<lparr>la_host = ''127.0.0.1'', la_port = 8787, la_lifetimeMs = 7200000,
   la_args = demoProxyArgs\<lparr>xa_credential := JUndef, xa_maxRequestBodyBytes := num 8388608, xa_maxRequests := num 100, xa_timeoutMs := num 60000,
     xa_maxConcurrency := num 1, xa_listenScope := JStr ''loopback''\<rparr>\<rparr>"
  by code_simp

lemma demo_main_created: "createCredentialProxy demoOpenRouter demoResolve (demoProxyArgs\<lparr>xa_maxRequestBodyBytes := num 8388608, xa_maxRequests := num 100, xa_timeoutMs := num 60000,
     xa_maxConcurrency := num 1, xa_listenScope := JStr ''loopback''\<rparr>) = Inr (demoProxy\<lparr>px_timeoutMs := 60000\<rparr>)"
  by (simp add: createCredentialProxy_def demo_parts demo_simps)

theorem proxy_launch_bounds_witness:
  "\<exists>launch. proxyMain demoOpenRouter demoResolve demoOptions [''sk-or-key'', [CHR 0x0A]] = Inr (launch, demoProxy\<lparr>px_timeoutMs := 60000\<rparr>) \<and>
     la_host launch = ''127.0.0.1'' \<and> la_lifetimeMs launch \<le> 7200000"
proof -
  obtain launch where m: "proxyMain demoOpenRouter demoResolve demoOptions [''sk-or-key'', [CHR 0x0A]] = Inr (launch, demoProxy\<lparr>px_timeoutMs := 60000\<rparr>)"
    using demo_main_created by (simp add: proxyMain_def demo_options demo_credential) (simp add: demoProxyArgs_def)
  from proxy_launch_bounds [OF m] show ?thesis using m by (auto simp: demoOptions_def)
qed

lemma demo_refused:
  "pz_replies (fold (proxyStep demoProxy) [Arrives 3 (demoChat\<lparr>rq_host := Some ''evil.example''\<rparr>) 0] initialProxy) =
     [(3, Rejected 400 ''invalid_host'' [(''connection'', ''close'')])]"
  by code_simp


end
