(* ===== verification/Source_Verify.thy ===== *)
theory Source_Verify
  imports Pod_Controller Deployment_Target Credential_Proxy Call_Outcomes
begin

text \<open>
  The trusted verification of a source tree, \<^verbatim>\<open>src/src/source-verify.mjs\<close> and \<^verbatim>\<open>src/src/pi-verification.mjs\<close>.

  A directory is a tree of \<open>sourceNode\<close>s: what \<^verbatim>\<open>lstat\<close>, \<^verbatim>\<open>readdir\<close> and \<^verbatim>\<open>readFile\<close> tell of every entry, the entries in
  the order of \<^verbatim>\<open>readdir\<close>; a file's content may differ from its size, as when it is written meanwhile, and reading a file or a
  directory may fail.  The disk is a port that gives the tree at a path each time the code starts to walk one.  The commands are run by a port
  too, which is the \<^verbatim>\<open>runCommand\<close> argument; every command and its outcome is logged.
\<close>

section \<open>Trees\<close>

datatype sourceNode =
    SFile nat nat nat "string res"
  | SDir nat "err option" "(string \<times> sourceNode) list"
  | SLink nat
  | SOther nat

fun nodeMode :: "sourceNode \<Rightarrow> nat" where
  "nodeMode (SFile m _ _ _) = m"
| "nodeMode (SDir m _ _) = m"
| "nodeMode (SLink m) = m"
| "nodeMode (SOther m) = m"

fun isLink :: "sourceNode \<Rightarrow> bool" where
  "isLink (SLink _) = True"
| "isLink _ = False"

text \<open>\<^verbatim>\<open>mode & 0o022\<close>: writable by the group or by others.\<close>

definition looseMode :: "nat \<Rightarrow> bool" where
  "looseMode m = (m div 16 mod 2 = 1 \<or> m div 2 mod 2 = 1)"

definition readDir :: "sourceNode option \<Rightarrow> (string \<times> sourceNode) list res" where
  "readDir n =
     (case n of
        None \<Rightarrow> Inl ''ENOENT''
      | Some (SDir _ e es) \<Rightarrow> (case e of None \<Rightarrow> Inr es | Some m \<Rightarrow> Inl m)
      | Some _ \<Rightarrow> Inl ''ENOTDIR'')"

fun treeAt :: "string list \<Rightarrow> sourceNode \<Rightarrow> sourceNode option" where
  "treeAt [] t = Some t"
| "treeAt (part # parts) (SDir _ _ es) = Option.bind (map_of es part) (treeAt parts)"
| "treeAt (part # parts) _ = None"

definition childAt :: "string \<Rightarrow> sourceNode option \<Rightarrow> sourceNode option" where
  "childAt path t = Option.bind t (treeAt (splitOn (CHR ''/'') path))"

section \<open>The snapshot\<close>

definition maxSourceFiles :: nat where "maxSourceFiles = 10000"
definition maxSourceBytes :: nat where "maxSourceBytes = 100 * 1024 * 1024"
definition maxSourceEntries :: nat where "maxSourceEntries = 100000"
definition maxSourceDepth :: nat where "maxSourceDepth = 64"

record scan =
  sn_files :: nat
  sn_bytes :: nat
  sn_entries :: nat
  sn_hashed :: string

definition emptyScan :: scan where
  "emptyScan = \<lparr>sn_files = 0, sn_bytes = 0, sn_entries = 0, sn_hashed = []\<rparr>"

abbreviation nul :: string where "nul \<equiv> [CHR 0x00]"

definition hashedDirectory :: "string \<Rightarrow> nat \<Rightarrow> string" where
  "hashedDirectory relative mode = ''D'' @ nul @ relative @ nul @ decNat (mode mod 512) @ nul"

definition hashedFile :: "string \<Rightarrow> nat \<Rightarrow> string \<Rightarrow> string" where
  "hashedFile relative mode content =
     ''F'' @ nul @ relative @ nul @ decNat (mode mod 512) @ nul @ decNat (length content) @ nul @ content"

definition relativeName :: "string \<Rightarrow> string \<Rightarrow> string" where
  "relativeName before name = (if before \<noteq> [] then before @ ''/'' @ name else name)"

definition controlByte :: "char \<Rightarrow> bool" where
  "controlByte c = (inRange 0 31 c \<or> (of_char c :: nat) = 127)"

fun unsafeMetadata :: "sourceNode \<Rightarrow> bool" where
  "unsafeMetadata (SLink _) = True"
| "unsafeMetadata (SFile m nlink _ _) = (looseMode m \<or> 1 < nlink)"
| "unsafeMetadata (SDir m _ _) = looseMode m"
| "unsafeMetadata (SOther m) = looseMode m"

definition visitEntry ::
  "(string \<Rightarrow> sourceNode \<Rightarrow> scan \<Rightarrow> scan res) \<Rightarrow> bool \<Rightarrow> string \<Rightarrow> string \<times> sourceNode \<Rightarrow> scan \<Rightarrow> scan res" where
  "visitEntry visit rejectNodeModules before entry sc =
     (let name = fst entry; relative = relativeName before name; seen = sc\<lparr>sn_entries := sn_entries sc + 1\<rparr> in
      bindR (checks
        [require (sn_entries seen \<le> maxSourceEntries) ''source snapshot entry limit exceeded'',
         require (\<not> list_ex (\<lambda>segment. toLowerCase segment = ''.git'') (splitOn (CHR ''/'') relative)) ''source snapshot contains Git metadata'',
         require (\<not> (CHR 0x5C \<in> set relative \<or> list_ex controlByte relative)) ''source snapshot contains an unsafe path'',
         require (\<not> (rejectNodeModules \<and> name = ''node_modules'')) ''Pi source snapshot contains node_modules shadowing'',
         require (\<not> unsafeMetadata (snd entry)) ''source snapshot contains unsafe filesystem metadata'']) (\<lambda>_.
      case snd entry of
        SDir mode e es \<Rightarrow> visit relative (snd entry) (seen\<lparr>sn_hashed := sn_hashed sc @ hashedDirectory relative mode\<rparr>)
      | SFile mode _ bytes reading \<Rightarrow>
          bindR (require (sn_files sc + 1 \<le> maxSourceFiles \<and> sn_bytes sc + bytes \<le> maxSourceBytes) ''source snapshot exceeds the verification limit'') (\<lambda>_.
          bindR reading (\<lambda>content.
          bindR (require (length content = bytes) ''source snapshot changed during verification'') (\<lambda>_.
          Inr (seen\<lparr>sn_files := sn_files sc + 1, sn_bytes := sn_bytes sc + bytes,
            sn_hashed := sn_hashed sc @ hashedFile relative mode content\<rparr>))))
      | _ \<Rightarrow> Inl ''source snapshot contains a non-regular entry''))"

fun foldR :: "('a \<Rightarrow> 's \<Rightarrow> 's res) \<Rightarrow> 'a list \<Rightarrow> 's \<Rightarrow> 's res" where
  "foldR f [] s = Inr s"
| "foldR f (x # xs) s = bindR (f x s) (foldR f xs)"

text \<open>The walk recurses on the levels that are left: the code refuses a directory at depth 65.\<close>

primrec visitSnapshot :: "nat \<Rightarrow> bool \<Rightarrow> string \<Rightarrow> sourceNode \<Rightarrow> scan \<Rightarrow> scan res" where
  "visitSnapshot 0 reject before t sc = Inl ''source snapshot depth limit exceeded''"
| "visitSnapshot (Suc levels) reject before t sc =
     bindR (readDir (Some t)) (\<lambda>es. foldR (visitEntry (visitSnapshot levels reject) reject before) (sort_key fst es) sc)"

definition snapshotObject :: "scan \<Rightarrow> jsval" where
  "snapshotObject sc = JObj [(''files'', num (int (sn_files sc))), (''bytes'', num (int (sn_bytes sc))), (''sha256'', JStr (sha256 (sn_hashed sc)))]"

definition scanTree :: "bool \<Rightarrow> sourceNode \<Rightarrow> scan res" where
  "scanTree reject t =
     bindR (visitSnapshot (Suc maxSourceDepth) reject [] t emptyScan) (\<lambda>sc.
     bindR (require (1 \<le> sn_files sc \<and> 1 \<le> sn_bytes sc) ''source snapshot is empty'') (\<lambda>_. Inr sc))"

section \<open>Running the gates\<close>

record gateCommand =
  gc_command :: string
  gc_args :: "string list"

record 'w svPorts =
  sv_now :: "'w \<Rightarrow> int \<times> 'w"
  sv_aborted :: "'w \<Rightarrow> bool \<times> 'w"
  sv_tree :: "string \<Rightarrow> 'w \<Rightarrow> sourceNode option \<times> 'w"
  sv_realpath :: "string \<Rightarrow> 'w \<Rightarrow> unit res \<times> 'w"
  sv_run :: "gateCommand \<Rightarrow> 'w \<Rightarrow> jsval res \<times> 'w"
  sv_localeLe :: "string \<Rightarrow> string \<Rightarrow> bool"

record 'w svState =
  vs_world :: 'w
  vs_calls :: "(gateCommand \<times> jsval res) list"

type_synonym ('w, 'a) sv = "('w svState, 'a) io"

definition useSv :: "('w \<Rightarrow> 'a \<times> 'w) \<Rightarrow> ('w, 'a) sv" where
  "useSv f s = (case f (vs_world s) of (x, w) \<Rightarrow> (Inr x, s\<lparr>vs_world := w\<rparr>))"

definition maxOutputBytes :: nat where "maxOutputBytes = 2 * 1024 * 1024"
definition bimoProfile :: string where "bimoProfile = ''bimo-repo-v1''"
definition piProfile :: string where "piProfile = ''pi-palantir-v1''"

definition npmGates :: "gateCommand list" where
  "npmGates = map (\<lambda>args. \<lparr>gc_command = ''npm'', gc_args = args\<rparr>)
     [[''test''], [''run'', ''regression'', ''--if-present''], [''run'', ''smoke'', ''--if-present'']]"

definition validateCommandResult :: "jsval \<Rightarrow> unit res" where
  "validateCommandResult v =
     checks
       [require (isPlainObject v \<and> isInteger (fld v ''code'') \<and> 0 \<le> intOf (fld v ''code'') \<and> intOf (fld v ''code'') \<le> 255 \<and>
          isString (fld v ''stdout'') \<and> isString (fld v ''stderr'')) ''source gate returned an invalid command result'',
        require (byteLength (strOf (fld v ''stdout'')) + byteLength (strOf (fld v ''stderr'')) \<le> maxOutputBytes \<and>
          fld v ''outputExceeded'' \<noteq> JBool True) ''source gate output exceeded 2097152 bytes'']"

definition hashedOutput :: "string \<Rightarrow> string \<Rightarrow> string" where
  "hashedOutput out error =
     ''stdout'' @ nul @ decNat (length out) @ nul @ out @ ''stderr'' @ nul @ decNat (length error) @ nul @ error"

definition outputDigest :: "jsval \<Rightarrow> string" where
  "outputDigest v = sha256 (hashedOutput (strOf (fld v ''stdout'')) (strOf (fld v ''stderr'')))"

definition integerFrom :: "int \<Rightarrow> int \<Rightarrow> jsval \<Rightarrow> bool" where
  "integerFrom lo hi v = (isInteger v \<and> lo \<le> intOf v \<and> intOf v \<le> hi)"

definition validSnapshotReceipt :: "jsval \<Rightarrow> bool" where
  "validSnapshotReceipt v =
     (isPlainObject v \<and> joinWith '','' (sort (jsKeys v)) = ''bytes,files,sha256'' \<and>
      integerFrom 1 (int maxSourceFiles) (fld v ''files'') \<and> integerFrom 1 (int maxSourceBytes) (fld v ''bytes'') \<and> reSha256 (toStr (fld v ''sha256'')))"

definition sameSnapshot :: "jsval \<Rightarrow> jsval \<Rightarrow> bool" where
  "sameSnapshot l r = list_all (\<lambda>k. fld l k = fld r k) [''files'', ''bytes'', ''sha256'']"

definition resolvePath :: "string \<Rightarrow> string" where
  "resolvePath s = (let n = posixNormalize s in if n \<noteq> ''/'' \<and> suffix ''/'' n then butlast n else n)"

definition badWorkspace :: err where "badWorkspace = ''workspace root must be an absolute directory''"

definition checkedWorkspace :: "('w, 'z) svPorts_scheme \<Rightarrow> jsval \<Rightarrow> ('w, string) sv" where
  "checkedWorkspace p v =
     thenE (liftR (require (isString v \<and> isAbsolutePath (strOf v)) badWorkspace))
       (let resolved = resolvePath (strOf v) in
        bindE (useSv (sv_tree p resolved)) (\<lambda>stat.
        thenE (liftR (require (case stat of Some (SDir _ _ _) \<Rightarrow> True | _ \<Rightarrow> False) badWorkspace))
          (bindE (useSv (sv_realpath p resolved)) (\<lambda>real. thenE (liftR real) (ret resolved)))))"

definition scanSourceSnapshot :: "('w, 'z) svPorts_scheme \<Rightarrow> jsval \<Rightarrow> bool \<Rightarrow> ('w, jsval) sv" where
  "scanSourceSnapshot p workspaceRoot rejectNodeModules =
     bindE (checkedWorkspace p workspaceRoot) (\<lambda>root.
     bindE (useSv (sv_tree p root)) (\<lambda>tree.
     liftR (bindR (case tree of None \<Rightarrow> Inl ''ENOENT'' | Some t \<Rightarrow> scanTree rejectNodeModules t) (\<lambda>sc. Inr (snapshotObject sc)))))"

definition timeCheck :: "('w, 'z) svPorts_scheme \<Rightarrow> int \<Rightarrow> ('w, unit) sv" where
  "timeCheck p deadlineAt =
     bindE (useSv (sv_aborted p)) (\<lambda>aborted.
     if aborted then throwE ''source verification timed out''
     else bindE (useSv (sv_now p)) (\<lambda>now. liftR (require (now < deadlineAt) ''source verification timed out'')))"

definition callGate :: "('w, 'z) svPorts_scheme \<Rightarrow> gateCommand \<Rightarrow> ('w, jsval) sv" where
  "callGate p c =
     bindE (useSv (sv_run p c)) (\<lambda>outcome. thenE (modS (\<lambda>s. s\<lparr>vs_calls := vs_calls s @ [(c, outcome)]\<rparr>)) (liftR outcome))"

definition runGate :: "('w, 'z) svPorts_scheme \<Rightarrow> int \<Rightarrow> gateCommand \<Rightarrow> ('w, jsval) sv" where
  "runGate p deadlineAt c =
     thenE (timeCheck p deadlineAt)
       (catchE
         (bindE (callGate p c) (\<lambda>result.
          thenE (liftR (validateCommandResult result)) (thenE (timeCheck p deadlineAt) (ret result))))
         (\<lambda>e. thenE (timeCheck p deadlineAt) (throwE e)))"

definition passGate :: "('w, 'z) svPorts_scheme \<Rightarrow> int \<Rightarrow> gateCommand \<Rightarrow> string \<Rightarrow> ('w, jsval) sv" where
  "passGate p deadlineAt c label =
     bindE (runGate p deadlineAt c) (\<lambda>result.
     thenE (liftR (require (fld result ''code'' = num 0) (''source gate '' @ label @ '' exited '' @ toStr (fld result ''code''))))
       (ret result))"

definition evidenceOf :: "string \<Rightarrow> string \<Rightarrow> string \<Rightarrow> jsval" where
  "evidenceOf authority command digest = JObj [(''authority'', JStr authority), (''command'', JStr command), (''outputSha256'', JStr digest)]"

section \<open>Which files are checked\<close>

fun concatR :: "'a list res list \<Rightarrow> 'a list res" where
  "concatR [] = Inr []"
| "concatR (r # rs) = bindR r (\<lambda>xs. bindR (concatR rs) (\<lambda>ys. Inr (xs @ ys)))"

lemma size_entry: "(name, t) \<in> set es \<Longrightarrow> size t < Suc (size_list (size_prod (\<lambda>_. 0) size) es)"
  by (induction es) auto

text \<open>The walk of \<^verbatim>\<open>sourceFilesForSyntax\<close>, in the order of \<^verbatim>\<open>localeCompare\<close>; a directory that is gone is empty.\<close>

function syntaxFiles :: "(string \<Rightarrow> string \<Rightarrow> bool) \<Rightarrow> string \<Rightarrow> sourceNode \<Rightarrow> string list res" where
  "syntaxFiles le before (SDir m e es) =
     (case e of
        Some err \<Rightarrow> if err = ''ENOENT'' then Inr [] else Inl err
      | None \<Rightarrow>
          concatR (map (\<lambda>(name, node).
            case node of
              SDir m' e' es' \<Rightarrow> syntaxFiles le (before @ ''/'' @ name) (SDir m' e' es')
            | SFile _ _ _ _ \<Rightarrow> Inr (if suffix ''.mjs'' name \<or> suffix ''.js'' name then [before @ ''/'' @ name] else [])
            | _ \<Rightarrow> Inr []) (sortBy (\<lambda>l r. le (fst l) (fst r)) es)))"
| "syntaxFiles le before (SFile a b c d) = Inl ''ENOTDIR''"
| "syntaxFiles le before (SLink m) = Inl ''ENOTDIR''"
| "syntaxFiles le before (SOther m) = Inl ''ENOTDIR''"
  by pat_completeness auto

termination
  by (relation "measure (\<lambda>(_, _, t). size t)") (auto dest!: size_entry simp: size_prod_def case_prod_unfold)

definition sourceFilesForSyntax :: "('w, 'z) svPorts_scheme \<Rightarrow> string \<Rightarrow> ('w, string list) sv" where
  "sourceFilesForSyntax p root =
     bindE (useSv (sv_tree p root)) (\<lambda>tree.
     bindE (liftR (case childAt ''src'' tree of None \<Rightarrow> Inr [] | Some t \<Rightarrow> syntaxFiles (sv_localeLe p) ''src'' t)) (\<lambda>files.
     let all = files @ (case childAt ''bin/bimo'' tree of Some (SFile _ _ _ _) \<Rightarrow> [''bin/bimo''] | _ \<Rightarrow> []) in
     thenE (liftR (require (all \<noteq> [] \<and> length all \<le> 500) ''verification profile found an invalid source-file count'')) (ret all)))"

definition baselineTests :: "('w, 'z) svPorts_scheme \<Rightarrow> string \<Rightarrow> ('w, string list) sv" where
  "baselineTests p root =
     bindE (useSv (sv_tree p root)) (\<lambda>tree.
     bindE (liftR (readDir (childAt ''test'' tree))) (\<lambda>entries.
     let files = sort (map (\<lambda>e. ''test/'' @ fst e)
           (filter (\<lambda>e. (case snd e of SFile _ _ _ _ \<Rightarrow> True | _ \<Rightarrow> False) \<and> suffix ''.test.mjs'' (fst e)) entries)) in
     thenE (liftR (require (files \<noteq> [] \<and> length files \<le> 500) ''verification profile found an invalid baseline-test count'')) (ret files)))"

section \<open>The Pi profile\<close>

definition toolRoot :: string where "toolRoot = ''/opt/bimo-pi''"

definition rootFiles :: "string list" where
  "rootFiles = [''package.json'', ''package-lock.json'', ''tsconfig.json'', ''eslint.config.mjs'', ''quality-baseline.json'']"

definition piTrees :: "string list" where
  "piTrees = [''scripts'', ''test'', ''omp/test'', ''extensions/otel-exporter/test'']"

definition piMixed :: "string list" where
  "piMixed = [''extensions/foundry-context'', ''extensions/foundry-role'']"

definition safePathChar :: "char \<Rightarrow> bool" where
  "safePathChar c = (isAlnum c \<or> c \<in> set ''_.@/-'')"

definition safeRelative :: "string \<Rightarrow> bool" where
  "safeRelative name =
     (name \<noteq> [] \<and> list_all safePathChar name \<and> \<not> prefix ''/'' name \<and>
      list_all (\<lambda>part. part \<noteq> [] \<and> part \<noteq> ''.'' \<and> part \<noteq> ''..'' \<and> part \<noteq> ''node_modules'') (splitOn (CHR ''/'') name))"

definition isPiBaselinePath :: "string \<Rightarrow> bool" where
  "isPiBaselinePath name =
     (safeRelative name \<and>
      (name \<in> set rootFiles \<or> list_ex (\<lambda>directory. prefix (directory @ ''/'') name) piTrees \<or>
       list_ex (\<lambda>directory. prefix (directory @ ''/'') name \<and> CHR ''/'' \<notin> set (drop (length directory + 1) name) \<and> suffix ''.test.ts'' name) piMixed))"

text \<open>Every part of the path is looked at, then the file.\<close>

fun checkParts :: "sourceNode option \<Rightarrow> string list \<Rightarrow> sourceNode res" where
  "checkParts None parts = Inl ''ENOENT''"
| "checkParts (Some t) [] = Inr t"
| "checkParts (Some t) (part # parts) =
     (case treeAt [part] t of
        None \<Rightarrow> Inl ''ENOENT''
      | Some following \<Rightarrow>
          bindR (require (\<not> isLink following \<and> \<not> looseMode (nodeMode following)) ''Pi verifier contains unsafe filesystem metadata'')
            (\<lambda>_. checkParts (Some following) parts))"

definition checkedFile :: "sourceNode option \<Rightarrow> string \<Rightarrow> string res" where
  "checkedFile tree name =
     bindR (require (safeRelative name) ''Pi verifier contains an unsafe path'') (\<lambda>_.
     bindR (checkParts tree (splitOn (CHR ''/'') name)) (\<lambda>t.
     case t of
       SFile _ nlink bytes reading \<Rightarrow>
         bindR (require (nlink = 1 \<and> bytes \<le> 10 * 1024 * 1024) ''Pi verifier file is invalid'') (\<lambda>_.
         bindR reading (\<lambda>content.
         bindR (require (length content = bytes) ''Pi verifier file changed during read'') (\<lambda>_. Inr content)))
     | _ \<Rightarrow> Inl ''Pi verifier file is invalid''))"

record piWalk =
  pw_files :: "string list"
  pw_entries :: nat

primrec visitPi :: "nat \<Rightarrow> string \<Rightarrow> sourceNode option \<Rightarrow> piWalk \<Rightarrow> piWalk res" where
  "visitPi 0 relative t w = Inl ''Pi verifier directory depth exceeded''"
| "visitPi (Suc levels) relative t w =
     (case t of
        None \<Rightarrow> Inl ''ENOENT''
      | Some (SDir m e es) \<Rightarrow>
          bindR (readDir t) (\<lambda>entries.
          foldR (\<lambda>entry w.
            let name = relative @ ''/'' @ fst entry; seen = w\<lparr>pw_entries := pw_entries w + 1\<rparr> in
            bindR (require (pw_entries seen \<le> 100000) ''Pi verifier entry limit exceeded'') (\<lambda>_.
            bindR (require (safeRelative name \<and> \<not> isLink (snd entry)) ''Pi verifier contains an unsafe path'') (\<lambda>_.
            bindR (case snd entry of
                SDir _ _ _ \<Rightarrow> visitPi levels name (Some (snd entry)) seen
              | SFile _ _ _ _ \<Rightarrow> Inr (seen\<lparr>pw_files := pw_files w @ [name]\<rparr>)
              | _ \<Rightarrow> Inl ''Pi verifier contains a non-regular entry'') (\<lambda>w'.
            bindR (require (length (pw_files w') \<le> 500) ''Pi verifier baseline file limit exceeded'') (\<lambda>_. Inr w'))))) entries w)
      | Some _ \<Rightarrow> Inl ''Pi verifier directory is invalid'')"

definition visitMixed :: "sourceNode option \<Rightarrow> string \<Rightarrow> string list \<Rightarrow> string list res" where
  "visitMixed tree directory files =
     bindR (readDir (childAt directory tree)) (\<lambda>entries.
     bindR (require (length entries \<le> 10000) ''Pi verifier entry limit exceeded'') (\<lambda>_.
     Inr (files @ map (\<lambda>e. directory @ ''/'' @ fst e) (filter (\<lambda>e. suffix ''.test.ts'' (fst e)) entries))))"

definition discoverPiBaselineFiles :: "sourceNode option \<Rightarrow> string list res" where
  "discoverPiBaselineFiles tree =
     bindR (foldR (\<lambda>directory w. visitPi 65 directory (childAt directory tree) w) piTrees \<lparr>pw_files = rootFiles, pw_entries = 0\<rparr>) (\<lambda>w.
     bindR (foldR (visitMixed tree) piMixed (pw_files w)) (\<lambda>files.
     bindR (require (length files \<le> 500) ''Pi verifier baseline file limit exceeded'') (\<lambda>_.
     bindR (mapR (\<lambda>_ name. checkedFile tree name) 0 files) (\<lambda>_. Inr (sort files)))))"

definition isTestFile :: "string \<Rightarrow> bool" where
  "isTestFile name = (suffix ''.test.ts'' name \<or> suffix ''.test.mjs'' name)"

definition createPiIdentity :: "sourceNode option \<Rightarrow> jsval res" where
  "createPiIdentity tree =
     bindR (discoverPiBaselineFiles tree) (\<lambda>paths.
     bindR (mapR (\<lambda>_ name. bindR (checkedFile tree name) (\<lambda>content. Inr (name, JStr (sha256 content)))) 0 paths) (\<lambda>digests.
     let files = foldl (\<lambda>kvs (k, v). setProp k v kvs) [] (filter (\<lambda>(k, _). k \<in> set rootFiles \<or> prefix ''scripts/'' k) digests);
         tests = foldl (\<lambda>kvs (k, v). setProp k v kvs) [] (filter (\<lambda>(k, _). isTestFile k) digests) in
     bindR (require (tests \<noteq> []) ''Pi verification profile found no baseline tests'') (\<lambda>_.
     Inr (JObj [(''profile'', JStr piProfile), (''files'', JObj files), (''tests'', JObj tests)]))))"

definition badIdentity :: err where "badIdentity = ''Pi verifier tool identity is invalid''"

definition validateIdentityMap :: "jsval \<Rightarrow> unit res" where
  "validateIdentityMap m =
     require (isPlainObject m \<and> props m \<noteq> [] \<and> length (props m) \<le> 500 \<and>
       list_all (\<lambda>(name, digest). safeRelative name \<and> reSha256 (toStr digest)) (props m)) badIdentity"

definition validatePiIdentity :: "jsval \<Rightarrow> unit res" where
  "validatePiIdentity identity =
     checks
       [require (joinWith '','' (sort (jsKeys identity)) = ''files,profile,tests'' \<and> fld identity ''profile'' = JStr piProfile) badIdentity,
        validateIdentityMap (fld identity ''files''), validateIdentityMap (fld identity ''tests''),
        require (list_all (hasOwn (fld identity ''files'')) (rootFiles @ [''scripts/check-quality.mjs''])) ''Pi verifier tool identity is incomplete'',
        require (list_all isTestFile (jsKeys (fld identity ''tests''))) ''Pi verifier test identity is invalid'']"

record piGate =
  pg_args :: "string list"
  pg_label :: string
  pg_authority :: string

definition piCommand :: "piGate \<Rightarrow> gateCommand" where
  "piCommand g = \<lparr>gc_command = ''node'', gc_args = pg_args g\<rparr>"

definition piGates :: "bool \<Rightarrow> string list \<Rightarrow> piGate list" where
  "piGates baseline tests =
     (let behavior = \<lparr>pg_args = [''--import'', toolRoot @ ''/node_modules/tsx/dist/loader.mjs'', ''--test''] @ tests, pg_label = ''Pi behavior tests'',
            pg_authority = (if baseline then ''trusted'' else ''advisory'')\<rparr> in
      if baseline then [behavior]
      else
        [\<lparr>pg_args = [toolRoot @ ''/node_modules/typescript/bin/tsc'', ''--noEmit'', ''--project'', ''tsconfig.json''],
           pg_label = ''Pi TypeScript typecheck'', pg_authority = ''trusted''\<rparr>,
         \<lparr>pg_args = [''scripts/check-quality.mjs''], pg_label = ''Pi complexity ratchet'', pg_authority = ''trusted''\<rparr>,
         behavior])"

definition readIdentity :: "sourceNode option \<Rightarrow> jsval res" where
  "readIdentity stat =
     (case stat of
        None \<Rightarrow> Inl ''ENOENT''
      | Some (SFile _ _ bytes reading) \<Rightarrow>
          bindR (require (bytes \<le> 256 * 1024) badIdentity) (\<lambda>_.
          bindR reading (\<lambda>content.
          case jsonParse (bufferToString content) of None \<Rightarrow> Inl ''SyntaxError'' | Some v \<Rightarrow> Inr v))
      | Some _ \<Rightarrow> Inl badIdentity)"

definition planPiGates :: "sourceNode option \<Rightarrow> bool \<Rightarrow> jsval \<Rightarrow> piGate list res" where
  "planPiGates tree baseline identity =
     bindR (validatePiIdentity identity) (\<lambda>_.
     bindR (createPiIdentity tree) (\<lambda>current.
     let files = fld current ''files''; trusted = fld identity ''tests'' in
     bindR (require (length (props files) = length (props (fld identity ''files'')) \<and>
         list_all (\<lambda>(name, digest). fld (fld identity ''files'') name = digest) (props files)) ''Pi verifier immutable tooling configuration changed'') (\<lambda>_.
     bindR (if baseline then
         mapR (\<lambda>_ (name, digest). bindR (checkedFile tree name) (\<lambda>content.
           require (JStr (sha256 content) = digest) ''Pi verifier trusted baseline test changed'')) 0 (props trusted)
       else Inr []) (\<lambda>_.
     Inr (piGates baseline (sort (jsKeys (if baseline then trusted else fld current ''tests''))))))))"

definition piGatePlan :: "('w, 'z) svPorts_scheme \<Rightarrow> string \<Rightarrow> bool \<Rightarrow> jsval \<Rightarrow> ('w, piGate list) sv" where
  "piGatePlan p root baseline identityPath =
     bindE (useSv (sv_tree p (toStr (orDefault identityPath (JStr (toolRoot @ ''/identity.json'')))))) (\<lambda>stat.
     bindE (liftR (readIdentity stat)) (\<lambda>identity.
     bindE (useSv (sv_tree p root)) (\<lambda>tree. liftR (planPiGates tree baseline identity))))"

definition sourceBaselinePaths :: "('w, 'z) svPorts_scheme \<Rightarrow> jsval \<Rightarrow> jsval \<Rightarrow> ('w, string list) sv" where
  "sourceBaselinePaths p root profile =
     thenE (liftR (require (profile \<in> {JStr bimoProfile, JStr piProfile}) ''source verification profile is invalid''))
       (thenE (scanSourceSnapshot p root (profile = JStr piProfile))
         (if profile = JStr piProfile then bindE (useSv (sv_tree p (toStr root))) (\<lambda>tree. liftR (discoverPiBaselineFiles tree))
          else ret [''test'']))"

section \<open>The verification\<close>

record svArgs =
  sa_workspaceRoot :: jsval
  sa_expectedSha :: jsval
  sa_expectedSnapshot :: jsval
  sa_profile :: jsval
  sa_suite :: jsval
  sa_timeoutSeconds :: jsval
  sa_piIdentityPath :: jsval

definition checkSvArgs :: "svArgs \<Rightarrow> unit res" where
  "checkSvArgs a =
     checks
       [require (reGitSha (subjectOf (sa_expectedSha a))) ''expected SHA is invalid'',
        require (sa_profile a \<in> {JStr bimoProfile, JStr piProfile}) ''source verification profile is invalid'',
        require (sa_suite a \<in> {JStr ''candidate'', JStr ''baseline''}) ''source verification suite is invalid'',
        require (sa_suite a = JStr ''candidate'' \<longrightarrow> validSnapshotReceipt (sa_expectedSnapshot a)) ''expected source snapshot is invalid'',
        require (integerFrom 1 900 (sa_timeoutSeconds a)) ''source verification timeout is invalid'']"

fun passPiGates :: "('w, 'z) svPorts_scheme \<Rightarrow> int \<Rightarrow> piGate list \<Rightarrow> ('w, jsval list) sv" where
  "passPiGates p d [] = ret []"
| "passPiGates p d (g # gs) =
     bindE (passGate p d (piCommand g) (pg_label g)) (\<lambda>result.
     bindE (passPiGates p d gs) (\<lambda>evidence. ret (evidenceOf (pg_authority g) (pg_label g) (outputDigest result) # evidence)))"

definition gateLabel :: "gateCommand \<Rightarrow> string" where
  "gateLabel g = gc_command g @ '' '' @ joinWith '' '' (gc_args g)"

fun passNpmGates :: "('w, 'z) svPorts_scheme \<Rightarrow> int \<Rightarrow> gateCommand list \<Rightarrow> ('w, jsval list) sv" where
  "passNpmGates p d [] = ret []"
| "passNpmGates p d (g # gs) =
     bindE (passGate p d g (gateLabel g)) (\<lambda>result.
     bindE (passNpmGates p d gs) (\<lambda>evidence. ret (evidenceOf ''advisory'' (gateLabel g) (outputDigest result) # evidence)))"

definition checkCommand :: "string \<Rightarrow> gateCommand" where
  "checkCommand f = \<lparr>gc_command = ''node'', gc_args = [''--check'', f]\<rparr>"

fun checkSyntax :: "('w, 'z) svPorts_scheme \<Rightarrow> int \<Rightarrow> string list \<Rightarrow> string \<Rightarrow> ('w, string) sv" where
  "checkSyntax p d [] hashed = ret hashed"
| "checkSyntax p d (f # fs) hashed =
     bindE (passGate p d (checkCommand f) ''node --check'') (\<lambda>result. checkSyntax p d fs (hashed @ f @ nul @ outputDigest result @ nul))"

definition testCommand :: "string list \<Rightarrow> gateCommand" where
  "testCommand files = \<lparr>gc_command = ''node'', gc_args = ''--test'' # files\<rparr>"

definition passSuite :: "('w, 'z) svPorts_scheme \<Rightarrow> svArgs \<Rightarrow> string \<Rightarrow> int \<Rightarrow> ('w, jsval list) sv" where
  "passSuite p a cwd d =
     (let baseline = (sa_suite a = JStr ''baseline'') in
      if sa_profile a = JStr piProfile then
        thenE (if baseline then scanSourceSnapshot p (JStr cwd) True else ret JUndef)
          (bindE (piGatePlan p cwd baseline (sa_piIdentityPath a)) (passPiGates p d))
      else if baseline then
        bindE (baselineTests p cwd) (\<lambda>files.
        bindE (passGate p d (testCommand files) ''baseline regression'') (\<lambda>result.
        ret [evidenceOf ''trusted'' (''node --test '' @ decNat (length files) @ '' baseline files'') (outputDigest result)]))
      else
        bindE (sourceFilesForSyntax p cwd) (\<lambda>sourceFiles.
        bindE (checkSyntax p d sourceFiles []) (\<lambda>hashed.
        bindE (passNpmGates p d npmGates) (\<lambda>evidence.
        ret (evidenceOf ''trusted'' (''node --check '' @ decNat (length sourceFiles) @ '' source files'') (sha256 hashed) # evidence)))))"

definition verifySourceCandidate :: "('w, 'z) svPorts_scheme \<Rightarrow> svArgs \<Rightarrow> ('w, jsval) sv" where
  "verifySourceCandidate p a =
     thenE (liftR (checkSvArgs a))
       (bindE (checkedWorkspace p (sa_workspaceRoot a)) (\<lambda>cwd.
        bindE (useSv (sv_now p)) (\<lambda>now.
        let d = now + intOf (sa_timeoutSeconds a) * 1000 in
        bindE (if sa_suite a = JStr ''candidate'' then
            bindE (scanSourceSnapshot p (JStr cwd) (sa_profile a = JStr piProfile)) (\<lambda>snapshot.
            thenE (liftR (require (sameSnapshot snapshot (sa_expectedSnapshot a)) ''source snapshot does not match its trusted receipt''))
              (ret [(''snapshot'', snapshot)]))
          else ret []) (\<lambda>snapshot.
        bindE (passSuite p a cwd d) (\<lambda>evidence.
        ret (JObj ([(''status'', JStr ''passed''), (''candidateSha'', sa_expectedSha a), (''profile'', sa_profile a), (''suite'', sa_suite a)] @
          snapshot @ [(''evidence'', JArr evidence)])))))))"

end
