(* ===== verification/Source_Verify_Safety.thy ===== *)
theory Source_Verify_Safety
  imports Source_Verify
begin

text \<open>
  What a verification means: the fingerprint of a source tree tells its directories, files, modes and contents apart, and a
  receipt says that exactly the gates of the suite were run, on a tree with the trusted fingerprint, and that all of them passed.
\<close>

section \<open>The bytes that are hashed can be read in one way only\<close>

text \<open>What a snapshot is about: directories with their modes, and files with modes and contents, in the order of the walk.\<close>

datatype item = ItemD string nat | ItemF string nat string

fun itemBytes :: "item \<Rightarrow> string" where
  "itemBytes (ItemD path mode) = hashedDirectory path mode"
| "itemBytes (ItemF path mode content) = hashedFile path mode content"

fun itemOk :: "item \<Rightarrow> bool" where
  "itemOk (ItemD path mode) \<longleftrightarrow> CHR 0x00 \<notin> set path \<and> mode < 512"
| "itemOk (ItemF path mode content) \<longleftrightarrow> CHR 0x00 \<notin> set path \<and> mode < 512"

lemma split_at_nul:
  "a @ CHR 0x00 # x = b @ CHR 0x00 # y \<Longrightarrow> CHR 0x00 \<notin> set a \<Longrightarrow> CHR 0x00 \<notin> set b \<Longrightarrow> a = b \<and> x = y"
proof (induction a arbitrary: b)
  case Nil
  then show ?case by (cases b) auto
next
  case (Cons c a)
  then show ?case by (cases b) auto
qed

lemma decNat_inj: "decNat m = decNat n \<Longrightarrow> m = n"
  by (metis numberValue_decNat)

lemma decNat_no_nul: "CHR 0x00 \<notin> set (decNat n)"
  using decNat_all_digits [of n] by (auto simp: list_all_iff isDigit_def inRange_def)

lemma number_then: "decNat m @ CHR 0x00 # x = decNat n @ CHR 0x00 # y \<Longrightarrow> m = n \<and> x = y"
  using split_at_nul decNat_no_nul decNat_inj by blast

lemma itemBytes_prefix_free:
  assumes "itemBytes i @ x = itemBytes j @ y" and "itemOk i" and "itemOk j"
  shows "i = j \<and> x = y"
proof (cases i; cases j)
  fix a m b n assume ij: "i = ItemD a m" "j = ItemD b n"
  then have "a @ CHR 0x00 # decNat m @ CHR 0x00 # x = b @ CHR 0x00 # decNat n @ CHR 0x00 # y"
    using assms by (simp add: hashedDirectory_def)
  from split_at_nul [OF this] show ?thesis using assms(2,3) ij number_then [of m x n y] by auto
next
  fix a m c b n e assume ij: "i = ItemF a m c" "j = ItemF b n e"
  then have "a @ CHR 0x00 # decNat m @ CHR 0x00 # decNat (length c) @ CHR 0x00 # c @ x =
      b @ CHR 0x00 # decNat n @ CHR 0x00 # decNat (length e) @ CHR 0x00 # e @ y"
    using assms by (simp add: hashedFile_def)
  from split_at_nul [OF this] have "a = b" and "m = n \<and> decNat (length c) @ CHR 0x00 # c @ x = decNat (length e) @ CHR 0x00 # e @ y"
    using assms(2,3) ij number_then [of m _ n] by auto
  then show ?thesis using ij number_then [of "length c" "c @ x" "length e" "e @ y"] by auto
qed (use assms in \<open>auto simp: hashedDirectory_def hashedFile_def\<close>)

lemma items_unambiguous:
  "concat (map itemBytes is) = concat (map itemBytes js) \<Longrightarrow> list_all itemOk is \<Longrightarrow> list_all itemOk js \<Longrightarrow> is = js"
proof (induction "is" arbitrary: js)
  case Nil
  then show ?case by (cases js) (auto simp: hashedDirectory_def hashedFile_def elim!: itemBytes.elims)
next
  case (Cons i "is")
  then show ?case
  proof (cases js)
    case Nil
    then show ?thesis using Cons.prems by (cases i) (auto simp: hashedDirectory_def hashedFile_def)
  next
    case (Cons j js')
    then show ?thesis using Cons.prems Cons.IH [of js'] itemBytes_prefix_free [of i "concat (map itemBytes is)" j] by auto
  qed
qed

section \<open>What a snapshot hashes\<close>

text \<open>The items of a tree, as a reference for the walk.\<close>

primrec treeItems :: "nat \<Rightarrow> string \<Rightarrow> sourceNode \<Rightarrow> item list" where
  "treeItems 0 before t = []"
| "treeItems (Suc levels) before t =
     (case t of
        SDir _ _ es \<Rightarrow>
          concat (map (\<lambda>(name, node). let relative = relativeName before name in
            case node of
              SDir mode _ _ \<Rightarrow> ItemD relative (mode mod 512) # treeItems levels relative node
            | SFile mode _ _ (Inr content) \<Rightarrow> [ItemF relative (mode mod 512) content]
            | _ \<Rightarrow> []) (sort_key fst es))
      | _ \<Rightarrow> [])"

definition hashesItems :: "scan \<Rightarrow> scan \<Rightarrow> item list \<Rightarrow> bool" where
  "hashesItems sc sc' its \<longleftrightarrow> sn_hashed sc' = sn_hashed sc @ concat (map itemBytes its) \<and> list_all itemOk its"

lemma hashesItems_trans: "hashesItems a b is \<Longrightarrow> hashesItems b c js \<Longrightarrow> hashesItems a c (is @ js)"
  by (simp add: hashesItems_def)

lemma relative_no_nul: "\<not> list_ex controlByte s \<Longrightarrow> CHR 0x00 \<notin> set s"
  by (auto simp: list_ex_iff controlByte_def inRange_def)

lemma visitEntry_items:
  assumes "visitEntry visit reject before (name, node) sc = Inr sc'"
    and "\<And>relative t a b. visit relative t a = Inr b \<Longrightarrow> hashesItems a b (treeItems levels relative t)"
  shows "hashesItems sc sc' (let relative = relativeName before name in
      case node of
        SDir mode _ _ \<Rightarrow> ItemD relative (mode mod 512) # treeItems levels relative node
      | SFile mode _ _ (Inr content) \<Rightarrow> [ItemF relative (mode mod 512) content]
      | _ \<Rightarrow> [])"
proof -
  have path: "CHR 0x00 \<notin> set (relativeName before name)"
    using assms(1) relative_no_nul by (auto simp: visitEntry_def Let_def res_simps)
  show ?thesis
  proof (cases node)
    case (SDir mode e es)
    then have "visit (relativeName before name) node
        (sc\<lparr>sn_entries := sn_entries sc + 1, sn_hashed := sn_hashed sc @ hashedDirectory (relativeName before name) mode\<rparr>) = Inr sc'"
      using assms(1) by (auto simp: visitEntry_def Let_def res_simps)
    from assms(2) [OF this] show ?thesis using SDir path by (simp add: hashesItems_def hashedDirectory_def Let_def)
  next
    case (SFile mode nlink bytes reading)
    then show ?thesis using assms(1) path
      by (cases reading) (auto simp: visitEntry_def hashesItems_def hashedFile_def Let_def res_simps)
  qed (use assms(1) in \<open>auto simp: visitEntry_def Let_def res_simps\<close>)
qed

lemma foldR_items:
  assumes "\<And>x a b. f x a = Inr b \<Longrightarrow> hashesItems a b (g x)"
  shows "foldR f xs a = Inr b \<Longrightarrow> hashesItems a b (concat (map g xs))"
proof (induction xs arbitrary: a)
  case (Cons x xs)
  then obtain c where "f x a = Inr c" "foldR f xs c = Inr b" by (auto simp: res_simps)
  then show ?case using hashesItems_trans [OF assms Cons.IH] by simp
qed (simp add: hashesItems_def)

lemma visitSnapshot_items: "visitSnapshot levels reject before t a = Inr b \<Longrightarrow> hashesItems a b (treeItems levels before t)"
proof (induction levels arbitrary: before t a b)
  case (Suc levels)
  then obtain m es where t: "t = SDir m None es"
    and walk: "foldR (visitEntry (visitSnapshot levels reject) reject before) (sort_key fst es) a = Inr b"
    by (cases t) (auto simp: readDir_def res_simps split: option.splits)
  show ?case unfolding t using foldR_items [OF _ walk, of "\<lambda>(name, node). let relative = relativeName before name in
      case node of
        SDir mode _ _ \<Rightarrow> ItemD relative (mode mod 512) # treeItems levels relative node
      | SFile mode _ _ (Inr content) \<Rightarrow> [ItemF relative (mode mod 512) content]
      | _ \<Rightarrow> []"] visitEntry_items [OF _ Suc.IH] by fastforce
qed simp

text \<open>The items of the tree at a workspace root.\<close>

abbreviation sourceItems :: "sourceNode \<Rightarrow> item list" where
  "sourceItems t \<equiv> treeItems (Suc maxSourceDepth) [] t"

lemma scanTree_items:
  assumes "scanTree reject t = Inr sc"
  shows "sn_hashed sc = concat (map itemBytes (sourceItems t))" and "list_all itemOk (sourceItems t)"
  using assms visitSnapshot_items [of "Suc maxSourceDepth" reject "[]" t emptyScan sc]
  by (auto simp: scanTree_def res_simps hashesItems_def emptyScan_def)

text \<open>C14: The fingerprint of a source tree stands for the tree: two trees that are scanned successfully and have the same SHA-256 agree in every
  directory, file, mode and content, unless the two byte sequences that were hashed are a collision of SHA-256.\<close>

theorem snapshot_unambiguous:
  assumes "scanTree r t = Inr a" and "scanTree r' t' = Inr b" and "fld (snapshotObject a) ''sha256'' = fld (snapshotObject b) ''sha256''"
  shows "sourceItems t = sourceItems t' \<or> sn_hashed a \<noteq> sn_hashed b \<and> sha256 (sn_hashed a) = sha256 (sn_hashed b)"
proof -
  have "sha256 (sn_hashed a) = sha256 (sn_hashed b)" using assms(3) by (simp add: snapshotObject_def fld_def)
  then show ?thesis
    using scanTree_items [OF assms(1)] scanTree_items [OF assms(2)] items_unambiguous by metis
qed

section \<open>Gates\<close>

lemma silent_useSv [silent_rules]: "silent vs_calls (useSv f)"
  by (rule silentI) (auto simp: useSv_def split: prod.splits)

lemma silent_timeCheck [silent_rules]: "silent vs_calls (timeCheck p d)"
  unfolding timeCheck_def by (intro silent_rules)

lemma silent_checkedWorkspace [silent_rules]: "silent vs_calls (checkedWorkspace p v)"
  unfolding checkedWorkspace_def Let_def by (intro silent_rules)

lemma silent_scan [silent_rules]: "silent vs_calls (scanSourceSnapshot p v b)"
  unfolding scanSourceSnapshot_def by (intro silent_rules)

lemma silent_plans [silent_rules]:
  "silent vs_calls (sourceFilesForSyntax p root)" "silent vs_calls (baselineTests p root)" "silent vs_calls (piGatePlan p root b v)"
  unfolding sourceFilesForSyntax_def baselineTests_def piGatePlan_def Let_def by (intro silent_rules)+

text \<open>A call that passed: a valid result with exit code zero.\<close>

definition passed :: "gateCommand \<times> jsval res \<Rightarrow> bool" where
  "passed c \<longleftrightarrow> (\<exists>v. snd c = Inr v \<and> validateCommandResult v = Inr () \<and> fld v ''code'' = num 0)"

definition digestOf :: "gateCommand \<times> jsval res \<Rightarrow> string" where
  "digestOf c = (case snd c of Inl _ \<Rightarrow> [] | Inr v \<Rightarrow> outputDigest v)"

abbreviation doing :: "('w, 'a) sv \<Rightarrow> ('a \<Rightarrow> (gateCommand \<times> jsval res) list \<Rightarrow> bool) \<Rightarrow> bool" where
  "doing m R \<equiv> does vs_calls (\<lambda>_. True) m R"

lemma doing_silent: "silent vs_calls m \<Longrightarrow> (\<And>x. R x []) \<Longrightarrow> doing m R"
  by (rule doesI) (auto dest: silentD)

lemma doing_step: "silent vs_calls m \<Longrightarrow> (\<And>x. doing (f x) R) \<Longrightarrow> doing (bindE m f) R"
  by (rule does_bindE [OF doing_silent [where R = "\<lambda>_ cs. cs = []"]]) auto

lemma doing_then: "silent vs_calls m \<Longrightarrow> doing k R \<Longrightarrow> doing (thenE m k) R"
  unfolding thenE_def by (rule doing_step)

lemma doing_res: "(\<And>x. r = Inr x \<Longrightarrow> doing (f x) R) \<Longrightarrow> doing (bindE (liftR r) f) R"
  by (rule does_bindE [OF does_liftR [where R = "\<lambda>x cs. r = Inr x \<and> cs = []"]]) auto

lemma doing_require: "(b \<Longrightarrow> doing k R) \<Longrightarrow> doing (thenE (liftR (require b e)) k) R"
  unfolding thenE_def by (rule doing_res) (auto simp: require_def split: if_splits)

lemma doing_callGate: "doing (callGate p c) (\<lambda>v cs. cs = [(c, Inr v)])"
  unfolding callGate_def by (rule doing_step [OF silent_useSv]) (auto simp: does_def io_defs split: sum.splits)

lemma doing_runGate: "doing (runGate p d c) (\<lambda>v cs. cs = [(c, Inr v)] \<and> validateCommandResult v = Inr ())"
proof -
  have "doing (thenE (liftR (validateCommandResult v)) (thenE (timeCheck p d) (ret v))) (\<lambda>y ds. [(c, Inr v)] @ ds = [(c, Inr y)] \<and> validateCommandResult y = Inr ())" for v
    unfolding thenE_def [of "liftR _"] by (rule doing_res) (auto intro!: doing_then silent_rules does_ret)
  then have "doing (bindE (callGate p c) (\<lambda>v. thenE (liftR (validateCommandResult v)) (thenE (timeCheck p d) (ret v))))
      (\<lambda>v cs. cs = [(c, Inr v)] \<and> validateCommandResult v = Inr ())"
    by (intro does_bindE [OF doing_callGate]) simp
  then show ?thesis unfolding runGate_def
    by (intro doing_then [OF silent_timeCheck] does_catchE) (auto intro!: doing_then silent_rules does_throwE)
qed

lemma doing_passGate: "doing (passGate p d c label) (\<lambda>v cs. cs = [(c, Inr v)] \<and> passed (c, Inr v))"
  unfolding passGate_def by (rule does_bindE [OF doing_runGate], rule doing_require) (auto simp: passed_def intro!: does_ret)

text \<open>The gates one after the other, with the digests of their output as evidence.\<close>

definition gatesPassed :: "gateCommand list \<Rightarrow> jsval list \<Rightarrow> (gateCommand \<times> jsval res) list \<Rightarrow> bool" where
  "gatesPassed gates evidence cs \<longleftrightarrow> map fst cs = gates \<and> list_all passed cs \<and> map (\<lambda>e. fld e ''outputSha256'') evidence = map (\<lambda>c. JStr (digestOf c)) cs"

lemma evidence_digest [simp]: "fld (evidenceOf authority command digest) ''outputSha256'' = JStr digest"
  by (simp add: evidenceOf_def fld_def)

lemma doing_passPiGates: "doing (passPiGates p d gs) (gatesPassed (map piCommand gs))"
  by (induction gs) (auto intro!: does_ret does_bindE [OF doing_passGate] simp: gatesPassed_def,
      rule does_bindE, assumption, auto intro!: does_ret simp: digestOf_def)

lemma doing_passNpmGates: "doing (passNpmGates p d gs) (gatesPassed gs)"
  by (induction gs) (auto intro!: does_ret does_bindE [OF doing_passGate] simp: gatesPassed_def,
      rule does_bindE, assumption, auto intro!: does_ret simp: digestOf_def)

definition syntaxHashed :: "string list \<Rightarrow> (gateCommand \<times> jsval res) list \<Rightarrow> string" where
  "syntaxHashed fs cs = concat (map (\<lambda>(f, c). f @ nul @ digestOf c @ nul) (zip fs cs))"

lemma doing_checkSyntax:
  "doing (checkSyntax p d fs h) (\<lambda>h' cs. map fst cs = map checkCommand fs \<and> list_all passed cs \<and> h' = h @ syntaxHashed fs cs)"
proof (induction fs arbitrary: h)
  case (Cons f fs)
  show ?case unfolding checkSyntax.simps
    by (rule does_bindE [OF doing_passGate], rule does_weaken [OF Cons.IH]) (auto simp: syntaxHashed_def digestOf_def)
qed (auto intro!: does_ret simp: syntaxHashed_def)

text \<open>The calls of a suite that passes, and the digests that its evidence consists of.\<close>

definition suitePassed :: "bool \<Rightarrow> bool \<Rightarrow> jsval list \<Rightarrow> (gateCommand \<times> jsval res) list \<Rightarrow> bool" where
  "suitePassed pi baseline evidence cs \<longleftrightarrow>
     (if pi then \<exists>tests. gatesPassed (map piCommand (piGates baseline tests)) evidence cs
      else if baseline then \<exists>files. files \<noteq> [] \<and> gatesPassed [testCommand files] evidence cs
      else \<exists>files checks gates. files \<noteq> [] \<and> cs = checks @ gates \<and> map fst checks = map checkCommand files \<and> list_all passed checks \<and>
        fld (hd evidence) ''outputSha256'' = JStr (sha256 (syntaxHashed files checks)) \<and> gatesPassed npmGates (tl evidence) gates)"

lemma doing_piGatePlan: "doing (piGatePlan p root baseline v) (\<lambda>gs cs. cs = [] \<and> (\<exists>tests. gs = piGates baseline tests))"
  unfolding piGatePlan_def
  by (intro doing_step [OF silent_useSv] doing_res does_liftR) (auto simp: planPiGates_def Let_def res_simps)

lemma doing_files:
  "doing (sourceFilesForSyntax p root) (\<lambda>fs cs. cs = [] \<and> fs \<noteq> [])" "doing (baselineTests p root) (\<lambda>fs cs. cs = [] \<and> fs \<noteq> [])"
  unfolding sourceFilesForSyntax_def baselineTests_def Let_def
  by (intro doing_step [OF silent_useSv] doing_res doing_require does_ret, simp)+

lemma doing_scan:
  "doing (scanSourceSnapshot p v reject) (\<lambda>snapshot cs. cs = [] \<and> (\<exists>t sc. scanTree reject t = Inr sc \<and> snapshot = snapshotObject sc))"
  unfolding scanSourceSnapshot_def
  by (intro doing_step silent_rules does_liftR) (auto simp: res_simps split: option.splits)

lemma doing_passSuite: "doing (passSuite p a cwd d) (suitePassed (sa_profile a = JStr piProfile) (sa_suite a = JStr ''baseline''))"
proof -
  have pi: "doing (bindE (piGatePlan p cwd b v) (passPiGates p d)) (suitePassed True b)" for b v
    by (rule does_bindE [OF doing_piGatePlan]) (auto intro!: does_weaken [OF doing_passPiGates] simp: suitePassed_def)
  have baseline: "doing (bindE (baselineTests p cwd) (\<lambda>files. bindE (passGate p d (testCommand files) l) (\<lambda>result.
      ret [evidenceOf au (c files) (outputDigest result)]))) (suitePassed False True)" for l au c
    by (rule does_bindE [OF doing_files(2)], rule does_bindE [OF doing_passGate])
      (auto intro!: does_ret simp: suitePassed_def gatesPassed_def digestOf_def)
  have candidate: "doing (bindE (sourceFilesForSyntax p cwd) (\<lambda>files. bindE (checkSyntax p d files []) (\<lambda>hashed.
      bindE (passNpmGates p d npmGates) (\<lambda>evidence. ret (evidenceOf au (c files) (sha256 hashed) # evidence))))) (suitePassed False False)" for au c
    by (rule does_bindE [OF doing_files(1)], rule does_bindE [OF doing_checkSyntax], rule does_bindE [OF doing_passNpmGates], rule does_ret)
      (auto simp: suitePassed_def)
  show ?thesis unfolding passSuite_def Let_def
    using pi baseline candidate by (auto intro!: doing_then silent_rules)
qed


section \<open>Instances\<close>

definition demoSource :: "sourceNode list" where
  "demoSource =
     [SDir 493 None [(''test'', SDir 493 None [(''a.test.mjs'', SFile 420 1 2 (Inr ''ok''))]), (''README'', SFile 420 1 1 (Inr ''x''))],
      SDir 493 None [(''README'', SFile 420 1 1 (Inr ''x'')), (''test'', SDir 493 None [(''a.test.mjs'', SFile 420 1 2 (Inr ''ok''))])]]"

definition demoScan :: scan where
  "demoScan = \<lparr>sn_files = 2, sn_bytes = 3, sn_entries = 3,
     sn_hashed = hashedFile ''README'' 420 ''x'' @ hashedDirectory ''test'' 493 @ hashedFile ''test/a.test.mjs'' 420 ''ok''\<rparr>"

lemma demo_scans: "scanTree False (demoSource ! 0) = Inr demoScan" "scanTree True (demoSource ! 1) = Inr demoScan"
  by code_simp+

theorem snapshot_unambiguous_witness: "sourceItems (demoSource ! 0) = sourceItems (demoSource ! 1)"
  using snapshot_unambiguous [OF demo_scans] by simp

definition demoSv :: "unit svPorts" where
  "demoSv = \<lparr>sv_now = (\<lambda>w. (0, w)), sv_aborted = (\<lambda>w. (False, w)), sv_tree = (\<lambda>_ w. (Some (demoSource ! 0), w)), sv_realpath = (\<lambda>_ w. (Inr (), w)),
     sv_run = (\<lambda>_ w. (Inr (JObj [(''code'', num 0), (''stdout'', JStr ''pass''), (''stderr'', JStr [])]), w)), sv_localeLe = (\<lambda>_ _. True)\<rparr>"

definition demoSvArgs :: svArgs where
  "demoSvArgs = \<lparr>sa_workspaceRoot = JStr ''/work'', sa_expectedSha = JStr (replicate 40 (CHR ''a'')), sa_expectedSnapshot = JUndef,
     sa_profile = JStr bimoProfile, sa_suite = JStr ''baseline'', sa_timeoutSeconds = num 60, sa_piIdentityPath = JUndef\<rparr>"

abbreviation demoResult :: jsval where
  "demoResult \<equiv> JObj [(''code'', num 0), (''stdout'', JStr ''pass''), (''stderr'', JStr [])]"

lemma demo_checks:
  "checkSvArgs demoSvArgs = Inr ()" "validateCommandResult demoResult = Inr ()" "resolvePath ''/work'' = ''/work''" "isAbsolutePath ''/work''"
  "readDir (childAt ''test'' (Some (demoSource ! 0))) = Inr [(''a.test.mjs'', SFile 420 1 2 (Inr ''ok''))]"
  "suffix ''.test.mjs'' ''a.test.mjs''"
  by code_simp+

lemma demo_verified:
  "\<exists>receipt s'. verifySourceCandidate demoSv demoSvArgs \<lparr>vs_world = (), vs_calls = []\<rparr> = (Inr receipt, s')"
proof -
  have ports: "sv_now demoSv w = (0, w)" "sv_aborted demoSv w = (False, w)" "sv_tree demoSv r w = (Some (demoSource ! 0), w)"
      "sv_realpath demoSv r w = (Inr (), w)" "sv_run demoSv c w = (Inr demoResult, w)" for w r c
    by (simp_all add: demoSv_def)
  have dir: "case demoSource ! 0 of SDir _ _ _ \<Rightarrow> True | _ \<Rightarrow> False" by (simp add: demoSource_def)
  have code: "fld demoResult ''code'' = num 0" by (simp add: fld_def)
  have args: "sa_workspaceRoot demoSvArgs = JStr ''/work''" "sa_suite demoSvArgs = JStr ''baseline''" "sa_profile demoSvArgs \<noteq> JStr piProfile"
      "intOf (sa_timeoutSeconds demoSvArgs) = 60"
    by (simp_all add: demoSvArgs_def bimoProfile_def piProfile_def num_def)
  show ?thesis
    by (simp add: verifySourceCandidate_def checkedWorkspace_def passSuite_def baselineTests_def passGate_def runGate_def callGate_def timeCheck_def
        io_defs useSv_def require_def ports demo_checks dir code args Let_def)
qed


end
