(* ===== verification/Spec2Isabelle.thy ===== *)
theory Spec2Isabelle
  imports Workflow_Run Pod_Store_Prune Pod_Controller_Bound Organizer_Journal Deployment_Manifest Publish_Demo Credential_Proxy_Demo Source_Verify_Safety
begin

text \<open>
  A verification library for Bimo, a controller that lets coding agents work in containers: it runs small
  workflows of roles and engineering pods of concurrent writers, gates what they produce, plans which
  template fits an assignment, publishes a finished pod run as a draft pull request, and describes deployments.

  \<^bold>\<open>How the parts interact.\<close>  \<^verbatim>\<open>runWorkflow\<close> (\<^verbatim>\<open>src/src/workflow.mjs\<close>) reads a validated workflow, calls one
  agent after the other along the role graph, then the verifier and the publisher, and keeps a journal.
  \<^verbatim>\<open>runEngineeringPod\<close> (\<^verbatim>\<open>src/src/pod-controller.mjs\<close>) plans an attempt, runs three writers concurrently, commits and
  checks their results, integrates them and passes the candidate through the gates; it validates everything
  agents return with \<^verbatim>\<open>src/src/pod-contract.mjs\<close> and records everything through \<^verbatim>\<open>src/src/pod-store.mjs\<close>.
  \<^verbatim>\<open>publishRun\<close> (\<^verbatim>\<open>src/src/publish-run.mjs\<close>) reopens the store of a ready run, pushes its candidate with git and has
  \<^verbatim>\<open>src/src/github-publisher.mjs\<close> open a draft pull request.
  Agents reach their model through \<^verbatim>\<open>src/src/credential-proxy.mjs\<close>, which holds the key and forwards only what it allows.
  \<^verbatim>\<open>src/src/organize.mjs\<close> lets agents vote on an installed template.  \<^verbatim>\<open>src/src/deployment-contract.mjs\<close>,
  \<^verbatim>\<open>deployment-plan.mjs\<close> and \<^verbatim>\<open>deployment-target.mjs\<close> read deployment manifests, plan them and reach their targets.

  \<^bold>\<open>Modelling.\<close>  A JavaScript value is a \<open>jsval\<close> (theory JsValue), a thrown error the left side of a sum, an
  asynchronous function a state transformer with that error channel (Prelude).  Guards are kept in source order,
  so the model throws what the code throws.  Agents, git, the verifier, the publisher, clocks, disk faults, timers and
  \<^verbatim>\<open>localeCompare\<close> are ports: functions over an arbitrary world, about which nothing is assumed unless a theorem
  says so.  Concurrency appears as the order in which a port lets executions settle.  Loops are structural
  recursion on the bound the code has (attempts, steps, pending executions, list elements); there is no fuel to run out, and every run returns.

  \<^bold>\<open>Theories.\<close>
  \<^item> Prelude, JsValue, Assertions, Json, Sha256, FileSystem, Paths: fallible and stateful computations, values,
    the assertion helpers, \<^verbatim>\<open>JSON.stringify\<close> and \<^verbatim>\<open>JSON.parse\<close> with their round trip, SHA-256 on words, files and paths.
    Prelude also holds the interfaces: the locale \<open>gate\<close> (a validator hands on what it accepts) and \<open>log_keeper\<close> (a component
    whose operations extend a log), which Workflow_Contract and Pod_Store_Reopen interpret on their own definitions.
  \<^item> Workflow_Contract, Workflow_Run: the workflow runner.  Validation is exactly the declarative contract, histories and
    quotations stay within their bounds, the calls of a run follow the role graph with publication only after a
    passed verification, and on a reliable disk the journal is complete.
  \<^item> Pod_Contract: templates, plans, receipts.  No file has two owners, coverage is complete, receipts are bound to what they
    are about, a dependency request names another slot's file.
  \<^item> Pod_Store, Pod_Store_Journal, Pod_Store_Reopen, Pod_Store_Refinement, Pod_Store_Prune: the store of a pod run, its journal
    invariant, that reopening gives back what was recorded, that the store refines an abstract log (locale \<open>simulation\<close>), and that
    pruning deletes finished runs only, the oldest first.
  \<^item> Call_Log, Pod_Controller, Pod_Controller_Gates, Pod_Controller_Ready, Pod_Controller_Demo, Pod_Controller_Bound: the pod
    controller.  Call_Log reasons
    about the calls a computation makes; a ready run is gated on exactly its candidate, every run ends with its outcome
    recorded and the source closed, a concrete run becomes ready, and executions and their time are bounded.
  \<^item> Organizer, Organizer_Decision: the template vote.  A plan means a majority, whatever the order and the locale; errors
    abort all agents; catalogs are in normal form.
  \<^item> Triples, Organizer_Controller, Organizer_Journal: the controller around the vote (\<^verbatim>\<open>src/src/organizer-controller.mjs\<close>), with triples
    for computations that may throw.  What a run leaves on disk tells how it ended, and the agents' workspaces are gone.
  \<^item> Call_Outcomes, GitHub_Publisher, GitHub_Publisher_Safety: the draft pull request publisher.  Call_Outcomes relates the outcome of a
    computation and the calls it made; a publication writes once at most, after GitHub confirmed what it is about to publish.
  \<^item> Publish_Run, Publish_Safety, Publish_Secrets, Publish_Demo: the publication of a run.  The push, the pull request and the
    records come in order and are about exactly the candidate, the temporary credential is removed, errors do not carry the
    token, and a concrete publication succeeds.
  \<^item> Credential_Proxy, Credential_Proxy_Safety, Credential_Proxy_Relay, Credential_Proxy_Demo: the credential proxy
    (\<^verbatim>\<open>src/src/credential-proxy.mjs\<close>) as a machine over the events of its sockets and timers.  Its invariants (locale \<open>move_invariant\<close>)
    keep the limits and the shape of what is sent upstream for every interleaving; a well-behaved exchange is relayed byte for byte.
  \<^item> Source_Verify, Source_Verify_Safety: the trusted verification of a source tree (\<^verbatim>\<open>src/src/source-verify.mjs\<close> and
    \<^verbatim>\<open>pi-verification.mjs\<close>).  The fingerprint of a tree tells trees apart, and a receipt means that exactly the gates of the suite ran and
    passed on the tree that was trusted.
  \<^item> Deployment_Target, Deployment_Contract, Deployment_Manifest: deployments.  Accepted manifests have the manifest type, plans
    claim no more than they can do, reading is bounded, command lines cannot be read as options, directories are apart.

  \<^bold>\<open>Not modelled.\<close>  The git and container runtimes, the artifact verifier and the command line call other programs or move bytes; the
  controllers modelled here use them only through their ports.  Of the credential proxy, the settings of the HTTP server, listening and
  the shutdown at signals are left out; \<^verbatim>\<open>new URL\<close> is a parameter.  Of the source verifier, the spawning of commands and the reading of its options are left out.  The Rust engine under \<^verbatim>\<open>engine/\<close> is a separate program.
\<close>

end
